(* ===== verification/DPP_Prelude.thy ===== *)
theory DPP_Prelude
  imports Complex_Main "HOL-Library.Sublist" "HOL-Library.Char_ord" "HOL-Library.List_Lexorder"
    "HOL-Library.Product_Lexorder" "HOL-Library.Multiset"
begin

text \<open>
  The prelude of the development: the identifier, time and text types that the
  components share, the fact collections their proofs use, the generic lemmas on
  keyed tables (a table is a list of rows, a key is a column), and the closure
  \<open>runs\<close> of a keyed step relation.

  Text is a list of characters read as code points below 256. The em dash of
  the program's messages is written \<open>--\<close>.
\<close>

named_theorems table_simps \<open>how the table operations act on keys and lookups\<close>
named_theorems op_defs \<open>definitions of the repository operations\<close>

type_synonym uuid = nat
type_synonym time = rat

subsection \<open>Text\<close>

text \<open>
  Rust's \<^verbatim>\<open>char::is_whitespace\<close> below code point 256: tab to carriage return, space,
  next line and no-break space.
\<close>

definition is_ws :: "char \<Rightarrow> bool" where
  "is_ws c \<longleftrightarrow> (let n = of_char c :: nat in (9 \<le> n \<and> n \<le> 13) \<or> n = 32 \<or> n = 133 \<or> n = 160)"

definition str_trim :: "string \<Rightarrow> string" where
  "str_trim s = rev (dropWhile is_ws (rev (dropWhile is_ws s)))"

text \<open>Rust's \<^verbatim>\<open>[&str]::join\<close>.\<close>

fun str_join :: "string \<Rightarrow> string list \<Rightarrow> string" where
  "str_join sep [] = []"
| "str_join sep [x] = x"
| "str_join sep (x # xs) = x @ sep @ str_join sep xs"

text \<open>Decimal text of a natural number.\<close>

fun show_nat :: "nat \<Rightarrow> string" where
  "show_nat n = (if n < 10 then [char_of (48 + n)] else show_nat (n div 10) @ [char_of (48 + n mod 10)])"

lemma str_trim_Nil [simp]: "str_trim [] = []"
  by (simp add: str_trim_def)

lemma str_trim_plain:
  assumes "s \<noteq> []" and "\<not> is_ws (hd s)" and "\<not> is_ws (last s)"
  shows "str_trim s = s"
proof -
  have "dropWhile is_ws s = s" using assms by (cases s) auto
  moreover have "dropWhile is_ws (rev s) = rev s"
    using assms by (cases "rev s") (auto simp: hd_rev [symmetric])
  ultimately show ?thesis by (simp add: str_trim_def)
qed

declare show_nat.simps [simp del]

definition show_int :: "int \<Rightarrow> string" where
  "show_int i = (if i < 0 then ''-'' @ show_nat (nat (- i)) else show_nat (nat i))"

text \<open>\<^verbatim>\<open>serde_json::Value\<close>, numbers as their decimal text and objects in key order.\<close>

datatype json =
    JNull
  | JBool bool
  | JNum string
  | JStr string
  | JArr "json list"
  | JObj "(string \<times> json) list"

text \<open>
  A JSON column written by serde: a value of the type reads back as itself, anything else
  does not read.
\<close>

datatype 'a stored_json = Readable 'a | Unreadable

fun from_stored :: "'a stored_json option \<Rightarrow> 'a option" where
  "from_stored (Some (Readable x)) = Some x"
| "from_stored _ = None"

text \<open>Lower case of an ASCII letter.\<close>

definition ascii_lower :: "char \<Rightarrow> char" where
  "ascii_lower c = (if 65 \<le> (of_char c :: nat) \<and> (of_char c :: nat) \<le> 90 then char_of ((of_char c :: nat) + 32) else c)"

definition eq_ignore_ascii_case :: "string \<Rightarrow> string \<Rightarrow> bool" where
  "eq_ignore_ascii_case a b \<longleftrightarrow> map ascii_lower a = map ascii_lower b"

subsection \<open>Keyed tables\<close>

text \<open>
  \<open>upd_where\<close> is what an \<^verbatim>\<open>UPDATE ... SET ... WHERE ...\<close> does to the rows, and
  \<open>row_at\<close> is the row a unique key selects.
\<close>

definition upd_where :: "('r \<Rightarrow> bool) \<Rightarrow> ('r \<Rightarrow> 'r) \<Rightarrow> 'r list \<Rightarrow> 'r list" where
  "upd_where p f rs = map (\<lambda>r. if p r then f r else r) rs"

definition row_at :: "('r \<Rightarrow> 'k) \<Rightarrow> 'k \<Rightarrow> 'r list \<Rightarrow> 'r option" where
  "row_at key k rs = find (\<lambda>r. key r = k) rs"

lemma upd_where_simps [simp]:
  "upd_where p f [] = []"
  "upd_where p f (r # rs) = (if p r then f r else r) # upd_where p f rs"
  by (simp_all add: upd_where_def)

lemma row_at_simps [simp]:
  "row_at key k [] = None"
  "row_at key k (r # rs) = (if key r = k then Some r else row_at key k rs)"
  by (simp_all add: row_at_def)

lemma length_upd_where [simp]: "length (upd_where p f rs) = length rs"
  by (simp add: upd_where_def)

lemma upd_where_keys [table_simps]:
  assumes "\<And>r. key (f r) = key r"
  shows "map key (upd_where p f rs) = map key rs"
  using assms by (simp add: upd_where_def)

lemma upd_where_none: "\<forall>r \<in> set rs. \<not> p r \<Longrightarrow> upd_where p f rs = rs"
  by (simp add: upd_where_def map_idI)

lemma set_upd_where: "set (upd_where p f rs) = (\<lambda>r. if p r then f r else r) ` set rs"
  by (simp add: upd_where_def)

lemma row_at_upd_where [table_simps]:
  assumes "\<And>r. key (f r) = key r"
  shows "row_at key k (upd_where p f rs)
       = map_option (\<lambda>r. if p r then f r else r) (row_at key k rs)"
  by (induction rs) (auto simp: assms)

lemma row_at_append [table_simps]:
  "row_at key k (rs @ ss) = (case row_at key k rs of Some r \<Rightarrow> Some r | None \<Rightarrow> row_at key k ss)"
  by (induction rs) auto

lemma row_at_SomeD: "row_at key k rs = Some r \<Longrightarrow> r \<in> set rs \<and> key r = k"
  by (induction rs) (auto split: if_splits)

lemma row_at_None: "row_at key k rs = None \<longleftrightarrow> k \<notin> set (map key rs)"
  by (induction rs) auto

lemma row_at_in_set:
  "distinct (map key rs) \<Longrightarrow> r \<in> set rs \<Longrightarrow> row_at key (key r) rs = Some r"
  by (induction rs) (auto simp: rev_image_eqI)

lemma row_at_iff:
  "distinct (map key rs) \<Longrightarrow> row_at key k rs = Some r \<longleftrightarrow> r \<in> set rs \<and> key r = k"
  using row_at_in_set row_at_SomeD by fastforce

lemma filter_key_distinct:
  assumes "distinct (map key rs)"
  shows "filter (\<lambda>r. key r = k \<and> p r) rs
       = (case row_at key k rs of None \<Rightarrow> [] | Some r \<Rightarrow> if p r then [r] else [])"
  using assms
proof (induction rs)
  case (Cons a rs)
  have "filter (\<lambda>r. key r = key a \<and> p r) rs = []"
    using Cons.prems by (auto simp: filter_empty_conv) (metis image_eqI)
  with Cons show ?case by auto
qed simp

text \<open>Whether there is a row and it satisfies a condition.\<close>

definition opt_holds :: "('a \<Rightarrow> bool) \<Rightarrow> 'a option \<Rightarrow> bool" where
  "opt_holds P x = (case x of None \<Rightarrow> False | Some r \<Rightarrow> P r)"

lemma opt_holds_simps [simp]: "\<not> opt_holds P None" "opt_holds P (Some r) = P r"
  by (simp_all add: opt_holds_def)

subsection \<open>Sorted reads\<close>

text \<open>A row later than every other comes last in a sorted read.\<close>

lemma sort_key_append_max:
  assumes "\<And>y. y \<in> set xs \<Longrightarrow> f y \<le> f x"
  shows "sort_key f (xs @ [x]) = sort_key f xs @ [x]"
proof (rule properties_for_sort_key)
  show "sorted (map f (sort_key f xs @ [x]))"
    using assms by (auto simp: sorted_append)
  show "filter (\<lambda>y. f k = f y) (sort_key f xs @ [x]) = filter (\<lambda>y. f k = f y) (xs @ [x])" for k
  proof -
    have "filter (\<lambda>y. f y = f k) (sort_key f xs) = filter (\<lambda>y. f y = f k) xs" by (rule sort_key_stable)
    then show ?thesis by (simp add: eq_commute)
  qed
qed simp

text \<open>Where keys are distinct, a new row splits the sorted read in two.\<close>

lemma sort_key_insert_split:
  assumes "inj_on f (set (xs @ [x]))" and "x \<notin> set xs"
  obtains us vs where "sort_key f xs = us @ vs" and "sort_key f (xs @ [x]) = us @ x # vs"
    and "\<And>v. v \<in> set xs \<Longrightarrow> f x < f v \<Longrightarrow> v \<in> set vs"
proof -
  have "x \<in> set (sort_key f (xs @ [x]))" by simp
  then obtain us vs where s: "sort_key f (xs @ [x]) = us @ x # vs" by (blast dest: split_list)
  have m: "add_mset x (mset xs) = add_mset x (mset us + mset vs)"
    using arg_cong [OF s, of mset] by simp
  have srt: "sorted (map f (us @ x # vs))" unfolding s [symmetric] by simp
  have "sort_key f xs = us @ vs"
    by (rule sort_key_inj_key_eq)
      (use m srt assms(1) in \<open>auto simp: sorted_append intro: inj_on_subset\<close>)
  moreover have "v \<in> set vs" if "v \<in> set xs" "f x < f v" for v
  proof -
    have "v \<in> set us \<or> v \<in> set vs"
      using that(1) m by (metis add_mset_add_single add_right_cancel set_mset_mset set_mset_union Un_iff)
    with srt that(2) show ?thesis by (auto simp: sorted_append)
  qed
  ultimately show ?thesis using s that by blast
qed

text \<open>Fewer generated identifiers clash no more than many.\<close>

lemma distinct_fresh_prefix:
  assumes "distinct (xs @ map f [0..<n])" and "m \<le> n"
  shows "distinct (xs @ map f [0..<m])"
proof -
  have "[0..<n] = [0..<m] @ [m..<n]"
    using upt_add_eq_append [of 0 m "n - m"] assms(2) by simp
  with assms(1) show ?thesis unfolding map_append distinct_append set_append by auto
qed

subsection \<open>Sequences of keyed steps\<close>

text \<open>
  \<open>runs step K s t\<close>: \<open>t\<close> is reached from \<open>s\<close> by steps on keys of \<open>K\<close> only. A drain
  pass is such a sequence, with \<open>K\<close> the keys of the rows it fetched.
\<close>

inductive runs :: "('k \<Rightarrow> 's \<Rightarrow> 's \<Rightarrow> bool) \<Rightarrow> 'k set \<Rightarrow> 's \<Rightarrow> 's \<Rightarrow> bool"
  for step :: "'k \<Rightarrow> 's \<Rightarrow> 's \<Rightarrow> bool" and K :: "'k set" where
  runs_refl [intro, simp]: "runs step K s s"
| runs_step: "step k s t \<Longrightarrow> k \<in> K \<Longrightarrow> runs step K t u \<Longrightarrow> runs step K s u"

lemma runs_single: "step k s t \<Longrightarrow> k \<in> K \<Longrightarrow> runs step K s t"
  by (blast intro: runs.intros)

lemma runs_trans [trans]: "runs step K s t \<Longrightarrow> runs step K t u \<Longrightarrow> runs step K s u"
  by (induction rule: runs.induct) (auto intro: runs.intros)

lemma runs_mono: "runs step K s t \<Longrightarrow> K \<subseteq> L \<Longrightarrow> runs step L s t"
  by (induction rule: runs.induct) (auto intro: runs.intros)

lemma runs_relpowp: "(step k ^^ n) s t \<Longrightarrow> runs step {k} s t"
  by (induction n arbitrary: t) (auto intro: runs_trans runs_single)

lemma runs_fold:
  assumes "\<And>x s. x \<in> set xs \<Longrightarrow> runs step {key x} (proj s) (proj (f x s))"
  shows "runs step (key ` set xs) (proj s) (proj (fold f xs s))"
  using assms
proof (induction xs arbitrary: s)
  case (Cons x xs)
  have "runs step (key ` set (x # xs)) (proj s) (proj (f x s))"
    by (rule runs_mono [OF Cons.prems]) auto
  moreover have "runs step (key ` set (x # xs)) (proj (f x s)) (proj (fold f xs (f x s)))"
    by (rule runs_mono [OF Cons.IH]) (use Cons.prems in auto)
  ultimately show ?case by (auto intro: runs_trans)
qed simp

end
