(* ===== verification/Postgres.thy ===== *)
theory Postgres
  imports DPP_Prelude
begin

text \<open>
  The database layer under the repositories of \<^verbatim>\<open>crates/dpp-dal/src/pg\<close>: what one
  statement does to one table, the errors it can raise, and how \<^verbatim>\<open>pg/mod.rs\<close> maps
  them into the domain's error type.

  A statement runs at a position in the sequence of statements (a tick). The
  environment gives, per tick, the value of \<^verbatim>\<open>now()\<close> and \<^verbatim>\<open>random()\<close> and whether the
  statement fails (a lost connection, a refused statement). A \<^verbatim>\<open>COMMIT\<close> that fails to the
  client may have taken effect at the server; \<open>commit_lost\<close> says so, per tick. The theorems of the
  development hold for every environment, so for every schedule of faults, every
  clock and every jitter.
\<close>

subsection \<open>Errors\<close>

text \<open>
  The variants of \<^verbatim>\<open>dpp_domain::DppError\<close> the modelled code builds or matches, and
  one for the rest. \<^verbatim>\<open>sqlx::Error\<close> is told apart as its \<^verbatim>\<open>Database\<close> variant, with the
  server's message, and everything else.
\<close>

datatype dpp_error =
    NotFound string
  | Validation string
  | Internal string
  | Serialisation string
  | RetentionLocked
  | OtherError string

datatype sqlx_error = Database string | OtherSqlx string

record pg_env =
  now_at :: "nat \<Rightarrow> time"
  random_at :: "nat \<Rightarrow> rat"
  fault_at :: "nat \<Rightarrow> sqlx_error option"
  commit_lost :: "nat \<Rightarrow> bool"
  uuid_at :: "nat \<Rightarrow> nat \<Rightarrow> uuid"
  fmt_uuid :: "uuid \<Rightarrow> string"
  fmt_sqlx :: "sqlx_error \<Rightarrow> string"
  fmt_dpp :: "dpp_error \<Rightarrow> string"

text \<open>An environment in which no statement fails: the hypothesis of the progress theorems.\<close>

definition fault_free :: "pg_env \<Rightarrow> bool" where
  "fault_free env \<longleftrightarrow> (\<forall>n. fault_at env n = None)"

text \<open>PostgreSQL's \<^verbatim>\<open>random()\<close> lies in the half-open unit interval.\<close>

definition random_ok :: "pg_env \<Rightarrow> bool" where
  "random_ok env \<longleftrightarrow> (\<forall>n. 0 \<le> random_at env n \<and> random_at env n < 1)"

text \<open>A concrete environment, for evaluating the definitions: statement \<open>n\<close> runs at second \<open>n\<close>.\<close>

definition sample_env :: pg_env where
  "sample_env = \<lparr>now_at = (\<lambda>n. of_nat n), random_at = (\<lambda>_. 1/2), fault_at = (\<lambda>_. None),
     commit_lost = (\<lambda>_. False), uuid_at = (\<lambda>n i. 1000 * n + i), fmt_uuid = (\<lambda>_. ''uuid''), fmt_sqlx = (\<lambda>_. ''sqlx''),
     fmt_dpp = (\<lambda>_. ''error'')\<rparr>"

lemma sample_env_simps [simp]:
  "commit_lost sample_env n = False" "now_at sample_env n = of_nat n" "random_at sample_env n = 1/2" "fault_at sample_env n = None"
  "uuid_at sample_env n i = 1000 * n + i" "fmt_uuid sample_env u = ''uuid''"
  "fmt_sqlx sample_env e = ''sqlx''" "fmt_dpp sample_env d = ''error''"
  by (simp_all add: sample_env_def)

lemma sample_env_ok: "fault_free sample_env" "random_ok sample_env"
  by (simp_all add: sample_env_def fault_free_def random_ok_def)

definition db_err :: "pg_env \<Rightarrow> sqlx_error \<Rightarrow> dpp_error" where
  "db_err env e =
     (case e of
        Database msg \<Rightarrow>
          if sublist ''ODAL_RETENTION'' msg then RetentionLocked
          else if sublist ''ODAL_AUDIT'' msg then Internal ''audit entries are append-only''
          else if sublist ''ODAL_EVIDENCE'' msg then Internal ''evidence dossiers are append-only''
          else Internal (''database: '' @ fmt_sqlx env e)
      | OtherSqlx msg \<Rightarrow> Internal (''database: '' @ fmt_sqlx env e))"

definition require_updated :: "pg_env \<Rightarrow> nat \<Rightarrow> string \<Rightarrow> uuid \<Rightarrow> dpp_error + unit" where
  "require_updated env rows_affected row_kind ident =
     (if rows_affected = 0 then Inl (NotFound (row_kind @ '' '' @ fmt_uuid env ident)) else Inr ())"

subsection \<open>Statements\<close>

text \<open>
  \<^verbatim>\<open>UPDATE t SET f WHERE p\<close>. The expressions of \<open>f\<close> may raise a run-time error on a
  matched row (\<open>ok\<close> is false); the statement then fails as a whole and the table is
  unchanged. The count is the number of matched rows.
\<close>

definition out_of_range :: sqlx_error where
  "out_of_range = Database ''value out of range: overflow''"

definition unique_violation :: sqlx_error where
  "unique_violation = Database ''duplicate key value violates unique constraint''"

definition fk_violation :: sqlx_error where
  "fk_violation = Database ''insert or update on table violates foreign key constraint''"

definition check_violation :: sqlx_error where
  "check_violation = Database ''new row violates check constraint''"

definition pg_update ::
  "pg_env \<Rightarrow> nat \<Rightarrow> ('r \<Rightarrow> bool) \<Rightarrow> ('r \<Rightarrow> bool) \<Rightarrow> ('r \<Rightarrow> 'r) \<Rightarrow> 'r list \<Rightarrow> sqlx_error + nat \<times> 'r list"
where
  "pg_update env n p ok f rs =
     (case fault_at env n of
        Some e \<Rightarrow> Inl e
      | None \<Rightarrow>
          if \<exists>r \<in> set rs. p r \<and> \<not> ok r then Inl out_of_range
          else Inr (length (filter p rs), upd_where p f rs))"

text \<open>
  \<^verbatim>\<open>SELECT ... WHERE p ORDER BY k ASC LIMIT n\<close>. Rows with equal sort keys come in the
  table's order. A negative limit is a run-time error in PostgreSQL; every caller
  passes a positive constant, so limits are natural numbers.
\<close>

definition pg_select ::
  "pg_env \<Rightarrow> nat \<Rightarrow> ('r \<Rightarrow> bool) \<Rightarrow> ('r \<Rightarrow> 'o::linorder) \<Rightarrow> nat \<Rightarrow> 'r list \<Rightarrow> sqlx_error + 'r list"
where
  "pg_select env n p k limit rs =
     (case fault_at env n of
        Some e \<Rightarrow> Inl e
      | None \<Rightarrow> Inr (take limit (sort_key k (filter p rs))))"

text \<open>\<^verbatim>\<open>SELECT ... WHERE key = k\<close> on a unique key, fetched as an optional row.\<close>

definition pg_lookup ::
  "pg_env \<Rightarrow> nat \<Rightarrow> ('r \<Rightarrow> 'k) \<Rightarrow> 'k \<Rightarrow> 'r list \<Rightarrow> sqlx_error + 'r option"
where
  "pg_lookup env n key k rs =
     (case fault_at env n of Some e \<Rightarrow> Inl e | None \<Rightarrow> Inr (row_at key k rs))"

lemma pg_update_InrD:
  assumes "pg_update env n p ok f rs = Inr (m, rs')"
  shows "fault_at env n = None" and "m = length (filter p rs)" and "rs' = upd_where p f rs"
  using assms by (auto simp: pg_update_def split: option.splits if_splits)

lemma pg_select_InrD:
  assumes "pg_select env n p k limit rs = Inr out"
  shows "set out \<subseteq> {r \<in> set rs. p r}" and "length out \<le> limit"
  using assms by (auto simp: pg_select_def split: option.splits dest: in_set_takeD)

lemma pg_select_distinct:
  assumes "pg_select env n p k limit rs = Inr out" and "distinct (map key rs)"
  shows "distinct (map key out)"
proof -
  have "distinct (map key (sort_key k (filter p rs)))"
    using assms(2) by (simp add: distinct_map inj_on_def)
  then have "distinct (map key (take limit (sort_key k (filter p rs))))"
    by (simp add: take_map [symmetric])
  with assms(1) show ?thesis by (auto simp: pg_select_def split: option.splits)
qed

lemma pg_select_sorted:
  assumes "pg_select env n p k limit rs = Inr out"
  shows "sorted (map k out)"
  using assms by (auto simp: pg_select_def take_map [symmetric] sorted_wrt_take split: option.splits)

subsection \<open>Retry backoff\<close>

text \<open>
  Every outbox writes the same expression:
  \<^verbatim>\<open>LEAST(power(2, attempts + 1), 3600) * (0.75 + random() * 0.5)\<close> seconds.
  The arguments of \<^verbatim>\<open>power\<close> are integers, which PostgreSQL resolves to
  \<^verbatim>\<open>power(double precision, double precision)\<close>: the value is exact for exponents up
  to 1023, and from 1024 on the call raises \<^verbatim>\<open>value out of range: overflow\<close> before
  \<^verbatim>\<open>LEAST\<close> can cap it. \<open>backoff_ok\<close> is that condition.
\<close>

definition backoff_base :: "nat \<Rightarrow> rat" where
  "backoff_base attempts = min (2 ^ (attempts + 1)) 3600"

definition backoff_ok :: "nat \<Rightarrow> bool" where
  "backoff_ok attempts \<longleftrightarrow> attempts + 1 < 1024"

definition backoff :: "nat \<Rightarrow> rat \<Rightarrow> time" where
  "backoff attempts rnd = backoff_base attempts * (3/4 + rnd * (1/2))"

text \<open>An \<^verbatim>\<open>INTEGER\<close> column holds 32-bit values: incrementing past the maximum is an error.\<close>

definition int4_ok :: "nat \<Rightarrow> bool" where
  "int4_ok n \<longleftrightarrow> n < 2 ^ 31"

lemma backoff_base_bounds: "2 \<le> backoff_base a" "backoff_base a \<le> 3600"
proof -
  have "(2::rat) ^ 1 \<le> 2 ^ (a + 1)" by (rule power_increasing) auto
  then show "2 \<le> backoff_base a" by (simp add: backoff_base_def)
  show "backoff_base a \<le> 3600" by (simp add: backoff_base_def)
qed

lemma backoff_base_mono: "a \<le> b \<Longrightarrow> backoff_base a \<le> backoff_base b"
proof -
  assume "a \<le> b"
  then have "(2::rat) ^ (a + 1) \<le> 2 ^ (b + 1)" by (intro power_increasing) auto
  then show ?thesis unfolding backoff_base_def by (intro min.mono order_refl)
qed

lemma backoff_lower: "0 \<le> r \<Longrightarrow> 3/4 * backoff_base a \<le> backoff a r"
  using backoff_base_bounds [of a] by (simp add: backoff_def algebra_simps)

lemma backoff_upper: "r < 1 \<Longrightarrow> backoff a r < 5/4 * backoff_base a"
proof -
  assume "r < 1"
  then have "backoff_base a * (3/4 + r * (1/2)) < backoff_base a * (5/4)"
    using backoff_base_bounds [of a] by (intro mult_strict_left_mono) auto
  then show ?thesis by (simp add: backoff_def mult.commute)
qed

lemma backoff_positive: "0 \<le> r \<Longrightarrow> 0 < backoff a r"
  using backoff_lower [of r a] backoff_base_bounds [of a] by linarith

end
