(* ===== verification/Outbox.thy ===== *)
theory Outbox
  imports Postgres
begin

text \<open>
  The contract the drain loops rely on: an outbox is a keyed table that changes
  only through its \<^verbatim>\<open>mark_*\<close> statements, each of which names one key. The registry
  registration, registry transfer, webhook and snapshot outboxes are interpreted
  below it, each in the theory of its repository. What a client concludes from the
  contract is proved here once: a pass over some rows removes and duplicates no
  row, and leaves every other row as it was.
\<close>

locale outbox =
  fixes tbl :: "'db \<Rightarrow> 'r list"
    and key :: "'r \<Rightarrow> 'k"
    and mark :: "'k \<Rightarrow> 'db \<Rightarrow> 'db \<Rightarrow> bool"
  assumes mark_keys: "mark k s t \<Longrightarrow> map key (tbl t) = map key (tbl s)"
    and mark_frame: "mark k s t \<Longrightarrow> k' \<noteq> k \<Longrightarrow> row_at key k' (tbl t) = row_at key k' (tbl s)"
begin

lemma runs_keys: "runs mark K s t \<Longrightarrow> map key (tbl t) = map key (tbl s)"
  by (induction rule: runs.induct) (auto dest: mark_keys)

lemma runs_frame: "runs mark K s t \<Longrightarrow> k \<notin> K \<Longrightarrow> row_at key k (tbl t) = row_at key k (tbl s)"
proof (induction rule: runs.induct)
  case (runs_step k0 s t u)
  then have "k \<noteq> k0" by blast
  with runs_step show ?case by (simp add: mark_frame)
qed simp

lemma runs_distinct: "runs mark K s t \<Longrightarrow> distinct (map key (tbl s)) \<Longrightarrow> distinct (map key (tbl t))"
  by (simp add: runs_keys)

lemma runs_keeps_row:
  "runs mark K s t \<Longrightarrow> row_at key k (tbl s) \<noteq> None \<Longrightarrow> row_at key k (tbl t) \<noteq> None"
  by (simp add: row_at_None runs_keys)

text \<open>
  A pass that handles each of its keys once: what handling one key does to its row, from
  any state in which that row is as it was, is what the whole pass does to it.
\<close>

lemma rows_once:
  assumes run: "\<And>x s. x \<in> set xs \<Longrightarrow> runs mark {kx x} (proj s) (proj (f x s))"
    and "distinct (map kx xs)" and "x \<in> set xs"
    and eff: "\<And>s'. map key (tbl (proj s')) = map key (tbl (proj s)) \<Longrightarrow>
      row_at key (kx x) (tbl (proj s')) = row_at key (kx x) (tbl (proj s)) \<Longrightarrow>
      P (row_at key (kx x) (tbl (proj (f x s'))))"
  shows "P (row_at key (kx x) (tbl (proj (fold f xs s))))"
proof -
  obtain us vs where xs: "xs = us @ x # vs" using assms(3) by (blast dest: split_list)
  have before: "runs mark (kx ` set us) (proj s) (proj (fold f us s))"
    by (rule runs_fold) (use run xs in auto)
  have "runs mark (kx ` set vs) (proj (f x (fold f us s))) (proj (fold f vs (f x (fold f us s))))"
    by (rule runs_fold) (use run xs in auto)
  moreover have "kx x \<notin> kx ` set us" "kx x \<notin> kx ` set vs" using assms(2) xs by auto
  ultimately show ?thesis
    using eff [of "fold f us s"] runs_keys [OF before] runs_frame [OF before] runs_frame
    by (simp add: xs)
qed

end

text \<open>
  An outbox whose statements all refuse some rows: no sequence of them changes
  such a row.
\<close>

locale guarded_outbox = outbox tbl key mark
  for tbl :: "'db \<Rightarrow> 'r list" and key :: "'r \<Rightarrow> 'k" and mark :: "'k \<Rightarrow> 'db \<Rightarrow> 'db \<Rightarrow> bool" +
  fixes frozen :: "'r \<Rightarrow> bool"
  assumes mark_frozen:
    "mark k s t \<Longrightarrow> row_at key k (tbl s) = Some r \<Longrightarrow> frozen r \<Longrightarrow> row_at key k (tbl t) = Some r"
begin

lemma runs_frozen:
  "runs mark K s t \<Longrightarrow> row_at key k (tbl s) = Some r \<Longrightarrow> frozen r \<Longrightarrow> row_at key k (tbl t) = Some r"
proof (induction rule: runs.induct)
  case (runs_step k0 s t u)
  have "row_at key k (tbl t) = Some r"
  proof (cases "k = k0")
    case True
    with runs_step show ?thesis by (auto intro: mark_frozen)
  next
    case False
    with runs_step show ?thesis by (simp add: mark_frame)
  qed
  with runs_step show ?case by simp
qed simp

end

text \<open>
  An outbox whose statements keep a property of single rows.
\<close>

locale typed_outbox = outbox tbl key mark
  for tbl :: "'db \<Rightarrow> 'r list" and key :: "'r \<Rightarrow> 'k" and mark :: "'k \<Rightarrow> 'db \<Rightarrow> 'db \<Rightarrow> bool" +
  fixes wf :: "'r \<Rightarrow> bool"
  assumes mark_wf: "mark k s t \<Longrightarrow> list_all wf (tbl s) \<Longrightarrow> list_all wf (tbl t)"
begin

lemma runs_wf: "runs mark K s t \<Longrightarrow> list_all wf (tbl s) \<Longrightarrow> list_all wf (tbl t)"
  by (induction rule: runs.induct) (auto dest: mark_wf)

end

text \<open>
  An outbox in which every statement relates the row it changes to the row it leaves:
  a whole sequence of statements then relates them too.
\<close>

locale tracked_outbox = outbox tbl key mark
  for tbl :: "'db \<Rightarrow> 'r list" and key :: "'r \<Rightarrow> 'k" and mark :: "'k \<Rightarrow> 'db \<Rightarrow> 'db \<Rightarrow> bool" +
  fixes rel :: "'r \<Rightarrow> 'r \<Rightarrow> bool"
  assumes rel_refl: "rel r r"
    and rel_trans: "rel r r' \<Longrightarrow> rel r' r'' \<Longrightarrow> rel r r''"
    and mark_rel: "mark k s t \<Longrightarrow> row_at key k (tbl s) = Some r \<Longrightarrow>
      opt_holds (rel r) (row_at key k (tbl t))"
begin

lemma step_rel:
  assumes "mark k0 s t" and "row_at key k (tbl s) = Some r"
  shows "opt_holds (rel r) (row_at key k (tbl t))"
proof (cases "k = k0")
  case True
  with assms show ?thesis by (auto intro: mark_rel)
next
  case False
  with assms show ?thesis by (simp add: mark_frame rel_refl)
qed

lemma runs_rel:
  "runs mark K s t \<Longrightarrow> row_at key k (tbl s) = Some r \<Longrightarrow> opt_holds (rel r) (row_at key k (tbl t))"
proof (induction arbitrary: r rule: runs.induct)
  case (runs_step k0 s t u)
  from step_rel [OF runs_step(1) runs_step(5)] obtain r' where
    r': "row_at key k (tbl t) = Some r'" "rel r r'"
    by (auto simp: opt_holds_def split: option.splits)
  from runs_step(4) [OF r'(1)] r'(2) show ?case
    by (auto simp: opt_holds_def split: option.splits intro: rel_trans)
qed (simp add: rel_refl)

end

text \<open>
  Reads between the statements. A pass that also reads moves the database by \<open>read\<close>,
  which leaves the table alone.
\<close>

definition with_reads :: "('db \<Rightarrow> 'db) \<Rightarrow> ('k \<Rightarrow> 'db \<Rightarrow> 'db \<Rightarrow> bool) \<Rightarrow> 'k \<Rightarrow> 'db \<Rightarrow> 'db \<Rightarrow> bool" where
  "with_reads read mark k s t \<longleftrightarrow> mark k s t \<or> t = read s"

definition row_pass ::
  "('db \<Rightarrow> 'db) \<Rightarrow> ('k \<Rightarrow> 'db \<Rightarrow> 'db \<Rightarrow> bool) \<Rightarrow> nat \<Rightarrow> 'k \<Rightarrow> 'db \<Rightarrow> 'db \<Rightarrow> bool" where
  "row_pass read mark limit k s t \<longleftrightarrow>
     (\<exists>m n. 1 \<le> n \<and> n \<le> limit \<and> (mark k ^^ n) ((read ^^ m) s) t)"

lemma row_pass_one: "mark k s t \<Longrightarrow> 1 \<le> limit \<Longrightarrow> row_pass read mark limit k s t"
  unfolding row_pass_def by (rule exI [of _ 0], rule exI [of _ 1]) (auto simp: OO_def)

lemma row_pass_more:
  assumes "mark k s t" and "(mark k ^^ n) t u" and "Suc n \<le> limit"
  shows "row_pass read mark limit k s u"
proof -
  have "(mark k ^^ Suc n) s u" using assms(1,2) by (rule relpowp_Suc_I2)
  with assms(3) show ?thesis
    unfolding row_pass_def by (metis One_nat_def Suc_le_mono funpow_0 zero_le)
qed

lemma row_pass_two: "mark k s t \<Longrightarrow> mark k t u \<Longrightarrow> 2 \<le> limit \<Longrightarrow> row_pass read mark limit k s u"
  by (rule row_pass_more [of mark k s t 1]) auto

lemma row_pass_read: "row_pass read mark limit k (read s) t \<Longrightarrow> row_pass read mark limit k s t"
  unfolding row_pass_def by (metis funpow_Suc_right comp_apply)

lemma row_pass_mono: "row_pass read mark a k s t \<Longrightarrow> a \<le> b \<Longrightarrow> row_pass read mark b k s t"
  unfolding row_pass_def by (meson le_trans)

lemma row_pass_runs: "row_pass read mark limit k s t \<Longrightarrow> runs (with_reads read mark) {k} s t"
proof -
  assume "row_pass read mark limit k s t"
  then obtain m n where n: "(mark k ^^ n) ((read ^^ m) s) t" by (auto simp: row_pass_def)
  have "runs (with_reads read mark) {k} s ((read ^^ m) s)"
    by (induction m) (auto simp: with_reads_def intro: runs_trans runs_single)
  moreover have "runs (with_reads read mark) {k} ((read ^^ m) s) t"
    by (rule runs_relpowp, rule relpowp_mono [OF _ n]) (simp add: with_reads_def)
  ultimately show ?thesis by (rule runs_trans)
qed

text \<open>
  An outbox that makes progress: each statement that has headroom settles the row it
  names, for the time it ran at. A pass that issues at least one statement and at most
  \<open>limit\<close> of them per row then settles every row it handled.
\<close>

locale paced_outbox = outbox tbl key mark
  for tbl :: "'db \<Rightarrow> 'r list" and key :: "'r \<Rightarrow> 'k" and mark :: "'k \<Rightarrow> 'db \<Rightarrow> 'db \<Rightarrow> bool" +
  fixes read :: "'db \<Rightarrow> 'db"
    and ok :: "'db \<Rightarrow> bool"
    and clock :: "'db \<Rightarrow> time"
    and headroom :: "nat \<Rightarrow> 'r \<Rightarrow> bool"
    and settled :: "time \<Rightarrow> 'r \<Rightarrow> bool"
  assumes read_tbl: "tbl (read s) = tbl s"
    and ok_read: "ok s \<Longrightarrow> ok (read s)"
    and ok_mark: "mark k s t \<Longrightarrow> ok s \<Longrightarrow> ok t"
    and clock_read: "ok s \<Longrightarrow> clock s \<le> clock (read s)"
    and clock_mark: "mark k s t \<Longrightarrow> ok s \<Longrightarrow> clock s \<le> clock t"
    and settled_earlier: "settled b r \<Longrightarrow> a \<le> b \<Longrightarrow> settled a r"
    and mark_settles: "mark k s t \<Longrightarrow> ok s \<Longrightarrow> row_at key k (tbl s) = Some r \<Longrightarrow> headroom (Suc n) r \<Longrightarrow>
      opt_holds (\<lambda>r'. settled (clock s) r' \<and> headroom n r') (row_at key k (tbl t))"
    and headroom_less: "headroom n r \<Longrightarrow> m \<le> n \<Longrightarrow> headroom m r"
begin

lemma reads_ok: "ok s \<Longrightarrow> ok ((read ^^ m) s) \<and> clock s \<le> clock ((read ^^ m) s) \<and> tbl ((read ^^ m) s) = tbl s"
  by (induction m) (auto simp: ok_read read_tbl intro: order_trans clock_read)

lemma marks_ok: "(mark k ^^ n) s t \<Longrightarrow> ok s \<Longrightarrow> ok t \<and> clock s \<le> clock t"
proof (induction n arbitrary: t)
  case (Suc n)
  from Suc.prems(1) obtain u where u: "(mark k ^^ n) s u" "mark k u t" by auto
  with Suc.IH [OF u(1) Suc.prems(2)] show ?case
    using ok_mark [OF u(2)] clock_mark [OF u(2)] by (auto intro: order_trans)
qed simp

lemma pass_ok:
  "row_pass read mark limit k s t \<Longrightarrow> ok s \<Longrightarrow> ok t \<and> clock s \<le> clock t"
  unfolding row_pass_def using reads_ok marks_ok by (metis order_trans)

lemma pass_keys: "row_pass read mark limit k s t \<Longrightarrow> ok s \<Longrightarrow> map key (tbl t) = map key (tbl s)"
  unfolding row_pass_def using reads_ok runs_keys runs_relpowp by metis

lemma pass_frame:
  "row_pass read mark limit k s t \<Longrightarrow> ok s \<Longrightarrow> k' \<noteq> k \<Longrightarrow> row_at key k' (tbl t) = row_at key k' (tbl s)"
  unfolding row_pass_def using reads_ok runs_frame [OF runs_relpowp] by (metis singletonD)

lemma marks_settle:
  "(mark k ^^ Suc n) s t \<Longrightarrow> ok s \<Longrightarrow> row_at key k (tbl s) = Some r \<Longrightarrow> headroom (Suc n) r \<Longrightarrow>
   opt_holds (settled (clock s)) (row_at key k (tbl t))"
proof (induction n arbitrary: s r)
  case 0
  with mark_settles [of k s t r 0] show ?case
    by (auto simp: opt_holds_def split: option.splits)
next
  case (Suc n)
  from Suc.prems(1) obtain u where u: "mark k s u" "(mark k ^^ Suc n) u t" by (blast elim: relpowp_Suc_E2)
  from mark_settles [OF u(1) Suc.prems(2,3,4)] obtain r' where
    r': "row_at key k (tbl u) = Some r'" "headroom (Suc n) r'" by (auto simp: opt_holds_def split: option.splits)
  from Suc.IH [OF u(2) ok_mark [OF u(1) Suc.prems(2)] r'] clock_mark [OF u(1) Suc.prems(2)] show ?case
    by (auto simp: opt_holds_def split: option.splits intro: settled_earlier)
qed

lemma pass_settles:
  assumes "row_pass read mark limit k s t" and "ok s" and "opt_holds (headroom limit) (row_at key k (tbl s))"
  shows "opt_holds (settled (clock s)) (row_at key k (tbl t))"
proof -
  from assms(1) obtain m n where n: "Suc n \<le> limit" "(mark k ^^ Suc n) ((read ^^ m) s) t"
    unfolding row_pass_def by (metis Suc_le_D One_nat_def)
  note rd = reads_ok [OF assms(2), of m]
  from assms(3) obtain r where r: "row_at key k (tbl s) = Some r" "headroom limit r"
    by (auto simp: opt_holds_def split: option.splits)
  from marks_settle [OF n(2), of r] rd r headroom_less [OF r(2) n(1)] show ?thesis
    by (auto simp: opt_holds_def split: option.splits intro: settled_earlier)
qed

lemma rows_settle:
  assumes "\<And>x s. x \<in> set xs \<Longrightarrow> row_pass read mark limit (kx x) (proj s) (proj (f x s))"
    and "distinct (map kx xs)" and "ok (proj s)"
    and "\<And>x. x \<in> set xs \<Longrightarrow> opt_holds (headroom limit) (row_at key (kx x) (tbl (proj s)))"
    and "x \<in> set xs"
  shows "opt_holds (settled (clock (proj s))) (row_at key (kx x) (tbl (proj (fold f xs s))))"
  using assms
proof (induction xs arbitrary: s)
  case (Cons a xs)
  have pass: "row_pass read mark limit (kx a) (proj s) (proj (f a s))" using Cons.prems(1) by simp
  note here = pass_ok [OF pass Cons.prems(3)] and rows = Cons.prems(1)
  have later: "ok (proj (fold f zs s')) \<and> (k \<notin> kx ` set zs \<longrightarrow>
      row_at key k (tbl (proj (fold f zs s'))) = row_at key k (tbl (proj s')))"
    if "ok (proj s')" "set zs \<subseteq> set (a # xs)" for zs s' k
    using that
  proof (induction zs arbitrary: s')
    case (Cons z zs)
    then have z: "row_pass read mark limit (kx z) (proj s') (proj (f z s'))"
      by (intro rows) auto
    from Cons.IH [of "f z s'"] pass_ok [OF z] pass_frame [OF z, of k] Cons.prems show ?case by auto
  qed simp
  show ?case
  proof (cases "x = a")
    case True
    have "kx a \<notin> kx ` set xs" using Cons.prems(2) by auto
    then have "row_at key (kx a) (tbl (proj (fold f xs (f a s)))) = row_at key (kx a) (tbl (proj (f a s)))"
      using later [of "f a s" xs] here by auto
    with pass_settles [OF pass Cons.prems(3)] Cons.prems(4) [of a] show ?thesis by (simp add: True)
  next
    case False
    have "row_at key (kx y) (tbl (proj (f a s))) = row_at key (kx y) (tbl (proj s))" if "y \<in> set xs" for y
      using pass_frame [OF pass Cons.prems(3), of "kx y"] Cons.prems(2) that by (auto simp: image_iff)
    with Cons.IH [of "f a s"] Cons.prems here False
    have "opt_holds (settled (clock (proj (f a s)))) (row_at key (kx x) (tbl (proj (fold f xs (f a s)))))"
      by auto
    with here show ?thesis by (auto simp: opt_holds_def split: option.splits intro: settled_earlier)
  qed
qed simp

end

end
