(* ===== verification/Seal_Types.thy ===== *)
theory Seal_Types
  imports DPP_Prelude
begin

text \<open>
  The vocabulary of qualified sealing: the types of \<^verbatim>\<open>dpp-types/src/seal.rs\<close> and its reading
  of a seal's state in the terms of EN 319 102-1. A seal envelope is a type of the core
  library; its fields are those the modelled code reads and writes. The cryptographic
  reading of a seal, the trait \<^verbatim>\<open>SealInspector\<close>, is a record of functions.
\<close>

subsection \<open>Envelopes and requests\<close>

datatype SealFormat = Cades | OtherFormat string
datatype SealMode = ProviderSeal | OperatorSeal | OtherMode string
datatype SealConformanceLevel = BaselineB | BaselineT | BaselineLt | BaselineLta

record SealedEnvelope =
  se_format :: SealFormat
  se_seal_value :: string
  se_signing_cert_ref :: "string option"
  se_conformance_level :: "SealConformanceLevel option"
  se_sealed_at :: time
  se_placeholder :: bool

datatype SealPackaging = Detached | OtherPackaging string

record SealRequest =
  sq_payload_hash :: string
  sq_mode :: SealMode
  sq_key_ref :: string
  sq_sig_format :: SealFormat
  sq_conformance_level :: SealConformanceLevel
  sq_envelope :: SealPackaging

text \<open>
  The \<^verbatim>\<open>seal\<close> member of a stored document: an envelope, or JSON that does not read as one, of
  which the statements only see the text of its \<^verbatim>\<open>sealValue\<close>.
\<close>

datatype stored_seal = SealDoc SealedEnvelope | SealUnreadable "string option"

fun stored_seal_value :: "stored_seal \<Rightarrow> string option" where
  "stored_seal_value (SealDoc e) = Some (se_seal_value e)"
| "stored_seal_value (SealUnreadable v) = v"

fun stored_envelope :: "stored_seal \<Rightarrow> SealedEnvelope option" where
  "stored_envelope (SealDoc e) = Some e"
| "stored_envelope (SealUnreadable v) = None"

subsection \<open>Rows and counts\<close>

record SealRow =
  sr_id :: uuid
  sr_passport_id :: uuid
  sr_payload_hash :: string
  sr_attempts :: nat

record SealOutboxCounts =
  slc_pending :: nat
  slc_sealed :: nat
  slc_exhausted :: nat

record UnsealedCounts =
  uc_live :: nat
  uc_terminal :: nat

record SealedPassport =
  sp_passport_id :: uuid
  sp_seal :: SealedEnvelope
  sp_payload_hash :: string

subsection \<open>What a seal covers\<close>

datatype SealBinding = CoversThisSignature | CoversAnotherDigest string | NotIntact | UnknownBinding

datatype ValidationIndication = TotalFailed | Indeterminate

datatype ValidationSubIndication =
    SigCryptoFailure | HashFailure | Revoked | Expired | NotYetValid
  | RevokedNoPoe | OutOfBoundsNoPoe | TryLater

record SealValidationStatus =
  indication :: ValidationIndication
  sub_indication :: "ValidationSubIndication option"

datatype WindowStanding = Inside | WindowExpired | WindowNotYetValid

record ValidityWindow =
  not_before :: time
  not_after :: time
  standing :: WindowStanding

record JudgedTime =
  judged_time :: time
  attested :: bool

datatype RevocationStanding =
    NotRevoked time
  | RevokedAt time
  | RevocationNotAvailable
  | RevocationUnusable string

record CertificateStanding =
  validity :: ValidityWindow
  judged_at :: JudgedTime
  revocation :: RevocationStanding

abbreviation failed_with :: "ValidationSubIndication \<Rightarrow> SealValidationStatus" where
  "failed_with sub \<equiv> \<lparr>indication = TotalFailed, sub_indication = Some sub\<rparr>"

abbreviation unsure_with :: "ValidationSubIndication option \<Rightarrow> SealValidationStatus" where
  "unsure_with sub \<equiv> \<lparr>indication = Indeterminate, sub_indication = sub\<rparr>"

text \<open>What is left once nothing has been shown to fail.\<close>

definition unsettled_standing :: "CertificateStanding \<Rightarrow> SealValidationStatus" where
  "unsettled_standing cert =
     (case revocation cert of
        RevokedAt _ \<Rightarrow> unsure_with (Some RevokedNoPoe)
      | _ \<Rightarrow>
          if standing (validity cert) \<noteq> Inside then unsure_with (Some OutOfBoundsNoPoe)
          else (case revocation cert of
                  RevocationNotAvailable \<Rightarrow> unsure_with (Some TryLater)
                | RevocationUnusable _ \<Rightarrow> unsure_with (Some TryLater)
                | _ \<Rightarrow> unsure_with None))"

definition certificate_status :: "CertificateStanding \<Rightarrow> SealValidationStatus" where
  "certificate_status cert =
     (let proven = attested (judged_at cert);
          revoked_before = (case revocation cert of RevokedAt t \<Rightarrow> t \<le> judged_time (judged_at cert) | _ \<Rightarrow> False)
      in if proven \<and> revoked_before then failed_with Revoked
         else if proven then
           (case standing (validity cert) of
              WindowExpired \<Rightarrow> failed_with Expired
            | WindowNotYetValid \<Rightarrow> failed_with NotYetValid
            | Inside \<Rightarrow> unsettled_standing cert)
         else unsettled_standing cert)"

definition validation_of :: "SealBinding \<Rightarrow> CertificateStanding option \<Rightarrow> SealValidationStatus" where
  "validation_of binding certificate =
     (case binding of
        NotIntact \<Rightarrow> failed_with SigCryptoFailure
      | CoversAnotherDigest _ \<Rightarrow> failed_with HashFailure
      | _ \<Rightarrow> (case certificate of None \<Rightarrow> unsure_with None | Some cert \<Rightarrow> certificate_status cert))"

definition validation_status :: "SealBinding \<Rightarrow> SealValidationStatus" where
  "validation_status binding = validation_of binding None"

datatype ArchivalFreshness = NotArchived | Current time | Lapsed time | UnknownFreshness

record SealInspector =
  binding_of :: "SealedEnvelope \<Rightarrow> string \<Rightarrow> SealBinding"
  archival_freshness :: "SealedEnvelope \<Rightarrow> time \<Rightarrow> ArchivalFreshness"
  certificate_standing :: "SealedEnvelope \<Rightarrow> time \<Rightarrow> CertificateStanding option"

subsection \<open>The audit's report and progress\<close>

record SealAuditReport =
  rp_completed_at :: time
  rp_checked :: nat
  rp_sound :: nat
  rp_superseded :: nat
  rp_broken :: nat
  rp_certificate_failed :: nat
  rp_unreadable :: nat
  rp_archival_lapsed :: nat
  rp_archival_due :: nat
  rp_archival_unverifiable :: nat
  rp_broken_passports :: "uuid list"
  rp_renewal_passports :: "uuid list"
  rp_truncated :: bool
  rp_renewal_truncated :: bool

record SealAuditProgress =
  pr_started_at :: time
  pr_cursor :: "uuid option"
  pr_checked :: nat
  pr_sound :: nat
  pr_superseded :: nat
  pr_broken :: nat
  pr_certificate_failed :: nat
  pr_unreadable :: nat
  pr_archival_lapsed :: nat
  pr_archival_due :: nat
  pr_archival_unverifiable :: nat
  pr_broken_passports :: "uuid list"
  pr_renewal_passports :: "uuid list"

text \<open>The in-memory log of the last completed pass: a slot.\<close>

type_synonym SealAuditLog = "SealAuditReport option"

definition log_record :: "SealAuditReport \<Rightarrow> SealAuditLog \<Rightarrow> SealAuditLog" where
  "log_record report slot = Some report"

subsection \<open>Properties\<close>

text \<open>
  A verdict of failure is earned: either the signature does not hold or covers something
  else, or a third party attests when the seal was made and at that moment its certificate
  was already revoked or outside its window. Nothing that merely could not be established
  hides such a failure, and nothing else is called one.
\<close>

theorem failure_is_proven:
  "indication (validation_of binding certificate) = TotalFailed \<longleftrightarrow>
     binding = NotIntact \<or> (\<exists>d. binding = CoversAnotherDigest d) \<or>
     (\<exists>cert. certificate = Some cert \<and> attested (judged_at cert) \<and>
        (standing (validity cert) \<noteq> Inside \<or>
         (\<exists>t. revocation cert = RevokedAt t \<and> t \<le> judged_time (judged_at cert))))"
  by (cases binding; cases certificate)
    (auto simp: validation_of_def certificate_status_def unsettled_standing_def Let_def
      split: RevocationStanding.splits WindowStanding.splits if_splits)

end
