(* ===== verification/Import_Types.thy ===== *)
theory Import_Types
  imports DPP_Prelude
begin

text \<open>
  The data of a bulk import: the job (\<^verbatim>\<open>dpp-integrator/src/infra/job_store.rs\<close>), the matcher's
  classification (\<^verbatim>\<open>domain/matcher.rs\<close>), the batch result (\<^verbatim>\<open>domain/batch_runner.rs\<close>) and the
  row-addressed report (\<^verbatim>\<open>domain/import_report.rs\<close>). The lint severity is the domain crate's, kept
  as its name.
\<close>

datatype RowAction = ActCreate | ActUpdateDraft | ActConflictPublished | ActUnchanged

record Classification =
  cl_action :: RowAction
  cl_existing_id :: "string option"

record CreatedItem =
  ci_row :: nat
  ci_passport_id :: string

record UpdatedItem =
  ui_row :: nat
  ui_passport_id :: string

record RowError =
  er_row :: nat
  er_field :: string
  er_message :: string

record BatchResult =
  br_created :: "CreatedItem list"
  br_updated :: "UpdatedItem list"
  br_errors :: "RowError list"

datatype ImportMode = DryRun | Apply

datatype FindingKind = FindingValidation | FindingLint

record RowFinding =
  rf_kind :: FindingKind
  rf_field :: string
  rf_message :: string
  rf_severity :: "string option"

record ReportRow =
  rr_row :: nat
  rr_valid :: bool
  rr_action :: "RowAction option"
  rr_existing_passport_id :: "string option"
  rr_findings :: "RowFinding list"

record ImportReport =
  ir_mode :: ImportMode
  ir_total_rows :: nat
  ir_rows :: "ReportRow list"

datatype JobStatus = JobQueued | JobProcessing | JobCompleted | JobFailed string

record ImportJob =
  jb_id :: uuid
  jb_status :: JobStatus
  jb_total_rows :: nat
  jb_processed :: nat
  jb_result :: "BatchResult option"
  jb_report :: "ImportReport option"
  jb_parent_job_id :: "uuid option"
  jb_created_at :: time

end
