(* ===== verification/Schema.thy ===== *)
theory Schema
  imports Outbox Seal_Types Import_Types
begin

text \<open>
  The tables of the \<^verbatim>\<open>odal\<close> schema (\<^verbatim>\<open>ops/pg\<close>) that the modelled repositories read and
  write, one record per row type with the columns of the migrations, and the
  database \<open>odal\<close> that holds them together with the statement counter. Status
  columns hold text, as in the database; the repositories parse them.
\<close>

text \<open>\<^verbatim>\<open>odal.registry_sync\<close> (0006, 0024, 0030, 0046): one row per passport.\<close>

record registry_sync_rec =
  rs_passport_id :: uuid
  rs_registry_id :: "string option"
  rs_status :: string
  rs_status_intent :: "string option"
  rs_payload :: "json option"
  rs_message :: "string option"
  rs_attempts :: nat
  rs_next_attempt_at :: time
  rs_last_attempt_at :: "time option"
  rs_submitted_at :: "time option"
  rs_registered_at :: "time option"
  rs_updated_at :: time

text \<open>\<^verbatim>\<open>odal.registry_transfer\<close> (0029): one row per transfer.\<close>

record registry_transfer_rec =
  rt_transfer_id :: uuid
  rt_passport_id :: uuid
  rt_status :: string
  rt_payload :: json
  rt_registry_id :: "string option"
  rt_message :: "string option"
  rt_attempts :: nat
  rt_next_attempt_at :: time
  rt_last_attempt_at :: "time option"
  rt_notified_at :: "time option"
  rt_created_at :: time
  rt_updated_at :: time

text \<open>\<^verbatim>\<open>odal.webhook_subscription\<close> and \<^verbatim>\<open>odal.webhook_delivery\<close> (0022).\<close>

record webhook_subscription_rec =
  ws_id :: uuid
  ws_url :: string
  ws_secret :: string
  ws_events :: "string list"
  ws_active :: bool
  ws_description :: "string option"
  ws_created_at :: time
  ws_updated_at :: time

record webhook_delivery_rec =
  wd_id :: uuid
  wd_subscription_id :: uuid
  wd_event_type :: string
  wd_body :: string
  wd_status :: string
  wd_attempts :: nat
  wd_next_attempt_at :: time
  wd_last_attempt_at :: "time option"
  wd_message :: "string option"
  wd_delivered_at :: "time option"
  wd_updated_at :: time

text \<open>\<^verbatim>\<open>odal.snapshot_outbox\<close> (0023): one row per passport.\<close>

record snapshot_outbox_rec =
  so_id :: uuid
  so_passport_id :: uuid
  so_status :: string
  so_attempts :: nat
  so_next_attempt_at :: time
  so_last_attempt_at :: "time option"
  so_message :: "string option"
  so_reconciled_at :: "time option"
  so_updated_at :: time

text \<open>\<^verbatim>\<open>odal.seal_outbox\<close> (0028): one row per passport and digest.\<close>

record seal_outbox_rec =
  sl_id :: uuid
  sl_passport_id :: uuid
  sl_payload_hash :: string
  sl_status :: string
  sl_attempts :: nat
  sl_next_attempt_at :: time
  sl_last_attempt_at :: "time option"
  sl_message :: "string option"
  sl_sealed_at :: "time option"
  sl_updated_at :: time

definition seal_key :: "seal_outbox_rec \<Rightarrow> uuid \<times> string" where
  "seal_key s = (sl_passport_id s, sl_payload_hash s)"

text \<open>\<^verbatim>\<open>odal.seal_audit_state\<close> (0038): at most one row.\<close>

record seal_audit_state_rec =
  sa_progress :: "SealAuditProgress stored_json option"
  sa_report :: "SealAuditReport stored_json option"
  sa_updated_at :: time

text \<open>
  \<^verbatim>\<open>odal.passport\<close> (0004): the columns the outbox statements join on, and the status
  inside the document, \<^verbatim>\<open>doc->>'status'\<close>, its signature \<^verbatim>\<open>doc->>'jwsSignature'\<close> and its seal
  \<^verbatim>\<open>doc->'seal'\<close>. Both statuses spell \<^verbatim>\<open>Published\<close> as \<^verbatim>\<open>active\<close>. The update trigger of 0004 and 0028
  sets \<^verbatim>\<open>updated_at\<close>.
\<close>

record passport_rec =
  pp_id :: uuid
  pp_status :: string
  pp_doc_status :: string
  pp_published_at :: "time option"
  pp_updated_at :: time
  pp_jws :: "string option"
  pp_seal :: "stored_seal option"

text \<open>
  \<^verbatim>\<open>odal.passport_audit\<close> (0005, 0015): one row per audit entry, which is also the wire type
  \<^verbatim>\<open>PassportAuditEntry\<close>.
\<close>

record PassportAuditEntry =
  au_id :: uuid
  au_passport_id :: string
  au_actor :: string
  au_action :: string
  au_previous_status :: "string option"
  au_new_status :: "string option"
  au_metadata :: "json option"
  au_ts :: time
  au_request_id :: "string option"
  au_prev_hash :: "string option"
  au_entry_hash :: "string option"

text \<open>\<^verbatim>\<open>odal.idempotency_key\<close> (0036, 0044): keyed by caller, method, route and key.\<close>

record idempotency_rec =
  ik_principal :: string
  ik_method :: string
  ik_path :: string
  ik_key :: string
  ik_fingerprint :: string
  ik_state :: string
  ik_response_status :: "int option"
  ik_response_body :: "string option"
  ik_content_type :: "string option"
  ik_lease_expires_at :: time
  ik_expires_at :: time
  ik_created_at :: time
  ik_completed_at :: "time option"
  ik_claim_token :: uuid

text \<open>
  \<^verbatim>\<open>odal.scan_telemetry\<close> and \<^verbatim>\<open>odal.qr_render\<close> (0025): the primary key, by passport, day (and
  surface), and the count.
\<close>

type_synonym scan_telemetry_rec = "(uuid \<times> int \<times> string) \<times> int"
type_synonym qr_render_rec = "(uuid \<times> int) \<times> int"

text \<open>
  \<^verbatim>\<open>odal.api_key\<close> (0003). The identifier, the name and the prefix are each unique. The scopes are
  a nullable array of nullable texts.
\<close>

record api_key_rec =
  ak_id :: uuid
  ak_name :: string
  ak_key_hash :: string
  ak_key_prefix :: string
  ak_scopes :: "string option list option"
  ak_is_active :: bool
  ak_created_at :: time
  ak_last_used_at :: "time option"
  ak_expires_at :: "time option"

text \<open>\<^verbatim>\<open>odal.import_job\<close> (0007, 0020).\<close>

record import_job_rec =
  ij_id :: uuid
  ij_status :: string
  ij_fail_reason :: "string option"
  ij_total_rows :: int
  ij_processed :: int
  ij_result :: "BatchResult stored_json option"
  ij_report :: "ImportReport stored_json option"
  ij_parent_job_id :: "uuid option"
  ij_created_at :: time

record odal =
  tick :: nat
  registry_sync :: "registry_sync_rec list"
  registry_transfer :: "registry_transfer_rec list"
  webhook_subscription :: "webhook_subscription_rec list"
  webhook_delivery :: "webhook_delivery_rec list"
  snapshot_outbox :: "snapshot_outbox_rec list"
  passport :: "passport_rec list"
  passport_audit :: "PassportAuditEntry list"
  idempotency_key :: "idempotency_rec list"
  scan_telemetry :: "scan_telemetry_rec list"
  qr_render :: "qr_render_rec list"
  seal_outbox :: "seal_outbox_rec list"
  seal_audit_state :: "seal_audit_state_rec option"
  api_key :: "api_key_rec list"
  import_job :: "import_job_rec list"

definition empty_db :: odal where
  "empty_db = \<lparr>tick = 0, registry_sync = [], registry_transfer = [], webhook_subscription = [],
     webhook_delivery = [], snapshot_outbox = [], passport = [], passport_audit = [],
     idempotency_key = [], scan_telemetry = [], qr_render = [],
     seal_outbox = [], seal_audit_state = None, api_key = [], import_job = []\<rparr>"

text \<open>Every statement advances the counter, whether it succeeds or not.\<close>

definition bump :: "odal \<Rightarrow> odal" where
  "bump db = db\<lparr>tick := tick db + 1\<rparr>"

lemma bump_simps [simp]:
  "tick (bump db) = tick db + 1"
  "registry_sync (bump db) = registry_sync db"
  "registry_transfer (bump db) = registry_transfer db"
  "webhook_subscription (bump db) = webhook_subscription db"
  "webhook_delivery (bump db) = webhook_delivery db"
  "snapshot_outbox (bump db) = snapshot_outbox db"
  "passport (bump db) = passport db"
  "passport_audit (bump db) = passport_audit db"
  "idempotency_key (bump db) = idempotency_key db"
  "scan_telemetry (bump db) = scan_telemetry db"
  "qr_render (bump db) = qr_render db"
  "seal_outbox (bump db) = seal_outbox db"
  "seal_audit_state (bump db) = seal_audit_state db"
  "api_key (bump db) = api_key db"
  "import_job (bump db) = import_job db"
  by (simp_all add: bump_def)

text \<open>
  The database's own invariant: every primary key and unique constraint the
  modelled statements rely on.
\<close>

definition keys_ok :: "odal \<Rightarrow> bool" where
  "keys_ok db \<longleftrightarrow>
     distinct (map rs_passport_id (registry_sync db)) \<and>
     distinct (map rt_transfer_id (registry_transfer db)) \<and>
     distinct (map ws_id (webhook_subscription db)) \<and>
     distinct (map wd_id (webhook_delivery db)) \<and>
     distinct (map so_id (snapshot_outbox db)) \<and>
     distinct (map so_passport_id (snapshot_outbox db)) \<and>
     distinct (map pp_id (passport db)) \<and>
     distinct (map sl_id (seal_outbox db)) \<and>
     distinct (map seal_key (seal_outbox db))"

end
