(* ===== verification/Statements.thy ===== *)
theory Statements
  imports Schema
begin

text \<open>
  How a repository method runs one statement on one table of the database: the
  outcome is mapped by \<open>db_err\<close>, a statement that must match a row goes through
  \<open>require_updated\<close>, and the rest of the database is untouched. A table is a field
  of \<open>odal\<close>, given by its selector and its record update; the locale \<open>table\<close>
  states the laws of such a pair together with the table's key, and is interpreted
  for every table below.
\<close>

subsection \<open>Running a statement\<close>

text \<open>
  \<open>exec_update get put key env k q ok f\<close> is
  \<^verbatim>\<open>UPDATE get SET f WHERE key = k AND q\<close>, where \<open>q\<close> and \<open>f\<close> see \<^verbatim>\<open>now()\<close> and \<open>f\<close> also
  \<^verbatim>\<open>random()\<close>.
\<close>

definition exec_update ::
  "(odal \<Rightarrow> 'r list) \<Rightarrow> (('r list \<Rightarrow> 'r list) \<Rightarrow> odal \<Rightarrow> odal) \<Rightarrow> ('r \<Rightarrow> 'k) \<Rightarrow> pg_env \<Rightarrow> 'k \<Rightarrow>
   (time \<Rightarrow> 'r \<Rightarrow> bool) \<Rightarrow> ('r \<Rightarrow> bool) \<Rightarrow> (time \<Rightarrow> rat \<Rightarrow> 'r \<Rightarrow> 'r) \<Rightarrow> odal \<Rightarrow> (dpp_error + nat) \<times> odal"
where
  "exec_update get put key env k q ok f db =
     (let n = tick db; now = now_at env n; rnd = random_at env n
      in case pg_update env n (\<lambda>r. key r = k \<and> q now r) ok (f now rnd) (get db) of
           Inl e \<Rightarrow> (Inl (db_err env e), bump db)
         | Inr (m, rs) \<Rightarrow> (Inr m, bump (put (\<lambda>_. rs) db)))"

definition exec_mark ::
  "(odal \<Rightarrow> 'r list) \<Rightarrow> (('r list \<Rightarrow> 'r list) \<Rightarrow> odal \<Rightarrow> odal) \<Rightarrow> ('r \<Rightarrow> uuid) \<Rightarrow> pg_env \<Rightarrow> string \<Rightarrow> uuid \<Rightarrow>
   (time \<Rightarrow> 'r \<Rightarrow> bool) \<Rightarrow> ('r \<Rightarrow> bool) \<Rightarrow> (time \<Rightarrow> rat \<Rightarrow> 'r \<Rightarrow> 'r) \<Rightarrow> odal \<Rightarrow> (dpp_error + unit) \<times> odal"
where
  "exec_mark get put key env kind k q ok f db =
     (case exec_update get put key env k q ok f db of
        (Inl e, db') \<Rightarrow> (Inl e, db')
      | (Inr m, db') \<Rightarrow> (require_updated env m kind k, db'))"

definition exec_select ::
  "(odal \<Rightarrow> 'r list) \<Rightarrow> pg_env \<Rightarrow> (time \<Rightarrow> 'r \<Rightarrow> bool) \<Rightarrow> ('r \<Rightarrow> 'o::linorder) \<Rightarrow> nat \<Rightarrow> odal \<Rightarrow>
   (dpp_error + 'r list) \<times> odal"
where
  "exec_select get env p ord limit db =
     (case pg_select env (tick db) (p (now_at env (tick db))) ord limit (get db) of
        Inl e \<Rightarrow> (Inl (db_err env e), bump db)
      | Inr rs \<Rightarrow> (Inr rs, bump db))"

definition exec_lookup ::
  "(odal \<Rightarrow> 'r list) \<Rightarrow> ('r \<Rightarrow> 'k) \<Rightarrow> pg_env \<Rightarrow> 'k \<Rightarrow> odal \<Rightarrow> (dpp_error + 'r option) \<times> odal"
where
  "exec_lookup get key env k db =
     (case pg_lookup env (tick db) key k (get db) of
        Inl e \<Rightarrow> (Inl (db_err env e), bump db)
      | Inr r \<Rightarrow> (Inr r, bump db))"

text \<open>A select or a lookup only moves the statement counter.\<close>

lemma exec_select_db [simp]: "snd (exec_select get env p ord limit db) = bump db"
  by (simp add: exec_select_def split: sum.splits)

lemma exec_lookup_db [simp]: "snd (exec_lookup get key env k db) = bump db"
  by (simp add: exec_lookup_def split: sum.splits)

lemma exec_select_InrD:
  assumes "exec_select get env p ord limit db = (Inr rs, db')"
  shows "db' = bump db"
    and "set rs \<subseteq> {r \<in> set (get db). p (now_at env (tick db)) r}" and "length rs \<le> limit"
    and "sorted (map ord rs)"
    and "distinct (map key (get db)) \<Longrightarrow> distinct (map key rs)"
  using assms
  by (auto simp: exec_select_def split: sum.splits
      dest: pg_select_InrD pg_select_sorted pg_select_distinct [where key = key])

lemma exec_select_fault_free:
  assumes "fault_free env"
  shows "exec_select get env p ord limit db =
    (Inr (take limit (sort_key ord (filter (p (now_at env (tick db))) (get db)))), bump db)"
  using assms by (simp add: exec_select_def pg_select_def fault_free_def)

lemma exec_lookup_fault_free:
  assumes "fault_free env"
  shows "exec_lookup get key env k db = (Inr (row_at key k (get db)), bump db)"
  using assms by (simp add: exec_lookup_def pg_lookup_def fault_free_def)

subsection \<open>The laws of a table\<close>

locale table =
  fixes get :: "odal \<Rightarrow> 'r list"
    and put :: "('r list \<Rightarrow> 'r list) \<Rightarrow> odal \<Rightarrow> odal"
    and key :: "'r \<Rightarrow> uuid"
  assumes get_put: "get (put g db) = g (get db)"
    and get_bump: "get (bump db) = get db"
    and tick_put: "tick (put g db) = tick db"
    and put_same: "put (\<lambda>_. get db) db = db"
begin

lemma exec_update_tick: "tick (snd (exec_update get put key env k q ok f db)) = tick db + 1"
  by (simp add: exec_update_def Let_def tick_put split: sum.splits)

lemma exec_mark_snd:
  "snd (exec_mark get put key env kind k q ok f db) = snd (exec_update get put key env k q ok f db)"
  by (simp add: exec_mark_def split: prod.splits sum.splits)

lemma exec_mark_tick: "tick (snd (exec_mark get put key env kind k q ok f db)) = tick db + 1"
  by (simp add: exec_mark_snd exec_update_tick)

text \<open>A statement changes its own table and the statement counter only.\<close>

lemma exec_update_only:
  "\<exists>rs. snd (exec_update get put key env k q ok f db) = bump (put (\<lambda>_. rs) db)"
  by (cases "pg_update env (tick db) (\<lambda>r. key r = k \<and> q (now_at env (tick db)) r) ok
        (f (now_at env (tick db)) (random_at env (tick db))) (get db)")
    (auto simp: exec_update_def Let_def put_same intro: exI [of _ "get db"])

text \<open>Either the table is as it was, or the statement ran on the rows of that key.\<close>

lemma exec_update_rows:
  "get (snd (exec_update get put key env k q ok f db)) = get db \<or>
   get (snd (exec_update get put key env k q ok f db)) =
     upd_where (\<lambda>r. key r = k \<and> q (now_at env (tick db)) r)
       (f (now_at env (tick db)) (random_at env (tick db))) (get db)"
  by (auto simp: exec_update_def Let_def get_put get_bump split: sum.splits dest: pg_update_InrD)

lemmas exec_mark_rows = exec_update_rows [folded exec_mark_snd]

lemma exec_update_keys:
  assumes "\<And>now rnd r. key (f now rnd r) = key r"
  shows "map key (get (snd (exec_update get put key env k q ok f db))) = map key (get db)"
  using exec_update_rows [of env k q ok f db] by (auto simp: table_simps assms)

lemma exec_update_row_at:
  assumes "\<And>now rnd r. key (f now rnd r) = key r"
  shows "row_at key k' (get (snd (exec_update get put key env k q ok f db))) = row_at key k' (get db) \<or>
    row_at key k' (get (snd (exec_update get put key env k q ok f db))) =
      map_option (\<lambda>r. if key r = k \<and> q (now_at env (tick db)) r
                      then f (now_at env (tick db)) (random_at env (tick db)) r else r)
        (row_at key k' (get db))"
  using exec_update_rows [of env k q ok f db] by (auto simp: table_simps assms)

lemma exec_update_frame:
  assumes "\<And>now rnd r. key (f now rnd r) = key r" and "k' \<noteq> k"
  shows "row_at key k' (get (snd (exec_update get put key env k q ok f db))) = row_at key k' (get db)"
  using exec_update_row_at [of f k' env k q ok db, OF assms(1)] assms(2)
  by (cases "row_at key k' (get db)") (auto dest: row_at_SomeD)

text \<open>A row the condition refuses is left alone.\<close>

lemma exec_update_refused:
  assumes "\<And>now rnd r. key (f now rnd r) = key r"
    and "row_at key k (get db) = Some r" and "\<not> q (now_at env (tick db)) r"
  shows "row_at key k (get (snd (exec_update get put key env k q ok f db))) = Some r"
  using exec_update_row_at [of f k env k q ok db, OF assms(1)] assms(2,3) by auto

lemma exec_update_all:
  assumes "\<And>now rnd r. P r \<Longrightarrow> ok r \<Longrightarrow> q now r \<Longrightarrow> P (f now rnd r)" and "list_all P (get db)"
  shows "list_all P (get (snd (exec_update get put key env k q ok f db)))"
proof (cases "pg_update env (tick db) (\<lambda>r. key r = k \<and> q (now_at env (tick db)) r) ok
    (f (now_at env (tick db)) (random_at env (tick db))) (get db)")
  case (Inl e)
  then show ?thesis using assms(2) by (simp add: exec_update_def Let_def get_bump)
next
  case (Inr a)
  then show ?thesis using assms
    by (auto simp: exec_update_def Let_def get_put get_bump pg_update_def list_all_iff set_upd_where
        split: option.splits if_splits)
qed

text \<open>What a success says about the table before and after.\<close>

lemma exec_update_InrD:
  assumes "exec_update get put key env k q (\<lambda>_. True) f db = (Inr m, db')"
  shows "m = length (filter (\<lambda>r. key r = k \<and> q (now_at env (tick db)) r) (get db))"
    and "get db' = upd_where (\<lambda>r. key r = k \<and> q (now_at env (tick db)) r)
           (f (now_at env (tick db)) (random_at env (tick db))) (get db)"
  using assms by (auto simp: exec_update_def Let_def get_put get_bump split: sum.splits dest: pg_update_InrD)

text \<open>What the statement does when it does not fail.\<close>

lemma exec_update_hit:
  assumes "fault_at env (tick db) = None" and "distinct (map key (get db))"
    and "row_at key k (get db) = Some r" and "q (now_at env (tick db)) r" and "ok r"
  shows "exec_update get put key env k q ok f db =
     (Inr 1, bump (put (\<lambda>_. upd_where (\<lambda>r. key r = k \<and> q (now_at env (tick db)) r)
       (f (now_at env (tick db)) (random_at env (tick db))) (get db)) db))"
proof -
  have "\<not> (\<exists>r \<in> set (get db). (key r = k \<and> q (now_at env (tick db)) r) \<and> \<not> ok r)"
    using assms(2,3,5) by (metis row_at_in_set option.inject)
  with assms show ?thesis
    by (simp add: exec_update_def pg_update_def Let_def filter_key_distinct)
qed

text \<open>A conditional statement: how many rows it took, and what the key holds afterwards.\<close>

lemma exec_update_cond:
  assumes "fault_at env (tick db) = None" and "distinct (map key (get db))"
    and "\<And>now rnd r. key (f now rnd r) = key r"
  shows "fst (exec_update get put key env k q (\<lambda>_. True) f db) =
      Inr (if opt_holds (q (now_at env (tick db))) (row_at key k (get db)) then 1 else 0)"
    and "row_at key k (get (snd (exec_update get put key env k q (\<lambda>_. True) f db))) =
      map_option (\<lambda>r. if q (now_at env (tick db)) r
          then f (now_at env (tick db)) (random_at env (tick db)) r else r)
        (row_at key k (get db))"
  using assms
  by (cases "row_at key k (get db)";
      auto simp: exec_update_def pg_update_def Let_def filter_key_distinct get_put get_bump table_simps
      dest: row_at_SomeD)+

lemma exec_mark_hit:
  assumes "fault_at env (tick db) = None" and "distinct (map key (get db))"
    and "row_at key k (get db) = Some r" and "q (now_at env (tick db)) r" and "ok r"
    and "\<And>now rnd r. key (f now rnd r) = key r"
  shows "fst (exec_mark get put key env kind k q ok f db) = Inr ()"
    and "row_at key k (get (snd (exec_mark get put key env kind k q ok f db))) =
      Some (f (now_at env (tick db)) (random_at env (tick db)) r)"
proof -
  note hit = exec_update_hit [of env db k r q ok f, OF assms(1-5)]
  show "fst (exec_mark get put key env kind k q ok f db) = Inr ()"
    by (simp add: exec_mark_def hit require_updated_def)
  show "row_at key k (get (snd (exec_mark get put key env kind k q ok f db))) =
      Some (f (now_at env (tick db)) (random_at env (tick db)) r)"
    using assms(3,4) by (auto simp: exec_mark_snd hit get_bump get_put table_simps assms(6) dest: row_at_SomeD)
qed

text \<open>When no row matches, or when an expression is out of range, nothing changes and the caller is told.\<close>

lemma exec_mark_miss:
  assumes "fault_at env (tick db) = None" and "distinct (map key (get db))"
    and "\<And>r. row_at key k (get db) = Some r \<Longrightarrow> \<not> q (now_at env (tick db)) r"
  shows "fst (exec_mark get put key env kind k q ok f db) = Inl (NotFound (kind @ '' '' @ fmt_uuid env k))"
    and "get (snd (exec_mark get put key env kind k q ok f db)) = get db"
proof -
  have none: "\<forall>r \<in> set (get db). \<not> (key r = k \<and> q (now_at env (tick db)) r)"
    using assms(2,3) by (metis row_at_in_set)
  then have "filter (\<lambda>r. key r = k \<and> q (now_at env (tick db)) r) (get db) = []"
    by (simp add: filter_empty_conv)
  moreover have "upd_where (\<lambda>r. key r = k \<and> q (now_at env (tick db)) r) g (get db) = get db" for g
    using none by (rule upd_where_none)
  ultimately show "fst (exec_mark get put key env kind k q ok f db) = Inl (NotFound (kind @ '' '' @ fmt_uuid env k))"
    and "get (snd (exec_mark get put key env kind k q ok f db)) = get db"
    using assms(1) none by (auto simp: exec_mark_def exec_update_def pg_update_def Let_def
        require_updated_def get_bump get_put)
qed

lemma exec_mark_out_of_range:
  assumes "fault_at env (tick db) = None"
    and "row_at key k (get db) = Some r" and "q (now_at env (tick db)) r" and "\<not> ok r"
  shows "exec_mark get put key env kind k q ok f db = (Inl (db_err env out_of_range), bump db)"
proof -
  have "\<exists>r \<in> set (get db). (key r = k \<and> q (now_at env (tick db)) r) \<and> \<not> ok r"
    using assms(2-4) by (blast dest: row_at_SomeD)
  with assms(1) show ?thesis
    by (simp add: exec_mark_def exec_update_def pg_update_def Let_def)
qed

lemma exec_mark_fault:
  assumes "fault_at env (tick db) = Some e"
  shows "exec_mark get put key env kind k q ok f db = (Inl (db_err env e), bump db)"
  using assms by (simp add: exec_mark_def exec_update_def pg_update_def Let_def)

end

text \<open>Every table of the database satisfies the laws.\<close>

interpretation sync_t: table registry_sync registry_sync_update rs_passport_id
  by unfold_locales simp_all

interpretation transfer_t: table registry_transfer registry_transfer_update rt_transfer_id
  by unfold_locales simp_all

interpretation subscription_t: table webhook_subscription webhook_subscription_update ws_id
  by unfold_locales simp_all

interpretation delivery_t: table webhook_delivery webhook_delivery_update wd_id
  by unfold_locales simp_all

interpretation snapshot_t: table snapshot_outbox snapshot_outbox_update so_id
  by unfold_locales simp_all

interpretation seal_t: table seal_outbox seal_outbox_update sl_id
  by unfold_locales simp_all

interpretation passport_t: table passport passport_update pp_id
  by unfold_locales simp_all

interpretation key_t: table api_key api_key_update ak_id
  by unfold_locales simp_all

interpretation job_t: table import_job import_job_update ij_id
  by unfold_locales simp_all

end
