(* ===== verification/Registry_Sync.thy ===== *)
theory Registry_Sync
  imports Statements
begin

text \<open>
  The outbox for EU registry registration: the types of
  \<^verbatim>\<open>dpp-types/src/registry_sync.rs\<close> and the statements of
  \<^verbatim>\<open>dpp-dal/src/pg/repo_registry_sync.rs\<close>. The queue state and the status intent are
  two columns; the \<^verbatim>\<open>mark_*\<close> statements move the first, \<open>record_status_intent\<close>
  writes the second, and only \<open>queue_registration_in_tx\<close> creates rows.
\<close>

subsection \<open>Types\<close>

datatype RegistrySyncStatus =
    SyncPending | SyncSubmitted | SyncRegistered | SyncRejected | SyncDeactivated | SyncAbandoned

fun sync_as_db :: "RegistrySyncStatus \<Rightarrow> string" where
  "sync_as_db SyncPending = ''pending''"
| "sync_as_db SyncSubmitted = ''submitted''"
| "sync_as_db SyncRegistered = ''registered''"
| "sync_as_db SyncRejected = ''rejected''"
| "sync_as_db SyncDeactivated = ''deactivated''"
| "sync_as_db SyncAbandoned = ''abandoned''"

definition sync_from_db :: "string \<Rightarrow> RegistrySyncStatus" where
  "sync_from_db s =
     (if s = ''submitted'' then SyncSubmitted
      else if s = ''registered'' then SyncRegistered
      else if s = ''rejected'' then SyncRejected
      else if s = ''deactivated'' then SyncDeactivated
      else if s = ''abandoned'' then SyncAbandoned
      else SyncPending)"

fun sync_is_drainable :: "RegistrySyncStatus \<Rightarrow> bool" where
  "sync_is_drainable SyncPending = True"
| "sync_is_drainable SyncSubmitted = True"
| "sync_is_drainable _ = False"

datatype RegistryStatusIntent = IntentSuspended | IntentDeactivated

fun intent_as_db :: "RegistryStatusIntent \<Rightarrow> string" where
  "intent_as_db IntentSuspended = ''suspended''"
| "intent_as_db IntentDeactivated = ''deactivated''"

definition intent_from_db :: "string \<Rightarrow> RegistryStatusIntent option" where
  "intent_from_db s =
     (if s = ''suspended'' then Some IntentSuspended
      else if s = ''deactivated'' then Some IntentDeactivated
      else None)"

record RegistrySyncRow =
  sync_passport_id :: uuid
  sync_status :: RegistrySyncStatus
  sync_status_intent :: "RegistryStatusIntent option"
  sync_registry_id :: "string option"
  sync_payload :: "json option"
  sync_message :: "string option"
  sync_attempts :: nat
  sync_next_attempt_at :: time

record RegistrySyncCounts =
  cnt_pending :: nat
  cnt_submitted :: nat
  cnt_deactivated :: nat
  cnt_registered :: nat
  cnt_rejected :: nat
  cnt_abandoned :: nat
  cnt_status_intents :: nat
  cnt_stalled :: nat

definition row_to_sync :: "registry_sync_rec \<Rightarrow> RegistrySyncRow" where
  "row_to_sync r =
     \<lparr>sync_passport_id = rs_passport_id r,
      sync_status = sync_from_db (rs_status r),
      sync_status_intent = Option.bind (rs_status_intent r) intent_from_db,
      sync_registry_id = rs_registry_id r,
      sync_payload = rs_payload r,
      sync_message = rs_message r,
      sync_attempts = rs_attempts r,
      sync_next_attempt_at = rs_next_attempt_at r\<rparr>"

subsection \<open>Statements\<close>

abbreviation sync_mark ::
  "pg_env \<Rightarrow> uuid \<Rightarrow> (registry_sync_rec \<Rightarrow> bool) \<Rightarrow> (time \<Rightarrow> rat \<Rightarrow> registry_sync_rec \<Rightarrow> registry_sync_rec) \<Rightarrow>
   odal \<Rightarrow> (dpp_error + unit) \<times> odal"
where
  "sync_mark env pid ok f db \<equiv>
     exec_mark registry_sync registry_sync_update rs_passport_id env
       ''registry_sync row for passport'' pid (\<lambda>_ r. rs_status r \<noteq> ''abandoned'') ok f db"

definition submitted_row :: "string \<Rightarrow> string option \<Rightarrow> time \<Rightarrow> rat \<Rightarrow> registry_sync_rec \<Rightarrow> registry_sync_rec" where
  "submitted_row registry_id message now rnd r = r\<lparr>rs_status := ''submitted'',
          rs_registry_id := (if registry_id = [] then rs_registry_id r else Some registry_id),
          rs_submitted_at := Some (case rs_submitted_at r of Some t \<Rightarrow> t | None \<Rightarrow> now),
          rs_attempts := rs_attempts r + 1,
          rs_last_attempt_at := Some now,
          rs_next_attempt_at := now + backoff (rs_attempts r) rnd,
          rs_message := message,
          rs_updated_at := now\<rparr>"

definition sync_submitted :: "pg_env \<Rightarrow> uuid \<Rightarrow> string \<Rightarrow> string option \<Rightarrow> odal \<Rightarrow> (dpp_error + unit) \<times> odal" where
  "sync_submitted env pid registry_id message =
     sync_mark env pid (\<lambda>r. backoff_ok (rs_attempts r))
       (submitted_row registry_id message)"

definition sync_mark_submitted :: "pg_env \<Rightarrow> uuid \<Rightarrow> string \<Rightarrow> odal \<Rightarrow> (dpp_error + unit) \<times> odal" where
  "sync_mark_submitted env pid registry_id = sync_submitted env pid registry_id None"

definition sync_mark_submitted_noting :: "pg_env \<Rightarrow> uuid \<Rightarrow> string \<Rightarrow> odal \<Rightarrow> (dpp_error + unit) \<times> odal" where
  "sync_mark_submitted_noting env pid message = sync_submitted env pid [] (Some message)"

definition deactivated_row :: "string \<Rightarrow> time \<Rightarrow> rat \<Rightarrow> registry_sync_rec \<Rightarrow> registry_sync_rec" where
  "deactivated_row message now rnd r = r\<lparr>rs_status := ''deactivated'',
          rs_message := Some message,
          rs_last_attempt_at := Some now,
          rs_updated_at := now\<rparr>"

definition sync_mark_deactivated :: "pg_env \<Rightarrow> uuid \<Rightarrow> string \<Rightarrow> odal \<Rightarrow> (dpp_error + unit) \<times> odal" where
  "sync_mark_deactivated env pid message =
     sync_mark env pid (\<lambda>_. True)
       (deactivated_row message)"

definition registered_row :: "string \<Rightarrow> time \<Rightarrow> rat \<Rightarrow> registry_sync_rec \<Rightarrow> registry_sync_rec" where
  "registered_row registry_id now rnd r = r\<lparr>rs_status := ''registered'',
          rs_registry_id := Some registry_id,
          rs_registered_at := Some now,
          rs_last_attempt_at := Some now,
          rs_message := None,
          rs_updated_at := now\<rparr>"

definition sync_mark_registered :: "pg_env \<Rightarrow> uuid \<Rightarrow> string \<Rightarrow> odal \<Rightarrow> (dpp_error + unit) \<times> odal" where
  "sync_mark_registered env pid registry_id =
     sync_mark env pid (\<lambda>_. True)
       (registered_row registry_id)"

definition rejected_row :: "string \<Rightarrow> time \<Rightarrow> rat \<Rightarrow> registry_sync_rec \<Rightarrow> registry_sync_rec" where
  "rejected_row message now rnd r = r\<lparr>rs_status := ''rejected'',
          rs_message := Some message,
          rs_last_attempt_at := Some now,
          rs_updated_at := now\<rparr>"

definition sync_mark_rejected :: "pg_env \<Rightarrow> uuid \<Rightarrow> string \<Rightarrow> odal \<Rightarrow> (dpp_error + unit) \<times> odal" where
  "sync_mark_rejected env pid message =
     sync_mark env pid (\<lambda>_. True)
       (rejected_row message)"

definition failed_row :: "string \<Rightarrow> time \<Rightarrow> rat \<Rightarrow> registry_sync_rec \<Rightarrow> registry_sync_rec" where
  "failed_row message now rnd r = r\<lparr>rs_attempts := rs_attempts r + 1,
          rs_message := Some message,
          rs_last_attempt_at := Some now,
          rs_next_attempt_at := now + backoff (rs_attempts r) rnd\<rparr>"

definition sync_mark_attempt_failed :: "pg_env \<Rightarrow> uuid \<Rightarrow> string \<Rightarrow> odal \<Rightarrow> (dpp_error + unit) \<times> odal" where
  "sync_mark_attempt_failed env pid message =
     sync_mark env pid (\<lambda>r. backoff_ok (rs_attempts r))
       (failed_row message)"

text \<open>
  The two conditional statements answer whether the row took the write.
\<close>

definition sync_record_handle :: "pg_env \<Rightarrow> uuid \<Rightarrow> string \<Rightarrow> odal \<Rightarrow> (dpp_error + bool) \<times> odal" where
  "sync_record_handle env pid correlation_id db =
     (case exec_update registry_sync registry_sync_update rs_passport_id env pid
        (\<lambda>now r. rs_status r = ''submitted'' \<and> (rs_registry_id r = None \<or> rs_registry_id r = Some []))
        (\<lambda>_. True)
        (\<lambda>now rnd r. r\<lparr>rs_registry_id := Some correlation_id,
           rs_attempts := 0,
           rs_next_attempt_at := now,
           rs_message := None,
           rs_updated_at := now\<rparr>) db of
        (Inl e, db') \<Rightarrow> (Inl e, db')
      | (Inr m, db') \<Rightarrow> (Inr (0 < m), db'))"

definition sync_abandon :: "pg_env \<Rightarrow> uuid \<Rightarrow> string \<Rightarrow> odal \<Rightarrow> (dpp_error + bool) \<times> odal" where
  "sync_abandon env pid message db =
     (case exec_update registry_sync registry_sync_update rs_passport_id env pid
        (\<lambda>now r. rs_status r = ''pending'' \<and> 1 \<le> rs_attempts r \<and> now < rs_next_attempt_at r)
        (\<lambda>_. True)
        (\<lambda>now rnd r. r\<lparr>rs_status := ''abandoned'',
           rs_message := Some message,
           rs_updated_at := now\<rparr>) db of
        (Inl e, db') \<Rightarrow> (Inl e, db')
      | (Inr m, db') \<Rightarrow> (Inr (0 < m), db'))"

definition sync_due :: "pg_env \<Rightarrow> nat \<Rightarrow> odal \<Rightarrow> (dpp_error + RegistrySyncRow list) \<times> odal" where
  "sync_due env limit db =
     (case exec_select registry_sync env
        (\<lambda>now r. rs_status r \<in> {''pending'', ''submitted''} \<and> rs_next_attempt_at r \<le> now)
        rs_next_attempt_at limit db of
        (Inl e, db') \<Rightarrow> (Inl e, db')
      | (Inr rs, db') \<Rightarrow> (Inr (map row_to_sync rs), db'))"

definition sync_pending_for :: "pg_env \<Rightarrow> uuid \<Rightarrow> odal \<Rightarrow> (dpp_error + RegistrySyncRow option) \<times> odal" where
  "sync_pending_for env pid db =
     (case exec_lookup registry_sync rs_passport_id env pid db of
        (Inl e, db') \<Rightarrow> (Inl e, db')
      | (Inr r, db') \<Rightarrow> (Inr (map_option row_to_sync r), db'))"

text \<open>
  The publish transaction's part. The first statement inserts the row, or re-queues
  one that is \<^verbatim>\<open>rejected\<close> or \<^verbatim>\<open>abandoned\<close>; the second clears the status intent. The row
  references the passport, so an insert for an unknown passport is refused.
\<close>

definition foreign_key_violation :: sqlx_error where
  "foreign_key_violation = Database ''insert or update on table violates foreign key constraint''"

definition new_sync_row :: "time \<Rightarrow> uuid \<Rightarrow> json \<Rightarrow> registry_sync_rec" where
  "new_sync_row now pid payload =
     \<lparr>rs_passport_id = pid, rs_registry_id = None, rs_status = ''pending'', rs_status_intent = None,
      rs_payload = Some payload, rs_message = None, rs_attempts = 0, rs_next_attempt_at = now,
      rs_last_attempt_at = None, rs_submitted_at = None, rs_registered_at = None, rs_updated_at = now\<rparr>"

definition requeue_row :: "time \<Rightarrow> json \<Rightarrow> registry_sync_rec \<Rightarrow> registry_sync_rec" where
  "requeue_row now payload r =
     r\<lparr>rs_payload := Some payload, rs_status := ''pending'', rs_attempts := 0,
       rs_next_attempt_at := now, rs_message := None, rs_updated_at := now\<rparr>"

definition upsert_registration :: "pg_env \<Rightarrow> uuid \<Rightarrow> json \<Rightarrow> odal \<Rightarrow> (dpp_error + unit) \<times> odal" where
  "upsert_registration env pid payload db =
     (let n = tick db; now = now_at env n
      in case fault_at env n of
           Some e \<Rightarrow> (Inl (db_err env e), bump db)
         | None \<Rightarrow>
             (case row_at rs_passport_id pid (registry_sync db) of
                None \<Rightarrow>
                  if pid \<in> pp_id ` set (passport db)
                  then (Inr (), bump (db\<lparr>registry_sync := registry_sync db @ [new_sync_row now pid payload]\<rparr>))
                  else (Inl (db_err env foreign_key_violation), bump db)
              | Some _ \<Rightarrow>
                  (Inr (), bump (db\<lparr>registry_sync :=
                     upd_where (\<lambda>r. rs_passport_id r = pid \<and> rs_status r \<in> {''rejected'', ''abandoned''})
                       (requeue_row now payload) (registry_sync db)\<rparr>))))"

definition queue_registration_in_tx :: "pg_env \<Rightarrow> uuid \<Rightarrow> json \<Rightarrow> odal \<Rightarrow> (dpp_error + unit) \<times> odal" where
  "queue_registration_in_tx env pid payload db =
     (case upsert_registration env pid payload db of
        (Inl e, db') \<Rightarrow> (Inl e, db')
      | (Inr _, db') \<Rightarrow>
          (case exec_update registry_sync registry_sync_update rs_passport_id env pid
             (\<lambda>_ r. rs_status_intent r \<noteq> None) (\<lambda>_. True)
             (\<lambda>now rnd r. r\<lparr>rs_status_intent := None, rs_updated_at := now\<rparr>) db' of
             (Inl e, db'') \<Rightarrow> (Inl e, db'')
           | (Inr _, db'') \<Rightarrow> (Inr (), db'')))"

definition record_status_intent :: "pg_env \<Rightarrow> uuid \<Rightarrow> RegistryStatusIntent \<Rightarrow> odal \<Rightarrow> (dpp_error + unit) \<times> odal" where
  "record_status_intent env pid intent db =
     (case exec_update registry_sync registry_sync_update rs_passport_id env pid
        (\<lambda>_ _. True) (\<lambda>_. True)
        (\<lambda>now rnd r. r\<lparr>rs_status_intent := Some (intent_as_db intent), rs_updated_at := now\<rparr>) db of
        (Inl e, db') \<Rightarrow> (Inl e, db')
      | (Inr _, db') \<Rightarrow> (Inr (), db'))"

definition unregistered_published_count :: "pg_env \<Rightarrow> odal \<Rightarrow> (dpp_error + nat) \<times> odal" where
  "unregistered_published_count env db =
     (case fault_at env (tick db) of
        Some e \<Rightarrow> (Inl (db_err env e), bump db)
      | None \<Rightarrow>
          (Inr (length (filter (\<lambda>p. pp_doc_status p = ''active'' \<and>
             pp_id p \<notin> rs_passport_id ` set (registry_sync db)) (passport db))), bump db))"

definition sync_count :: "(registry_sync_rec \<Rightarrow> bool) \<Rightarrow> odal \<Rightarrow> nat" where
  "sync_count p db = length (filter p (registry_sync db))"

definition sync_status_counts :: "pg_env \<Rightarrow> nat \<Rightarrow> odal \<Rightarrow> (dpp_error + RegistrySyncCounts) \<times> odal" where
  "sync_status_counts env stall_threshold db =
     (case fault_at env (tick db) of
        Some e \<Rightarrow> (Inl (db_err env e), bump db)
      | None \<Rightarrow>
          (Inr \<lparr>cnt_pending = sync_count (\<lambda>r. rs_status r = ''pending'') db,
                cnt_submitted = sync_count (\<lambda>r. rs_status r = ''submitted'') db,
                cnt_deactivated = sync_count (\<lambda>r. rs_status r = ''deactivated'') db,
                cnt_registered = sync_count (\<lambda>r. rs_status r = ''registered'') db,
                cnt_rejected = sync_count (\<lambda>r. rs_status r = ''rejected'') db,
                cnt_abandoned = sync_count (\<lambda>r. rs_status r = ''abandoned'') db,
                cnt_status_intents = sync_count (\<lambda>r. rs_status_intent r \<noteq> None) db,
                cnt_stalled = sync_count (\<lambda>r. rs_status r \<in> {''pending'', ''submitted''} \<and>
                                             stall_threshold \<le> rs_attempts r) db\<rparr>, bump db))"

lemmas row_defs =
  submitted_row_def deactivated_row_def registered_row_def rejected_row_def failed_row_def

lemma row_keys [simp]:
  "rs_passport_id (submitted_row registry_id note now rnd r) = rs_passport_id r"
  "rs_passport_id (deactivated_row message now rnd r) = rs_passport_id r"
  "rs_passport_id (registered_row registry_id now rnd r) = rs_passport_id r"
  "rs_passport_id (rejected_row message now rnd r) = rs_passport_id r"
  "rs_passport_id (failed_row message now rnd r) = rs_passport_id r"
  by (simp_all add: row_defs)

lemmas sync_mark_defs [op_defs] =
  sync_submitted_def sync_mark_submitted_def sync_mark_submitted_noting_def
  sync_mark_deactivated_def sync_mark_registered_def sync_mark_rejected_def
  sync_mark_attempt_failed_def

subsection \<open>The contract of the outbox\<close>

text \<open>The statements that move a row's queue state, each on one passport's row.\<close>

inductive sync_step :: "pg_env \<Rightarrow> uuid \<Rightarrow> odal \<Rightarrow> odal \<Rightarrow> bool" for env where
  step_submitted: "sync_step env pid db (snd (sync_submitted env pid registry_id message db))"
| step_deactivated: "sync_step env pid db (snd (sync_mark_deactivated env pid message db))"
| step_registered: "sync_step env pid db (snd (sync_mark_registered env pid registry_id db))"
| step_rejected: "sync_step env pid db (snd (sync_mark_rejected env pid message db))"
| step_attempt_failed: "sync_step env pid db (snd (sync_mark_attempt_failed env pid message db))"

lemma step_mark_submitted: "sync_step env pid db (snd (sync_mark_submitted env pid registry_id db))"
  by (simp add: sync_mark_submitted_def step_submitted)

lemma step_mark_submitted_noting: "sync_step env pid db (snd (sync_mark_submitted_noting env pid message db))"
  by (simp add: sync_mark_submitted_noting_def step_submitted)

lemmas sync_steps = step_submitted step_deactivated step_registered step_rejected step_attempt_failed
  step_mark_submitted step_mark_submitted_noting

text \<open>What each statement leaves on the row it names, when it does not fail.\<close>

lemma sync_hit:
  assumes "fault_at env (tick db) = None" and "keys_ok db"
    and "row_at rs_passport_id pid (registry_sync db) = Some r" and "rs_status r \<noteq> ''abandoned''"
  shows sync_registered_hit: "fst (sync_mark_registered env pid registry_id db) = Inr ()"
      "row_at rs_passport_id pid (registry_sync (snd (sync_mark_registered env pid registry_id db))) =
         Some (registered_row registry_id (now_at env (tick db)) (random_at env (tick db)) r)"
    and sync_rejected_hit: "fst (sync_mark_rejected env pid message db) = Inr ()"
      "row_at rs_passport_id pid (registry_sync (snd (sync_mark_rejected env pid message db))) =
         Some (rejected_row message (now_at env (tick db)) (random_at env (tick db)) r)"
    and sync_submitted_hit: "rs_attempts r < 1023 \<Longrightarrow> fst (sync_submitted env pid registry_id note db) = Inr ()"
      "rs_attempts r < 1023 \<Longrightarrow>
       row_at rs_passport_id pid (registry_sync (snd (sync_submitted env pid registry_id note db))) =
         Some (submitted_row registry_id note (now_at env (tick db)) (random_at env (tick db)) r)"
    and sync_failed_hit: "rs_attempts r < 1023 \<Longrightarrow> fst (sync_mark_attempt_failed env pid message db) = Inr ()"
      "rs_attempts r < 1023 \<Longrightarrow>
       row_at rs_passport_id pid (registry_sync (snd (sync_mark_attempt_failed env pid message db))) =
         Some (failed_row message (now_at env (tick db)) (random_at env (tick db)) r)"
proof -
  have d: "distinct (map rs_passport_id (registry_sync db))" using assms(2) by (simp add: keys_ok_def)
  note hit = sync_t.exec_mark_hit [of env db pid r "\<lambda>_ r. rs_status r \<noteq> ''abandoned''", OF assms(1) d assms(3,4)]
  show "fst (sync_mark_registered env pid registry_id db) = Inr ()"
    "row_at rs_passport_id pid (registry_sync (snd (sync_mark_registered env pid registry_id db))) =
         Some (registered_row registry_id (now_at env (tick db)) (random_at env (tick db)) r)"
    by (simp_all add: op_defs hit)
  show "fst (sync_mark_rejected env pid message db) = Inr ()"
    "row_at rs_passport_id pid (registry_sync (snd (sync_mark_rejected env pid message db))) =
         Some (rejected_row message (now_at env (tick db)) (random_at env (tick db)) r)"
    by (simp_all add: op_defs hit)
  show "fst (sync_submitted env pid registry_id note db) = Inr ()"
    "row_at rs_passport_id pid (registry_sync (snd (sync_submitted env pid registry_id note db))) =
         Some (submitted_row registry_id note (now_at env (tick db)) (random_at env (tick db)) r)"
    if "rs_attempts r < 1023"
    using that by (simp_all add: op_defs hit backoff_ok_def)
  show "fst (sync_mark_attempt_failed env pid message db) = Inr ()"
    "row_at rs_passport_id pid (registry_sync (snd (sync_mark_attempt_failed env pid message db))) =
         Some (failed_row message (now_at env (tick db)) (random_at env (tick db)) r)"
    if "rs_attempts r < 1023"
    using that by (simp_all add: op_defs hit backoff_ok_def)
qed

definition sync_statuses :: "string list" where
  "sync_statuses = map sync_as_db
     [SyncPending, SyncSubmitted, SyncRegistered, SyncRejected, SyncDeactivated, SyncAbandoned]"

text \<open>
  What every row keeps: its status is one the queue knows, the payload it was queued
  with is there, a submitted row says when, a registered row has the registration
  identifier and the date, and the attempts never reach the exponent at which the
  backoff expression overflows.
\<close>

definition sync_row_ok :: "registry_sync_rec \<Rightarrow> bool" where
  "sync_row_ok r \<longleftrightarrow>
     rs_status r \<in> set sync_statuses \<and>
     rs_payload r \<noteq> None \<and>
     (rs_status r = ''submitted'' \<longrightarrow> rs_submitted_at r \<noteq> None) \<and>
     (rs_status r = ''registered'' \<longrightarrow> rs_registry_id r \<noteq> None \<and> rs_registered_at r \<noteq> None) \<and>
     rs_attempts r < 1024"

interpretation sync_ob: guarded_outbox registry_sync rs_passport_id "sync_step env"
    "\<lambda>r. rs_status r = ''abandoned''" for env
proof unfold_locales
  fix k s t k'
  assume st: "sync_step env k s t"
  show "map rs_passport_id (registry_sync t) = map rs_passport_id (registry_sync s)"
    using st by cases (simp_all add: op_defs sync_t.exec_mark_snd sync_t.exec_update_keys)
  show "row_at rs_passport_id k' (registry_sync t) = row_at rs_passport_id k' (registry_sync s)"
    if "k' \<noteq> k"
    using st that by cases (simp_all add: op_defs sync_t.exec_mark_snd sync_t.exec_update_frame)
  show "row_at rs_passport_id k (registry_sync t) = Some r"
    if "row_at rs_passport_id k (registry_sync s) = Some r" and "rs_status r = ''abandoned''" for r
    using st that by cases (simp_all add: op_defs sync_t.exec_mark_snd sync_t.exec_update_refused)
qed

interpretation sync_ty: typed_outbox registry_sync rs_passport_id "sync_step env" sync_row_ok for env
proof unfold_locales
  fix k s t
  assume st: "sync_step env k s t" and ok: "list_all sync_row_ok (registry_sync s)"
  show "list_all sync_row_ok (registry_sync t)"
    using st
    by cases
      (simp_all add: op_defs sync_t.exec_mark_snd,
       (rule sync_t.exec_update_all [OF _ ok],
        auto simp: row_defs sync_row_ok_def sync_statuses_def backoff_ok_def)+)
qed

lemma sync_step_tick: "sync_step env k s t \<Longrightarrow> tick t = tick s + 1"
  by (induction rule: sync_step.induct) (simp_all add: op_defs sync_t.exec_mark_tick)

subsection \<open>Properties\<close>

text \<open>
   (round trip). Every status written to the \<^verbatim>\<open>status\<close> column is read back
  as itself, and every text that is not one of them is read as \<^verbatim>\<open>Pending\<close>; a status is
  drainable exactly when \<open>due\<close> selects its text.
\<close>

theorem sync_status_roundtrip:
  "sync_from_db (sync_as_db s) = s \<and>
   (t \<notin> set sync_statuses \<longrightarrow> sync_from_db t = SyncPending) \<and>
   (sync_is_drainable s \<longleftrightarrow> sync_as_db s \<in> {''pending'', ''submitted''})"
  by (cases s) (auto simp: sync_from_db_def sync_statuses_def)

theorem sync_status_roundtrip_witness:
  "sync_from_db (sync_as_db SyncAbandoned) = SyncAbandoned \<and> sync_from_db ''suspended'' = SyncPending"
  using sync_status_roundtrip [of SyncAbandoned "''suspended''"]
  by (simp add: sync_statuses_def)

text \<open>The first statement of the publish transaction, on the row of the passport and elsewhere.\<close>

lemma upsert_registration_row:
  assumes "fault_at env (tick db) = None" and "pid \<in> pp_id ` set (passport db)"
  shows "fst (upsert_registration env pid payload db) = Inr ()"
    and "row_at rs_passport_id pid (registry_sync (snd (upsert_registration env pid payload db))) =
      Some (case row_at rs_passport_id pid (registry_sync db) of
              None \<Rightarrow> new_sync_row (now_at env (tick db)) pid payload
            | Some r \<Rightarrow> if rs_status r \<in> {''rejected'', ''abandoned''}
                        then requeue_row (now_at env (tick db)) payload r else r)"
    and "k \<noteq> pid \<Longrightarrow> row_at rs_passport_id k (registry_sync (snd (upsert_registration env pid payload db))) =
      row_at rs_passport_id k (registry_sync db)"
    and "distinct (map rs_passport_id (registry_sync db)) \<Longrightarrow>
      distinct (map rs_passport_id (registry_sync (snd (upsert_registration env pid payload db))))"
proof -
  have req: "rs_passport_id (requeue_row now payload r) = rs_passport_id r" for now r
    by (simp add: requeue_row_def)
  have new: "rs_passport_id (new_sync_row now pid payload) = pid" for now
    by (simp add: new_sync_row_def)
  note d = upsert_registration_def Let_def assms table_simps req new
  show "fst (upsert_registration env pid payload db) = Inr ()"
    by (simp add: d split: option.splits)
  show "row_at rs_passport_id pid (registry_sync (snd (upsert_registration env pid payload db))) =
      Some (case row_at rs_passport_id pid (registry_sync db) of
              None \<Rightarrow> new_sync_row (now_at env (tick db)) pid payload
            | Some r \<Rightarrow> if rs_status r \<in> {''rejected'', ''abandoned''}
                        then requeue_row (now_at env (tick db)) payload r else r)"
    by (cases "row_at rs_passport_id pid (registry_sync db)") (auto simp: d dest: row_at_SomeD)
  show "row_at rs_passport_id k (registry_sync (snd (upsert_registration env pid payload db))) =
      row_at rs_passport_id k (registry_sync db)" if "k \<noteq> pid"
    using that
    by (cases "row_at rs_passport_id pid (registry_sync db)";
        cases "row_at rs_passport_id k (registry_sync db)") (auto simp: d dest: row_at_SomeD)
  show "distinct (map rs_passport_id (registry_sync (snd (upsert_registration env pid payload db))))"
    if "distinct (map rs_passport_id (registry_sync db))"
    using that
    by (cases "row_at rs_passport_id pid (registry_sync db)")
      (auto simp: d dest: row_at_None [THEN iffD1])
qed

text \<open>The second statement clears the intent and nothing else.\<close>

lemma queue_registration_split:
  fixes payload :: json
  assumes "fault_free env" and "keys_ok db" and "pid \<in> pp_id ` set (passport db)"
  defines "db1 \<equiv> snd (upsert_registration env pid payload db)"
  shows "fst (queue_registration_in_tx env pid payload db) = Inr ()"
    and "row_at rs_passport_id pid (registry_sync (snd (queue_registration_in_tx env pid payload db))) =
      map_option (\<lambda>r. if rs_status_intent r \<noteq> None
        then r\<lparr>rs_status_intent := None, rs_updated_at := now_at env (tick db1)\<rparr> else r)
        (row_at rs_passport_id pid (registry_sync db1))"
    and "k \<noteq> pid \<Longrightarrow>
      row_at rs_passport_id k (registry_sync (snd (queue_registration_in_tx env pid payload db))) =
      row_at rs_passport_id k (registry_sync db1)"
proof -
  let ?q = "\<lambda>(_::time) r. rs_status_intent r \<noteq> None"
  let ?f = "\<lambda>now (rnd::rat) r. r\<lparr>rs_status_intent := None, rs_updated_at := now\<rparr>"
  have f: "fault_at env (tick db) = None" and f1: "fault_at env (tick db1) = None"
    using assms(1) by (simp_all add: fault_free_def)
  have d1: "distinct (map rs_passport_id (registry_sync db1))"
    using upsert_registration_row(4) [OF f assms(3)] assms(2) by (simp add: db1_def keys_ok_def)
  have up: "upsert_registration env pid payload db = (Inr (), db1)"
    using upsert_registration_row(1) [OF f assms(3), of payload] unfolding db1_def by (metis prod.collapse)
  note c = sync_t.exec_update_cond [of env db1 ?f pid ?q, OF f1 d1, simplified]
  have q: "queue_registration_in_tx env pid payload db =
      (Inr (), snd (exec_update registry_sync registry_sync_update rs_passport_id env pid ?q (\<lambda>_. True) ?f db1))"
    using c(1) by (auto simp: queue_registration_in_tx_def up split: prod.splits sum.splits if_splits)
  show "fst (queue_registration_in_tx env pid payload db) = Inr ()" by (simp add: q)
  show "row_at rs_passport_id pid (registry_sync (snd (queue_registration_in_tx env pid payload db))) =
      map_option (\<lambda>r. if rs_status_intent r \<noteq> None
        then r\<lparr>rs_status_intent := None, rs_updated_at := now_at env (tick db1)\<rparr> else r)
        (row_at rs_passport_id pid (registry_sync db1))"
    using c(2) by (simp add: q)
  show "row_at rs_passport_id k (registry_sync (snd (queue_registration_in_tx env pid payload db))) =
      row_at rs_passport_id k (registry_sync db1)" if "k \<noteq> pid"
    using that by (simp add: q sync_t.exec_update_frame)
qed

text \<open>
  What publishing queues: with no fault, for a passport that
  exists, the transaction succeeds and afterwards the passport has a row without a
  status intent. A new row, and one that was rejected or abandoned, is pending with
  the new payload, no attempts, and due now; any other row keeps its queue state.
  No other passport's row changes.
\<close>

theorem queue_registration_effect:
  assumes "fault_free env" and "keys_ok db" and "pid \<in> pp_id ` set (passport db)"
    and "queue_registration_in_tx env pid payload db = (res, db')"
  shows "res = Inr () \<and>
    (\<exists>r'. row_at rs_passport_id pid (registry_sync db') = Some r' \<and> rs_status_intent r' = None \<and>
       (case row_at rs_passport_id pid (registry_sync db) of
          None \<Rightarrow> rs_status r' = ''pending'' \<and> rs_payload r' = Some payload \<and> rs_attempts r' = 0 \<and>
                  rs_next_attempt_at r' = now_at env (tick db)
        | Some r \<Rightarrow>
            if rs_status r \<in> {''rejected'', ''abandoned''}
            then rs_status r' = ''pending'' \<and> rs_payload r' = Some payload \<and> rs_attempts r' = 0 \<and>
                 rs_next_attempt_at r' = now_at env (tick db)
            else rs_status r' = rs_status r \<and> rs_payload r' = rs_payload r \<and>
                 rs_attempts r' = rs_attempts r \<and> rs_next_attempt_at r' = rs_next_attempt_at r)) \<and>
    (\<forall>k. k \<noteq> pid \<longrightarrow>
       row_at rs_passport_id k (registry_sync db') = row_at rs_passport_id k (registry_sync db))"
proof -
  have f: "fault_at env (tick db) = None" using assms(1) by (simp add: fault_free_def)
  note up = upsert_registration_row [OF f assms(3), where payload = payload]
    and sp = queue_registration_split [OF assms(1-3), where payload = payload]
  show ?thesis
    using up(2,3) sp assms(4)
    by (cases "row_at rs_passport_id pid (registry_sync db)") (auto simp: new_sync_row_def requeue_row_def)
qed

definition sample_db :: odal where
  "sample_db = empty_db\<lparr>
     passport := [\<lparr>pp_id = 7, pp_status = ''active'', pp_doc_status = ''active'',
       pp_published_at = Some 0, pp_updated_at = 0, pp_jws = None, pp_seal = None\<rparr>],
     registry_sync := [(new_sync_row 0 8 JNull)\<lparr>rs_attempts := 1, rs_next_attempt_at := 9\<rparr>,
       (new_sync_row 0 9 JNull)\<lparr>rs_status := ''submitted'', rs_submitted_at := Some 0, rs_attempts := 1\<rparr>]\<rparr>"

lemma sample_db_simps:
  "tick sample_db = 0"
  "registry_sync sample_db = [(new_sync_row 0 8 JNull)\<lparr>rs_attempts := 1, rs_next_attempt_at := 9\<rparr>,
     (new_sync_row 0 9 JNull)\<lparr>rs_status := ''submitted'', rs_submitted_at := Some 0, rs_attempts := 1\<rparr>]"
  "passport sample_db = [\<lparr>pp_id = 7, pp_status = ''active'', pp_doc_status = ''active'',
     pp_published_at = Some 0, pp_updated_at = 0, pp_jws = None, pp_seal = None\<rparr>]"
  by (simp_all add: sample_db_def empty_db_def)

lemma sample_db_keys: "keys_ok sample_db"
  by (simp add: sample_db_def keys_ok_def empty_db_def new_sync_row_def)

theorem queue_registration_effect_witness:
  "fst (queue_registration_in_tx sample_env 7 JNull sample_db) = Inr () \<and>
   opt_holds (\<lambda>r. rs_status r = ''pending'')
     (row_at rs_passport_id 7 (registry_sync (snd (queue_registration_in_tx sample_env 7 JNull sample_db))))"
proof -
  have pid: "7 \<in> pp_id ` set (passport sample_db)" by (simp add: sample_db_simps)
  obtain res db' where q: "queue_registration_in_tx sample_env 7 JNull sample_db = (res, db')" by fastforce
  from queue_registration_effect [OF sample_env_ok(1) sample_db_keys pid q] show ?thesis
    by (auto simp: q sample_db_simps new_sync_row_def)
qed

text \<open>
  Recording a status intent never touches the queue: whatever
  fails, every row keeps every column but the intent and the update time, and no row
  is created or removed.
\<close>

definition queue_part :: "registry_sync_rec \<Rightarrow> registry_sync_rec" where
  "queue_part r = r\<lparr>rs_status_intent := None, rs_updated_at := 0\<rparr>"

theorem record_status_intent_keeps_queue:
  "map queue_part (registry_sync (snd (record_status_intent env pid intent db))) =
   map queue_part (registry_sync db)"
proof -
  let ?f = "\<lambda>now (rnd::rat) r. r\<lparr>rs_status_intent := Some (intent_as_db intent), rs_updated_at := now\<rparr>"
  have "snd (record_status_intent env pid intent db) =
      snd (exec_update registry_sync registry_sync_update rs_passport_id env pid (\<lambda>_ _. True) (\<lambda>_. True) ?f db)"
    by (simp add: record_status_intent_def split: prod.splits sum.splits)
  then show ?thesis
    using sync_t.exec_update_rows [of env pid "\<lambda>_ _. True" "\<lambda>_. True" ?f db]
    by (auto simp: upd_where_def queue_part_def)
qed

text \<open>
  Abandoning a registration takes effect exactly on a row that
  is pending, has been tried and is backed off; the answer says so, and a row that is
  not in that state is left as it is.
\<close>

theorem sync_abandon_effect:
  assumes "fault_free env" and "keys_ok db"
    and "sync_abandon env pid message db = (res, db')"
  shows "(\<exists>took. res = Inr took \<and>
      (took \<longleftrightarrow> (\<exists>r. row_at rs_passport_id pid (registry_sync db) = Some r \<and> rs_status r = ''pending'' \<and>
                     1 \<le> rs_attempts r \<and> now_at env (tick db) < rs_next_attempt_at r)) \<and>
      row_at rs_passport_id pid (registry_sync db') =
        map_option (\<lambda>r. if took then r\<lparr>rs_status := ''abandoned'', rs_message := Some message,
                                      rs_updated_at := now_at env (tick db)\<rparr> else r)
          (row_at rs_passport_id pid (registry_sync db)))"
proof -
  let ?q = "\<lambda>now r. rs_status r = ''pending'' \<and> 1 \<le> rs_attempts r \<and> now < rs_next_attempt_at r"
  let ?f = "\<lambda>now (rnd::rat) r. r\<lparr>rs_status := ''abandoned'', rs_message := Some message, rs_updated_at := now\<rparr>"
  have "fault_at env (tick db) = None" "distinct (map rs_passport_id (registry_sync db))"
    using assms by (auto simp: fault_free_def keys_ok_def)
  note c = sync_t.exec_update_cond [of env db ?f pid ?q, OF this]
  show ?thesis
    using c assms(3)
    by (cases "row_at rs_passport_id pid (registry_sync db)")
      (auto simp: sync_abandon_def split: prod.splits sum.splits if_splits)
qed

theorem sync_abandon_effect_witness:
  "fst (sync_abandon sample_env 8 ''given up'' sample_db) = Inr True"
proof -
  obtain res db' where a: "sync_abandon sample_env 8 ''given up'' sample_db = (res, db')" by fastforce
  from sync_abandon_effect [OF sample_env_ok(1) sample_db_keys a] show ?thesis
    by (auto simp: a sample_db_simps new_sync_row_def)
qed

text \<open>
  A correlation identifier recorded by hand is taken only by a
  submitted row that holds none: an identifier the registry gave is never overwritten,
  and a row in any other state does not change.
\<close>

theorem sync_record_handle_effect:
  assumes "fault_free env" and "keys_ok db"
    and "sync_record_handle env pid cid db = (res, db')"
  shows "(\<exists>took. res = Inr took \<and>
      (took \<longleftrightarrow> (\<exists>r. row_at rs_passport_id pid (registry_sync db) = Some r \<and> rs_status r = ''submitted'' \<and>
                     (rs_registry_id r = None \<or> rs_registry_id r = Some []))) \<and>
      row_at rs_passport_id pid (registry_sync db') =
        map_option (\<lambda>r. if took then r\<lparr>rs_registry_id := Some cid, rs_attempts := 0,
                          rs_next_attempt_at := now_at env (tick db), rs_message := None,
                          rs_updated_at := now_at env (tick db)\<rparr> else r)
          (row_at rs_passport_id pid (registry_sync db)))"
proof -
  let ?q = "\<lambda>(now::time) r. rs_status r = ''submitted'' \<and> (rs_registry_id r = None \<or> rs_registry_id r = Some [])"
  let ?f = "\<lambda>now (rnd::rat) r. r\<lparr>rs_registry_id := Some cid, rs_attempts := 0,
      rs_next_attempt_at := now, rs_message := None, rs_updated_at := now\<rparr>"
  have "fault_at env (tick db) = None" "distinct (map rs_passport_id (registry_sync db))"
    using assms by (auto simp: fault_free_def keys_ok_def)
  note c = sync_t.exec_update_cond [of env db ?f pid ?q, OF this]
  show ?thesis
    using c assms(3)
    by (cases "row_at rs_passport_id pid (registry_sync db)")
      (auto simp: sync_record_handle_def split: prod.splits sum.splits if_splits)
qed

theorem sync_record_handle_effect_witness:
  "fst (sync_record_handle sample_env 9 ''corr'' sample_db) = Inr True"
proof -
  obtain res db' where a: "sync_record_handle sample_env 9 ''corr'' sample_db = (res, db')" by fastforce
  from sync_record_handle_effect [OF sample_env_ok(1) sample_db_keys a] show ?thesis
    by (auto simp: a sample_db_simps new_sync_row_def)
qed

text \<open>
  What a drain pass fetches: with no fault, at most \<open>limit\<close>
  rows, in the order of their next attempt, each the reading of a stored row that is
  pending or submitted and due; and all of those when there are not more than \<open>limit\<close>.
\<close>

theorem sync_due_spec:
  assumes "fault_free env" and "sync_due env limit db = (res, db')"
  shows "\<exists>rows. res = Inr rows \<and> db' = bump db \<and> length rows \<le> limit \<and>
    sorted (map sync_next_attempt_at rows) \<and>
    (\<forall>row \<in> set rows. \<exists>r \<in> set (registry_sync db). row = row_to_sync r \<and>
        sync_is_drainable (sync_status row) \<and> sync_next_attempt_at row \<le> now_at env (tick db)) \<and>
    (length (registry_sync db) \<le> limit \<longrightarrow>
       (\<forall>r \<in> set (registry_sync db). rs_status r \<in> {''pending'', ''submitted''} \<longrightarrow>
          rs_next_attempt_at r \<le> now_at env (tick db) \<longrightarrow> row_to_sync r \<in> set rows))"
proof -
  let ?p = "\<lambda>r. rs_status r \<in> {''pending'', ''submitted''} \<and> rs_next_attempt_at r \<le> now_at env (tick db)"
  let ?rs = "take limit (sort_key rs_next_attempt_at (filter ?p (registry_sync db)))"
  have ex: "exec_select registry_sync env
      (\<lambda>now r. rs_status r \<in> {''pending'', ''submitted''} \<and> rs_next_attempt_at r \<le> now)
      rs_next_attempt_at limit db = (Inr ?rs, bump db)"
    by (rule exec_select_fault_free [OF assms(1)])
  then have res: "res = Inr (map row_to_sync ?rs)" and db': "db' = bump db"
    using assms(2) by (simp_all add: sync_due_def)
  have sub: "r \<in> set (registry_sync db) \<and> ?p r" if "r \<in> set ?rs" for r
    using in_set_takeD [OF that] by simp
  have all: "r \<in> set ?rs" if "length (registry_sync db) \<le> limit" "r \<in> set (registry_sync db)" "?p r" for r
  proof -
    have "length (sort_key rs_next_attempt_at (filter ?p (registry_sync db))) \<le> limit"
      unfolding length_sort by (rule le_trans [OF length_filter_le that(1)])
    with that show ?thesis by (simp add: take_all)
  qed
  have "sorted (map sync_next_attempt_at (map row_to_sync ?rs))"
    using exec_select_InrD(4) [OF ex] by (simp add: row_to_sync_def comp_def)
  moreover have "\<forall>row \<in> set (map row_to_sync ?rs). \<exists>r \<in> set (registry_sync db). row = row_to_sync r \<and>
        sync_is_drainable (sync_status row) \<and> sync_next_attempt_at row \<le> now_at env (tick db)"
  proof
    fix row assume "row \<in> set (map row_to_sync ?rs)"
    then obtain r where r: "row = row_to_sync r" "r \<in> set ?rs" by auto
    have p: "r \<in> set (registry_sync db)" "?p r" using sub [OF r(2)] by blast+
    from p(2) have "sync_is_drainable (sync_status row) \<and> sync_next_attempt_at row \<le> now_at env (tick db)"
      by (auto simp: r(1) row_to_sync_def sync_from_db_def)
    with p(1) r(1) show "\<exists>r \<in> set (registry_sync db). row = row_to_sync r \<and>
        sync_is_drainable (sync_status row) \<and> sync_next_attempt_at row \<le> now_at env (tick db)"
      by blast
  qed
  moreover have "length (map row_to_sync ?rs) \<le> limit" by simp
  moreover have "length (registry_sync db) \<le> limit \<longrightarrow>
       (\<forall>r \<in> set (registry_sync db). rs_status r \<in> {''pending'', ''submitted''} \<longrightarrow>
          rs_next_attempt_at r \<le> now_at env (tick db) \<longrightarrow> row_to_sync r \<in> set (map row_to_sync ?rs))"
    using all unfolding set_map by blast
  ultimately show ?thesis
    using res db' by (intro exI [of _ "map row_to_sync ?rs"] conjI) blast+
qed

theorem sync_due_spec_witness:
  "\<exists>rows. fst (sync_due sample_env 10 sample_db) = Inr rows \<and>
     row_to_sync ((new_sync_row 0 9 JNull)\<lparr>rs_status := ''submitted'', rs_submitted_at := Some 0,
       rs_attempts := 1\<rparr>) \<in> set rows"
proof -
  obtain res db' where d: "sync_due sample_env 10 sample_db = (res, db')" by fastforce
  from sync_due_spec [OF sample_env_ok(1) d] show ?thesis
    by (auto simp: d sample_db_simps new_sync_row_def)
qed

lemma status_filters_partition:
  "list_all sync_row_ok rs \<Longrightarrow>
   length (filter (\<lambda>r. rs_status r = ''pending'') rs) + length (filter (\<lambda>r. rs_status r = ''submitted'') rs) +
   length (filter (\<lambda>r. rs_status r = ''deactivated'') rs) + length (filter (\<lambda>r. rs_status r = ''registered'') rs) +
   length (filter (\<lambda>r. rs_status r = ''rejected'') rs) + length (filter (\<lambda>r. rs_status r = ''abandoned'') rs)
   = length rs"
proof (induction rs)
  case (Cons r rs)
  then have "rs_status r \<in> set sync_statuses" by (simp add: sync_row_ok_def)
  then consider "rs_status r = ''pending''" | "rs_status r = ''submitted''" | "rs_status r = ''registered''"
    | "rs_status r = ''rejected''" | "rs_status r = ''deactivated''" | "rs_status r = ''abandoned''"
    by (auto simp: sync_statuses_def)
  then show ?case using Cons by cases simp_all
qed simp

lemma stalled_le_drainable:
  "length (filter (\<lambda>r. rs_status r \<in> {''pending'', ''submitted''} \<and> n \<le> rs_attempts r) rs)
   \<le> length (filter (\<lambda>r. rs_status r = ''pending'') rs) + length (filter (\<lambda>r. rs_status r = ''submitted'') rs)"
  by (induction rs) auto

text \<open>
  The status counts partition the table, and a row counted as
  stalled is one the drain still owes work on.
\<close>

theorem sync_status_counts_partition:
  assumes "list_all sync_row_ok (registry_sync db)"
    and "sync_status_counts env threshold db = (Inr c, db')"
  shows "cnt_pending c + cnt_submitted c + cnt_deactivated c + cnt_registered c + cnt_rejected c +
      cnt_abandoned c = length (registry_sync db) \<and>
    cnt_stalled c \<le> cnt_pending c + cnt_submitted c"
  using assms(2) status_filters_partition [OF assms(1)] stalled_le_drainable [of threshold "registry_sync db"]
  by (auto simp: sync_status_counts_def sync_count_def split: option.splits)

theorem sync_status_counts_partition_witness:
  "\<exists>c. fst (sync_status_counts sample_env 1 sample_db) = Inr c \<and> cnt_stalled c = 2 \<and>
     cnt_stalled c \<le> cnt_pending c + cnt_submitted c"
proof -
  have ok: "list_all sync_row_ok (registry_sync sample_db)"
    by (simp add: sample_db_simps sync_row_ok_def sync_statuses_def new_sync_row_def)
  obtain c where c: "sync_status_counts sample_env 1 sample_db = (Inr c, bump sample_db)"
    and "cnt_stalled c = 2"
    by (simp add: sync_status_counts_def sync_count_def sample_db_simps new_sync_row_def)
  with sync_status_counts_partition [OF ok c] show ?thesis by simp
qed

text \<open>
  A failed attempt leaves the row in its state, counts one more
  attempt and puts the next one between three quarters and five quarters of
  \<open>min (2 ^ (attempts + 1)) 3600\<close> seconds ahead: never due again at once, and never
  more than 75 minutes away.
\<close>

theorem sync_attempt_failed_backoff:
  assumes "fault_at env (tick db) = None" and "random_ok env" and "keys_ok db"
    and "row_at rs_passport_id pid (registry_sync db) = Some r"
    and "rs_status r \<noteq> ''abandoned''" and "rs_attempts r < 1023"
    and "sync_mark_attempt_failed env pid message db = (res, db')"
  shows "res = Inr () \<and>
    (\<exists>r'. row_at rs_passport_id pid (registry_sync db') = Some r' \<and> rs_status r' = rs_status r \<and>
       rs_registry_id r' = rs_registry_id r \<and> rs_payload r' = rs_payload r \<and>
       rs_attempts r' = rs_attempts r + 1 \<and>
       now_at env (tick db) + 3/4 * min (2 ^ (rs_attempts r + 1)) 3600 \<le> rs_next_attempt_at r' \<and>
       rs_next_attempt_at r' < now_at env (tick db) + 5/4 * min (2 ^ (rs_attempts r + 1)) 3600)"
proof -
  have rnd: "0 \<le> random_at env (tick db)" "random_at env (tick db) < 1"
    using assms(2) by (simp_all add: random_ok_def)
  note hit = sync_failed_hit [OF assms(1,3,4,5,6), of message]
  show ?thesis
    using hit assms(7)
      backoff_lower [OF rnd(1), of "rs_attempts r"] backoff_upper [OF rnd(2), of "rs_attempts r"]
    by (simp add: failed_row_def backoff_base_def)
qed

theorem sync_attempt_failed_backoff_witness:
  "\<exists>r. row_at rs_passport_id 8 (registry_sync (snd (sync_mark_attempt_failed sample_env 8 ''down'' sample_db)))
     = Some r \<and> rs_attempts r = 2 \<and> 3 \<le> rs_next_attempt_at r \<and> rs_next_attempt_at r < 5"
proof -
  obtain res db' where m: "sync_mark_attempt_failed sample_env 8 ''down'' sample_db = (res, db')" by fastforce
  let ?r = "(new_sync_row 0 8 JNull)\<lparr>rs_attempts := 1, rs_next_attempt_at := 9\<rparr>"
  have "row_at rs_passport_id 8 (registry_sync sample_db) = Some ?r"
    by (simp add: sample_db_simps new_sync_row_def)
  from sync_attempt_failed_backoff [OF _ sample_env_ok(2) sample_db_keys this _ _ m] show ?thesis
    by (auto simp: m new_sync_row_def sample_db_simps numeral_2_eq_2)
qed

end
