(* ===== verification/Registry_Drain.thy ===== *)
theory Registry_Drain
  imports Registry_Sync
begin

text \<open>
  The registry outbox drain, \<^verbatim>\<open>dpp-node/src/infra/registry_drain.rs\<close>, and the verification
  gate of \<^verbatim>\<open>dpp-types/src/operator.rs\<close> it starts with. The EU registry is the port
  \<^verbatim>\<open>RegistrySyncPort\<close> of the domain crate: its answers, the decoding of a stored payload,
  the test for a terminal report and the operator's configuration are fields of
  \<open>registry_port\<close>, one answer per statement position, so that an answer can change from
  pass to pass. Answers of kinds the drain has no branch of its own for are the \<open>Other\<close>
  constructors.
\<close>

subsection \<open>The operator's verification\<close>

record OperatorConfig =
  registry_verified_at :: "time option"

definition REGISTRY_VERIFICATION_MAX_YEARS :: int where
  "REGISTRY_VERIFICATION_MAX_YEARS = 3"

definition days :: "int \<Rightarrow> time" where
  "days n = of_int (n * 86400)"

definition registry_verification_expires_at :: "OperatorConfig \<Rightarrow> time option" where
  "registry_verification_expires_at cfg =
     map_option (\<lambda>t. t + days (365 * REGISTRY_VERIFICATION_MAX_YEARS)) (registry_verified_at cfg)"

definition registry_verification_is_current :: "OperatorConfig \<Rightarrow> time \<Rightarrow> bool" where
  "registry_verification_is_current cfg now =
     (case registry_verification_expires_at cfg of None \<Rightarrow> False | Some expiry \<Rightarrow> now < expiry)"

subsection \<open>The registry's answers\<close>

datatype SubmissionAcknowledgement =
    AckAccepted string
  | AckAlreadyHeld
  | AckOther string

datatype SubmissionReport =
    ReportRegistered string
  | ReportRefused string
  | ReportUnrecognised string
  | ReportOther string

datatype SubmissionLookup =
    LookupFound string SubmissionReport
  | LookupAmbiguous "string list"
  | LookupNotFound bool
  | LookupOther string

record 'req registry_port =
  register_answer :: "nat \<Rightarrow> 'req \<Rightarrow> dpp_error + SubmissionAcknowledgement"
  check_answer :: "nat \<Rightarrow> string \<Rightarrow> dpp_error + SubmissionReport"
  find_answer :: "nat \<Rightarrow> 'req \<Rightarrow> dpp_error + SubmissionLookup"
  report_is_terminal :: "SubmissionReport \<Rightarrow> bool"
  decode_request :: "json \<Rightarrow> string + 'req"
  ack_debug :: "SubmissionAcknowledgement \<Rightarrow> string"

record DrainStats =
  ds_registered :: nat
  ds_submitted :: nat
  ds_rejected :: nat
  ds_retried :: nat
  ds_skipped :: nat
  ds_recovered :: nat

definition drain_stats_default :: DrainStats where
  "drain_stats_default = \<lparr>ds_registered = 0, ds_submitted = 0, ds_rejected = 0, ds_retried = 0,
     ds_skipped = 0, ds_recovered = 0\<rparr>"

definition count_registered :: "DrainStats \<Rightarrow> DrainStats" where
  "count_registered s = s\<lparr>ds_registered := ds_registered s + 1\<rparr>"
definition count_submitted :: "DrainStats \<Rightarrow> DrainStats" where
  "count_submitted s = s\<lparr>ds_submitted := ds_submitted s + 1\<rparr>"
definition count_rejected :: "DrainStats \<Rightarrow> DrainStats" where
  "count_rejected s = s\<lparr>ds_rejected := ds_rejected s + 1\<rparr>"
definition count_retried :: "DrainStats \<Rightarrow> DrainStats" where
  "count_retried s = s\<lparr>ds_retried := ds_retried s + 1\<rparr>"
definition count_skipped :: "DrainStats \<Rightarrow> DrainStats" where
  "count_skipped s = s\<lparr>ds_skipped := ds_skipped s + 1\<rparr>"
definition count_recovered :: "DrainStats \<Rightarrow> DrainStats" where
  "count_recovered s = s\<lparr>ds_recovered := ds_recovered s + 1\<rparr>"

lemmas count_defs = count_registered_def count_submitted_def count_rejected_def count_retried_def
  count_skipped_def count_recovered_def

subsection \<open>Messages\<close>

definition RECONCILE_BY_HAND :: string where
  "RECONCILE_BY_HAND = ''Once the right correlation identifier is known, record it with `odal registry handle <passport-id> <correlation-id>` (POST /vault/api/v1/dpp/{dppId}/registry/handle).''"

definition unrecognised_state_msg :: "string \<Rightarrow> string" where
  "unrecognised_state_msg state =
     ''the registry reported a submission state this node has no name for: '' @ state"

definition no_payload_msg :: string where
  "no_payload_msg = ''the registry holds this submission under a correlation identifier this node does not have, and the row's payload cannot say what was submitted, so it cannot be looked for. '' @ RECONCILE_BY_HAND"

definition ambiguous_msg :: "string list \<Rightarrow> string" where
  "ambiguous_msg candidates = ''more than one registry submission reports this passport's unique product identifier, so the correlation identifier was not chosen. Candidates: '' @ str_join '', '' candidates @ ''. '' @ RECONCILE_BY_HAND"

definition not_found_msg :: "bool \<Rightarrow> string" where
  "not_found_msg exhaustive =
     (let read = (if exhaustive then ''every task the registry listed was read''
                  else ''only part of the registry's task list was read, or a task is still being checked, so absence proves nothing'')
      in ''the registry holds this submission and its correlation identifier was not found among its tasks ('' @ read @ ''). Looking again later. '' @ RECONCILE_BY_HAND)"

definition no_lookup_msg :: string where
  "no_lookup_msg = ''this registry adapter cannot look a submission up without its correlation identifier. '' @ RECONCILE_BY_HAND"

definition refused_msg :: "string \<Rightarrow> string" where
  "refused_msg e = ''refused before sending: '' @ e"

definition unrecorded_msg :: "pg_env \<Rightarrow> string \<Rightarrow> dpp_error \<Rightarrow> string" where
  "unrecorded_msg env cid e = ''could not record correlation identifier '' @ cid @ '': '' @ fmt_dpp env e"

subsection \<open>One pass\<close>

text \<open>The state a pass threads through its rows: its tallies and the database.\<close>

type_synonym drain_state = "DrainStats \<times> odal"

definition apply_report ::
  "pg_env \<Rightarrow> uuid \<Rightarrow> dpp_error + SubmissionReport \<Rightarrow> drain_state \<Rightarrow> drain_state" where
  "apply_report env pid outcome st =
     (case st of (stats, db) \<Rightarrow>
        (case outcome of
           Inr (ReportRegistered registration_id) \<Rightarrow>
             (count_registered stats, snd (sync_mark_registered env pid registration_id db))
         | Inr (ReportRefused reason) \<Rightarrow>
             (count_rejected stats, snd (sync_mark_rejected env pid reason db))
         | Inr (ReportUnrecognised state) \<Rightarrow>
             (count_submitted stats,
              snd (sync_mark_submitted_noting env pid (unrecognised_state_msg state) db))
         | Inr (ReportOther _) \<Rightarrow>
             (count_submitted stats, snd (sync_mark_submitted env pid [] db))
         | Inl e \<Rightarrow>
             (count_retried stats, snd (sync_mark_attempt_failed env pid (fmt_dpp env e) db))))"

definition recover_with_request ::
  "pg_env \<Rightarrow> 'req registry_port \<Rightarrow> uuid \<Rightarrow> 'req \<Rightarrow> drain_state \<Rightarrow> drain_state" where
  "recover_with_request env port pid request st =
     (case st of (stats, db) \<Rightarrow>
        (case find_answer port (tick db) request of
           Inr (LookupFound correlation_id report) \<Rightarrow>
             (case sync_mark_submitted env pid correlation_id db of
                (Inl e, db') \<Rightarrow>
                  (count_retried stats,
                   snd (sync_mark_attempt_failed env pid (unrecorded_msg env correlation_id e) db'))
              | (Inr _, db') \<Rightarrow>
                  if report_is_terminal port report
                  then apply_report env pid (Inr report) (count_recovered stats, db')
                  else (count_submitted (count_recovered stats), db'))
         | Inr (LookupAmbiguous candidates) \<Rightarrow>
             (count_submitted stats, snd (sync_mark_submitted_noting env pid (ambiguous_msg candidates) db))
         | Inr (LookupNotFound exhaustive) \<Rightarrow>
             (count_submitted stats, snd (sync_mark_submitted_noting env pid (not_found_msg exhaustive) db))
         | Inr (LookupOther _) \<Rightarrow>
             (count_submitted stats, snd (sync_mark_submitted_noting env pid no_lookup_msg db))
         | Inl e \<Rightarrow>
             (count_retried stats, snd (sync_mark_attempt_failed env pid (fmt_dpp env e) db))))"

definition recover_handle ::
  "pg_env \<Rightarrow> 'req registry_port \<Rightarrow> uuid \<Rightarrow> json option \<Rightarrow> drain_state \<Rightarrow> drain_state" where
  "recover_handle env port pid payload st =
     (case map_option (decode_request port) payload of
        Some (Inr request) \<Rightarrow> recover_with_request env port pid request st
      | _ \<Rightarrow>
          (case st of (stats, db) \<Rightarrow>
             (count_submitted stats, snd (sync_mark_submitted_noting env pid no_payload_msg db))))"

definition apply_acknowledgement ::
  "pg_env \<Rightarrow> 'req registry_port \<Rightarrow> uuid \<Rightarrow> 'req \<Rightarrow> dpp_error + SubmissionAcknowledgement \<Rightarrow>
   drain_state \<Rightarrow> drain_state" where
  "apply_acknowledgement env port pid request outcome st =
     (case st of (stats, db) \<Rightarrow>
        (case outcome of
           Inr (AckAccepted correlation_id) \<Rightarrow>
             (count_submitted stats, snd (sync_mark_submitted env pid correlation_id db))
         | Inr AckAlreadyHeld \<Rightarrow>
             recover_with_request env port pid request (stats, snd (sync_mark_submitted env pid [] db))
         | Inr (AckOther other) \<Rightarrow>
             (count_retried stats,
              snd (sync_mark_attempt_failed env pid
                (''unrecognised acknowledgement: '' @ ack_debug port (AckOther other)) db))
         | Inl (Validation e) \<Rightarrow>
             (case sync_mark_rejected env pid (refused_msg e) db of
                (Inl _, db') \<Rightarrow>
                  (count_retried stats, snd (sync_mark_attempt_failed env pid (refused_msg e) db'))
              | (Inr _, db') \<Rightarrow> (count_skipped stats, db'))
         | Inl e \<Rightarrow>
             (count_retried stats, snd (sync_mark_attempt_failed env pid (fmt_dpp env e) db))))"

text \<open>The trimmed correlation identifier of a row, when there is one to poll by.\<close>

definition correlation_of :: "RegistrySyncRow \<Rightarrow> string option" where
  "correlation_of row =
     (case map_option str_trim (sync_registry_id row) of
        Some correlation_id \<Rightarrow> if correlation_id = [] then None else Some correlation_id
      | None \<Rightarrow> None)"

definition drain_row ::
  "pg_env \<Rightarrow> 'req registry_port \<Rightarrow> RegistrySyncRow \<Rightarrow> drain_state \<Rightarrow> drain_state" where
  "drain_row env port row st =
     (case st of (stats, db) \<Rightarrow>
        (let pid = sync_passport_id row in
         if sync_status row = SyncSubmitted then
           (case correlation_of row of
              None \<Rightarrow> recover_handle env port pid (sync_payload row) st
            | Some correlation_id \<Rightarrow>
                apply_report env pid (check_answer port (tick db) correlation_id) st)
         else
           (case sync_payload row of
              None \<Rightarrow>
                (count_skipped stats, snd (sync_mark_rejected env pid ''missing registration payload'' db))
            | Some payload \<Rightarrow>
                (case decode_request port payload of
                   Inl e \<Rightarrow>
                     (count_skipped stats, snd (sync_mark_rejected env pid (''corrupt payload: '' @ e) db))
                 | Inr req \<Rightarrow>
                     apply_acknowledgement env port pid req (register_answer port (tick db) req) st))))"

text \<open>
  The operator repository is consulted when the node has one; \<open>operator\<close> is its answer
  and \<open>utc_now\<close> the host's clock when it is asked.
\<close>

definition held_unverified :: "(dpp_error + OperatorConfig option) option \<Rightarrow> time \<Rightarrow> bool" where
  "held_unverified operator utc_now =
     (case operator of
        Some (Inr (Some cfg)) \<Rightarrow> \<not> registry_verification_is_current cfg utc_now
      | _ \<Rightarrow> False)"

definition registry_drain_once ::
  "pg_env \<Rightarrow> 'req registry_port \<Rightarrow> (dpp_error + OperatorConfig option) option \<Rightarrow> time \<Rightarrow> nat \<Rightarrow>
   odal \<Rightarrow> drain_state" where
  "registry_drain_once env port operator utc_now batch db =
     (if held_unverified operator utc_now
      then (drain_stats_default, db)
      else
        (case sync_due env batch db of
           (Inl _, db') \<Rightarrow> (drain_stats_default, db')
         | (Inr due, db') \<Rightarrow> fold (drain_row env port) due (drain_stats_default, db')))"

subsection \<open>A pass as a sequence of outbox statements\<close>

text \<open>
  Which identifiers the registry gave: a correlation identifier with an acknowledgement
  or a lookup, a registration identifier with a report that says the passport is
  registered.
\<close>

definition given_by :: "'req registry_port \<Rightarrow> string \<Rightarrow> bool" where
  "given_by port cid \<longleftrightarrow>
     (\<exists>n req. register_answer port n req = Inr (AckAccepted cid)) \<or>
     (\<exists>n req report. find_answer port n req = Inr (LookupFound cid report))"

definition ruled_by :: "'req registry_port \<Rightarrow> string \<Rightarrow> bool" where
  "ruled_by port rid \<longleftrightarrow>
     (\<exists>n cid. check_answer port n cid = Inr (ReportRegistered rid)) \<or>
     (\<exists>n req cid. find_answer port n req = Inr (LookupFound cid (ReportRegistered rid)))"

text \<open>
  The statements the drain issues: those of the outbox, with identifiers the registry
  gave. The drain never deactivates a row.
\<close>

inductive drain_step :: "pg_env \<Rightarrow> 'req registry_port \<Rightarrow> uuid \<Rightarrow> odal \<Rightarrow> odal \<Rightarrow> bool"
  for env and port :: "'req registry_port" where
  drain_submitted: "cid = [] \<or> given_by port cid \<Longrightarrow>
    drain_step env port pid db (snd (sync_submitted env pid cid message db))"
| drain_registered: "ruled_by port rid \<Longrightarrow>
    drain_step env port pid db (snd (sync_mark_registered env pid rid db))"
| drain_rejected: "drain_step env port pid db (snd (sync_mark_rejected env pid message db))"
| drain_failed: "drain_step env port pid db (snd (sync_mark_attempt_failed env pid message db))"

lemma drain_submitted_empty: "drain_step env port pid db (snd (sync_mark_submitted env pid [] db))"
  by (simp add: sync_mark_submitted_def drain_submitted)

lemma drain_noting: "drain_step env port pid db (snd (sync_mark_submitted_noting env pid message db))"
  by (simp add: sync_mark_submitted_noting_def drain_submitted)

lemma drain_submitted_given:
  "given_by port cid \<Longrightarrow> drain_step env port pid db (snd (sync_mark_submitted env pid cid db))"
  by (simp add: sync_mark_submitted_def drain_submitted)

lemmas drain_steps = drain_submitted_empty drain_noting drain_submitted_given
  drain_registered drain_rejected drain_failed

lemma drain_step_sync: "drain_step env port pid s t \<Longrightarrow> sync_step env pid s t"
  by (induction rule: drain_step.induct) (rule sync_steps)+

text \<open>Each function of the drain issues between one and three statements, all on the row it was given.\<close>

definition row_steps :: "pg_env \<Rightarrow> 'req registry_port \<Rightarrow> uuid \<Rightarrow> nat \<Rightarrow> odal \<Rightarrow> odal \<Rightarrow> bool" where
  "row_steps env port pid limit s t \<longleftrightarrow> (\<exists>n. 1 \<le> n \<and> n \<le> limit \<and> (drain_step env port pid ^^ n) s t)"

lemma one_step: "drain_step env port pid s t \<Longrightarrow> 1 \<le> limit \<Longrightarrow> row_steps env port pid limit s t"
  unfolding row_steps_def by (intro exI [of _ 1]) auto

lemma more_steps:
  assumes "drain_step env port pid s t" and "row_steps env port pid limit t u"
  shows "row_steps env port pid (Suc limit) s u"
proof -
  from assms(2) obtain n where n: "1 \<le> n" "n \<le> limit" "(drain_step env port pid ^^ n) t u"
    unfolding row_steps_def by blast
  with assms(1) have "(drain_step env port pid ^^ Suc n) s u" by (blast intro: relpowp_Suc_I2)
  with n show ?thesis unfolding row_steps_def by (intro exI [of _ "Suc n"]) simp
qed

lemma apply_report_steps:
  assumes "\<And>rid. outcome = Inr (ReportRegistered rid) \<Longrightarrow> ruled_by port rid"
  shows "row_steps env port pid 1 (snd st) (snd (apply_report env pid outcome st))"
proof -
  have "drain_step env port pid (snd st) (snd (apply_report env pid outcome st))"
    using assms
    by (auto simp: apply_report_def intro: drain_steps split: prod.splits sum.splits SubmissionReport.splits)
  then show ?thesis by (rule one_step) simp
qed

lemma recover_with_request_steps:
  "row_steps env port pid 2 (snd st) (snd (recover_with_request env port pid request st))"
proof (cases "\<exists>cid report. find_answer port (tick (snd st)) request = Inr (LookupFound cid report)")
  case True
  then obtain cid report where f: "find_answer port (tick (snd st)) request = Inr (LookupFound cid report)"
    by blast
  then have given: "given_by port cid" by (auto simp: given_by_def)
  obtain stats db where st: "st = (stats, db)" by fastforce
  obtain res db' where m: "sync_mark_submitted env pid cid db = (res, db')" by fastforce
  have s1: "drain_step env port pid db db'"
    using drain_submitted_given [OF given, of env pid db] by (simp add: m)
  show ?thesis
  proof (cases res)
    case (Inl e)
    have "row_steps env port pid 1 db' (snd (sync_mark_attempt_failed env pid (unrecorded_msg env cid e) db'))"
      by (rule one_step [OF drain_failed]) simp
    from more_steps [OF s1 this] show ?thesis
      using f by (simp add: recover_with_request_def st m Inl numeral_2_eq_2)
  next
    case (Inr u)
    have "ruled_by port rid" if "Inr report = (Inr (ReportRegistered rid) :: dpp_error + SubmissionReport)" for rid
      using f that by (auto simp: ruled_by_def)
    then have "row_steps env port pid 1 (snd (count_recovered stats, db'))
        (snd (apply_report env pid (Inr report) (count_recovered stats, db')))"
      by (rule apply_report_steps)
    then have a: "row_steps env port pid 2 db (snd (apply_report env pid (Inr report) (count_recovered stats, db')))"
      using more_steps [OF s1] by (simp add: numeral_2_eq_2)
    show ?thesis
      using f a one_step [OF s1, of 2] by (simp add: recover_with_request_def st m Inr)
  qed
next
  case False
  then have "drain_step env port pid (snd st) (snd (recover_with_request env port pid request st))"
    by (auto simp: recover_with_request_def intro: drain_steps
        split: prod.splits sum.splits SubmissionLookup.splits)
  then show ?thesis by (rule one_step) simp
qed

lemma recover_handle_steps:
  "row_steps env port pid 2 (snd st) (snd (recover_handle env port pid payload st))"
proof (cases "\<exists>p request. payload = Some p \<and> decode_request port p = Inr request")
  case True
  then show ?thesis
    using recover_with_request_steps [where st = st] by (auto simp: recover_handle_def)
next
  case False
  then have "drain_step env port pid (snd st) (snd (recover_handle env port pid payload st))"
    by (auto simp: recover_handle_def intro: drain_steps split: prod.splits sum.splits option.splits)
  then show ?thesis by (rule one_step) simp
qed

lemma row_steps_mono:
  "row_steps env port pid a s t \<Longrightarrow> a \<le> b \<Longrightarrow> row_steps env port pid b s t"
  unfolding row_steps_def by (meson le_trans)

lemma apply_acknowledgement_steps:
  assumes "\<And>cid. outcome = Inr (AckAccepted cid) \<Longrightarrow> given_by port cid"
  shows "row_steps env port pid 3 (snd st) (snd (apply_acknowledgement env port pid request outcome st))"
proof -
  obtain stats db where st: "st = (stats, db)" by fastforce
  consider (held) "outcome = Inr AckAlreadyHeld" | (invalid) e where "outcome = Inl (Validation e)"
    | (plain) "outcome \<noteq> Inr AckAlreadyHeld" "\<And>e. outcome \<noteq> Inl (Validation e)" by blast
  then show ?thesis
  proof cases
    case held
    let ?db = "snd (sync_mark_submitted env pid [] db)"
    have "row_steps env port pid 2 ?db (snd (recover_with_request env port pid request (stats, ?db)))"
      using recover_with_request_steps [where st = "(stats, ?db)"] by simp
    from more_steps [OF drain_submitted_empty this] show ?thesis
      by (simp add: apply_acknowledgement_def st held numeral_3_eq_3 numeral_2_eq_2)
  next
    case invalid
    obtain res db' where m: "sync_mark_rejected env pid (refused_msg e) db = (res, db')" by fastforce
    have s1: "drain_step env port pid db db'"
      using drain_rejected [of env port pid db "refused_msg e"] by (simp add: m)
    show ?thesis
      using row_steps_mono [OF more_steps [OF s1 one_step [OF drain_failed le_refl]], of 3] one_step [OF s1, of 3]
      by (cases res) (simp_all add: apply_acknowledgement_def st invalid m)
  next
    case plain
    then have "drain_step env port pid (snd st) (snd (apply_acknowledgement env port pid request outcome st))"
      using assms
      by (auto simp: apply_acknowledgement_def intro: drain_steps
          split: prod.splits sum.splits SubmissionAcknowledgement.splits dpp_error.splits)
    then show ?thesis by (rule one_step) simp
  qed
qed

lemma drain_row_steps:
  "row_steps env port (sync_passport_id row) 3 (snd st) (snd (drain_row env port row st))"
proof -
  let ?pid = "sync_passport_id row"
  obtain stats db where st: "st = (stats, db)" by fastforce
  have check: "row_steps env port ?pid 3 (snd st)
      (snd (apply_report env ?pid (check_answer port n cid) st))" for n cid
    by (rule row_steps_mono [OF apply_report_steps]) (auto simp: ruled_by_def)
  have recover: "row_steps env port ?pid 3 (snd st)
      (snd (recover_handle env port ?pid payload st))" for payload
    by (rule row_steps_mono [OF recover_handle_steps]) simp
  have ack: "row_steps env port ?pid 3 (snd st)
      (snd (apply_acknowledgement env port ?pid req (register_answer port n req) st))" for n req
    by (rule apply_acknowledgement_steps) (auto simp: given_by_def)
  have rejected: "row_steps env port ?pid 3 db (snd (sync_mark_rejected env ?pid message db))" for message
    by (rule one_step [OF drain_rejected]) simp
  show ?thesis
    using check recover ack rejected
    by (simp add: drain_row_def st Let_def split: option.splits sum.splits)
qed

text \<open>The whole pass runs on the rows it fetched, and on no other.\<close>

lemma drain_row_runs:
  "runs (drain_step env port) {sync_passport_id row} (snd st) (snd (drain_row env port row st))"
  using drain_row_steps [where st = st and row = row and port = port and env = env]
  by (auto simp: row_steps_def intro: runs_relpowp)

lemma drain_rows_runs:
  "runs (drain_step env port) (sync_passport_id ` set rows) (snd st) (snd (fold (drain_row env port) rows st))"
  by (rule runs_fold [where proj = snd, OF drain_row_runs])

lemma sync_step_only:
  assumes "sync_step env k s t"
  shows "\<exists>rs. t = s\<lparr>registry_sync := rs, tick := tick s + 1\<rparr>"
proof -
  have "\<exists>rs. t = bump (registry_sync_update (\<lambda>_. rs) s)"
    using assms
    by cases (simp only: op_defs sync_t.exec_mark_snd; rule sync_t.exec_update_only)+
  then show ?thesis by (auto simp: bump_def)
qed

lemma sync_step_keys_ok: "sync_step env k s t \<Longrightarrow> keys_ok s \<Longrightarrow> keys_ok t"
  using sync_step_only [of env k s t] sync_ob.mark_keys [of env k s t]
  by (auto simp: keys_ok_def)

text \<open>
  What the drain does to a row, over any number of statements: the payload and the
  status intent stay, the attempts do not go down, it never goes back to pending and is
  never abandoned, an identifier on it is the one it had
  or one the registry gave, and it is registered only by a ruling of the registry that
  names the identifier it holds.
\<close>

definition follows_from :: "'req registry_port \<Rightarrow> registry_sync_rec \<Rightarrow> registry_sync_rec \<Rightarrow> bool" where
  "follows_from port r r' \<longleftrightarrow>
     rs_passport_id r' = rs_passport_id r \<and>
     rs_payload r' = rs_payload r \<and> rs_status_intent r' = rs_status_intent r \<and>
     rs_attempts r \<le> rs_attempts r' \<and>
     (rs_status r' = ''pending'' \<longrightarrow> rs_status r = ''pending'') \<and>
     (rs_status r' = ''abandoned'' \<longrightarrow> rs_status r = ''abandoned'') \<and>
     (rs_registry_id r' = rs_registry_id r \<or>
      opt_holds (\<lambda>cid. given_by port cid \<or> ruled_by port cid) (rs_registry_id r')) \<and>
     (rs_status r' = ''registered'' \<longrightarrow>
        rs_status r = ''registered'' \<and> rs_registry_id r' = rs_registry_id r \<or>
        opt_holds (ruled_by port) (rs_registry_id r'))"

lemma follows_from_refl: "follows_from port r r"
  by (simp add: follows_from_def)

lemma follows_from_trans: "follows_from port r r' \<Longrightarrow> follows_from port r' r'' \<Longrightarrow> follows_from port r r''"
  unfolding follows_from_def by (elim conjE) (intro conjI; auto)

lemma follows_from_rows:
  "cid = [] \<or> given_by port cid \<Longrightarrow> follows_from port r (submitted_row cid note now rnd r)"
  "ruled_by port rid \<Longrightarrow> follows_from port r (registered_row rid now rnd r)"
  "follows_from port r (rejected_row message now rnd r)"
  "follows_from port r (failed_row message now rnd r)"
  by (auto simp: follows_from_def row_defs)

lemma mark_follows:
  assumes "row_at rs_passport_id pid (registry_sync db) = Some r"
    and "\<And>now rnd. follows_from port r (f now rnd r)"
    and "\<And>now rnd r. rs_passport_id (f now rnd r) = rs_passport_id r"
  shows "opt_holds (follows_from port r) (row_at rs_passport_id pid (registry_sync
    (snd (exec_update registry_sync registry_sync_update rs_passport_id env pid q ok f db))))"
  using sync_t.exec_update_row_at [of f pid env pid q ok db, OF assms(3)] assms(1,2)
  by (auto simp: follows_from_refl)

interpretation drain_tr: tracked_outbox registry_sync rs_passport_id "drain_step env port"
    "follows_from port" for env port
proof unfold_locales
  fix k s t k' r r' r''
  assume st: "drain_step env port k s t"
  note sy = drain_step_sync [OF st]
  show "map rs_passport_id (registry_sync t) = map rs_passport_id (registry_sync s)"
    by (rule sync_ob.mark_keys [OF sy])
  show "row_at rs_passport_id k' (registry_sync t) = row_at rs_passport_id k' (registry_sync s)"
    if "k' \<noteq> k"
    using sync_ob.mark_frame [OF sy that] .
  show "opt_holds (follows_from port r) (row_at rs_passport_id k (registry_sync t))"
    if "row_at rs_passport_id k (registry_sync s) = Some r"
    using st
    by cases (auto simp: op_defs sync_t.exec_mark_snd intro: mark_follows [OF that] follows_from_rows)
qed (auto intro: follows_from_refl follows_from_trans)

lemma drain_runs_sync: "runs (drain_step env port) K s t \<Longrightarrow> runs (sync_step env) K s t"
  by (induction rule: runs.induct) (auto intro: runs.intros drain_step_sync)

lemma drain_runs_other_tables:
  "runs (drain_step env port) K s t \<Longrightarrow> \<exists>rs n. t = s\<lparr>registry_sync := rs, tick := n\<rparr> \<and> tick s \<le> n"
proof (induction rule: runs.induct)
  case (runs_refl s)
  have "s = s\<lparr>registry_sync := registry_sync s, tick := tick s\<rparr>" by simp
  then show ?case by blast
next
  case (runs_step k s t u)
  from sync_step_only [OF drain_step_sync [OF runs_step(1)]] runs_step(4)
  obtain rs n where "u = s\<lparr>registry_sync := rs, tick := n\<rparr>" "tick s \<le> n" by auto
  then show ?case by blast
qed

subsection \<open>Progress\<close>

text \<open>A row that the next pass at or before the time \<open>n\<close> refers to does not fetch again.\<close>

definition row_settled :: "time \<Rightarrow> registry_sync_rec \<Rightarrow> bool" where
  "row_settled now r \<longleftrightarrow> rs_status r \<notin> {''pending'', ''submitted''} \<or> now + 3/2 \<le> rs_next_attempt_at r"

lemma backoff_three_halves: "random_ok env \<Longrightarrow> 3/2 \<le> backoff a (random_at env n)"
  using backoff_lower [of "random_at env n" a] backoff_base_bounds(1) [of a] by (simp add: random_ok_def)

lemma drain_step_settles:
  assumes "drain_step env port pid s t" and "fault_free env" and "random_ok env" and "keys_ok s"
    and "row_at rs_passport_id pid (registry_sync s) = Some r"
    and "rs_status r \<noteq> ''abandoned''" and "rs_attempts r < 1023"
  shows "\<exists>r'. row_at rs_passport_id pid (registry_sync t) = Some r' \<and> row_settled (now_at env (tick s)) r' \<and>
    rs_status r' \<noteq> ''abandoned'' \<and> rs_attempts r' \<le> rs_attempts r + 1"
proof -
  have f: "fault_at env (tick s) = None" using assms(2) by (simp add: fault_free_def)
  note hit = sync_hit [OF f assms(4,5,6)] and b = backoff_three_halves [OF assms(3), of "rs_attempts r" "tick s"]
  from assms(1) show ?thesis
    by cases (use hit b assms(6,7) in \<open>simp_all add: row_defs row_settled_def\<close>)
qed

text \<open>The statements the drain issues pace the outbox: a row tried at most \<open>1023 - n\<close> times takes \<open>n\<close> of them.\<close>

definition calm :: "pg_env \<Rightarrow> odal \<Rightarrow> bool" where
  "calm env db \<longleftrightarrow> fault_free env \<and> random_ok env \<and> mono (now_at env) \<and> keys_ok db"

interpretation drain_pace: paced_outbox registry_sync rs_passport_id "drain_step env port" bump "calm env"
    "\<lambda>db. now_at env (tick db)" "\<lambda>n r. rs_status r \<noteq> ''abandoned'' \<and> rs_attempts r + n \<le> 1023" row_settled for env port
proof unfold_locales
  fix k s t and r :: registry_sync_rec and n
  assume st: "drain_step env port k s t" and ok: "calm env s"
  note sy = drain_step_sync [OF st]
  show "calm env t" using sync_step_keys_ok [OF sy] ok by (simp add: calm_def)
  show "now_at env (tick s) \<le> now_at env (tick t)"
    using sync_step_tick [OF sy] ok by (simp add: calm_def mono_def)
  assume r: "row_at rs_passport_id k (registry_sync s) = Some r"
    "rs_status r \<noteq> ''abandoned'' \<and> rs_attempts r + Suc n \<le> 1023"
  then show "opt_holds (\<lambda>r'. row_settled (now_at env (tick s)) r' \<and> rs_status r' \<noteq> ''abandoned'' \<and> rs_attempts r' + n \<le> 1023)
      (row_at rs_passport_id k (registry_sync t))"
    using drain_step_settles [OF st _ _ _ r(1)] ok by (auto simp: calm_def)
qed (auto simp: calm_def keys_ok_def mono_def row_settled_def)

lemma drain_row_pass:
  "row_pass bump (drain_step env port) 3 (sync_passport_id row) (snd st) (snd (drain_row env port row st))"
proof -
  from drain_row_steps [where st = st and row = row and port = port and env = env] obtain n where
    n: "1 \<le> n" "n \<le> 3" "(drain_step env port (sync_passport_id row) ^^ n) (snd st) (snd (drain_row env port row st))"
    by (auto simp: row_steps_def)
  then show ?thesis unfolding row_pass_def by (intro exI [of _ "0 :: nat"] exI [of _ n]) simp
qed

definition ds_total :: "DrainStats \<Rightarrow> nat" where
  "ds_total s = ds_registered s + ds_submitted s + ds_rejected s + ds_retried s + ds_skipped s"

lemma ds_total_counts [simp]:
  "ds_total (count_registered s) = ds_total s + 1" "ds_total (count_submitted s) = ds_total s + 1"
  "ds_total (count_rejected s) = ds_total s + 1" "ds_total (count_retried s) = ds_total s + 1"
  "ds_total (count_skipped s) = ds_total s + 1" "ds_total (count_recovered s) = ds_total s"
  "ds_total drain_stats_default = 0"
  by (simp_all add: ds_total_def count_defs drain_stats_default_def)

lemma apply_report_total: "ds_total (fst (apply_report env pid outcome st)) = ds_total (fst st) + 1"
  by (simp add: apply_report_def split: prod.splits sum.splits SubmissionReport.splits)

lemma recover_with_request_total:
  "ds_total (fst (recover_with_request env port pid request st)) = ds_total (fst st) + 1"
  by (simp add: recover_with_request_def apply_report_total
      split: prod.splits sum.splits SubmissionLookup.splits)

lemma recover_handle_total: "ds_total (fst (recover_handle env port pid payload st)) = ds_total (fst st) + 1"
  by (simp add: recover_handle_def recover_with_request_total split: prod.splits sum.splits option.splits)

lemma apply_acknowledgement_total:
  "ds_total (fst (apply_acknowledgement env port pid request outcome st)) = ds_total (fst st) + 1"
  by (simp add: apply_acknowledgement_def recover_with_request_total
      split: prod.splits sum.splits SubmissionAcknowledgement.splits dpp_error.splits)

lemma drain_row_total: "ds_total (fst (drain_row env port row st)) = ds_total (fst st) + 1"
  by (simp add: drain_row_def Let_def apply_report_total recover_handle_total apply_acknowledgement_total
      split: prod.splits sum.splits option.splits)

lemma drain_rows_total: "ds_total (fst (fold (drain_row env port) rows st)) = ds_total (fst st) + length rows"
  by (induction rows arbitrary: st) (simp_all add: drain_row_total)

subsection \<open>What a pass fetches\<close>

lemma sync_due_db: "snd (sync_due env limit db) = bump db"
  by (auto simp: sync_due_def exec_select_def split: prod.splits sum.splits)

lemma sync_due_rows:
  assumes "sync_due env limit db = (Inr rows, db')"
  shows "\<And>row. row \<in> set rows \<Longrightarrow> \<exists>r \<in> set (registry_sync db). row = row_to_sync r \<and>
      rs_status r \<in> {''pending'', ''submitted''} \<and> rs_next_attempt_at r \<le> now_at env (tick db)"
    and "length rows \<le> limit"
    and "keys_ok db \<Longrightarrow> distinct (map sync_passport_id rows)"
proof -
  from assms obtain rs where
    rs: "exec_select registry_sync env (\<lambda>now r. rs_status r \<in> {''pending'', ''submitted''} \<and> rs_next_attempt_at r \<le> now)
      rs_next_attempt_at limit db = (Inr rs, db')" and rows: "rows = map row_to_sync rs"
    by (auto simp: sync_due_def split: prod.splits sum.splits)
  have pid: "sync_passport_id \<circ> row_to_sync = rs_passport_id" by (auto simp: row_to_sync_def)
  show "\<exists>r \<in> set (registry_sync db). row = row_to_sync r \<and>
      rs_status r \<in> {''pending'', ''submitted''} \<and> rs_next_attempt_at r \<le> now_at env (tick db)"
    if "row \<in> set rows" for row
    using exec_select_InrD(2) [OF rs] that rows by auto
  show "length rows \<le> limit" using exec_select_InrD(3) [OF rs] rows by simp
  show "distinct (map sync_passport_id rows)" if "keys_ok db"
    using exec_select_InrD(5) [OF rs, of rs_passport_id] that by (simp add: rows pid keys_ok_def)
qed

lemma row_to_sync_simps [simp]:
  "sync_passport_id (row_to_sync r) = rs_passport_id r"
  "sync_payload (row_to_sync r) = rs_payload r"
  "sync_registry_id (row_to_sync r) = rs_registry_id r"
  "sync_status (row_to_sync r) = SyncSubmitted \<longleftrightarrow> rs_status r = ''submitted''"
  by (auto simp: row_to_sync_def sync_from_db_def)

text \<open>A pass touches the rows that are due when it starts and no others.\<close>

definition sync_due_keys :: "pg_env \<Rightarrow> odal \<Rightarrow> uuid set" where
  "sync_due_keys env db = rs_passport_id ` {r \<in> set (registry_sync db).
     rs_status r \<in> {''pending'', ''submitted''} \<and> rs_next_attempt_at r \<le> now_at env (tick db)}"

lemma registry_drain_runs:
  "\<exists>s \<in> {db, bump db}. runs (drain_step env port) (sync_due_keys env db) s
     (snd (registry_drain_once env port operator utc_now batch db))"
proof (cases "held_unverified operator utc_now")
  case True
  then show ?thesis by (simp add: registry_drain_once_def)
next
  case False
  obtain res db' where d: "sync_due env batch db = (res, db')" by fastforce
  then have db': "db' = bump db" using sync_due_db [of env batch db] by simp
  show ?thesis
  proof (cases res)
    case (Inl e)
    then show ?thesis using False d db' by (simp add: registry_drain_once_def)
  next
    case (Inr rows)
    have "sync_passport_id ` set rows \<subseteq> sync_due_keys env db"
      using sync_due_rows(1) [OF d [unfolded Inr]] by (fastforce simp: sync_due_keys_def)
    with drain_rows_runs [where rows = rows and st = "(drain_stats_default, bump db)"]
    have "runs (drain_step env port) (sync_due_keys env db) (bump db)
        (snd (fold (drain_row env port) rows (drain_stats_default, bump db)))"
      by (metis runs_mono snd_conv)
    then show ?thesis using False d db' Inr by (simp add: registry_drain_once_def)
  qed
qed

subsection \<open>Properties\<close>

text \<open>
  Property C1 (safety). A pass is safe whatever the registry answers and whatever
  statement fails: every other table is as it was, no row is lost or added, a row that is
  not due or that a person abandoned is not touched, every row keeps its well-formedness,
  and what became of each row follows from its old state and from what the registry
  said. In particular a row that is registered afterwards and was not before carries a
  registration identifier the registry reported for it: an acknowledgement alone never
  registers anything.
\<close>

theorem registry_drain_safe:
  assumes "registry_drain_once env port operator utc_now batch db = (stats, db')"
  shows "(\<exists>rs n. db' = db\<lparr>registry_sync := rs, tick := n\<rparr>) \<and>
    map rs_passport_id (registry_sync db') = map rs_passport_id (registry_sync db) \<and>
    (\<forall>pid r. row_at rs_passport_id pid (registry_sync db) = Some r \<longrightarrow>
       (pid \<notin> sync_due_keys env db \<or> rs_status r = ''abandoned'' \<longrightarrow>
          row_at rs_passport_id pid (registry_sync db') = Some r) \<and>
       opt_holds (follows_from port r) (row_at rs_passport_id pid (registry_sync db'))) \<and>
    (list_all sync_row_ok (registry_sync db) \<longrightarrow> list_all sync_row_ok (registry_sync db'))"
proof -
  from registry_drain_runs [of db env port operator utc_now batch] assms obtain s
    where s: "s = db \<or> s = bump db" and run: "runs (drain_step env port) (sync_due_keys env db) s db'"
    by auto
  have tbl: "registry_sync s = registry_sync db" using s by auto
  have others: "\<exists>rs n. db' = db\<lparr>registry_sync := rs, tick := n\<rparr>"
  proof -
    from drain_runs_other_tables [OF run] obtain rs n where "db' = s\<lparr>registry_sync := rs, tick := n\<rparr>" by blast
    with s have "db' = db\<lparr>registry_sync := rs, tick := n\<rparr>" by (auto simp: bump_def)
    then show ?thesis by blast
  qed
  note sy = drain_runs_sync [OF run]
  show ?thesis
    using others drain_tr.runs_keys [OF run] drain_tr.runs_frame [OF run] sync_ob.runs_frozen [OF sy]
      drain_tr.runs_rel [OF run] sync_ty.runs_wf [OF sy]
    unfolding tbl by metis
qed

text \<open>A registry for evaluating the definitions: it accepts, and reports every submission registered.\<close>

definition sample_port :: "json registry_port" where
  "sample_port = \<lparr>register_answer = (\<lambda>n req. Inr (AckAccepted ''corr'')),
     check_answer = (\<lambda>n cid. Inr (ReportRegistered ''reg'')),
     find_answer = (\<lambda>n req. Inr (LookupFound ''corr'' (ReportRegistered ''reg''))),
     report_is_terminal = (\<lambda>r. True), decode_request = Inr, ack_debug = (\<lambda>_. ''ack'')\<rparr>"

lemma sample_port_simps [simp]:
  "register_answer sample_port n req = Inr (AckAccepted ''corr'')"
  "check_answer sample_port n cid = Inr (ReportRegistered ''reg'')"
  "find_answer sample_port n req = Inr (LookupFound ''corr'' (ReportRegistered ''reg''))"
  "report_is_terminal sample_port r" "decode_request sample_port j = Inr j"
  by (simp_all add: sample_port_def)

theorem registry_drain_safe_witness:
  "row_at rs_passport_id 8
     (registry_sync (snd (registry_drain_once sample_env sample_port None 0 10 sample_db))) =
   row_at rs_passport_id 8 (registry_sync sample_db)"
proof -
  obtain stats db' where d: "registry_drain_once sample_env sample_port None 0 10 sample_db = (stats, db')"
    by fastforce
  have "row_at rs_passport_id 8 (registry_sync sample_db) =
      Some ((new_sync_row 0 8 JNull)\<lparr>rs_attempts := 1, rs_next_attempt_at := 9\<rparr>)"
    by (simp add: sample_db_simps new_sync_row_def)
  moreover have "8 \<notin> sync_due_keys sample_env sample_db"
    by (auto simp: sync_due_keys_def sample_db_simps new_sync_row_def)
  ultimately show ?thesis
    using registry_drain_safe [OF d] by (simp add: d)
qed

text \<open>
  With no database fault, a clock that does not run backwards and
  rows tried at most 1020 times, every row a pass fetched has left the due set when the
  pass ends: it reached a terminal state, or its next attempt is at least a second and a
  half after the moment the rows were fetched. No answer of the registry keeps a row at
  the head of the queue.
\<close>

theorem registry_drain_progress:
  assumes "fault_free env" and "random_ok env" and "mono (now_at env)" and "keys_ok db"
    and "\<not> held_unverified operator utc_now"
    and "list_all (\<lambda>r. rs_attempts r \<le> 1020) (registry_sync db)"
    and "sync_due env batch db = (Inr rows, db1)" and "row \<in> set rows"
    and "registry_drain_once env port operator utc_now batch db = (stats, db')"
  shows "opt_holds (row_settled (now_at env (tick db)))
    (row_at rs_passport_id (sync_passport_id row) (registry_sync db'))"
proof -
  have db1: "db1 = bump db" using sync_due_db [of env batch db] assms(7) by simp
  have db': "db' = snd (fold (drain_row env port) rows (drain_stats_default, bump db))"
    using assms(5,7,9) by (simp add: registry_drain_once_def db1)
  have start: "opt_holds (\<lambda>r. rs_status r \<noteq> ''abandoned'' \<and> rs_attempts r + 3 \<le> 1023)
      (row_at rs_passport_id (sync_passport_id row) (registry_sync (snd (drain_stats_default, bump db))))"
    if row: "row \<in> set rows" for row
  proof -
    from sync_due_rows(1) [OF assms(7) row] obtain r where
      r: "r \<in> set (registry_sync db)" "row = row_to_sync r" "rs_status r \<in> {''pending'', ''submitted''}" by blast
    have "row_at rs_passport_id (rs_passport_id r) (registry_sync db) = Some r"
      using assms(4) r(1) by (intro row_at_in_set) (simp_all add: keys_ok_def)
    with r assms(6) show ?thesis by (auto simp: list_all_iff)
  qed
  have "calm env (snd (drain_stats_default, bump db))" using assms(1-4) by (simp add: calm_def keys_ok_def)
  from drain_pace.rows_settle [where proj = snd, OF drain_row_pass sync_due_rows(3) [OF assms(7,4)] this _ assms(8)] start
  have "opt_holds (row_settled (now_at env (tick (bump db))))
      (row_at rs_passport_id (sync_passport_id row) (registry_sync db'))"
    by (fastforce simp: db')
  moreover have "now_at env (tick db) \<le> now_at env (tick (bump db))"
    using assms(3) by (simp add: mono_def)
  ultimately show ?thesis by (auto simp: opt_holds_def row_settled_def split: option.splits)
qed

lemma sample_env_mono: "mono (now_at sample_env)"
  by (simp add: mono_def sample_env_def)

theorem registry_drain_progress_witness:
  "opt_holds (row_settled 0)
     (row_at rs_passport_id 9
       (registry_sync (snd (registry_drain_once sample_env sample_port None 0 10 sample_db))))"
proof -
  let ?r = "(new_sync_row 0 9 JNull)\<lparr>rs_status := ''submitted'', rs_submitted_at := Some 0, rs_attempts := 1\<rparr>"
  obtain stats db' where d: "registry_drain_once sample_env sample_port None 0 10 sample_db = (stats, db')"
    by fastforce
  have held: "\<not> held_unverified None 0" by (simp add: held_unverified_def)
  have due: "sync_due sample_env 10 sample_db = (Inr [row_to_sync ?r], bump sample_db)"
    unfolding sync_due_def exec_select_fault_free [OF sample_env_ok(1)]
    by (simp add: sample_db_simps new_sync_row_def)
  have "list_all (\<lambda>r. rs_attempts r \<le> 1020) (registry_sync sample_db)"
    by (simp add: sample_db_simps new_sync_row_def)
  from registry_drain_progress [OF sample_env_ok sample_env_mono sample_db_keys held this due _ d, of "row_to_sync ?r"]
  show ?thesis by (simp add: d sample_db_simps new_sync_row_def)
qed

text \<open>
  The tallies account for the rows: whatever fails, each fetched
  row is counted in exactly one of registered, submitted, rejected, retried and skipped,
  and a pass never handles more than its batch.
\<close>

theorem registry_drain_accounting:
  "ds_total (fst (registry_drain_once env port operator utc_now batch db)) =
     (if held_unverified operator utc_now then 0
      else case fst (sync_due env batch db) of Inl _ \<Rightarrow> 0 | Inr rows \<Rightarrow> length rows) \<and>
   ds_total (fst (registry_drain_once env port operator utc_now batch db)) \<le> batch"
proof -
  obtain res db' where d: "sync_due env batch db = (res, db')" by fastforce
  then show ?thesis
    using sync_due_rows(2) [of env batch db]
    by (cases res) (auto simp: registry_drain_once_def drain_rows_total)
qed

lemma drain_row_register_cong:
  assumes "sync_status row \<noteq> SyncSubmitted \<Longrightarrow>
      (\<And>n p req. sync_payload row = Some p \<Longrightarrow> decode_request port p = Inr req \<Longrightarrow>
        g n req = register_answer port n req)"
  shows "drain_row env (port\<lparr>register_answer := g\<rparr>) row = drain_row env port row"
proof -
  have rec: "recover_with_request env (port\<lparr>register_answer := g\<rparr>) = recover_with_request env port"
    by (intro ext) (simp add: recover_with_request_def split: prod.splits sum.splits SubmissionLookup.splits)
  have "recover_handle env (port\<lparr>register_answer := g\<rparr>) = recover_handle env port"
    by (intro ext) (simp add: recover_handle_def rec split: prod.splits sum.splits option.splits)
  moreover have "apply_acknowledgement env (port\<lparr>register_answer := g\<rparr>) = apply_acknowledgement env port"
    by (intro ext)
      (simp add: apply_acknowledgement_def rec split: prod.splits sum.splits SubmissionAcknowledgement.splits)
  ultimately show ?thesis
    using assms
    by (intro ext) (simp add: drain_row_def Let_def split: prod.splits option.splits sum.splits)
qed

text \<open>
  The registry is only asked to register the payload of a row that
  was pending when the pass began: replacing its answers to every other registration
  request by arbitrary ones changes nothing. A row already submitted is polled or looked
  up, never sent a second time.
\<close>

theorem registry_drain_registers_pending_only:
  assumes "\<And>n r p req. r \<in> set (registry_sync db) \<Longrightarrow> rs_status r = ''pending'' \<Longrightarrow>
      rs_payload r = Some p \<Longrightarrow> decode_request port p = Inr req \<Longrightarrow> g n req = register_answer port n req"
  shows "registry_drain_once env (port\<lparr>register_answer := g\<rparr>) operator utc_now batch db =
    registry_drain_once env port operator utc_now batch db"
proof (cases "fst (sync_due env batch db)")
  case (Inl e)
  then obtain db' where "sync_due env batch db = (Inl e, db')" by (metis prod.collapse)
  then show ?thesis by (simp add: registry_drain_once_def)
next
  case (Inr rows)
  then obtain db' where d: "sync_due env batch db = (Inr rows, db')" by (metis prod.collapse)
  have "drain_row env (port\<lparr>register_answer := g\<rparr>) row = drain_row env port row" if "row \<in> set rows" for row
  proof (rule drain_row_register_cong)
    fix n p req
    assume row: "sync_status row \<noteq> SyncSubmitted" "sync_payload row = Some p" "decode_request port p = Inr req"
    from sync_due_rows(1) [OF d that] obtain r where
      "r \<in> set (registry_sync db)" "row = row_to_sync r" "rs_status r \<in> {''pending'', ''submitted''}" by blast
    with row assms show "g n req = register_answer port n req" by auto
  qed
  then show ?thesis
    using d by (simp add: registry_drain_once_def cong: fold_cong)
qed

theorem registry_drain_registers_pending_only_witness:
  "registry_drain_once sample_env
     (sample_port\<lparr>register_answer := \<lambda>n req. if req = JNull then Inr (AckAccepted ''corr'') else Inl (Internal ''down'')\<rparr>)
     None 0 10 sample_db =
   registry_drain_once sample_env sample_port None 0 10 sample_db"
  by (rule registry_drain_registers_pending_only) (auto simp: sample_db_simps new_sync_row_def)

text \<open>
  An operator whose verification is missing, or is 1095 days old or
  older, holds the pass: nothing is read, nothing is sent and nothing is written, so every
  row is drainable again after re-verification. With no operator record, with one that
  cannot be read, or with a current one, the pass is held by nothing.
\<close>

theorem registry_drain_verification_gate:
  "(held_unverified operator utc_now \<longleftrightarrow>
      (\<exists>cfg. operator = Some (Inr (Some cfg)) \<and>
         (case registry_verified_at cfg of None \<Rightarrow> True | Some t \<Rightarrow> t + 1095 * 86400 \<le> utc_now))) \<and>
   (held_unverified operator utc_now \<longrightarrow>
      registry_drain_once env port operator utc_now batch db = (drain_stats_default, db))"
  by (auto simp: held_unverified_def registry_verification_is_current_def not_less
      registry_verification_expires_at_def days_def REGISTRY_VERIFICATION_MAX_YEARS_def
      registry_drain_once_def split: option.splits sum.splits)

theorem registry_drain_verification_gate_witness:
  "registry_drain_once sample_env sample_port (Some (Inr (Some \<lparr>registry_verified_at = Some 0\<rparr>)))
     94608000 10 sample_db = (drain_stats_default, sample_db)"
  using registry_drain_verification_gate
    [of "Some (Inr (Some \<lparr>registry_verified_at = Some 0\<rparr>))" 94608000 sample_env sample_port 10 sample_db]
  by simp

text \<open>
  What a poll does to the row, for every answer: a registration
  records the identifier and the date, a refusal closes the row with its reason, anything
  that is not a ruling (a state without a name, one still being checked) leaves it
  submitted under the same correlation identifier with one more attempt, and a failure
  to hear from the registry only counts the attempt and the reason.
\<close>

theorem registry_poll_outcome:
  assumes "fault_free env" and "keys_ok db"
    and "row_at rs_passport_id pid (registry_sync db) = Some r"
    and "rs_status r = ''submitted''" and "rs_attempts r < 1023"
    and "correlation_of (row_to_sync r) = Some cid"
    and "drain_row env port (row_to_sync r) (stats, db) = (stats', db')"
  shows "\<exists>r'. row_at rs_passport_id pid (registry_sync db') = Some r' \<and>
    (case check_answer port (tick db) cid of
       Inr (ReportRegistered rid) \<Rightarrow>
         rs_status r' = ''registered'' \<and> rs_registry_id r' = Some rid \<and>
         rs_registered_at r' = Some (now_at env (tick db)) \<and> stats' = count_registered stats
     | Inr (ReportRefused reason) \<Rightarrow>
         rs_status r' = ''rejected'' \<and> rs_message r' = Some reason \<and> stats' = count_rejected stats
     | Inr (ReportUnrecognised state) \<Rightarrow>
         rs_status r' = ''submitted'' \<and> rs_registry_id r' = rs_registry_id r \<and>
         rs_attempts r' = rs_attempts r + 1 \<and>
         rs_message r' = Some (unrecognised_state_msg state) \<and> stats' = count_submitted stats
     | Inr (ReportOther _) \<Rightarrow>
         rs_status r' = ''submitted'' \<and> rs_registry_id r' = rs_registry_id r \<and>
         rs_attempts r' = rs_attempts r + 1 \<and> rs_message r' = None \<and> stats' = count_submitted stats
     | Inl e \<Rightarrow>
         rs_status r' = ''submitted'' \<and> rs_registry_id r' = rs_registry_id r \<and>
         rs_attempts r' = rs_attempts r + 1 \<and> rs_message r' = Some (fmt_dpp env e) \<and>
         stats' = count_retried stats)"
proof -
  have f: "fault_at env (tick db) = None" using assms(1) by (simp add: fault_free_def)
  have na: "rs_status r \<noteq> ''abandoned''" using assms(4) by simp
  note hit = sync_hit [OF f assms(2,3) na]
  have pid: "rs_passport_id r = pid" using assms(3) by (blast dest: row_at_SomeD)
  have d: "apply_report env pid (check_answer port (tick db) cid) (stats, db) = (stats', db')"
    using assms(4,6,7) by (simp add: drain_row_def pid)
  consider (registered) rid where "check_answer port (tick db) cid = Inr (ReportRegistered rid)"
    | (refused) reason where "check_answer port (tick db) cid = Inr (ReportRefused reason)"
    | (unrecognised) state where "check_answer port (tick db) cid = Inr (ReportUnrecognised state)"
    | (other) x where "check_answer port (tick db) cid = Inr (ReportOther x)"
    | (failed) e where "check_answer port (tick db) cid = Inl e"
    by (metis SubmissionReport.exhaust sum.exhaust)
  then show ?thesis
    by cases (use d hit assms(4,5) in \<open>auto simp: apply_report_def sync_mark_submitted_noting_def
        sync_mark_submitted_def row_defs\<close>)
qed

theorem registry_poll_outcome_witness:
  "\<exists>r'. row_at rs_passport_id 9 (registry_sync (snd (drain_row sample_env sample_port
      (row_to_sync (new_sync_row 0 9 JNull \<lparr>rs_status := ''submitted'', rs_registry_id := Some ''corr''\<rparr>))
      (drain_stats_default, empty_db\<lparr>registry_sync :=
         [new_sync_row 0 9 JNull \<lparr>rs_status := ''submitted'', rs_registry_id := Some ''corr''\<rparr>]\<rparr>))))
     = Some r' \<and> rs_status r' = ''registered'' \<and> rs_registry_id r' = Some ''reg''"
proof -
  let ?r = "new_sync_row 0 9 JNull \<lparr>rs_status := ''submitted'', rs_registry_id := Some ''corr''\<rparr>"
  let ?db = "empty_db\<lparr>registry_sync := [?r]\<rparr>"
  obtain stats' db' where d: "drain_row sample_env sample_port (row_to_sync ?r) (drain_stats_default, ?db) = (stats', db')"
    by fastforce
  have k: "keys_ok ?db" by (simp add: keys_ok_def empty_db_def)
  have r: "row_at rs_passport_id 9 (registry_sync ?db) = Some ?r" by (simp add: new_sync_row_def)
  have c: "correlation_of (row_to_sync ?r) = Some ''corr''"
    by (simp add: correlation_of_def str_trim_def is_ws_def)
  from registry_poll_outcome [OF sample_env_ok(1) k r _ _ c d] show ?thesis
    unfolding d snd_conv by (auto simp: new_sync_row_def)
qed

text \<open>
  What a first submission does to the row, for every answer of
  the registry: acceptance records the correlation identifier; an answer that it already
  holds the submission leaves the row in some state other than pending, so it is never
  posted again; a payload the adapter refuses closes the row with the reason; any other
  answer and any failure leaves it pending with one more attempt.
\<close>

theorem registry_submit_outcome:
  assumes "fault_free env" and "keys_ok db"
    and "row_at rs_passport_id pid (registry_sync db) = Some r"
    and "rs_status r = ''pending''" and "rs_attempts r < 1023"
    and "rs_payload r = Some payload" and "decode_request port payload = Inr req"
    and "drain_row env port (row_to_sync r) (stats, db) = (stats', db')"
  shows "\<exists>r'. row_at rs_passport_id pid (registry_sync db') = Some r' \<and>
    (case register_answer port (tick db) req of
       Inr (AckAccepted cid) \<Rightarrow>
         rs_status r' = ''submitted'' \<and> (cid \<noteq> [] \<longrightarrow> rs_registry_id r' = Some cid) \<and>
         rs_submitted_at r' \<noteq> None \<and> stats' = count_submitted stats
     | Inr AckAlreadyHeld \<Rightarrow> rs_status r' \<noteq> ''pending''
     | Inr (AckOther _) \<Rightarrow>
         rs_status r' = ''pending'' \<and> rs_attempts r' = rs_attempts r + 1 \<and> stats' = count_retried stats
     | Inl (Validation e) \<Rightarrow>
         rs_status r' = ''rejected'' \<and> rs_message r' = Some (refused_msg e) \<and> stats' = count_skipped stats
     | Inl e \<Rightarrow>
         rs_status r' = ''pending'' \<and> rs_attempts r' = rs_attempts r + 1 \<and>
         rs_message r' = Some (fmt_dpp env e) \<and> stats' = count_retried stats)"
proof -
  have f: "fault_at env (tick db) = None" using assms(1) by (simp add: fault_free_def)
  have na: "rs_status r \<noteq> ''abandoned''" using assms(4) by simp
  note hit = sync_hit [OF f assms(2,3) na]
  have pid: "rs_passport_id r = pid" using assms(3) by (blast dest: row_at_SomeD)
  have d: "apply_acknowledgement env port pid req (register_answer port (tick db) req) (stats, db) = (stats', db')"
    using assms(4,6,7,8) by (simp add: drain_row_def pid)
  have rej: "\<exists>db1. sync_mark_rejected env pid msg db = (Inr (), db1) \<and>
      row_at rs_passport_id pid (registry_sync db1) =
        Some (rejected_row msg (now_at env (tick db)) (random_at env (tick db)) r)" for msg
    using hit(3,4) [of msg] by (metis prod.collapse)
  show ?thesis
  proof (cases "register_answer port (tick db) req = Inr AckAlreadyHeld")
    case True
    let ?db = "snd (sync_mark_submitted env pid [] db)"
    have db': "db' = snd (recover_with_request env port pid req (stats, ?db))"
      using d True by (simp add: apply_acknowledgement_def)
    have "row_at rs_passport_id pid (registry_sync ?db) =
        Some (submitted_row [] None (now_at env (tick db)) (random_at env (tick db)) r)"
      using hit(6) [OF assms(5)] by (simp add: sync_mark_submitted_def)
    moreover have "runs (drain_step env port) {pid} ?db db'"
      using recover_with_request_steps [where st = "(stats, ?db)" and env = env and port = port
          and pid = pid and request = req]
      by (auto simp: db' row_steps_def intro: runs_relpowp)
    ultimately have "opt_holds (follows_from port
        (submitted_row [] None (now_at env (tick db)) (random_at env (tick db)) r))
        (row_at rs_passport_id pid (registry_sync db'))"
      by (blast intro: drain_tr.runs_rel)
    then show ?thesis
      by (auto simp: True opt_holds_def follows_from_def submitted_row_def split: option.splits)
  next
    case False
    show ?thesis
    proof (cases "\<exists>e. register_answer port (tick db) req = Inl (Validation e)")
      case True
      then obtain e where e: "register_answer port (tick db) req = Inl (Validation e)" by blast
      from rej [of "refused_msg e"] obtain db1 where "sync_mark_rejected env pid (refused_msg e) db = (Inr (), db1)"
        "row_at rs_passport_id pid (registry_sync db1) =
          Some (rejected_row (refused_msg e) (now_at env (tick db)) (random_at env (tick db)) r)" by blast
      with d show ?thesis
        by (auto simp: e apply_acknowledgement_def rejected_row_def)
    next
      case plain: False
      with False show ?thesis
        using d hit(6) [OF assms(5)] hit(8) [OF assms(5)] assms(4)
        by (auto simp: apply_acknowledgement_def sync_mark_submitted_def submitted_row_def failed_row_def
            split: sum.splits SubmissionAcknowledgement.splits dpp_error.splits)
    qed
  qed
qed

theorem registry_submit_outcome_witness:
  "\<exists>r'. row_at rs_passport_id 9 (registry_sync (snd (drain_row sample_env sample_port
      (row_to_sync (new_sync_row 0 9 JNull))
      (drain_stats_default, empty_db\<lparr>registry_sync := [new_sync_row 0 9 JNull]\<rparr>))))
     = Some r' \<and> rs_status r' = ''submitted'' \<and> rs_registry_id r' = Some ''corr''"
proof -
  let ?r = "new_sync_row 0 9 JNull"
  let ?db = "empty_db\<lparr>registry_sync := [?r]\<rparr>"
  obtain stats' db' where d: "drain_row sample_env sample_port (row_to_sync ?r) (drain_stats_default, ?db) = (stats', db')"
    by fastforce
  have k: "keys_ok ?db" by (simp add: keys_ok_def empty_db_def)
  have r: "row_at rs_passport_id 9 (registry_sync ?db) = Some ?r" "rs_status ?r = ''pending''"
      "rs_attempts ?r < 1023" "rs_payload ?r = Some JNull" "decode_request sample_port JNull = Inr JNull"
    by (simp_all add: new_sync_row_def)
  from registry_submit_outcome [OF sample_env_ok(1) k r d] show ?thesis
    unfolding d snd_conv by auto
qed



text \<open>
  A row that was queued again keeps the correlation identifier of its
  earlier submission. When the registry then answers that it already holds the
  submission and the lookup finds nothing, the row is submitted under that old identifier,
  and the next pass polls by it instead of looking the new submission up.
\<close>

theorem registry_requeue_keeps_stale_handle:
  assumes "fault_free env" and "keys_ok db"
    and "row_at rs_passport_id pid (registry_sync db) = Some r"
    and "rs_status r = ''pending''" and "rs_attempts r < 1022"
    and "rs_payload r = Some payload" and "decode_request port payload = Inr req"
    and "rs_registry_id r = Some old" and "str_trim old \<noteq> []"
    and "register_answer port (tick db) req = Inr AckAlreadyHeld"
    and "find_answer port (tick db + 1) req = Inr (LookupNotFound exhaustive)"
    and "drain_row env port (row_to_sync r) (stats, db) = (stats', db')"
  shows "\<exists>r'. row_at rs_passport_id pid (registry_sync db') = Some r' \<and> rs_status r' = ''submitted'' \<and>
     correlation_of (row_to_sync r') = Some (str_trim old)"
proof -
  have f: "fault_at env n = None" for n using assms(1) by (simp add: fault_free_def)
  have na: "rs_status r \<noteq> ''abandoned''" using assms(4) by simp
  let ?db = "snd (sync_mark_submitted env pid [] db)"
  let ?r = "submitted_row [] None (now_at env (tick db)) (random_at env (tick db)) r"
  have pid: "rs_passport_id r = pid" using assms(3) by (blast dest: row_at_SomeD)
  have r1: "row_at rs_passport_id pid (registry_sync ?db) = Some ?r"
    using sync_submitted_hit(2) [OF f assms(2,3) na] assms(5) by (simp add: sync_mark_submitted_def)
  have t1: "tick ?db = tick db + 1" by (rule sync_step_tick [OF step_mark_submitted])
  have k1: "keys_ok ?db" by (rule sync_step_keys_ok [OF step_mark_submitted assms(2)])
  have "db' = snd (sync_mark_submitted_noting env pid (not_found_msg exhaustive) ?db)"
    using assms(4,6,7,10,11,12) t1
    by (simp add: drain_row_def pid apply_acknowledgement_def recover_with_request_def)
  then have "row_at rs_passport_id pid (registry_sync db') =
      Some (submitted_row [] (Some (not_found_msg exhaustive)) (now_at env (tick ?db)) (random_at env (tick ?db)) ?r)"
    using sync_submitted_hit(2) [OF f k1 r1] assms(5)
    by (simp add: sync_mark_submitted_noting_def submitted_row_def)
  then show ?thesis
    using assms(8,9) by (simp add: submitted_row_def correlation_of_def)
qed

theorem registry_requeue_keeps_stale_handle_witness:
  "\<exists>r'. row_at rs_passport_id 9 (registry_sync (snd (drain_row sample_env
      (sample_port\<lparr>register_answer := \<lambda>n req. Inr AckAlreadyHeld, find_answer := \<lambda>n req. Inr (LookupNotFound True)\<rparr>)
      (row_to_sync (requeue_row 0 JNull (new_sync_row 0 9 JNull \<lparr>rs_status := ''rejected'', rs_registry_id := Some ''old''\<rparr>)))
      (drain_stats_default, empty_db\<lparr>registry_sync :=
         [requeue_row 0 JNull (new_sync_row 0 9 JNull \<lparr>rs_status := ''rejected'', rs_registry_id := Some ''old''\<rparr>)]\<rparr>))))
     = Some r' \<and> correlation_of (row_to_sync r') = Some ''old''"
proof -
  let ?r = "requeue_row 0 JNull (new_sync_row 0 9 JNull \<lparr>rs_status := ''rejected'', rs_registry_id := Some ''old''\<rparr>)"
  let ?db = "empty_db\<lparr>registry_sync := [?r]\<rparr>"
  let ?port = "sample_port\<lparr>register_answer := \<lambda>n req. Inr AckAlreadyHeld,
      find_answer := \<lambda>n req. Inr (LookupNotFound True)\<rparr>"
  obtain stats' db' where d: "drain_row sample_env ?port (row_to_sync ?r) (drain_stats_default, ?db) = (stats', db')"
    by fastforce
  have k: "keys_ok ?db" by (simp add: keys_ok_def empty_db_def)
  have r: "row_at rs_passport_id 9 (registry_sync ?db) = Some ?r" "rs_status ?r = ''pending''"
      "rs_attempts ?r < 1022" "rs_payload ?r = Some JNull"
    and old: "rs_registry_id ?r = Some ''old''"
    by (simp_all add: new_sync_row_def requeue_row_def)
  have trim: "str_trim ''old'' = ''old''" by (simp add: str_trim_def is_ws_def)
  then have ne: "str_trim ''old'' \<noteq> []" by simp
  have port: "decode_request ?port JNull = Inr JNull" "register_answer ?port (tick ?db) JNull = Inr AckAlreadyHeld"
      "find_answer ?port (tick ?db + 1) JNull = Inr (LookupNotFound True)"
    by simp_all
  from registry_requeue_keeps_stale_handle [OF sample_env_ok(1) k r port(1) old ne port(2,3) d] show ?thesis
    unfolding d snd_conv trim by blast
qed

end
