(* ===== verification/Audit_Trail.thy ===== *)
theory Audit_Trail
  imports Statements
begin

text \<open>
  The audit trail: the entries and their hash chain of \<^verbatim>\<open>dpp-types/src/audit.rs\<close>, the
  append and the reads of \<^verbatim>\<open>dpp-dal/src/pg/repo_audit.rs\<close>, and the decorator
  \<^verbatim>\<open>dpp-vault/src/infra/request_stamped_audit.rs\<close>. The canonical hash
  (\<^verbatim>\<open>dpp_rules::canonical::content_hash\<close>) and the text forms of identifiers, timestamps
  and quoted strings are the fields of \<open>hashing\<close>; nothing is assumed about the hash
  beyond what a theorem names.
\<close>

record hashing =
  content_hash :: "json \<Rightarrow> string"
  fmt_id :: "uuid \<Rightarrow> string"
  fmt_ts :: "time \<Rightarrow> string"
  fmt_debug :: "string \<Rightarrow> string"

subsection \<open>Entries and their chain\<close>

definition GENESIS_PREV_HASH :: string where
  "GENESIS_PREV_HASH = []"

definition new_audit_entry ::
  "uuid \<Rightarrow> time \<Rightarrow> string \<Rightarrow> string \<Rightarrow> string \<Rightarrow> string option \<Rightarrow> string option \<Rightarrow> PassportAuditEntry" where
  "new_audit_entry ident now passport_id action actor previous_status new_status =
     \<lparr>au_id = ident, au_passport_id = passport_id, au_actor = actor, au_action = action,
      au_previous_status = previous_status, au_new_status = new_status, au_metadata = None,
      au_ts = now, au_request_id = None, au_prev_hash = None, au_entry_hash = None\<rparr>"

definition with_metadata :: "json \<Rightarrow> PassportAuditEntry \<Rightarrow> PassportAuditEntry" where
  "with_metadata metadata e = e\<lparr>au_metadata := Some metadata\<rparr>"

definition with_request_id :: "string option \<Rightarrow> PassportAuditEntry \<Rightarrow> PassportAuditEntry" where
  "with_request_id request_id e =
     (case request_id of Some rid \<Rightarrow> e\<lparr>au_request_id := Some rid\<rparr> | None \<Rightarrow> e)"

definition json_opt :: "string option \<Rightarrow> json" where
  "json_opt x = (case x of None \<Rightarrow> JNull | Some s \<Rightarrow> JStr s)"

text \<open>The object that is hashed, its members in key order.\<close>

definition chain_content :: "hashing \<Rightarrow> PassportAuditEntry \<Rightarrow> string \<Rightarrow> json" where
  "chain_content h e prev_hash =
     JObj [(''action'', JStr (au_action e)),
           (''actor'', JStr (au_actor e)),
           (''id'', JStr (fmt_id h (au_id e))),
           (''metadata'', case au_metadata e of None \<Rightarrow> JNull | Some m \<Rightarrow> m),
           (''newStatus'', json_opt (au_new_status e)),
           (''passportId'', JStr (au_passport_id e)),
           (''prevHash'', JStr prev_hash),
           (''previousStatus'', json_opt (au_previous_status e)),
           (''timestamp'', JStr (fmt_ts h (au_ts e)))]"

definition chain_hash :: "hashing \<Rightarrow> PassportAuditEntry \<Rightarrow> string \<Rightarrow> string" where
  "chain_hash h e prev_hash = content_hash h (chain_content h e prev_hash)"

record AuditChainBreak =
  break_index :: nat
  break_passport_id :: string
  break_reason :: string

definition stored_prev :: "PassportAuditEntry \<Rightarrow> string" where
  "stored_prev e = (case au_prev_hash e of Some p \<Rightarrow> p | None \<Rightarrow> GENESIS_PREV_HASH)"

definition stored_hash :: "PassportAuditEntry \<Rightarrow> string" where
  "stored_hash e = (case au_entry_hash e of Some p \<Rightarrow> p | None \<Rightarrow> [])"

fun verify_from :: "hashing \<Rightarrow> nat \<Rightarrow> string \<Rightarrow> PassportAuditEntry list \<Rightarrow> AuditChainBreak + unit" where
  "verify_from h index expected_prev [] = Inr ()"
| "verify_from h index expected_prev (e # es) =
     (if stored_prev e \<noteq> expected_prev then
        Inl \<lparr>break_index = index, break_passport_id = au_passport_id e,
             break_reason = ''prev_hash link broken: stored '' @ fmt_debug h (stored_prev e) @
               '', expected '' @ fmt_debug h expected_prev\<rparr>
      else if stored_hash e \<noteq> chain_hash h e expected_prev then
        Inl \<lparr>break_index = index, break_passport_id = au_passport_id e,
             break_reason = ''entry_hash mismatch -- content tampered''\<rparr>
      else verify_from h (index + 1) (chain_hash h e expected_prev) es)"

definition verify_audit_chain :: "hashing \<Rightarrow> PassportAuditEntry list \<Rightarrow> AuditChainBreak + unit" where
  "verify_audit_chain h entries = verify_from h 0 GENESIS_PREV_HASH entries"

subsection \<open>The repository\<close>

text \<open>The actions the table's check constraint admits (0046).\<close>

definition audit_actions :: "string list" where
  "audit_actions = [''created'', ''updated'', ''published'', ''suspended'', ''archived'', ''retired'',
     ''deactivated'', ''transferred'', ''credentialed_read'', ''superseded'',
     ''registry_handle_recorded'', ''registry_abandoned'']"

text \<open>Timestamps are stored to the microsecond.\<close>

definition truncate_micros :: "time \<Rightarrow> time" where
  "truncate_micros t = of_int \<lfloor>t * 1000000\<rfloor> / 1000000"

definition audit_order :: "PassportAuditEntry \<Rightarrow> time \<times> uuid" where
  "audit_order e = (au_ts e, au_id e)"

definition trail_of :: "string \<Rightarrow> PassportAuditEntry list \<Rightarrow> PassportAuditEntry list" where
  "trail_of pid es = sort_key audit_order (filter (\<lambda>e. au_passport_id e = pid) es)"

text \<open>The stored hash of the newest entry, or the genesis value.\<close>

definition head_hash :: "PassportAuditEntry list \<Rightarrow> string" where
  "head_hash trail =
     (if trail = [] then GENESIS_PREV_HASH
      else case au_entry_hash (last trail) of Some hsh \<Rightarrow> hsh | None \<Rightarrow> GENESIS_PREV_HASH)"

definition chained_entry :: "hashing \<Rightarrow> PassportAuditEntry list \<Rightarrow> PassportAuditEntry \<Rightarrow> PassportAuditEntry" where
  "chained_entry h es entry =
     (let e = entry\<lparr>au_ts := truncate_micros (au_ts entry)\<rparr>;
          prev_hash = head_hash (trail_of (au_passport_id e) es)
      in e\<lparr>au_prev_hash := Some prev_hash, au_entry_hash := Some (chain_hash h e prev_hash)\<rparr>)"

text \<open>
  The append, as the one transaction it is: the advisory lock, the read of the head and
  the insert either all happen or none does, and a failure anywhere in it leaves the
  table as it was.
\<close>

definition audit_append :: "pg_env \<Rightarrow> hashing \<Rightarrow> PassportAuditEntry \<Rightarrow> odal \<Rightarrow> (dpp_error + unit) \<times> odal" where
  "audit_append env h entry db =
     (case fault_at env (tick db) of
        Some e \<Rightarrow> (Inl (db_err env e), bump db)
      | None \<Rightarrow>
          if au_id entry \<in> au_id ` set (passport_audit db) then (Inl (db_err env unique_violation), bump db)
          else if au_action entry \<notin> set audit_actions then (Inl (db_err env check_violation), bump db)
          else (Inr (), bump (db\<lparr>passport_audit :=
                 passport_audit db @ [chained_entry h (passport_audit db) entry]\<rparr>)))"

definition list_by_passport :: "pg_env \<Rightarrow> string \<Rightarrow> odal \<Rightarrow> (dpp_error + PassportAuditEntry list) \<times> odal" where
  "list_by_passport env pid db =
     (case fault_at env (tick db) of
        Some e \<Rightarrow> (Inl (db_err env e), bump db)
      | None \<Rightarrow> (Inr (trail_of pid (passport_audit db)), bump db))"

definition verify_chain :: "pg_env \<Rightarrow> hashing \<Rightarrow> string \<Rightarrow> odal \<Rightarrow> (dpp_error + AuditChainBreak option) \<times> odal" where
  "verify_chain env h pid db =
     (case list_by_passport env pid db of
        (Inl e, db') \<Rightarrow> (Inl e, db')
      | (Inr entries, db') \<Rightarrow>
          (Inr (case verify_audit_chain h entries of Inl b \<Rightarrow> Some b | Inr _ \<Rightarrow> None), db'))"

definition stamped_append ::
  "pg_env \<Rightarrow> hashing \<Rightarrow> string option \<Rightarrow> PassportAuditEntry \<Rightarrow> odal \<Rightarrow> (dpp_error + unit) \<times> odal" where
  "stamped_append env h current entry db = audit_append env h (with_request_id current entry) db"

subsection \<open>The chain\<close>

text \<open>The hash a chain ends in, recomputed from its contents.\<close>

definition chain_end :: "hashing \<Rightarrow> string \<Rightarrow> PassportAuditEntry list \<Rightarrow> string" where
  "chain_end h prev es = fold (\<lambda>e p. chain_hash h e p) es prev"

lemma chain_end_simps [simp]:
  "chain_end h prev [] = prev"
  "chain_end h prev (e # es) = chain_end h (chain_hash h e prev) es"
  "chain_end h prev (es @ [e]) = chain_hash h e (chain_end h prev es)"
  by (simp_all add: chain_end_def)

lemma verify_from_append:
  "verify_from h i prev (xs @ ys) =
     (case verify_from h i prev xs of
        Inl b \<Rightarrow> Inl b
      | Inr _ \<Rightarrow> verify_from h (i + length xs) (chain_end h prev xs) ys)"
  by (induction xs arbitrary: i prev) (auto split: sum.splits)

text \<open>In a chain that verifies, the newest stored hash is the recomputed one.\<close>

lemma head_hash_verified:
  assumes "verify_audit_chain h xs = Inr ()"
  shows "head_hash xs = chain_end h GENESIS_PREV_HASH xs"
proof (cases xs rule: rev_cases)
  case (snoc ys y)
  with assms have "stored_hash y = chain_hash h y (chain_end h GENESIS_PREV_HASH ys)"
    by (auto simp: verify_audit_chain_def verify_from_append split: sum.splits if_splits)
  with snoc show ?thesis
    by (auto simp: head_hash_def stored_hash_def GENESIS_PREV_HASH_def split: option.splits)
qed (simp add: head_hash_def)

lemma chained_entry_simps [simp]:
  "au_id (chained_entry h es e) = au_id e"
  "au_passport_id (chained_entry h es e) = au_passport_id e"
  "au_ts (chained_entry h es e) = truncate_micros (au_ts e)"
  by (simp_all add: chained_entry_def Let_def)

lemma chained_entry_link:
  "stored_prev (chained_entry h es e) = head_hash (trail_of (au_passport_id e) es)"
  "stored_hash (chained_entry h es e) =
     chain_hash h (chained_entry h es e) (head_hash (trail_of (au_passport_id e) es))"
  by (simp_all add: chained_entry_def Let_def stored_prev_def stored_hash_def chain_hash_def chain_content_def)

lemma trail_of_append: "trail_of pid (es @ [e]) =
    (if au_passport_id e = pid then sort_key audit_order (filter (\<lambda>e. au_passport_id e = pid) es @ [e])
     else trail_of pid es)"
  by (simp add: trail_of_def)

lemma audit_append_ok:
  assumes "fault_free env" and "au_id entry \<notin> au_id ` set (passport_audit db)" and "au_action entry \<in> set audit_actions"
  shows "audit_append env h entry db = (Inr (), bump (db\<lparr>passport_audit :=
      passport_audit db @ [chained_entry h (passport_audit db) entry]\<rparr>))"
  using assms by (simp add: audit_append_def fault_free_def)

subsection \<open>Properties\<close>

text \<open>
  Property C5 (invariant). Appending keeps a trail verifiable: when a passport's trail
  verifies and the new entry, at the microsecond it is stored with, comes after every
  entry of the trail, the append succeeds, the trail read back is the old one with the
  new entry at its end, and it verifies again. No other passport's trail changes.
\<close>

theorem audit_append_verifies:
  assumes "fault_free env" and "au_id entry \<notin> au_id ` set (passport_audit db)"
    and "au_action entry \<in> set audit_actions"
    and "verify_audit_chain h (trail_of (au_passport_id entry) (passport_audit db)) = Inr ()"
    and "\<And>e. e \<in> set (passport_audit db) \<Longrightarrow> au_passport_id e = au_passport_id entry \<Longrightarrow>
           audit_order e \<le> (truncate_micros (au_ts entry), au_id entry)"
    and "audit_append env h entry db = (res, db')"
  shows "res = Inr () \<and>
    (\<exists>e. trail_of (au_passport_id entry) (passport_audit db') =
          trail_of (au_passport_id entry) (passport_audit db) @ [e] \<and>
        au_action e = au_action entry \<and> au_actor e = au_actor entry \<and> au_metadata e = au_metadata entry) \<and>
    verify_audit_chain h (trail_of (au_passport_id entry) (passport_audit db')) = Inr () \<and>
    (\<forall>pid. pid \<noteq> au_passport_id entry \<longrightarrow>
       trail_of pid (passport_audit db') = trail_of pid (passport_audit db))"
proof -
  let ?e = "chained_entry h (passport_audit db) entry" and ?pid = "au_passport_id entry"
  have db': "res = Inr ()" "passport_audit db' = passport_audit db @ [?e]"
    using assms(6) audit_append_ok [OF assms(1-3), of h] by auto
  have "trail_of ?pid (passport_audit db @ [?e]) = trail_of ?pid (passport_audit db) @ [?e]"
    unfolding trail_of_append using assms(5)
    by (subst sort_key_append_max) (auto simp: trail_of_def audit_order_def)
  moreover have "verify_audit_chain h (trail_of ?pid (passport_audit db) @ [?e]) = Inr ()"
    using assms(4) head_hash_verified [OF assms(4)]
    by (simp add: verify_audit_chain_def verify_from_append chained_entry_link)
  ultimately show ?thesis
    by (auto simp: db' trail_of_append) (simp_all add: chained_entry_def Let_def)
qed

text \<open>
  Property C36 (error). The order the chain is verified in is the order of the timestamps
  the callers made, not the order of the appends. An entry that is appended after another
  but was stamped before it (two requests that meet at the lock in the other order) is
  linked behind the newer one and read back in front of it: the trail, intact until
  then, is reported broken although nothing was tampered with. Distinctness of the stored
  hashes is what a collision-free hash gives.
\<close>

theorem audit_append_out_of_order_breaks:
  assumes "fault_free env" and "distinct (map au_id (passport_audit db))"
    and "au_id entry \<notin> au_id ` set (passport_audit db)" and "au_action entry \<in> set audit_actions"
    and "verify_audit_chain h (trail_of (au_passport_id entry) (passport_audit db)) = Inr ()"
    and "distinct (GENESIS_PREV_HASH # map stored_hash (trail_of (au_passport_id entry) (passport_audit db)))"
    and "e \<in> set (passport_audit db)" and "au_passport_id e = au_passport_id entry"
    and "truncate_micros (au_ts entry) < au_ts e"
    and "audit_append env h entry db = (res, db')"
  shows "res = Inr () \<and>
    (\<exists>b. verify_audit_chain h (trail_of (au_passport_id entry) (passport_audit db')) = Inl b \<and>
         break_passport_id b = au_passport_id entry)"
proof -
  let ?n = "chained_entry h (passport_audit db) entry" and ?pid = "au_passport_id entry"
  let ?own = "filter (\<lambda>e. au_passport_id e = ?pid) (passport_audit db)"
  have res: "res = Inr ()" and db': "passport_audit db' = passport_audit db @ [?n]"
    using assms(10) audit_append_ok [OF assms(1,3,4), of h] by auto
  have inj: "inj_on audit_order (set (?own @ [?n]))"
  proof (rule inj_onI)
    fix x y assume xy: "x \<in> set (?own @ [?n])" "y \<in> set (?own @ [?n])" "audit_order x = audit_order y"
    then have "au_id x = au_id y" by (simp add: audit_order_def)
    moreover have "inj_on au_id (set (passport_audit db @ [?n]))"
    proof -
      have "distinct (map au_id (passport_audit db @ [?n]))" using assms(2,3) by auto
      then show ?thesis by (simp only: distinct_map)
    qed
    moreover have "x \<in> set (passport_audit db @ [?n])" "y \<in> set (passport_audit db @ [?n])"
      using xy(1,2) by auto
    ultimately show "x = y" by (blast dest: inj_onD)
  qed
  have notin: "?n \<notin> set ?own" using assms(3) by (auto intro: rev_image_eqI)
  obtain us vs where old: "sort_key audit_order ?own = us @ vs"
    and new: "sort_key audit_order (?own @ [?n]) = us @ ?n # vs"
    and later: "\<And>v. v \<in> set ?own \<Longrightarrow> audit_order ?n < audit_order v \<Longrightarrow> v \<in> set vs"
    using sort_key_insert_split [OF inj notin] by blast
  have vs: "vs \<noteq> []"
    using later [of e] assms(7-9) by (auto simp: audit_order_def less_prod_def')
  have trail: "trail_of ?pid (passport_audit db) = us @ vs" by (simp add: trail_of_def old)
  have us_ok: "verify_from h 0 GENESIS_PREV_HASH us = Inr ()"
    using assms(5) by (auto simp: trail verify_audit_chain_def verify_from_append split: sum.splits)
  then have us_end: "chain_end h GENESIS_PREV_HASH us = head_hash us"
    using head_hash_verified [of h us] by (simp add: verify_audit_chain_def)
  have hd: "head_hash zs = (if zs = [] then GENESIS_PREV_HASH else stored_hash (last zs))" for zs
    by (auto simp: head_hash_def stored_hash_def GENESIS_PREV_HASH_def split: option.splits)
  have "head_hash (us @ vs) = stored_hash (last vs)" using vs by (simp add: hd)
  moreover have "stored_hash (last vs) \<in> set (map stored_hash vs)" using vs by simp
  moreover have "head_hash us \<in> set (GENESIS_PREV_HASH # map stored_hash us)" by (simp add: hd)
  ultimately have "head_hash (us @ vs) \<noteq> head_hash us"
    using assms(6) unfolding trail by (fastforce simp: GENESIS_PREV_HASH_def)
  then have "\<exists>b. verify_audit_chain h (us @ ?n # vs) = Inl b \<and> break_passport_id b = ?pid"
    by (simp add: verify_audit_chain_def verify_from_append us_ok us_end chained_entry_link trail)
  then show ?thesis
    by (simp add: res db' trail_of_append new)
qed

text \<open>
  Tamper evidence: two trails that both verify and end in the same
  hash record the same entries, one by one, unless the hash has a collision or takes
  the empty value. A checkpoint of the head therefore pins the whole trail.
\<close>

theorem audit_head_pins_trail:
  assumes "verify_audit_chain h xs = Inr ()" and "verify_audit_chain h ys = Inr ()"
    and "head_hash xs = head_hash ys"
  shows "map (\<lambda>e. chain_content h e GENESIS_PREV_HASH) xs = map (\<lambda>e. chain_content h e GENESIS_PREV_HASH) ys \<or>
    (\<exists>a b. a \<noteq> b \<and> content_hash h a = content_hash h b) \<or> (\<exists>a. content_hash h a = GENESIS_PREV_HASH)"
proof -
  have pin: "map (\<lambda>e. chain_content h e GENESIS_PREV_HASH) xs = map (\<lambda>e. chain_content h e GENESIS_PREV_HASH) ys"
    if "chain_end h GENESIS_PREV_HASH xs = chain_end h GENESIS_PREV_HASH ys"
      and inj: "\<And>a b. content_hash h a = content_hash h b \<Longrightarrow> a = b"
      and ne: "\<And>a. content_hash h a \<noteq> GENESIS_PREV_HASH"
    for xs ys
    using that(1)
  proof (induction xs arbitrary: ys rule: rev_induct)
    case Nil
    then show ?case using ne by (cases ys rule: rev_cases) (auto simp: chain_hash_def eq_commute [of GENESIS_PREV_HASH])
  next
    case (snoc x xs)
    show ?case
    proof (cases ys rule: rev_cases)
      case Nil
      with snoc.prems ne show ?thesis by (simp add: chain_hash_def)
    next
      case y: (snoc ys' y)
      with snoc.prems have "chain_content h x (chain_end h GENESIS_PREV_HASH xs) =
          chain_content h y (chain_end h GENESIS_PREV_HASH ys')"
        by (simp add: chain_hash_def inj)
      then have "chain_end h GENESIS_PREV_HASH xs = chain_end h GENESIS_PREV_HASH ys'"
        and "chain_content h x GENESIS_PREV_HASH = chain_content h y GENESIS_PREV_HASH"
        by (simp_all add: chain_content_def)
      with snoc.IH show ?thesis by (simp add: y)
    qed
  qed
  then show ?thesis
    using assms head_hash_verified by metis
qed

text \<open>A hash and two entries for evaluating the definitions.\<close>

definition sample_hashing :: hashing where
  "sample_hashing = \<lparr>content_hash = (\<lambda>j. ''h''), fmt_id = (\<lambda>_. ''id''), fmt_ts = (\<lambda>_. ''ts''), fmt_debug = id\<rparr>"

definition sample_entry :: "uuid \<Rightarrow> time \<Rightarrow> PassportAuditEntry" where
  "sample_entry ident t = new_audit_entry ident t ''p'' ''published'' ''actor'' None None"

definition sample_trail_db :: odal where
  "sample_trail_db = empty_db\<lparr>passport_audit := [chained_entry sample_hashing [] (sample_entry 3 5)]\<rparr>"

lemma sample_trail_simps:
  "passport_audit sample_trail_db = [chained_entry sample_hashing [] (sample_entry 3 5)]"
  "trail_of ''p'' [chained_entry sample_hashing [] (sample_entry 3 5)] =
     [chained_entry sample_hashing [] (sample_entry 3 5)]"
  "au_id (sample_entry i t) = i" "au_ts (sample_entry i t) = t" "au_passport_id (sample_entry i t) = ''p''"
  "au_action (sample_entry i t) = ''published''"
  by (simp_all add: sample_trail_db_def sample_entry_def new_audit_entry_def trail_of_def)

lemma sample_trail_verifies:
  "verify_audit_chain sample_hashing [chained_entry sample_hashing [] (sample_entry 3 5)] = Inr ()"
  "stored_hash (chained_entry sample_hashing [] (sample_entry 3 5)) = ''h''"
  by (simp_all add: verify_audit_chain_def chained_entry_link sample_trail_simps trail_of_def head_hash_def
      chain_hash_def sample_hashing_def)

lemma truncate_micros_of_nat [simp]: "truncate_micros (of_nat n) = of_nat n"
proof -
  have "(of_nat n * 1000000 :: rat) = of_int (int n * 1000000)" by simp
  then have "\<lfloor>of_nat n * 1000000 :: rat\<rfloor> = int n * 1000000" by (metis floor_of_int)
  then show ?thesis by (simp add: truncate_micros_def)
qed

lemmas truncate_micros_numeral [simp] = truncate_micros_of_nat [of "numeral k" for k, simplified]

theorem audit_append_verifies_witness:
  "verify_audit_chain sample_hashing (trail_of ''p''
     (passport_audit (snd (audit_append sample_env sample_hashing (sample_entry 2 6) sample_trail_db)))) = Inr ()"
proof -
  obtain res db' where a: "audit_append sample_env sample_hashing (sample_entry 2 6) sample_trail_db = (res, db')"
    by fastforce
  have "au_id (sample_entry 2 6) \<notin> au_id ` set (passport_audit sample_trail_db)"
    "au_action (sample_entry 2 6) \<in> set audit_actions"
    "verify_audit_chain sample_hashing
      (trail_of (au_passport_id (sample_entry 2 6)) (passport_audit sample_trail_db)) = Inr ()"
    by (simp_all add: sample_trail_simps sample_trail_verifies audit_actions_def)
  from audit_append_verifies [OF sample_env_ok(1) this _ a] show ?thesis
    by (auto simp: a sample_trail_simps audit_order_def)
qed

theorem audit_append_out_of_order_breaks_witness:
  "\<exists>b. verify_audit_chain sample_hashing (trail_of ''p''
     (passport_audit (snd (audit_append sample_env sample_hashing (sample_entry 2 4) sample_trail_db)))) = Inl b"
proof -
  let ?e = "chained_entry sample_hashing [] (sample_entry 3 5)"
  obtain res db' where a: "audit_append sample_env sample_hashing (sample_entry 2 4) sample_trail_db = (res, db')"
    by fastforce
  have "distinct (map au_id (passport_audit sample_trail_db))"
    "au_id (sample_entry 2 4) \<notin> au_id ` set (passport_audit sample_trail_db)"
    "au_action (sample_entry 2 4) \<in> set audit_actions"
    "verify_audit_chain sample_hashing
      (trail_of (au_passport_id (sample_entry 2 4)) (passport_audit sample_trail_db)) = Inr ()"
    "distinct (GENESIS_PREV_HASH # map stored_hash
      (trail_of (au_passport_id (sample_entry 2 4)) (passport_audit sample_trail_db)))"
    "?e \<in> set (passport_audit sample_trail_db)" "au_passport_id ?e = au_passport_id (sample_entry 2 4)"
    "truncate_micros (au_ts (sample_entry 2 4)) < au_ts ?e"
    by (simp_all add: sample_trail_simps sample_trail_verifies audit_actions_def GENESIS_PREV_HASH_def)
  from audit_append_out_of_order_breaks [OF sample_env_ok(1) this a] show ?thesis
    by (auto simp: a sample_trail_simps)
qed

theorem audit_head_pins_trail_witness:
  "verify_audit_chain sample_hashing [chained_entry sample_hashing [] (sample_entry 3 5)] = Inr () \<and>
   (map (\<lambda>e. chain_content sample_hashing e GENESIS_PREV_HASH) [chained_entry sample_hashing [] (sample_entry 3 5)] =
    map (\<lambda>e. chain_content sample_hashing e GENESIS_PREV_HASH) [chained_entry sample_hashing [] (sample_entry 3 5)] \<or>
    (\<exists>a b. a \<noteq> b \<and> content_hash sample_hashing a = content_hash sample_hashing b) \<or>
    (\<exists>a. content_hash sample_hashing a = GENESIS_PREV_HASH))"
  using audit_head_pins_trail [OF sample_trail_verifies(1) sample_trail_verifies(1) refl] sample_trail_verifies(1)
  by blast

end
