(* ===== verification/Registry_Service.thy ===== *)
theory Registry_Service
  imports Registry_Drain Audit_Trail
begin

text \<open>
  What a person does to a registration by hand: giving it up
  (\<^verbatim>\<open>dpp-vault/src/domain/service/registry_abandon.rs\<close>) and recording the correlation
  identifier of a submission (\<^verbatim>\<open>registry_handle.rs\<close>). Both read the row, ask the registry,
  write the row by a conditional statement and then write the audit trail; other tasks
  (the drain, another request) run in between. Their effect on the database is the
  argument \<open>others\<close>: \<open>others 0\<close> between the read and the write, \<open>others 1\<close> between the
  write and what follows it.
\<close>

text \<open>The request: who makes it, the host's clock at each position, the ambient request id.\<close>

record request_ctx =
  user_id :: string
  utc :: "nat \<Rightarrow> time"
  current_request_id :: "string option"

datatype SubmissionConfirmation =
    Confirmed SubmissionReport
  | NotConfirmedAs string

record 'req confirm_port = "'req registry_port" +
  confirm_answer :: "nat \<Rightarrow> 'req \<Rightarrow> string \<Rightarrow> dpp_error + SubmissionConfirmation"
  report_json :: "SubmissionReport \<Rightarrow> json"

definition decoded_payload :: "('req, 'a) registry_port_scheme \<Rightarrow> RegistrySyncRow \<Rightarrow> 'req option" where
  "decoded_payload port row =
     (case sync_payload row of
        None \<Rightarrow> None
      | Some payload \<Rightarrow> (case decode_request port payload of Inl _ \<Rightarrow> None | Inr req \<Rightarrow> Some req))"

definition audit_by ::
  "pg_env \<Rightarrow> hashing \<Rightarrow> request_ctx \<Rightarrow> uuid \<Rightarrow> string \<Rightarrow> json \<Rightarrow> odal \<Rightarrow> (dpp_error + unit) \<times> odal" where
  "audit_by env h ctx pid action metadata db =
     stamped_append env h (current_request_id ctx)
       (with_metadata metadata
         (new_audit_entry (uuid_at env (tick db) 0) (utc ctx (tick db)) (fmt_uuid env pid) action
           (user_id ctx) None None)) db"

subsection \<open>Abandoning a registration\<close>

definition REGISTRY_ABANDONED :: string where
  "REGISTRY_ABANDONED = ''registry_abandoned''"

record Abandoned =
  already :: bool

datatype AbandonError =
    AbNotConfigured
  | AbNoRegistration
  | AbNotAbandonable RegistrySyncStatus
  | AbDueForAnAttempt
  | AbCannotSayWhatWasSubmitted
  | AbRegistryHoldsIt SubmissionLookup
  | AbNotShownAbsent SubmissionLookup
  | AbRegistry dpp_error
  | AbStorage dpp_error

datatype abandon_row_state = AbDone | AbOpen | AbRefused AbandonError

definition abandon_state_of :: "RegistrySyncRow \<Rightarrow> time \<Rightarrow> abandon_row_state" where
  "abandon_state_of row now =
     (case sync_status row of
        SyncAbandoned \<Rightarrow> AbDone
      | SyncPending \<Rightarrow>
          if sync_attempts row < 1 \<or> sync_next_attempt_at row \<le> now
          then AbRefused AbDueForAnAttempt else AbOpen
      | other \<Rightarrow> AbRefused (AbNotAbandonable other))"

definition registry_check_note :: string where
  "registry_check_note = ''no submission reports this passport's unique product identifier; every task the registry listed was read''"

definition abandon_metadata :: "string \<Rightarrow> RegistrySyncRow \<Rightarrow> json" where
  "abandon_metadata reason row =
     JObj [(''attempts'', JNum (show_nat (sync_attempts row))),
           (''lastMessage'', json_opt (sync_message row)),
           (''reason'', JStr reason),
           (''registryCheck'', JStr registry_check_note)]"

definition abandon_message :: "request_ctx \<Rightarrow> string \<Rightarrow> string" where
  "abandon_message ctx reason = ''abandoned by '' @ user_id ctx @ '': '' @ reason"

text \<open>The write, once the registry has been shown to hold nothing.\<close>

definition abandon_write ::
  "pg_env \<Rightarrow> hashing \<Rightarrow> request_ctx \<Rightarrow> (nat \<Rightarrow> odal \<Rightarrow> odal) \<Rightarrow> uuid \<Rightarrow> string \<Rightarrow> RegistrySyncRow \<Rightarrow>
   odal \<Rightarrow> (AbandonError + Abandoned) \<times> odal" where
  "abandon_write env h ctx others pid reason row db =
     (case sync_abandon env pid (abandon_message ctx reason) (others 0 db) of
        (Inl e, db2) \<Rightarrow> (Inl (AbStorage e), db2)
      | (Inr True, db2) \<Rightarrow>
          (case audit_by env h ctx pid REGISTRY_ABANDONED (abandon_metadata reason row) (others 1 db2) of
             (Inl e, db3) \<Rightarrow> (Inl (AbStorage e), db3)
           | (Inr _, db3) \<Rightarrow> (Inr \<lparr>already = False\<rparr>, db3))
      | (Inr False, db2) \<Rightarrow>
          (case sync_pending_for env pid (others 1 db2) of
             (Inl e, db3) \<Rightarrow> (Inl (AbStorage e), db3)
           | (Inr None, db3) \<Rightarrow> (Inl AbNoRegistration, db3)
           | (Inr (Some now_row), db3) \<Rightarrow>
               (case abandon_state_of now_row (utc ctx (tick db3)) of
                  AbDone \<Rightarrow> (Inr \<lparr>already = True\<rparr>, db3)
                | AbRefused why \<Rightarrow> (Inl why, db3)
                | AbOpen \<Rightarrow> (Inl AbDueForAnAttempt, db3))))"

definition abandon_registration ::
  "pg_env \<Rightarrow> ('req, 'a) registry_port_scheme \<Rightarrow> hashing \<Rightarrow> request_ctx \<Rightarrow> (nat \<Rightarrow> odal \<Rightarrow> odal) \<Rightarrow> bool \<Rightarrow>
   uuid \<Rightarrow> string \<Rightarrow> odal \<Rightarrow> (AbandonError + Abandoned) \<times> odal" where
  "abandon_registration env port h ctx others configured pid reason db =
     (if \<not> configured then (Inl AbNotConfigured, db)
      else
        (case sync_pending_for env pid db of
           (Inl e, db1) \<Rightarrow> (Inl (AbStorage e), db1)
         | (Inr None, db1) \<Rightarrow> (Inl AbNoRegistration, db1)
         | (Inr (Some row), db1) \<Rightarrow>
             (case abandon_state_of row (utc ctx (tick db1)) of
                AbDone \<Rightarrow> (Inr \<lparr>already = True\<rparr>, db1)
              | AbRefused why \<Rightarrow> (Inl why, db1)
              | AbOpen \<Rightarrow>
                  (case decoded_payload port row of
                     None \<Rightarrow> (Inl AbCannotSayWhatWasSubmitted, db1)
                   | Some request \<Rightarrow>
                       (case find_answer port (tick db1) request of
                          Inl e \<Rightarrow> (Inl (AbRegistry e), db1)
                        | Inr (LookupNotFound True) \<Rightarrow> abandon_write env h ctx others pid reason row db1
                        | Inr (LookupFound cid report) \<Rightarrow> (Inl (AbRegistryHoldsIt (LookupFound cid report)), db1)
                        | Inr (LookupAmbiguous cands) \<Rightarrow> (Inl (AbRegistryHoldsIt (LookupAmbiguous cands)), db1)
                        | Inr other \<Rightarrow> (Inl (AbNotShownAbsent other), db1))))))"

subsection \<open>Recording a correlation identifier\<close>

definition REGISTRY_HANDLE_RECORDED :: string where
  "REGISTRY_HANDLE_RECORDED = ''registry_handle_recorded''"

record RecordedHandle =
  rh_correlation_id :: string
  rh_report :: "SubmissionReport option"

datatype RecordHandleError =
    RhNotConfigured
  | RhNoRegistration
  | RhNotAwaitingAHandle RegistrySyncStatus
  | RhHoldsAnotherHandle
  | RhCannotSayWhatWasSubmitted
  | RhNotConfirmed SubmissionConfirmation
  | RhRegistry dpp_error
  | RhStorage dpp_error

datatype handle_row_state = RhRecorded | RhOpen | RhRefused RecordHandleError

definition handle_state_of :: "RegistrySyncRow \<Rightarrow> string \<Rightarrow> handle_row_state" where
  "handle_state_of row correlation_id =
     (if sync_status row \<noteq> SyncSubmitted then RhRefused (RhNotAwaitingAHandle (sync_status row))
      else
        (case correlation_of row of
           Some held \<Rightarrow> if held = correlation_id then RhRecorded else RhRefused RhHoldsAnotherHandle
         | None \<Rightarrow> RhOpen))"

definition handle_metadata :: "('req, 'a) confirm_port_scheme \<Rightarrow> string \<Rightarrow> SubmissionReport \<Rightarrow> json" where
  "handle_metadata port correlation_id report =
     JObj [(''correlationId'', JStr correlation_id), (''report'', report_json port report)]"

definition handle_write ::
  "pg_env \<Rightarrow> ('req, 'a) confirm_port_scheme \<Rightarrow> hashing \<Rightarrow> request_ctx \<Rightarrow> (nat \<Rightarrow> odal \<Rightarrow> odal) \<Rightarrow> uuid \<Rightarrow>
   string \<Rightarrow> SubmissionReport \<Rightarrow> odal \<Rightarrow> (RecordHandleError + RecordedHandle) \<times> odal" where
  "handle_write env port h ctx others pid correlation_id report db =
     (case sync_record_handle env pid correlation_id (others 0 db) of
        (Inl e, db2) \<Rightarrow> (Inl (RhStorage e), db2)
      | (Inr True, db2) \<Rightarrow>
          (case audit_by env h ctx pid REGISTRY_HANDLE_RECORDED
                  (handle_metadata port correlation_id report) (others 1 db2) of
             (Inl e, db3) \<Rightarrow> (Inl (RhStorage e), db3)
           | (Inr _, db3) \<Rightarrow>
               (Inr \<lparr>rh_correlation_id = correlation_id, rh_report = Some report\<rparr>, db3))
      | (Inr False, db2) \<Rightarrow>
          (case sync_pending_for env pid (others 1 db2) of
             (Inl e, db3) \<Rightarrow> (Inl (RhStorage e), db3)
           | (Inr None, db3) \<Rightarrow> (Inl RhNoRegistration, db3)
           | (Inr (Some now_row), db3) \<Rightarrow>
               (case handle_state_of now_row correlation_id of
                  RhRecorded \<Rightarrow> (Inr \<lparr>rh_correlation_id = correlation_id, rh_report = None\<rparr>, db3)
                | RhRefused why \<Rightarrow> (Inl why, db3)
                | RhOpen \<Rightarrow> (Inl (RhNotAwaitingAHandle (sync_status now_row)), db3))))"

definition record_registry_handle ::
  "pg_env \<Rightarrow> ('req, 'a) confirm_port_scheme \<Rightarrow> hashing \<Rightarrow> request_ctx \<Rightarrow> (nat \<Rightarrow> odal \<Rightarrow> odal) \<Rightarrow> bool \<Rightarrow>
   uuid \<Rightarrow> string \<Rightarrow> odal \<Rightarrow> (RecordHandleError + RecordedHandle) \<times> odal" where
  "record_registry_handle env port h ctx others configured pid correlation_id db =
     (if \<not> configured then (Inl RhNotConfigured, db)
      else
        (case sync_pending_for env pid db of
           (Inl e, db1) \<Rightarrow> (Inl (RhStorage e), db1)
         | (Inr None, db1) \<Rightarrow> (Inl RhNoRegistration, db1)
         | (Inr (Some row), db1) \<Rightarrow>
             (case handle_state_of row correlation_id of
                RhRecorded \<Rightarrow> (Inr \<lparr>rh_correlation_id = correlation_id, rh_report = None\<rparr>, db1)
              | RhRefused why \<Rightarrow> (Inl why, db1)
              | RhOpen \<Rightarrow>
                  (case decoded_payload port row of
                     None \<Rightarrow> (Inl RhCannotSayWhatWasSubmitted, db1)
                   | Some request \<Rightarrow>
                       (case confirm_answer port (tick db1) request correlation_id of
                          Inl e \<Rightarrow> (Inl (RhRegistry e), db1)
                        | Inr (NotConfirmedAs x) \<Rightarrow> (Inl (RhNotConfirmed (NotConfirmedAs x)), db1)
                        | Inr (Confirmed report) \<Rightarrow>
                            handle_write env port h ctx others pid correlation_id report db1)))))"

subsection \<open>Properties\<close>

lemma sync_abandon_took:
  assumes "sync_abandon env pid message db = (Inr True, db')"
  shows "\<exists>r \<in> set (registry_sync db). rs_passport_id r = pid \<and> rs_status r = ''pending'' \<and> 1 \<le> rs_attempts r \<and>
      now_at env (tick db) < rs_next_attempt_at r"
    and "keys_ok db \<Longrightarrow> opt_holds (\<lambda>r. rs_status r = ''abandoned'') (row_at rs_passport_id pid (registry_sync db'))"
proof -
  let ?q = "\<lambda>now r. rs_status r = ''pending'' \<and> 1 \<le> rs_attempts r \<and> now < rs_next_attempt_at r"
  let ?f = "\<lambda>now (rnd::rat) r. r\<lparr>rs_status := ''abandoned'', rs_message := Some message, rs_updated_at := now\<rparr>"
  from assms obtain m where
    u: "exec_update registry_sync registry_sync_update rs_passport_id env pid ?q (\<lambda>_. True) ?f db = (Inr m, db')"
    and m: "0 < m"
    by (auto simp: sync_abandon_def split: prod.splits sum.splits)
  note d = sync_t.exec_update_InrD [OF u]
  from d(1) m obtain r where r: "r \<in> set (registry_sync db)" "rs_passport_id r = pid" "?q (now_at env (tick db)) r"
    by (fastforce simp: filter_empty_conv)
  then show "\<exists>r \<in> set (registry_sync db). rs_passport_id r = pid \<and> rs_status r = ''pending'' \<and> 1 \<le> rs_attempts r \<and>
      now_at env (tick db) < rs_next_attempt_at r" by blast
  assume "keys_ok db"
  then have "row_at rs_passport_id pid (registry_sync db) = Some r"
    using r by (auto simp: keys_ok_def intro: row_at_in_set)
  then show "opt_holds (\<lambda>r. rs_status r = ''abandoned'') (row_at rs_passport_id pid (registry_sync db'))"
    using r unfolding d(2) by (subst row_at_upd_where) auto
qed

lemma sync_record_handle_took:
  assumes "sync_record_handle env pid cid db = (Inr True, db')"
  shows "\<exists>r \<in> set (registry_sync db). rs_passport_id r = pid \<and> rs_status r = ''submitted'' \<and>
      (rs_registry_id r = None \<or> rs_registry_id r = Some [])"
    and "keys_ok db \<Longrightarrow> opt_holds (\<lambda>r. rs_registry_id r = Some cid) (row_at rs_passport_id pid (registry_sync db'))"
proof -
  let ?q = "\<lambda>(now::time) r. rs_status r = ''submitted'' \<and> (rs_registry_id r = None \<or> rs_registry_id r = Some [])"
  let ?f = "\<lambda>now (rnd::rat) r. r\<lparr>rs_registry_id := Some cid, rs_attempts := 0,
      rs_next_attempt_at := now, rs_message := None, rs_updated_at := now\<rparr>"
  from assms obtain m where
    u: "exec_update registry_sync registry_sync_update rs_passport_id env pid ?q (\<lambda>_. True) ?f db = (Inr m, db')"
    and m: "0 < m"
    by (auto simp: sync_record_handle_def split: prod.splits sum.splits)
  note d = sync_t.exec_update_InrD [OF u]
  from d(1) m obtain r where r: "r \<in> set (registry_sync db)" "rs_passport_id r = pid" "?q (now_at env (tick db)) r"
    by (fastforce simp: filter_empty_conv)
  then show "\<exists>r \<in> set (registry_sync db). rs_passport_id r = pid \<and> rs_status r = ''submitted'' \<and>
      (rs_registry_id r = None \<or> rs_registry_id r = Some [])" by blast
  assume "keys_ok db"
  then have "row_at rs_passport_id pid (registry_sync db) = Some r"
    using r by (auto simp: keys_ok_def intro: row_at_in_set)
  then show "opt_holds (\<lambda>r. rs_registry_id r = Some cid) (row_at rs_passport_id pid (registry_sync db'))"
    using r unfolding d(2) by (subst row_at_upd_where) auto
qed

lemma sync_pending_for_InrD:
  assumes "sync_pending_for env pid db = (Inr x, db')"
  shows "x = map_option row_to_sync (row_at rs_passport_id pid (registry_sync db))" and "db' = bump db"
  using assms by (auto simp: sync_pending_for_def exec_lookup_def pg_lookup_def split: prod.splits sum.splits option.splits)

lemma audit_by_InrD:
  assumes "audit_by env h ctx pid action metadata db = (Inr u, db')"
  shows "\<exists>e. passport_audit db' = passport_audit db @ [e] \<and> au_action e = action \<and> au_actor e = user_id ctx \<and>
      au_passport_id e = fmt_uuid env pid \<and> au_metadata e = Some metadata"
    and "registry_sync db' = registry_sync db"
  using assms
  by (auto simp: audit_by_def stamped_append_def audit_append_def chained_entry_def Let_def with_request_id_def
      with_metadata_def new_audit_entry_def split: option.splits if_splits)

lemma decoded_payload_SomeD:
  "decoded_payload port (row_to_sync r) = Some req \<Longrightarrow>
   \<exists>payload. rs_payload r = Some payload \<and> decode_request port payload = Inr req"
  by (auto simp: decoded_payload_def split: option.splits sum.splits)

text \<open>
  What an abandonment rests on: the registry answered, for the payload the row was
  published with, that it read its whole list and holds no such submission; and at the
  moment of the write the row was pending, had been tried and was not due.
\<close>

definition shown_absent :: "('req, 'a) registry_port_scheme \<Rightarrow> nat \<Rightarrow> registry_sync_rec \<Rightarrow> bool" where
  "shown_absent port n r \<longleftrightarrow>
     (\<exists>payload req. rs_payload r = Some payload \<and> decode_request port payload = Inr req \<and>
        find_answer port n req = Inr (LookupNotFound True))"

lemma abandon_registration_reaches:
  assumes "abandon_registration env port h ctx others configured pid reason db = (Inr ab, db')" and "\<not> already ab"
  shows "\<exists>r. row_at rs_passport_id pid (registry_sync db) = Some r \<and> shown_absent port (tick db + 1) r \<and>
     abandon_write env h ctx others pid reason (row_to_sync r) (bump db) = (Inr ab, db')"
proof -
  obtain res db1 where p: "sync_pending_for env pid db = (res, db1)" by fastforce
  with assms obtain row where row: "res = Inr (Some row)"
    by (auto simp: abandon_registration_def split: if_splits sum.splits option.splits)
  from sync_pending_for_InrD [OF p [unfolded row]] obtain r where
    r: "row_at rs_passport_id pid (registry_sync db) = Some r" "row = row_to_sync r" and db1: "db1 = bump db"
    by (cases "row_at rs_passport_id pid (registry_sync db)") auto
  from assms p row db1 obtain req where
    "decoded_payload port row = Some req" "find_answer port (tick db + 1) req = Inr (LookupNotFound True)"
    "abandon_write env h ctx others pid reason row (bump db) = (Inr ab, db')"
    by (auto simp: abandon_registration_def split: if_splits abandon_row_state.splits option.splits sum.splits
        SubmissionLookup.splits bool.splits)
  with r show ?thesis
    by (auto simp: shown_absent_def dest!: decoded_payload_SomeD)
qed


definition sample_ctx :: request_ctx where
  "sample_ctx = \<lparr>user_id = ''ops'', utc = of_nat, current_request_id = None\<rparr>"


lemma record_registry_handle_reaches:
  assumes "record_registry_handle env port h ctx others configured pid cid db = (Inr rh, db')"
    and "rh_report rh = Some report"
  shows "\<exists>r payload req. row_at rs_passport_id pid (registry_sync db) = Some r \<and> rs_payload r = Some payload \<and>
     decode_request port payload = Inr req \<and> confirm_answer port (tick db + 1) req cid = Inr (Confirmed report) \<and>
     handle_write env port h ctx others pid cid report (bump db) = (Inr rh, db')"
proof -
  obtain res db1 where p: "sync_pending_for env pid db = (res, db1)" by fastforce
  with assms obtain row where row: "res = Inr (Some row)"
    by (auto simp: record_registry_handle_def split: if_splits sum.splits option.splits)
  from sync_pending_for_InrD [OF p [unfolded row]] obtain r where
    r: "row_at rs_passport_id pid (registry_sync db) = Some r" "row = row_to_sync r" and db1: "db1 = bump db"
    by (cases "row_at rs_passport_id pid (registry_sync db)") auto
  from assms p row db1 obtain req report' where
    q: "decoded_payload port row = Some req" "confirm_answer port (tick db + 1) req cid = Inr (Confirmed report')"
    "handle_write env port h ctx others pid cid report' (bump db) = (Inr rh, db')"
    by (auto simp: record_registry_handle_def split: if_splits handle_row_state.splits option.splits sum.splits
        SubmissionConfirmation.splits)
  from q(3) assms(2) have "report' = report"
    by (auto simp: handle_write_def split: sum.splits bool.splits prod.splits option.splits handle_row_state.splits)
  with q r show ?thesis by (auto dest!: decoded_payload_SomeD)
qed

text \<open>
  A correlation identifier given by a person is recorded only when
  the registry confirmed it to be this passport's submission, and, whatever other tasks
  do meanwhile, only on a row that at the moment of the write was submitted and held
  none: an identifier the registry gave is never overwritten. The trail names who
  recorded it and what the registry reported.
\<close>

theorem record_registry_handle_safe:
  assumes "keys_ok (others 0 (bump db))"
    and "record_registry_handle env port h ctx others configured pid cid db = (Inr rh, db')"
    and "rh_report rh = Some report"
  shows "\<exists>r payload req row_then db2. row_at rs_passport_id pid (registry_sync db) = Some r \<and>
    rs_payload r = Some payload \<and> decode_request port payload = Inr req \<and>
    confirm_answer port (tick db + 1) req cid = Inr (Confirmed report) \<and>
    row_then \<in> set (registry_sync (others 0 (bump db))) \<and> rs_passport_id row_then = pid \<and>
    rs_status row_then = ''submitted'' \<and> (rs_registry_id row_then = None \<or> rs_registry_id row_then = Some []) \<and>
    opt_holds (\<lambda>r. rs_registry_id r = Some cid) (row_at rs_passport_id pid (registry_sync db2)) \<and>
    registry_sync db' = registry_sync (others 1 db2) \<and>
    (\<exists>e. passport_audit db' = passport_audit (others 1 db2) @ [e] \<and> au_action e = REGISTRY_HANDLE_RECORDED \<and>
       au_actor e = user_id ctx \<and> au_metadata e = Some (handle_metadata port cid report))"
proof -
  from record_registry_handle_reaches [OF assms(2,3)] obtain r payload req where
    r: "row_at rs_passport_id pid (registry_sync db) = Some r" "rs_payload r = Some payload"
      "decode_request port payload = Inr req" "confirm_answer port (tick db + 1) req cid = Inr (Confirmed report)"
    and w: "handle_write env port h ctx others pid cid report (bump db) = (Inr rh, db')" by blast
  obtain res db2 where s: "sync_record_handle env pid cid (others 0 (bump db)) = (res, db2)" by fastforce
  from w s assms(3) have took: "res = Inr True"
    by (auto simp: handle_write_def split: sum.splits bool.splits prod.splits option.splits handle_row_state.splits)
  from w s took obtain u where
    a: "audit_by env h ctx pid REGISTRY_HANDLE_RECORDED (handle_metadata port cid report) (others 1 db2) = (Inr u, db')"
    by (auto simp: handle_write_def split: sum.splits prod.splits)
  from sync_record_handle_took [OF s [unfolded took]] assms(1) r audit_by_InrD [OF a] show ?thesis
    by blast
qed

definition sample_confirm_port :: "json confirm_port" where
  "sample_confirm_port = \<lparr>register_answer = (\<lambda>n req. Inr (AckAccepted ''corr'')),
     check_answer = (\<lambda>n cid. Inr (ReportRegistered ''reg'')),
     find_answer = (\<lambda>n req. Inr (LookupNotFound True)),
     report_is_terminal = (\<lambda>r. True), decode_request = Inr, ack_debug = (\<lambda>_. ''ack''),
     confirm_answer = (\<lambda>n req cid. Inr (Confirmed (ReportOther ''checking''))), report_json = (\<lambda>_. JNull)\<rparr>"

theorem record_registry_handle_safe_witness:
  "\<exists>r. row_at rs_passport_id 9 (registry_sync (snd (record_registry_handle sample_env sample_confirm_port
       sample_hashing sample_ctx (\<lambda>_ d. d) True 9 ''corr'' sample_db))) = Some r \<and> rs_registry_id r = Some ''corr''"
proof -
  obtain res db' where a: "record_registry_handle sample_env sample_confirm_port sample_hashing sample_ctx (\<lambda>_ d. d)
      True 9 ''corr'' sample_db = (res, db')" by fastforce
  have k: "keys_ok ((\<lambda>_ d. d) 0 (bump sample_db))"
    using sample_db_keys by (simp add: keys_ok_def)
  have "res = Inr \<lparr>rh_correlation_id = ''corr'', rh_report = Some (ReportOther ''checking'')\<rparr>"
    using a by (simp add: record_registry_handle_def sync_pending_for_def exec_lookup_fault_free [OF sample_env_ok(1)]
        sample_db_simps new_sync_row_def row_to_sync_def sync_from_db_def handle_state_of_def sample_ctx_def
        correlation_of_def sample_confirm_port_def
        decoded_payload_def handle_write_def sync_record_handle_def exec_update_def pg_update_def Let_def
        audit_by_def stamped_append_def audit_append_def with_request_id_def with_metadata_def new_audit_entry_def
        audit_actions_def REGISTRY_HANDLE_RECORDED_def sample_db_def empty_db_def split: prod.splits)
  from record_registry_handle_safe [OF k a [unfolded this]] show ?thesis
    by (auto simp: a opt_holds_def split: option.splits)
qed

end
