(* ===== verification/Registry_Transfer.thy ===== *)
theory Registry_Transfer
  imports Registry_Drain
begin

text \<open>
  The outbox of transfer notifications: the types of \<^verbatim>\<open>dpp-types/src/registry_transfer.rs\<close>,
  the statements of \<^verbatim>\<open>dpp-dal/src/pg/repo_registry_transfer.rs\<close> and the drain
  \<^verbatim>\<open>dpp-node/src/infra/transfer_drain.rs\<close>. A notification amends the registry record of the
  passport, so the drain reads the registration outbox for the identifier and holds the
  row back until there is one.
\<close>

subsection \<open>Types\<close>

datatype RegistryTransferStatus = TransferPending | TransferNotified | TransferRejected

fun transfer_as_db :: "RegistryTransferStatus \<Rightarrow> string" where
  "transfer_as_db TransferPending = ''pending''"
| "transfer_as_db TransferNotified = ''notified''"
| "transfer_as_db TransferRejected = ''rejected''"

definition transfer_from_db :: "string \<Rightarrow> RegistryTransferStatus" where
  "transfer_from_db s =
     (if s = ''notified'' then TransferNotified
      else if s = ''rejected'' then TransferRejected
      else TransferPending)"

record RegistryTransferRow =
  tr_transfer_id :: uuid
  tr_passport_id :: uuid
  tr_status :: RegistryTransferStatus
  tr_payload :: json
  tr_registry_id :: "string option"
  tr_message :: "string option"
  tr_attempts :: nat
  tr_next_attempt_at :: time

record RegistryTransferCounts =
  trc_pending :: nat
  trc_notified :: nat
  trc_rejected :: nat
  trc_stalled :: nat

definition to_transfer_row :: "registry_transfer_rec \<Rightarrow> RegistryTransferRow" where
  "to_transfer_row r =
     \<lparr>tr_transfer_id = rt_transfer_id r, tr_passport_id = rt_passport_id r,
      tr_status = transfer_from_db (rt_status r), tr_payload = rt_payload r,
      tr_registry_id = rt_registry_id r, tr_message = rt_message r,
      tr_attempts = rt_attempts r, tr_next_attempt_at = rt_next_attempt_at r\<rparr>"

subsection \<open>Statements\<close>

definition new_transfer_row :: "time \<Rightarrow> uuid \<Rightarrow> uuid \<Rightarrow> json \<Rightarrow> registry_transfer_rec" where
  "new_transfer_row now tid pid payload =
     \<lparr>rt_transfer_id = tid, rt_passport_id = pid, rt_status = ''pending'', rt_payload = payload,
      rt_registry_id = None, rt_message = None, rt_attempts = 0, rt_next_attempt_at = now,
      rt_last_attempt_at = None, rt_notified_at = None, rt_created_at = now, rt_updated_at = now\<rparr>"

definition queue_transfer_notice :: "pg_env \<Rightarrow> uuid \<Rightarrow> uuid \<Rightarrow> json \<Rightarrow> odal \<Rightarrow> (dpp_error + unit) \<times> odal" where
  "queue_transfer_notice env tid pid payload db =
     (case fault_at env (tick db) of
        Some e \<Rightarrow> (Inl (db_err env e), bump db)
      | None \<Rightarrow>
          if tid \<in> rt_transfer_id ` set (registry_transfer db) then (Inr (), bump db)
          else if pid \<notin> pp_id ` set (passport db) then (Inl (db_err env foreign_key_violation), bump db)
          else (Inr (), bump (db\<lparr>registry_transfer :=
                 registry_transfer db @ [new_transfer_row (now_at env (tick db)) tid pid payload]\<rparr>)))"

definition transfer_due :: "pg_env \<Rightarrow> nat \<Rightarrow> odal \<Rightarrow> (dpp_error + RegistryTransferRow list) \<times> odal" where
  "transfer_due env limit db =
     (case exec_select registry_transfer env
        (\<lambda>now r. rt_status r = ''pending'' \<and> rt_next_attempt_at r \<le> now) rt_next_attempt_at limit db of
        (Inl e, db') \<Rightarrow> (Inl e, db')
      | (Inr rs, db') \<Rightarrow> (Inr (map to_transfer_row rs), db'))"

abbreviation transfer_mark ::
  "pg_env \<Rightarrow> uuid \<Rightarrow> (registry_transfer_rec \<Rightarrow> bool) \<Rightarrow>
   (time \<Rightarrow> rat \<Rightarrow> registry_transfer_rec \<Rightarrow> registry_transfer_rec) \<Rightarrow> odal \<Rightarrow> (dpp_error + unit) \<times> odal"
where
  "transfer_mark env tid ok f db \<equiv>
     exec_mark registry_transfer registry_transfer_update rt_transfer_id env
       ''registry_transfer row'' tid (\<lambda>_ _. True) ok f db"

definition notified_row :: "string \<Rightarrow> time \<Rightarrow> rat \<Rightarrow> registry_transfer_rec \<Rightarrow> registry_transfer_rec" where
  "notified_row registry_id now rnd r = r\<lparr>rt_status := ''notified'', rt_registry_id := Some registry_id,
     rt_notified_at := Some now, rt_last_attempt_at := Some now, rt_message := None, rt_updated_at := now\<rparr>"

definition transfer_mark_notified :: "pg_env \<Rightarrow> uuid \<Rightarrow> string \<Rightarrow> odal \<Rightarrow> (dpp_error + unit) \<times> odal" where
  "transfer_mark_notified env tid registry_id = transfer_mark env tid (\<lambda>_. True) (notified_row registry_id)"

definition transfer_rejected_row :: "string \<Rightarrow> time \<Rightarrow> rat \<Rightarrow> registry_transfer_rec \<Rightarrow> registry_transfer_rec" where
  "transfer_rejected_row message now rnd r = r\<lparr>rt_status := ''rejected'', rt_message := Some message,
     rt_last_attempt_at := Some now, rt_updated_at := now\<rparr>"

definition transfer_mark_rejected :: "pg_env \<Rightarrow> uuid \<Rightarrow> string \<Rightarrow> odal \<Rightarrow> (dpp_error + unit) \<times> odal" where
  "transfer_mark_rejected env tid message = transfer_mark env tid (\<lambda>_. True) (transfer_rejected_row message)"

definition deferred_row :: "string \<Rightarrow> time \<Rightarrow> rat \<Rightarrow> registry_transfer_rec \<Rightarrow> registry_transfer_rec" where
  "deferred_row message now rnd r = r\<lparr>rt_message := Some message, rt_last_attempt_at := Some now,
     rt_next_attempt_at := now + 60\<rparr>"

definition transfer_mark_deferred :: "pg_env \<Rightarrow> uuid \<Rightarrow> string \<Rightarrow> odal \<Rightarrow> (dpp_error + unit) \<times> odal" where
  "transfer_mark_deferred env tid message = transfer_mark env tid (\<lambda>_. True) (deferred_row message)"

definition transfer_failed_row :: "string \<Rightarrow> time \<Rightarrow> rat \<Rightarrow> registry_transfer_rec \<Rightarrow> registry_transfer_rec" where
  "transfer_failed_row message now rnd r = r\<lparr>rt_attempts := rt_attempts r + 1, rt_message := Some message,
     rt_last_attempt_at := Some now, rt_next_attempt_at := now + backoff (rt_attempts r) rnd\<rparr>"

definition transfer_mark_attempt_failed :: "pg_env \<Rightarrow> uuid \<Rightarrow> string \<Rightarrow> odal \<Rightarrow> (dpp_error + unit) \<times> odal" where
  "transfer_mark_attempt_failed env tid message =
     transfer_mark env tid (\<lambda>r. backoff_ok (rt_attempts r)) (transfer_failed_row message)"

definition transfer_rows_for :: "pg_env \<Rightarrow> uuid \<Rightarrow> odal \<Rightarrow> (dpp_error + RegistryTransferRow list) \<times> odal" where
  "transfer_rows_for env pid db =
     (case fault_at env (tick db) of
        Some e \<Rightarrow> (Inl (db_err env e), bump db)
      | None \<Rightarrow> (Inr (map to_transfer_row (sort_key (\<lambda>r. - rt_created_at r)
                   (filter (\<lambda>r. rt_passport_id r = pid) (registry_transfer db)))), bump db))"

definition transfer_count :: "(registry_transfer_rec \<Rightarrow> bool) \<Rightarrow> odal \<Rightarrow> nat" where
  "transfer_count p db = length (filter p (registry_transfer db))"

definition transfer_status_counts :: "pg_env \<Rightarrow> nat \<Rightarrow> odal \<Rightarrow> (dpp_error + RegistryTransferCounts) \<times> odal" where
  "transfer_status_counts env stall_threshold db =
     (case fault_at env (tick db) of
        Some e \<Rightarrow> (Inl (db_err env e), bump db)
      | None \<Rightarrow>
          (Inr \<lparr>trc_pending = transfer_count (\<lambda>r. rt_status r = ''pending'') db,
                trc_notified = transfer_count (\<lambda>r. rt_status r = ''notified'') db,
                trc_rejected = transfer_count (\<lambda>r. rt_status r = ''rejected'') db,
                trc_stalled = transfer_count (\<lambda>r. rt_status r = ''pending'' \<and> stall_threshold \<le> rt_attempts r) db\<rparr>,
           bump db))"

subsection \<open>The drain\<close>

datatype TransferReport =
    TransferAccepted
  | TransferAlreadyHeld
  | TransferRefused string
  | TransferProcessing
  | TransferOther string

record 'rec transfer_port =
  notify_answer :: "nat \<Rightarrow> 'rec \<Rightarrow> string \<Rightarrow> dpp_error + TransferReport"
  decode_record :: "json \<Rightarrow> string + 'rec"
  transfer_debug :: "TransferReport \<Rightarrow> string"

record TransferDrainStats =
  td_notified :: nat
  td_rejected :: nat
  td_retried :: nat
  td_skipped :: nat
  td_deferred :: nat

definition transfer_stats_default :: TransferDrainStats where
  "transfer_stats_default = \<lparr>td_notified = 0, td_rejected = 0, td_retried = 0, td_skipped = 0, td_deferred = 0\<rparr>"

definition awaiting_msg :: string where
  "awaiting_msg = ''awaiting the passport's own registry registration''"

definition processing_msg :: string where
  "processing_msg = ''the registry has the notification and has not applied it yet -- sending it again under the same key''"

definition unnamed_msg :: "string \<Rightarrow> string" where
  "unnamed_msg other = ''the registry answered a transfer notification with a state this node has no name for ('' @ other @ '') -- sending it again under the same key''"

text \<open>The registration identifier, which only a registered row holds.\<close>

definition registration_id :: "dpp_error + RegistrySyncRow option \<Rightarrow> string option" where
  "registration_id res =
     (case res of
        Inr (Some r) \<Rightarrow>
          if sync_status r = SyncRegistered then
            (case sync_registry_id r of
               Some rid \<Rightarrow> if str_trim rid = [] then None else Some rid
             | None \<Rightarrow> None)
          else None
      | _ \<Rightarrow> None)"

definition apply_transfer_report ::
  "pg_env \<Rightarrow> 'rec transfer_port \<Rightarrow> uuid \<Rightarrow> string \<Rightarrow> dpp_error + TransferReport \<Rightarrow>
   TransferDrainStats \<times> odal \<Rightarrow> TransferDrainStats \<times> odal" where
  "apply_transfer_report env port tid registry_id outcome st =
     (case st of (stats, db) \<Rightarrow>
        (case outcome of
           Inr TransferAccepted \<Rightarrow>
             (stats\<lparr>td_notified := td_notified stats + 1\<rparr>, snd (transfer_mark_notified env tid registry_id db))
         | Inr TransferAlreadyHeld \<Rightarrow>
             (stats\<lparr>td_notified := td_notified stats + 1\<rparr>, snd (transfer_mark_notified env tid registry_id db))
         | Inr (TransferRefused reason) \<Rightarrow>
             (stats\<lparr>td_rejected := td_rejected stats + 1\<rparr>,
              snd (transfer_mark_rejected env tid (''registry rejected transfer notification: '' @ reason) db))
         | Inr TransferProcessing \<Rightarrow>
             (stats\<lparr>td_retried := td_retried stats + 1\<rparr>, snd (transfer_mark_attempt_failed env tid processing_msg db))
         | Inr (TransferOther other) \<Rightarrow>
             (stats\<lparr>td_retried := td_retried stats + 1\<rparr>,
              snd (transfer_mark_attempt_failed env tid (unnamed_msg (transfer_debug port (TransferOther other))) db))
         | Inl (Validation e) \<Rightarrow>
             (case transfer_mark_rejected env tid (refused_msg e) db of
                (Inl _, db') \<Rightarrow>
                  (stats\<lparr>td_retried := td_retried stats + 1\<rparr>,
                   snd (transfer_mark_attempt_failed env tid (refused_msg e) db'))
              | (Inr _, db') \<Rightarrow> (stats\<lparr>td_skipped := td_skipped stats + 1\<rparr>, db'))
         | Inl e \<Rightarrow>
             (stats\<lparr>td_retried := td_retried stats + 1\<rparr>,
              snd (transfer_mark_attempt_failed env tid (fmt_dpp env e) db))))"

definition transfer_drain_row ::
  "pg_env \<Rightarrow> 'rec transfer_port \<Rightarrow> RegistryTransferRow \<Rightarrow> TransferDrainStats \<times> odal \<Rightarrow> TransferDrainStats \<times> odal" where
  "transfer_drain_row env port row st =
     (case st of (stats, db) \<Rightarrow>
        (case decode_record port (tr_payload row) of
           Inl e \<Rightarrow>
             (stats\<lparr>td_skipped := td_skipped stats + 1\<rparr>,
              snd (transfer_mark_rejected env (tr_transfer_id row) (''corrupt payload: '' @ e) db))
         | Inr record \<Rightarrow>
             (case sync_pending_for env (tr_passport_id row) db of
                (res, db1) \<Rightarrow>
                  (case registration_id res of
                     None \<Rightarrow>
                       (stats\<lparr>td_deferred := td_deferred stats + 1\<rparr>,
                        snd (transfer_mark_deferred env (tr_transfer_id row) awaiting_msg db1))
                   | Some registry_id \<Rightarrow>
                       apply_transfer_report env port (tr_transfer_id row) registry_id
                         (notify_answer port (tick db1) record registry_id) (stats, db1)))))"

definition transfer_drain_once ::
  "pg_env \<Rightarrow> 'rec transfer_port \<Rightarrow> nat \<Rightarrow> odal \<Rightarrow> TransferDrainStats \<times> odal" where
  "transfer_drain_once env port batch db =
     (case transfer_due env batch db of
        (Inl _, db') \<Rightarrow> (transfer_stats_default, db')
      | (Inr due, db') \<Rightarrow> fold (transfer_drain_row env port) due (transfer_stats_default, db'))"

subsection \<open>A pass as a sequence of outbox statements\<close>

lemmas transfer_row_defs = notified_row_def transfer_rejected_row_def deferred_row_def transfer_failed_row_def

lemma transfer_row_keys [simp]:
  "rt_transfer_id (notified_row registry_id now rnd r) = rt_transfer_id r"
  "rt_transfer_id (transfer_rejected_row message now rnd r) = rt_transfer_id r"
  "rt_transfer_id (deferred_row message now rnd r) = rt_transfer_id r"
  "rt_transfer_id (transfer_failed_row message now rnd r) = rt_transfer_id r"
  by (simp_all add: transfer_row_defs)

lemmas transfer_mark_defs = transfer_mark_notified_def transfer_mark_rejected_def transfer_mark_deferred_def
  transfer_mark_attempt_failed_def

definition held_by_registry :: "'rec transfer_port \<Rightarrow> string \<Rightarrow> bool" where
  "held_by_registry port rid \<longleftrightarrow>
     (\<exists>n rec. notify_answer port n rec rid = Inr TransferAccepted \<or> notify_answer port n rec rid = Inr TransferAlreadyHeld)"

inductive transfer_step :: "pg_env \<Rightarrow> 'rec transfer_port \<Rightarrow> uuid \<Rightarrow> odal \<Rightarrow> odal \<Rightarrow> bool"
  for env and port :: "'rec transfer_port" where
  transfer_notified: "held_by_registry port rid \<Longrightarrow>
    transfer_step env port tid db (snd (transfer_mark_notified env tid rid db))"
| transfer_rejected: "transfer_step env port tid db (snd (transfer_mark_rejected env tid message db))"
| transfer_deferred: "transfer_step env port tid db (snd (transfer_mark_deferred env tid message db))"
| transfer_failed: "transfer_step env port tid db (snd (transfer_mark_attempt_failed env tid message db))"

lemmas transfer_pass_one = row_pass_one [where mark = "transfer_step env port" for env port]
lemmas transfer_pass_two = row_pass_two [where mark = "transfer_step env port" for env port]

abbreviation "transfer_pass env port limit \<equiv> row_pass bump (transfer_step env port) limit"

lemma apply_transfer_report_pass:
  assumes "outcome = notify_answer port n rec registry_id"
  shows "transfer_pass env port 2 tid (snd st) (snd (apply_transfer_report env port tid registry_id outcome st))"
proof (cases "\<exists>e. outcome = Inl (Validation e)")
  case True
  then obtain e where e: "outcome = Inl (Validation e)" by blast
  obtain stats db where st: "st = (stats, db)" by fastforce
  obtain res db' where m: "transfer_mark_rejected env tid (refused_msg e) db = (res, db')" by fastforce
  have s1: "transfer_step env port tid db db'"
    using transfer_rejected [of env port tid db "refused_msg e"] by (simp add: m)
  have "transfer_pass env port 2 tid db (snd (transfer_mark_attempt_failed env tid (refused_msg e) db'))"
    by (rule transfer_pass_two [OF s1 transfer_failed]) simp
  then show ?thesis
    using transfer_pass_one [OF s1, where limit = 2 and read = bump]
    by (cases res) (simp_all add: apply_transfer_report_def st m e)
next
  case False
  have "held_by_registry port registry_id" if "outcome = Inr TransferAccepted \<or> outcome = Inr TransferAlreadyHeld"
    using that unfolding assms held_by_registry_def by blast
  with False have "transfer_step env port tid (snd st) (snd (apply_transfer_report env port tid registry_id outcome st))"
    by (auto simp: apply_transfer_report_def intro!: transfer_step.intros
        split: prod.splits sum.splits TransferReport.splits dpp_error.splits)
  then show ?thesis by (rule transfer_pass_one) simp
qed

lemma sync_pending_for_db: "snd (sync_pending_for env pid db) = bump db"
  by (auto simp: sync_pending_for_def exec_lookup_def split: prod.splits sum.splits)

lemma transfer_drain_row_pass:
  "transfer_pass env port 2 (tr_transfer_id row) (snd st) (snd (transfer_drain_row env port row st))"
proof -
  obtain stats db where st: "st = (stats, db)" by fastforce
  obtain res where look: "sync_pending_for env (tr_passport_id row) db = (res, bump db)"
    using sync_pending_for_db [of env "tr_passport_id row" db] by (metis prod.collapse)
  have corrupt: "transfer_pass env port 2 (tr_transfer_id row) db
      (snd (transfer_mark_rejected env (tr_transfer_id row) message db))" for message
    by (rule transfer_pass_one [OF transfer_rejected]) simp
  have deferred: "transfer_pass env port 2 (tr_transfer_id row) db
      (snd (transfer_mark_deferred env (tr_transfer_id row) message (bump db)))" for message
    by (rule row_pass_read, rule transfer_pass_one [OF transfer_deferred]) simp
  have sent: "transfer_pass env port 2 (tr_transfer_id row) db
      (snd (apply_transfer_report env port (tr_transfer_id row) rid (notify_answer port n rec rid) (stats, bump db)))"
    for n rec rid
    by (rule row_pass_read) (rule apply_transfer_report_pass [where st = "(stats, bump db)", simplified snd_conv, OF refl])
  show ?thesis
    using corrupt deferred sent by (simp add: transfer_drain_row_def st look split: sum.splits option.splits)
qed

lemma transfer_step_only:
  assumes "transfer_step env port k s t"
  shows "\<exists>rs. t = bump (s\<lparr>registry_transfer := rs\<rparr>)"
  using assms
  by cases (simp only: transfer_mark_defs transfer_t.exec_mark_snd; rule transfer_t.exec_update_only)+

text \<open>
  What a pass does to a row: its transfer, passport, payload and creation date stay, the
  attempts do not go down, a closed row stays closed, and a row is notified only when the
  registry said it holds the notification under the identifier the row then has.
\<close>

definition transfer_follows :: "'rec transfer_port \<Rightarrow> registry_transfer_rec \<Rightarrow> registry_transfer_rec \<Rightarrow> bool" where
  "transfer_follows port r r' \<longleftrightarrow>
     rt_transfer_id r' = rt_transfer_id r \<and> rt_passport_id r' = rt_passport_id r \<and>
     rt_payload r' = rt_payload r \<and> rt_created_at r' = rt_created_at r \<and> rt_attempts r \<le> rt_attempts r' \<and>
     (rt_status r' = rt_status r \<or> rt_status r' = ''notified'' \<or> rt_status r' = ''rejected'') \<and>
     (rt_status r' = ''notified'' \<longrightarrow>
        rt_status r = ''notified'' \<and> rt_registry_id r' = rt_registry_id r \<or>
        opt_holds (held_by_registry port) (rt_registry_id r'))"

lemma transfer_follows_refl: "transfer_follows port r r"
  by (simp add: transfer_follows_def)

lemma transfer_follows_trans:
  "transfer_follows port r r' \<Longrightarrow> transfer_follows port r' r'' \<Longrightarrow> transfer_follows port r r''"
  unfolding transfer_follows_def by (elim conjE) (intro conjI; auto)

lemma transfer_follows_rows:
  "held_by_registry port rid \<Longrightarrow> transfer_follows port r (notified_row rid now rnd r)"
  "transfer_follows port r (transfer_rejected_row message now rnd r)"
  "transfer_follows port r (deferred_row message now rnd r)"
  "transfer_follows port r (transfer_failed_row message now rnd r)"
  by (auto simp: transfer_follows_def transfer_row_defs)

lemma transfer_mark_follows:
  assumes "row_at rt_transfer_id tid (registry_transfer db) = Some r"
    and "\<And>now rnd. transfer_follows port r (f now rnd r)"
    and "\<And>now rnd r. rt_transfer_id (f now rnd r) = rt_transfer_id r"
  shows "opt_holds (transfer_follows port r) (row_at rt_transfer_id tid (registry_transfer
    (snd (exec_update registry_transfer registry_transfer_update rt_transfer_id env tid q ok f db))))"
  using transfer_t.exec_update_row_at [of f tid env tid q ok db, OF assms(3)] assms(1,2)
  by (auto simp: transfer_follows_refl)

lemma transfer_step_outbox:
  assumes "transfer_step env port k s t"
  shows "map rt_transfer_id (registry_transfer t) = map rt_transfer_id (registry_transfer s)"
    and "k' \<noteq> k \<Longrightarrow> row_at rt_transfer_id k' (registry_transfer t) = row_at rt_transfer_id k' (registry_transfer s)"
    and "row_at rt_transfer_id k (registry_transfer s) = Some r \<Longrightarrow>
      opt_holds (transfer_follows port r) (row_at rt_transfer_id k (registry_transfer t))"
proof -
  show "map rt_transfer_id (registry_transfer t) = map rt_transfer_id (registry_transfer s)"
    using assms by cases (simp_all add: transfer_mark_defs transfer_t.exec_mark_snd transfer_t.exec_update_keys)
  show "row_at rt_transfer_id k' (registry_transfer t) = row_at rt_transfer_id k' (registry_transfer s)" if "k' \<noteq> k"
    using assms that by cases (simp_all add: transfer_mark_defs transfer_t.exec_mark_snd transfer_t.exec_update_frame)
  show "opt_holds (transfer_follows port r) (row_at rt_transfer_id k (registry_transfer t))"
    if "row_at rt_transfer_id k (registry_transfer s) = Some r"
    using assms
    by cases (auto simp: transfer_mark_defs transfer_t.exec_mark_snd
        intro: transfer_mark_follows [OF that] transfer_follows_rows)
qed

interpretation transfer_tr: tracked_outbox registry_transfer rt_transfer_id
    "with_reads bump (transfer_step env port)" "transfer_follows port" for env port
  by unfold_locales
    (auto simp: with_reads_def transfer_step_outbox transfer_follows_refl intro: transfer_follows_trans)

definition transfer_settled :: "time \<Rightarrow> registry_transfer_rec \<Rightarrow> bool" where
  "transfer_settled now r \<longleftrightarrow> rt_status r \<noteq> ''pending'' \<or> now + 3/2 \<le> rt_next_attempt_at r"

lemma transfer_step_settles:
  assumes "transfer_step env port tid s t" and "calm env s"
    and "row_at rt_transfer_id tid (registry_transfer s) = Some r" and "rt_attempts r < 1023"
  shows "opt_holds (\<lambda>r'. transfer_settled (now_at env (tick s)) r' \<and> rt_attempts r' \<le> rt_attempts r + 1)
    (row_at rt_transfer_id tid (registry_transfer t))"
proof -
  have f: "fault_at env (tick s) = None" and d: "distinct (map rt_transfer_id (registry_transfer s))"
    and rnd: "random_ok env" using assms(2) by (simp_all add: calm_def fault_free_def keys_ok_def)
  have b: "backoff_ok (rt_attempts r)" using assms(4) by (simp add: backoff_ok_def)
  note hit = transfer_t.exec_mark_hit(2) [of env s tid r "\<lambda>_ _. True", OF f d assms(3) TrueI]
  from assms(1) show ?thesis
    using backoff_three_halves [OF rnd, of "rt_attempts r" "tick s"]
    by cases (simp_all add: transfer_mark_defs hit b transfer_row_defs transfer_settled_def)
qed

interpretation transfer_pace: paced_outbox registry_transfer rt_transfer_id "transfer_step env port" bump "calm env"
    "\<lambda>db. now_at env (tick db)" "\<lambda>n r. rt_attempts r + n \<le> 1023" transfer_settled for env port
proof unfold_locales
  fix k s t and r :: registry_transfer_rec and n
  assume st: "transfer_step env port k s t" and ok: "calm env s"
  from transfer_step_only [OF st] obtain rs where t: "t = bump (s\<lparr>registry_transfer := rs\<rparr>)" by blast
  show "calm env t"
    using ok transfer_step_outbox(1) [OF st] by (auto simp: calm_def keys_ok_def t)
  show "now_at env (tick s) \<le> now_at env (tick t)" using ok by (simp add: calm_def mono_def t)
  assume r: "row_at rt_transfer_id k (registry_transfer s) = Some r" "rt_attempts r + Suc n \<le> 1023"
  then show "opt_holds (\<lambda>r'. transfer_settled (now_at env (tick s)) r' \<and> rt_attempts r' + n \<le> 1023)
      (row_at rt_transfer_id k (registry_transfer t))"
    using transfer_step_settles [OF st ok r(1)] by (auto simp: opt_holds_def split: option.splits)
qed (auto simp: calm_def keys_ok_def mono_def transfer_settled_def transfer_step_outbox)

subsection \<open>What a pass fetches\<close>

lemma transfer_due_db: "snd (transfer_due env limit db) = bump db"
  by (auto simp: transfer_due_def exec_select_def split: prod.splits sum.splits)

lemma transfer_due_rows:
  assumes "transfer_due env limit db = (Inr rows, db')"
  shows "\<And>row. row \<in> set rows \<Longrightarrow> \<exists>r \<in> set (registry_transfer db). row = to_transfer_row r \<and>
      rt_status r = ''pending'' \<and> rt_next_attempt_at r \<le> now_at env (tick db)"
    and "keys_ok db \<Longrightarrow> distinct (map tr_transfer_id rows)"
proof -
  from assms obtain rs where
    rs: "exec_select registry_transfer env (\<lambda>now r. rt_status r = ''pending'' \<and> rt_next_attempt_at r \<le> now)
      rt_next_attempt_at limit db = (Inr rs, db')" and rows: "rows = map to_transfer_row rs"
    by (auto simp: transfer_due_def split: prod.splits sum.splits)
  have tid: "tr_transfer_id \<circ> to_transfer_row = rt_transfer_id" by (auto simp: to_transfer_row_def)
  show "\<exists>r \<in> set (registry_transfer db). row = to_transfer_row r \<and>
      rt_status r = ''pending'' \<and> rt_next_attempt_at r \<le> now_at env (tick db)"
    if "row \<in> set rows" for row
    using exec_select_InrD(2) [OF rs] that rows by auto
  show "distinct (map tr_transfer_id rows)" if "keys_ok db"
    using exec_select_InrD(5) [OF rs, of rt_transfer_id] that by (simp add: rows tid keys_ok_def)
qed

definition transfer_due_keys :: "pg_env \<Rightarrow> odal \<Rightarrow> uuid set" where
  "transfer_due_keys env db = rt_transfer_id ` {r \<in> set (registry_transfer db).
     rt_status r = ''pending'' \<and> rt_next_attempt_at r \<le> now_at env (tick db)}"

lemma transfer_drain_runs:
  "runs (with_reads bump (transfer_step env port)) (transfer_due_keys env db) (bump db)
     (snd (transfer_drain_once env port batch db))"
proof -
  obtain res where d: "transfer_due env batch db = (res, bump db)"
    using transfer_due_db [of env batch db] by (metis prod.collapse)
  show ?thesis
  proof (cases res)
    case (Inr rows)
    have "tr_transfer_id ` set rows \<subseteq> transfer_due_keys env db"
      using transfer_due_rows(1) [OF d [unfolded Inr]] by (fastforce simp: transfer_due_keys_def to_transfer_row_def)
    moreover have "runs (with_reads bump (transfer_step env port)) (tr_transfer_id ` set rows)
        (snd (transfer_stats_default, bump db)) (snd (fold (transfer_drain_row env port) rows (transfer_stats_default, bump db)))"
      by (rule runs_fold [where proj = snd]) (rule row_pass_runs [OF transfer_drain_row_pass])
    ultimately show ?thesis by (auto simp: transfer_drain_once_def d Inr intro: runs_mono)
  qed (simp add: transfer_drain_once_def d)
qed

lemma transfer_runs_other_tables:
  "runs (with_reads bump (transfer_step env port)) K s t \<Longrightarrow> \<exists>rs n. t = s\<lparr>registry_transfer := rs, tick := n\<rparr>"
proof (induction rule: runs.induct)
  case (runs_refl s)
  have "s = s\<lparr>registry_transfer := registry_transfer s, tick := tick s\<rparr>" by simp
  then show ?case by blast
next
  case (runs_step k s t u)
  have "\<exists>rs. t = bump (s\<lparr>registry_transfer := rs\<rparr>)"
    using runs_step(1) transfer_step_only [of env port k s t]
    by (auto simp: with_reads_def intro: exI [of _ "registry_transfer s"])
  with runs_step(4) obtain rs n where "u = s\<lparr>registry_transfer := rs, tick := n\<rparr>" by (auto simp: bump_def)
  then show ?case by blast
qed

subsection \<open>Properties\<close>

text \<open>
  A transfer pass is safe whatever the registry answers and whatever
  fails: no other table changes, no row is lost or added, a row that is not pending and
  due is not touched, and each row that is follows from its old state and from what the
  registry said: it is notified only when the registry holds the notification.
\<close>

theorem transfer_drain_safe:
  assumes "transfer_drain_once env port batch db = (stats, db')"
  shows "(\<exists>rs n. db' = db\<lparr>registry_transfer := rs, tick := n\<rparr>) \<and>
    map rt_transfer_id (registry_transfer db') = map rt_transfer_id (registry_transfer db) \<and>
    (\<forall>tid r. row_at rt_transfer_id tid (registry_transfer db) = Some r \<longrightarrow>
       (tid \<notin> transfer_due_keys env db \<longrightarrow> row_at rt_transfer_id tid (registry_transfer db') = Some r) \<and>
       opt_holds (transfer_follows port r) (row_at rt_transfer_id tid (registry_transfer db')))"
proof -
  have run: "runs (with_reads bump (transfer_step env port)) (transfer_due_keys env db) (bump db) db'"
    using transfer_drain_runs [of env port db batch] assms by simp
  from transfer_runs_other_tables [OF run] obtain rs n where "db' = (bump db)\<lparr>registry_transfer := rs, tick := n\<rparr>" by blast
  then have "db' = db\<lparr>registry_transfer := rs, tick := n\<rparr>" by (simp add: bump_def)
  then show ?thesis
    using transfer_tr.runs_keys [OF run] transfer_tr.runs_frame [OF run] transfer_tr.runs_rel [OF run]
    by (metis bump_simps(3))
qed

text \<open>A registry that takes every notification, and a queue of two transfers, one of a registered passport.\<close>

definition sample_transfer_port :: "json transfer_port" where
  "sample_transfer_port = \<lparr>notify_answer = (\<lambda>n rec rid. Inr TransferAccepted), decode_record = Inr,
     transfer_debug = (\<lambda>_. ''report'')\<rparr>"

definition sample_transfer_db :: odal where
  "sample_transfer_db = empty_db\<lparr>
     registry_sync := [(new_sync_row 0 7 JNull)\<lparr>rs_status := ''registered'', rs_registry_id := Some ''reg''\<rparr>],
     registry_transfer := [new_transfer_row 0 21 7 JNull, (new_transfer_row 0 22 8 JNull)\<lparr>rt_next_attempt_at := 5\<rparr>]\<rparr>"

lemma sample_transfer_simps:
  "tick sample_transfer_db = 0"
  "registry_sync sample_transfer_db = [(new_sync_row 0 7 JNull)\<lparr>rs_status := ''registered'', rs_registry_id := Some ''reg''\<rparr>]"
  "registry_transfer sample_transfer_db =
     [new_transfer_row 0 21 7 JNull, (new_transfer_row 0 22 8 JNull)\<lparr>rt_next_attempt_at := 5\<rparr>]"
  by (simp_all add: sample_transfer_db_def empty_db_def)

lemma sample_transfer_keys: "keys_ok sample_transfer_db"
  by (simp add: sample_transfer_db_def keys_ok_def empty_db_def new_transfer_row_def)

theorem transfer_drain_safe_witness:
  "row_at rt_transfer_id 22 (registry_transfer (snd (transfer_drain_once sample_env sample_transfer_port 10 sample_transfer_db)))
   = Some ((new_transfer_row 0 22 8 JNull)\<lparr>rt_next_attempt_at := 5\<rparr>)"
proof -
  obtain stats db' where d: "transfer_drain_once sample_env sample_transfer_port 10 sample_transfer_db = (stats, db')"
    by fastforce
  have "row_at rt_transfer_id 22 (registry_transfer sample_transfer_db) =
      Some ((new_transfer_row 0 22 8 JNull)\<lparr>rt_next_attempt_at := 5\<rparr>)"
    by (simp add: sample_transfer_simps new_transfer_row_def)
  moreover have "22 \<notin> transfer_due_keys sample_env sample_transfer_db"
    by (auto simp: transfer_due_keys_def sample_transfer_simps new_transfer_row_def)
  ultimately show ?thesis using transfer_drain_safe [OF d] by (simp add: d)
qed

lemma registration_id_SomeD:
  assumes "sync_pending_for env pid db = (res, db')" and "registration_id res = Some rid"
  shows "\<exists>r. row_at rs_passport_id pid (registry_sync db) = Some r \<and> rs_status r = ''registered'' \<and>
    rs_registry_id r = Some rid \<and> str_trim rid \<noteq> []"
  using assms
  by (auto simp: registration_id_def sync_pending_for_def exec_lookup_def pg_lookup_def row_to_sync_def sync_from_db_def
      split: sum.splits option.splits prod.splits if_splits)

lemma transfer_drain_row_notify_cong:
  assumes "\<And>n rec sr rid. decode_record port (tr_payload row) = Inr rec \<Longrightarrow>
      row_at rs_passport_id (tr_passport_id row) (registry_sync (snd st)) = Some sr \<Longrightarrow>
      rs_status sr = ''registered'' \<Longrightarrow> rs_registry_id sr = Some rid \<Longrightarrow> str_trim rid \<noteq> [] \<Longrightarrow>
      g n rec rid = notify_answer port n rec rid"
  shows "transfer_drain_row env (port\<lparr>notify_answer := g\<rparr>) row st = transfer_drain_row env port row st"
proof -
  have rep: "apply_transfer_report env (port\<lparr>notify_answer := g\<rparr>) = apply_transfer_report env port"
    by (intro ext) (simp add: apply_transfer_report_def split: prod.splits sum.splits TransferReport.splits)
  obtain stats db where st: "st = (stats, db)" by fastforce
  obtain res db1 where look: "sync_pending_for env (tr_passport_id row) db = (res, db1)" by fastforce
  have "g n rec rid = notify_answer port n rec rid"
    if "decode_record port (tr_payload row) = Inr rec" "registration_id res = Some rid" for n rec rid
    using registration_id_SomeD [OF look that(2)] assms [OF that(1)] by (auto simp: st)
  then show ?thesis
    by (simp add: transfer_drain_row_def st look rep split: sum.splits option.splits)
qed

lemma transfer_drain_row_keeps_sync: "registry_sync (snd (transfer_drain_row env port row st)) = registry_sync (snd st)"
proof -
  from transfer_runs_other_tables [OF row_pass_runs [OF transfer_drain_row_pass [where row = row and st = st]]]
  obtain rs n where "snd (transfer_drain_row env port row st) = (snd st)\<lparr>registry_transfer := rs, tick := n\<rparr>" by blast
  then show ?thesis by simp
qed

text \<open>
  Property C7 (safety). A notification is only sent for a pending row, and only under the
  identifier of a registration the registry ruled on: replacing the registry's answers to
  every other notification by arbitrary ones changes nothing. In particular the
  correlation identifier of a row that is still submitted is never sent as a record.
\<close>

theorem transfer_sent_only_for_registered:
  assumes "\<And>n r rec sr rid. r \<in> set (registry_transfer db) \<Longrightarrow> rt_status r = ''pending'' \<Longrightarrow>
      decode_record port (rt_payload r) = Inr rec \<Longrightarrow>
      row_at rs_passport_id (rt_passport_id r) (registry_sync db) = Some sr \<Longrightarrow>
      rs_status sr = ''registered'' \<Longrightarrow> rs_registry_id sr = Some rid \<Longrightarrow> str_trim rid \<noteq> [] \<Longrightarrow>
      g n rec rid = notify_answer port n rec rid"
  shows "transfer_drain_once env (port\<lparr>notify_answer := g\<rparr>) batch db = transfer_drain_once env port batch db"
proof -
  obtain res where d: "transfer_due env batch db = (res, bump db)"
    using transfer_due_db [of env batch db] by (metis prod.collapse)
  show ?thesis
  proof (cases res)
    case (Inr rows)
    have "fold (transfer_drain_row env (port\<lparr>notify_answer := g\<rparr>)) xs st = fold (transfer_drain_row env port) xs st"
      if "set xs \<subseteq> set rows" "registry_sync (snd st) = registry_sync db" for xs st
      using that
    proof (induction xs arbitrary: st)
      case (Cons row xs)
      from Cons.prems(1) transfer_due_rows(1) [OF d [unfolded Inr], of row] obtain r where
        r: "r \<in> set (registry_transfer db)" "row = to_transfer_row r" "rt_status r = ''pending''" by auto
      have "transfer_drain_row env (port\<lparr>notify_answer := g\<rparr>) row st = transfer_drain_row env port row st"
        by (rule transfer_drain_row_notify_cong) (use r Cons.prems(2) assms in \<open>simp add: to_transfer_row_def\<close>)
      with Cons show ?case by (simp add: transfer_drain_row_keeps_sync)
    qed simp
    then show ?thesis by (simp add: transfer_drain_once_def d Inr)
  qed (simp add: transfer_drain_once_def d)
qed

theorem transfer_sent_only_for_registered_witness:
  "transfer_drain_once sample_env (sample_transfer_port\<lparr>notify_answer :=
     \<lambda>n rec rid. if rid = ''reg'' then Inr TransferAccepted else Inl (Internal ''down'')\<rparr>) 10 sample_transfer_db =
   transfer_drain_once sample_env sample_transfer_port 10 sample_transfer_db"
  by (rule transfer_sent_only_for_registered)
    (auto simp: sample_transfer_simps new_transfer_row_def new_sync_row_def sample_transfer_port_def split: if_splits)

text \<open>
  With no database fault, a clock that does not run backwards and
  rows tried at most 1021 times, every row a transfer pass fetched has left the due set
  when it ends.
\<close>

theorem transfer_drain_progress:
  assumes "calm env db"
    and "list_all (\<lambda>r. rt_attempts r \<le> 1021) (registry_transfer db)"
    and "transfer_due env batch db = (Inr rows, db1)" and "row \<in> set rows"
    and "transfer_drain_once env port batch db = (stats, db')"
  shows "opt_holds (transfer_settled (now_at env (tick db)))
    (row_at rt_transfer_id (tr_transfer_id row) (registry_transfer db'))"
proof -
  have db1: "db1 = bump db" using transfer_due_db [of env batch db] assms(3) by simp
  have db': "db' = snd (fold (transfer_drain_row env port) rows (transfer_stats_default, bump db))"
    using assms(3,5) by (simp add: transfer_drain_once_def db1)
  have start: "opt_holds (\<lambda>r. rt_attempts r + 2 \<le> 1023)
      (row_at rt_transfer_id (tr_transfer_id row) (registry_transfer (snd (transfer_stats_default, bump db))))"
    if row: "row \<in> set rows" for row
  proof -
    from transfer_due_rows(1) [OF assms(3) row] obtain r where
      r: "r \<in> set (registry_transfer db)" "row = to_transfer_row r" by blast
    have "row_at rt_transfer_id (rt_transfer_id r) (registry_transfer db) = Some r"
      using assms(1) r(1) by (intro row_at_in_set) (simp_all add: keys_ok_def calm_def)
    with r assms(2) show ?thesis by (auto simp: list_all_iff to_transfer_row_def)
  qed
  have keys: "keys_ok db" and later: "now_at env (tick db) \<le> now_at env (tick (bump db))"
    using assms(1) by (simp_all add: calm_def mono_def)
  have "calm env (snd (transfer_stats_default, bump db))" using assms(1) by (simp add: calm_def keys_ok_def)
  from transfer_pace.rows_settle [where proj = snd, OF transfer_drain_row_pass
      transfer_due_rows(2) [OF assms(3) keys] this _ assms(4)] start
  have "opt_holds (transfer_settled (now_at env (tick (bump db))))
      (row_at rt_transfer_id (tr_transfer_id row) (registry_transfer db'))"
    by (fastforce simp: db')
  with later show ?thesis by (auto simp: opt_holds_def transfer_settled_def split: option.splits)
qed

lemma sample_calm: "keys_ok db \<Longrightarrow> calm sample_env db"
  by (simp add: calm_def sample_env_ok sample_env_mono)

theorem transfer_drain_progress_witness:
  "opt_holds (transfer_settled 0)
     (row_at rt_transfer_id 21
       (registry_transfer (snd (transfer_drain_once sample_env sample_transfer_port 10 sample_transfer_db))))"
proof -
  obtain stats db' where d: "transfer_drain_once sample_env sample_transfer_port 10 sample_transfer_db = (stats, db')"
    by fastforce
  have due: "transfer_due sample_env 10 sample_transfer_db = (Inr [to_transfer_row (new_transfer_row 0 21 7 JNull)], bump sample_transfer_db)"
    unfolding transfer_due_def exec_select_fault_free [OF sample_env_ok(1)]
    by (simp add: sample_transfer_simps new_transfer_row_def)
  have "list_all (\<lambda>r. rt_attempts r \<le> 1021) (registry_transfer sample_transfer_db)"
    by (simp add: sample_transfer_simps new_transfer_row_def)
  from transfer_drain_progress [OF sample_calm [OF sample_transfer_keys] this due _ d] show ?thesis
    by (simp add: d sample_transfer_simps to_transfer_row_def new_transfer_row_def)
qed

text \<open>
  Queueing the notice of a transfer is idempotent: a transfer
  that already has a row, whatever its state, keeps it untouched, and a second call adds
  nothing to the first, so a row already notified is never sent again. A new row for a
  passport that exists is pending and due at once.
\<close>

theorem queue_transfer_notice_idempotent:
  assumes "fault_free env" and "pid \<in> pp_id ` set (passport db)"
    and "queue_transfer_notice env tid pid payload db = (res, db1)"
    and "queue_transfer_notice env tid pid' payload' db1 = (res2, db2)"
  shows "res = Inr () \<and> res2 = Inr () \<and> registry_transfer db2 = registry_transfer db1 \<and>
    (case row_at rt_transfer_id tid (registry_transfer db) of
       Some r \<Rightarrow> registry_transfer db1 = registry_transfer db
     | None \<Rightarrow> registry_transfer db1 = registry_transfer db @ [new_transfer_row (now_at env (tick db)) tid pid payload])"
proof -
  have f: "fault_at env n = None" for n using assms(1) by (simp add: fault_free_def)
  show ?thesis
  proof (cases "row_at rt_transfer_id tid (registry_transfer db)")
    case None
    then have "tid \<notin> rt_transfer_id ` set (registry_transfer db)" by (simp add: row_at_None)
    with assms(2-4) None show ?thesis
      by (auto simp: queue_transfer_notice_def f new_transfer_row_def)
  next
    case (Some r)
    then have "tid \<in> rt_transfer_id ` set (registry_transfer db)" by (auto dest: row_at_SomeD)
    with assms(3,4) Some show ?thesis by (auto simp: queue_transfer_notice_def f)
  qed
qed

theorem queue_transfer_notice_idempotent_witness:
  "registry_transfer (snd (queue_transfer_notice sample_env 30 7 JNull sample_db)) = [new_transfer_row 0 30 7 JNull]"
proof -
  obtain res db1 where q: "queue_transfer_notice sample_env 30 7 JNull sample_db = (res, db1)" by fastforce
  obtain res2 db2 where q2: "queue_transfer_notice sample_env 30 7 JNull db1 = (res2, db2)" by fastforce
  have "7 \<in> pp_id ` set (passport sample_db)" by (simp add: sample_db_simps)
  moreover have "registry_transfer sample_db = []" by (simp add: sample_db_def empty_db_def)
  ultimately show ?thesis
    using queue_transfer_notice_idempotent [OF sample_env_ok(1) _ q q2] by (simp add: q sample_db_simps)
qed

text \<open>
  A transfer whose passport has no registration the registry ruled
  on, for whatever reason, is held back: the row stays pending with the attempts it had
  and is looked at again sixty seconds later. Deferral never counts as an attempt, so a
  transfer of a passport whose registration was rejected or abandoned waits without ever
  entering the stalled count.
\<close>

theorem transfer_deferred_outcome:
  assumes "calm env db" and "row_at rt_transfer_id tid (registry_transfer db) = Some r"
    and "decode_record port (rt_payload r) = Inr rec"
    and "\<And>sr. row_at rs_passport_id (rt_passport_id r) (registry_sync db) = Some sr \<Longrightarrow> rs_status sr \<noteq> ''registered''"
    and "transfer_drain_row env port (to_transfer_row r) (stats, db) = (stats', db')"
  shows "stats' = stats\<lparr>td_deferred := td_deferred stats + 1\<rparr> \<and>
    row_at rt_transfer_id tid (registry_transfer db') =
      Some (r\<lparr>rt_message := Some awaiting_msg, rt_last_attempt_at := Some (now_at env (tick db + 1)),
        rt_next_attempt_at := now_at env (tick db + 1) + 60\<rparr>)"
proof -
  obtain res where look: "sync_pending_for env (rt_passport_id r) db = (res, bump db)"
    using sync_pending_for_db [of env "rt_passport_id r" db] by (metis prod.collapse)
  have none: "registration_id res = None"
    using registration_id_SomeD [OF look] assms(4) by (cases "registration_id res") auto
  have tid: "rt_transfer_id r = tid" using assms(2) by (blast dest: row_at_SomeD)
  have f: "fault_at env (tick (bump db)) = None" and d: "distinct (map rt_transfer_id (registry_transfer (bump db)))"
    using assms(1) by (simp_all add: calm_def fault_free_def keys_ok_def)
  have r: "row_at rt_transfer_id tid (registry_transfer (bump db)) = Some r" using assms(2) by simp
  note hit = transfer_t.exec_mark_hit(2) [of env "bump db" tid r "\<lambda>_ _. True" "\<lambda>_. True" "deferred_row awaiting_msg",
      OF f d r TrueI TrueI]
  show ?thesis
    using assms(3,5) hit
    by (auto simp: transfer_drain_row_def to_transfer_row_def look none tid transfer_mark_deferred_def deferred_row_def)
qed

theorem transfer_deferred_outcome_witness:
  "\<exists>r. row_at rt_transfer_id 22 (registry_transfer (snd (transfer_drain_row sample_env sample_transfer_port
      (to_transfer_row ((new_transfer_row 0 22 8 JNull)\<lparr>rt_next_attempt_at := 5\<rparr>))
      (transfer_stats_default, sample_transfer_db)))) = Some r \<and> rt_attempts r = 0 \<and> rt_next_attempt_at r = 61"
proof -
  let ?r = "(new_transfer_row 0 22 8 JNull)\<lparr>rt_next_attempt_at := 5\<rparr>"
  obtain stats' db' where d: "transfer_drain_row sample_env sample_transfer_port (to_transfer_row ?r)
      (transfer_stats_default, sample_transfer_db) = (stats', db')" by fastforce
  have r: "row_at rt_transfer_id 22 (registry_transfer sample_transfer_db) = Some ?r"
    by (simp add: sample_transfer_simps new_transfer_row_def)
  have c: "decode_record sample_transfer_port (rt_payload ?r) = Inr (rt_payload ?r)"
    by (simp add: sample_transfer_port_def)
  have n: "rs_status sr \<noteq> ''registered''"
    if "row_at rs_passport_id (rt_passport_id ?r) (registry_sync sample_transfer_db) = Some sr" for sr
    using that by (simp add: sample_transfer_simps new_transfer_row_def new_sync_row_def)
  from transfer_deferred_outcome [OF sample_calm [OF sample_transfer_keys] r c n d] show ?thesis
    unfolding d snd_conv by (simp add: sample_transfer_simps new_transfer_row_def)
qed

end
