(* ===== verification/Url_Guard.thy ===== *)
theory Url_Guard
  imports DPP_Prelude "HOL-Library.Word"
begin

text \<open>
  The guard on outbound requests: which addresses are refused and which clients are handed
  out (\<^verbatim>\<open>dpp-common/src/url_guard.rs\<close>), and the guarded fetches
  (\<^verbatim>\<open>dpp-common/src/outbound.rs\<close>). Addresses are machine words, and the standard library's
  predicates on them are written out on octets and segments. The URL parser, the resolver,
  the text forms of addresses and the HTTP client are fields of \<open>net_libs\<close>; the tick of a
  call tells two resolutions of one name apart.
\<close>

unbundle bit_operations_syntax

subsection \<open>Addresses\<close>

datatype IpAddr = V4 "32 word" | V6 "128 word"

type_synonym SocketAddr = "IpAddr \<times> nat"

definition octet :: "32 word \<Rightarrow> nat \<Rightarrow> 8 word" where
  "octet ip i = ucast (drop_bit (24 - 8 * i) ip)"

definition segment0 :: "128 word \<Rightarrow> 16 word" where
  "segment0 ip = ucast (drop_bit 112 ip)"

text \<open>The predicates of \<^verbatim>\<open>std::net::Ipv4Addr\<close> and \<^verbatim>\<open>Ipv6Addr\<close> the guard uses.\<close>

definition v4_is_loopback :: "32 word \<Rightarrow> bool" where
  "v4_is_loopback ip \<longleftrightarrow> octet ip 0 = 127"

definition v4_is_private :: "32 word \<Rightarrow> bool" where
  "v4_is_private ip \<longleftrightarrow>
     octet ip 0 = 10 \<or>
     (octet ip 0 = 172 \<and> 16 \<le> octet ip 1 \<and> octet ip 1 \<le> 31) \<or>
     (octet ip 0 = 192 \<and> octet ip 1 = 168)"

definition v4_is_link_local :: "32 word \<Rightarrow> bool" where
  "v4_is_link_local ip \<longleftrightarrow> octet ip 0 = 169 \<and> octet ip 1 = 254"

definition v4_is_broadcast :: "32 word \<Rightarrow> bool" where
  "v4_is_broadcast ip \<longleftrightarrow> ip = 0xFFFFFFFF"

definition v4_is_documentation :: "32 word \<Rightarrow> bool" where
  "v4_is_documentation ip \<longleftrightarrow>
     (octet ip 0 = 192 \<and> octet ip 1 = 0 \<and> octet ip 2 = 2) \<or>
     (octet ip 0 = 198 \<and> octet ip 1 = 51 \<and> octet ip 2 = 100) \<or>
     (octet ip 0 = 203 \<and> octet ip 1 = 0 \<and> octet ip 2 = 113)"

definition v4_is_unspecified :: "32 word \<Rightarrow> bool" where
  "v4_is_unspecified ip \<longleftrightarrow> ip = 0"

definition v4_is_multicast :: "32 word \<Rightarrow> bool" where
  "v4_is_multicast ip \<longleftrightarrow> 224 \<le> octet ip 0 \<and> octet ip 0 \<le> 239"

definition v6_is_loopback :: "128 word \<Rightarrow> bool" where
  "v6_is_loopback ip \<longleftrightarrow> ip = 1"

definition v6_is_unspecified :: "128 word \<Rightarrow> bool" where
  "v6_is_unspecified ip \<longleftrightarrow> ip = 0"

definition v6_is_multicast :: "128 word \<Rightarrow> bool" where
  "v6_is_multicast ip \<longleftrightarrow> segment0 ip AND 0xff00 = 0xff00"

definition to_ipv4_mapped :: "128 word \<Rightarrow> 32 word option" where
  "to_ipv4_mapped ip = (if drop_bit 32 ip = 0xffff then Some (ucast ip) else None)"

subsection \<open>The range check\<close>

definition is_cgnat_v4 :: "32 word \<Rightarrow> bool" where
  "is_cgnat_v4 ip \<longleftrightarrow> octet ip 0 = 100 \<and> octet ip 1 AND 0xc0 = 64"

definition is_ula_v6 :: "128 word \<Rightarrow> bool" where
  "is_ula_v6 ip \<longleftrightarrow> segment0 ip AND 0xfe00 = 0xfc00"

definition is_link_local_v6 :: "128 word \<Rightarrow> bool" where
  "is_link_local_v6 ip \<longleftrightarrow> segment0 ip AND 0xffc0 = 0xfe80"

definition v4_is_disallowed :: "32 word \<Rightarrow> bool" where
  "v4_is_disallowed ip \<longleftrightarrow>
     v4_is_loopback ip \<or> v4_is_private ip \<or> v4_is_link_local ip \<or> v4_is_broadcast ip \<or>
     v4_is_documentation ip \<or> v4_is_unspecified ip \<or> v4_is_multicast ip \<or> is_cgnat_v4 ip"

fun ip_is_disallowed :: "IpAddr \<Rightarrow> bool" where
  "ip_is_disallowed (V4 v4) = v4_is_disallowed v4"
| "ip_is_disallowed (V6 v6) =
     (v6_is_loopback v6 \<or> v6_is_unspecified v6 \<or> v6_is_multicast v6 \<or> is_ula_v6 v6 \<or>
      is_link_local_v6 v6 \<or>
      (case to_ipv4_mapped v6 of None \<Rightarrow> False | Some v4 \<Rightarrow> v4_is_disallowed v4))"

subsection \<open>URLs and targets\<close>

datatype url_host = HostIpv4 "32 word" | HostIpv6 "128 word" | HostDomain string

text \<open>A parsed URL: scheme, host, the port it names or its scheme's default, and its text.\<close>

record Url =
  url_scheme :: string
  url_host :: "url_host option"
  url_port_or_known_default :: "nat option"
  url_text :: string

text \<open>
  A client is the caller's shared one, or one built for a host with the addresses handed to
  its builder. A response is its status and the chunks of its body, up to a failure.
\<close>

datatype http_client = SharedClient | PinnedClient string "SocketAddr list"

record http_answer =
  ans_status :: nat
  ans_chunks :: "(string + string) list"

record net_libs =
  parse_url :: "string \<Rightarrow> string + Url"
  lookup_host :: "nat \<Rightarrow> string \<Rightarrow> nat \<Rightarrow> string + SocketAddr list"
  parse_ip :: "string \<Rightarrow> IpAddr option"
  fmt_ip :: "IpAddr \<Rightarrow> string"
  build_client :: "nat \<Rightarrow> string option"
  http_get :: "nat \<Rightarrow> http_client \<Rightarrow> string \<Rightarrow> string + http_answer"
  fmt_status :: "nat \<Rightarrow> string"
  parse_json_bytes :: "string \<Rightarrow> string + json"
  utf8_error :: "string \<Rightarrow> string option"

definition host_disallowed :: "url_host \<Rightarrow> bool" where
  "host_disallowed host =
     (case host of HostIpv4 ip \<Rightarrow> ip_is_disallowed (V4 ip)
      | HostIpv6 ip \<Rightarrow> ip_is_disallowed (V6 ip)
      | HostDomain _ \<Rightarrow> False)"

definition validate_webhook_url :: "net_libs \<Rightarrow> string \<Rightarrow> bool \<Rightarrow> string + string" where
  "validate_webhook_url libs raw allow_private =
     (case parse_url libs raw of
        Inl e \<Rightarrow> Inl (''invalid URL: '' @ e)
      | Inr url \<Rightarrow>
          (case url_host url of
             None \<Rightarrow> Inl ''webhook URL has no host''
           | Some host \<Rightarrow>
               if allow_private then
                 (if url_scheme url \<noteq> ''http'' \<and> url_scheme url \<noteq> ''https''
                  then Inl ''webhook URL must use http or https'' else Inr (url_text url))
               else if url_scheme url \<noteq> ''https'' then Inl ''webhook URL must use https''
               else if host_disallowed host then Inl ''webhook URL host is a non-public address''
               else Inr (url_text url)))"

definition validate_public_https_url :: "net_libs \<Rightarrow> string \<Rightarrow> string + string" where
  "validate_public_https_url libs raw =
     (case parse_url libs raw of
        Inl e \<Rightarrow> Inl (''invalid URL: '' @ e)
      | Inr url \<Rightarrow>
          (case url_host url of
             None \<Rightarrow> Inl ''URL has no host''
           | Some host \<Rightarrow>
               if url_scheme url \<noteq> ''https'' then Inl ''URL must use https''
               else if host_disallowed host then Inl ''URL host is a non-public address''
               else Inr (url_text url)))"

record CheckedTarget =
  ct_host :: string
  ct_port :: nat
  ct_addrs :: "SocketAddr list"

definition is_literal :: "net_libs \<Rightarrow> CheckedTarget \<Rightarrow> bool" where
  "is_literal libs target \<longleftrightarrow> parse_ip libs (ct_host target) \<noteq> None"

definition reject_if_disallowed :: "net_libs \<Rightarrow> IpAddr \<Rightarrow> string + unit" where
  "reject_if_disallowed libs ip =
     (if ip_is_disallowed ip then Inl (''host is a non-public address ('' @ fmt_ip libs ip @ '')'') else Inr ())"

text \<open>The loop over the resolved addresses: the first refusal ends it.\<close>

fun reject_any :: "net_libs \<Rightarrow> SocketAddr list \<Rightarrow> string + unit" where
  "reject_any libs [] = Inr ()"
| "reject_any libs (addr # addrs) =
     (case reject_if_disallowed libs (fst addr) of Inl e \<Rightarrow> Inl e | Inr _ \<Rightarrow> reject_any libs addrs)"

definition resolve_public_target :: "net_libs \<Rightarrow> nat \<Rightarrow> string \<Rightarrow> string + CheckedTarget" where
  "resolve_public_target libs n url_str =
     (case parse_url libs url_str of
        Inl e \<Rightarrow> Inl (''invalid URL: '' @ e)
      | Inr url \<Rightarrow>
          if url_scheme url \<noteq> ''https'' then Inl ''scheme is not https''
          else
            let port = (case url_port_or_known_default url of Some p \<Rightarrow> p | None \<Rightarrow> 443)
            in case url_host url of
                 None \<Rightarrow> Inl ''no host''
               | Some (HostIpv4 ip) \<Rightarrow>
                   (case reject_if_disallowed libs (V4 ip) of
                      Inl e \<Rightarrow> Inl e
                    | Inr _ \<Rightarrow> Inr \<lparr>ct_host = fmt_ip libs (V4 ip), ct_port = port, ct_addrs = [(V4 ip, port)]\<rparr>)
               | Some (HostIpv6 ip) \<Rightarrow>
                   (case reject_if_disallowed libs (V6 ip) of
                      Inl e \<Rightarrow> Inl e
                    | Inr _ \<Rightarrow> Inr \<lparr>ct_host = fmt_ip libs (V6 ip), ct_port = port, ct_addrs = [(V6 ip, port)]\<rparr>)
               | Some (HostDomain host) \<Rightarrow>
                   (case lookup_host libs n host port of
                      Inl e \<Rightarrow> Inl (''DNS resolution failed: '' @ e)
                    | Inr addrs \<Rightarrow>
                        if addrs = [] then Inl ''host did not resolve''
                        else case reject_any libs addrs of
                               Inl e \<Rightarrow> Inl e
                             | Inr _ \<Rightarrow> Inr \<lparr>ct_host = host, ct_port = port, ct_addrs = addrs\<rparr>))"

definition assert_public_target :: "net_libs \<Rightarrow> nat \<Rightarrow> string \<Rightarrow> string + unit" where
  "assert_public_target libs n url_str =
     (case resolve_public_target libs n url_str of Inl e \<Rightarrow> Inl e | Inr _ \<Rightarrow> Inr ())"

subsection \<open>Guarded requests\<close>

definition DEFAULT_MAX_BODY :: nat where
  "DEFAULT_MAX_BODY = 256 * 1024"

datatype FetchError = Refused string | Unreachable string | Body string

fun show_fetch_error :: "FetchError \<Rightarrow> string" where
  "show_fetch_error (Refused r) = ''target refused by the outbound guard: '' @ r"
| "show_fetch_error (Unreachable r) = ''target unreachable: '' @ r"
| "show_fetch_error (Body r) = ''response body rejected: '' @ r"

definition pinned_client :: "net_libs \<Rightarrow> nat \<Rightarrow> CheckedTarget \<Rightarrow> FetchError + http_client" where
  "pinned_client libs n target =
     (case build_client libs n of
        None \<Rightarrow> Inr (PinnedClient (ct_host target) (ct_addrs target))
      | Some e \<Rightarrow> Inl (Unreachable (''could not build a pinned client: '' @ e)))"

definition pinned_client_for :: "net_libs \<Rightarrow> nat \<Rightarrow> http_client \<Rightarrow> string \<Rightarrow> FetchError + http_client" where
  "pinned_client_for libs n shared url =
     (case resolve_public_target libs n url of
        Inl e \<Rightarrow> Inl (Refused e)
      | Inr target \<Rightarrow> if is_literal libs target then Inr shared else pinned_client libs n target)"

definition guarded_get :: "net_libs \<Rightarrow> nat \<Rightarrow> http_client \<Rightarrow> string \<Rightarrow> FetchError + http_answer" where
  "guarded_get libs n client url =
     (case (case resolve_public_target libs n url of
              Inl e \<Rightarrow> Inl (Refused e)
            | Inr target \<Rightarrow> if is_literal libs target then Inr client else pinned_client libs n target) of
        Inl e \<Rightarrow> Inl e
      | Inr c \<Rightarrow>
          (case http_get libs n c url of
             Inl e \<Rightarrow> Inl (Unreachable e)
           | Inr resp \<Rightarrow>
               if \<not> (200 \<le> ans_status resp \<and> ans_status resp < 300)
               then Inl (Unreachable (''HTTP '' @ fmt_status libs (ans_status resp)))
               else Inr resp))"

text \<open>The read loop, with the bytes read so far.\<close>

fun read_capped :: "nat \<Rightarrow> string \<Rightarrow> (string + string) list \<Rightarrow> FetchError + string" where
  "read_capped max_bytes buf [] = Inr buf"
| "read_capped max_bytes buf (Inl e # chunks) = Inl (Unreachable e)"
| "read_capped max_bytes buf (Inr chunk # chunks) =
     (if length buf + length chunk > max_bytes
      then Inl (Body (''response exceeded the '' @ show_nat max_bytes @ ''-byte cap''))
      else read_capped max_bytes (buf @ chunk) chunks)"

definition fetch_text :: "net_libs \<Rightarrow> nat \<Rightarrow> http_client \<Rightarrow> string \<Rightarrow> nat \<Rightarrow> FetchError + string" where
  "fetch_text libs n client url max_bytes =
     (case guarded_get libs n client url of
        Inl e \<Rightarrow> Inl e
      | Inr resp \<Rightarrow>
          (case read_capped max_bytes [] (ans_chunks resp) of
             Inl e \<Rightarrow> Inl e
           | Inr buf \<Rightarrow>
               (case utf8_error libs buf of
                  None \<Rightarrow> Inr buf
                | Some e \<Rightarrow> Inl (Body (''body is not UTF-8: '' @ e)))))"

definition fetch_json :: "net_libs \<Rightarrow> nat \<Rightarrow> http_client \<Rightarrow> string \<Rightarrow> nat \<Rightarrow> FetchError + json" where
  "fetch_json libs n client url max_bytes =
     (case guarded_get libs n client url of
        Inl e \<Rightarrow> Inl e
      | Inr resp \<Rightarrow>
          (case read_capped max_bytes [] (ans_chunks resp) of
             Inl e \<Rightarrow> Inl e
           | Inr buf \<Rightarrow>
               (case parse_json_bytes libs buf of Inl e \<Rightarrow> Inl (Body e) | Inr v \<Rightarrow> Inr v)))"

subsection \<open>The blocked networks\<close>

text \<open>
  The reference for the range check: the networks it stands for, as base address and prefix
  length, and membership by comparing prefixes as numbers.
\<close>

definition cidr :: "nat \<Rightarrow> nat \<Rightarrow> 'a::len word \<Rightarrow> bool" where
  "cidr base len ip \<longleftrightarrow> unat ip div 2 ^ (LENGTH('a) - len) = base div 2 ^ (LENGTH('a) - len)"

fun ipv4 :: "nat \<Rightarrow> nat \<Rightarrow> nat \<Rightarrow> nat \<Rightarrow> nat" where
  "ipv4 a b c d = ((a * 256 + b) * 256 + c) * 256 + d"

definition blocked_v4 :: "(nat \<times> nat) list" where
  "blocked_v4 =
     [(ipv4 0 0 0 0, 32), (ipv4 10 0 0 0, 8), (ipv4 100 64 0 0, 10), (ipv4 127 0 0 0, 8),
      (ipv4 169 254 0 0, 16), (ipv4 172 16 0 0, 12), (ipv4 192 0 2 0, 24), (ipv4 192 168 0 0, 16),
      (ipv4 198 51 100 0, 24), (ipv4 203 0 113 0, 24), (ipv4 224 0 0 0, 4), (ipv4 255 255 255 255, 32)]"

definition blocked_v6 :: "(nat \<times> nat) list" where
  "blocked_v6 =
     [(0, 128), (1, 128), (0xff * 2 ^ 120, 8), (0xfc * 2 ^ 120, 7), (0xfe80 * 2 ^ 112, 10)] @
     map (\<lambda>(base, len). (0xffff * 2 ^ 32 + base, 96 + len)) blocked_v4"

subsection \<open>Bits and prefixes\<close>

lemma unat_drop_bit: "unat (drop_bit k w) = unat w div 2 ^ k" for w :: "'a::len word"
proof -
  have "unat (drop_bit k w) = drop_bit k (take_bit LENGTH('a) (unat w))" by (rule unsigned_drop_bit_eq)
  moreover have "take_bit LENGTH('a) (unat w) = unat w"
    using unsigned_less [of w, where ?'a = nat] by (simp add: take_bit_nat_eq_self_iff)
  ultimately show ?thesis by (simp only: drop_bit_eq_div)
qed

lemma unat_octet: "unat (octet ip i) = unat ip div 2 ^ (24 - 8 * i) mod 256"
  unfolding octet_def unsigned_ucast_eq unat_drop_bit take_bit_eq_mod by simp

lemma unat_segment0: "unat (segment0 ip) = unat ip div 2 ^ 112"
proof -
  have "unat ip < 2 ^ 16 * 2 ^ 112" using unsigned_less [of ip, where ?'a = nat] by simp
  then have "unat ip div 2 ^ 112 < 2 ^ 16" by (rule less_mult_imp_div_less)
  then show ?thesis unfolding segment0_def unsigned_ucast_eq unat_drop_bit take_bit_eq_mod by simp
qed

lemma unat_and_high:
  fixes x :: "'a::len word"
  shows "unat (x AND NOT (mask k)) = unat x div 2 ^ k * 2 ^ k"
proof -
  have "x AND NOT (mask k) = push_bit k (drop_bit k x)" by (rule bit_eqI) (auto simp: bit_simps)
  moreover have "unat (push_bit k (drop_bit k x)) = take_bit LENGTH('a) (unat x div 2 ^ k * 2 ^ k)"
    by (subst unsigned_push_bit_eq) (simp only: unat_drop_bit push_bit_eq_mult)
  moreover have "unat x div 2 ^ k * 2 ^ k < 2 ^ LENGTH('a)"
    using unsigned_less [of x, where ?'a = nat] by (metis div_times_less_eq_dividend le_less_trans)
  ultimately show ?thesis by (simp only: take_bit_nat_eq_self_iff)
qed

lemma and_high_eq:
  fixes x c :: "'a::len word"
  assumes "unat c = d * 2 ^ k"
  shows "x AND NOT (mask k) = c \<longleftrightarrow> unat x div 2 ^ k = d"
proof -
  have "x AND NOT (mask k) = c \<longleftrightarrow> unat (x AND NOT (mask k)) = unat c" by (simp add: word_unat_eq_iff)
  then show ?thesis unfolding unat_and_high assms by simp
qed

lemma masks:
  "(0xc0 :: 8 word) = NOT (mask 6)" "(0xfe00 :: 16 word) = NOT (mask 9)"
  "(0xffc0 :: 16 word) = NOT (mask 6)" "(0xff00 :: 16 word) = NOT (mask 8)"
  by (simp_all add: mask_eq_exp_minus_1)

lemma octet_decomposition:
  obtains a b c where "a < 256" "b < 256" "c < 256"
    "unat (octet ip 0) = a" "unat (octet ip 1) = b" "unat (octet ip 2) = c"
    "unat ip div 2 ^ 8 = (a * 256 + b) * 256 + c"
proof -
  let ?n = "unat ip"
  have n: "?n < 2 ^ 32" using unsigned_less [of ip, where ?'a = nat] by simp
  have d: "?n div 2 ^ 16 = ?n div 2 ^ 8 div 256" "?n div 2 ^ 24 = ?n div 2 ^ 8 div 65536"
    by (simp_all add: div_mult2_eq [symmetric])
  let ?m = "?n div 2 ^ 8"
  have m: "?m < 2 ^ 24" using n by (simp add: less_mult_imp_div_less)
  have "?m div 65536 < 256" using m by (simp add: less_mult_imp_div_less)
  then have "unat (octet ip 0) = ?m div 65536" "unat (octet ip 1) = ?m div 256 mod 256" "unat (octet ip 2) = ?m mod 256"
    using d by (simp_all add: unat_octet)
  moreover have "?m = (?m div 65536 * 256 + ?m div 256 mod 256) * 256 + ?m mod 256"
  proof -
    have "?m div 65536 = ?m div 256 div 256" by (simp add: div_mult2_eq [symmetric])
    then have "?m div 65536 * 256 + ?m div 256 mod 256 = ?m div 256" by (simp only: div_mult_mod_eq)
    then show ?thesis by (simp only: div_mult_mod_eq)
  qed
  ultimately show ?thesis using that [of "?m div 65536" "?m div 256 mod 256" "?m mod 256"] \<open>?m div 65536 < 256\<close> by simp
qed

lemma word8_eq: "(x :: 8 word) = numeral k \<longleftrightarrow> unat x = numeral k mod 256"
  by (simp add: word_unat_eq_iff unat_numeral take_bit_eq_mod)

lemma cidr_32:
  assumes "unat ip div 2 ^ 8 = (a * 256 + b) * 256 + c" and "a < 256" "b < 256" "c < 256"
  shows "unat ip div 2 ^ 28 = a div 16" "unat ip div 2 ^ 24 = a" "unat ip div 2 ^ 22 = a * 4 + b div 64"
    "unat ip div 2 ^ 20 = a * 16 + b div 16" "unat ip div 2 ^ 16 = a * 256 + b"
proof -
  show 16: "unat ip div 2 ^ 16 = a * 256 + b"
  proof -
    have "unat ip div 2 ^ 16 = unat ip div 2 ^ 8 div 256" by (simp add: div_mult2_eq [symmetric])
    then show ?thesis unfolding assms(1) using assms(4) by simp
  qed
  have "unat ip div 2 ^ 20 = (b + a * 16 * 16) div 16"
    using 16 by (simp add: div_mult2_eq [of _ 65536 16, simplified] add.commute)
  then show "unat ip div 2 ^ 20 = a * 16 + b div 16" by (simp only: div_mult_self1)
  have "unat ip div 2 ^ 22 = (b + a * 4 * 64) div 64"
    using 16 by (simp add: div_mult2_eq [of _ 65536 64, simplified] add.commute)
  then show "unat ip div 2 ^ 22 = a * 4 + b div 64" by (simp only: div_mult_self1)
  show 24: "unat ip div 2 ^ 24 = a"
    using 16 assms(3) by (simp add: div_mult2_eq [of _ 65536 256, simplified])
  then show "unat ip div 2 ^ 28 = a div 16"
    by (simp add: div_mult2_eq [of _ 16777216 16, simplified])
qed

lemma digit_eq:
  fixes a b A C B :: nat
  assumes "b < B" and "C < B"
  shows "a = A \<and> b = C \<longleftrightarrow> a * B + b = A * B + C"
proof
  assume e: "a * B + b = A * B + C"
  have "a = (a * B + b) div B" "b = (a * B + b) mod B" using assms(1) by simp_all
  with e show "a = A \<and> b = C" using assms(2) by simp
qed simp

lemma octet1_mask: "octet ip 1 AND 0xc0 = 64 \<longleftrightarrow> unat (octet ip 1) div 64 = 1"
proof -
  have "unat (64 :: 8 word) = 1 * 2 ^ 6" by simp
  from and_high_eq [OF this, of "octet ip 1"] show ?thesis unfolding masks by simp
qed

lemma v4_disallowed_cidr: "v4_is_disallowed ip \<longleftrightarrow> (\<exists>(base, len) \<in> set blocked_v4. cidr base len ip)"
proof -
  obtain a b c where o: "a < 256" "b < 256" "c < 256"
    "unat (octet ip 0) = a" "unat (octet ip 1) = b" "unat (octet ip 2) = c"
    "unat ip div 2 ^ 8 = (a * 256 + b) * 256 + c" by (rule octet_decomposition)
  note d = cidr_32 [OF o(7,1-3)]
  have 1: "v4_is_loopback ip \<longleftrightarrow> cidr (ipv4 127 0 0 0) 8 ip"
    unfolding v4_is_loopback_def cidr_def using o(4) d by (simp add: word8_eq)
  have 2: "v4_is_private ip \<longleftrightarrow> cidr (ipv4 10 0 0 0) 8 ip \<or> cidr (ipv4 172 16 0 0) 12 ip \<or> cidr (ipv4 192 168 0 0) 16 ip"
  proof -
    have "16 \<le> b \<and> b \<le> 31 \<longleftrightarrow> b div 16 = 1" by presburger
    moreover have "a = 172 \<and> b div 16 = 1 \<longleftrightarrow> a * 16 + b div 16 = 2753"
      using digit_eq [of "b div 16" 16 1 a 172] o(2) by simp
    moreover have "a = 192 \<and> b = 168 \<longleftrightarrow> a * 256 + b = 49320"
      using digit_eq [of b 256 168 a 192] o(2) by simp
    ultimately show ?thesis
      unfolding v4_is_private_def cidr_def using o(4,5) d by (simp add: word8_eq word_le_nat_alt)
  qed
  have 3: "v4_is_link_local ip \<longleftrightarrow> cidr (ipv4 169 254 0 0) 16 ip"
  proof -
    have "a = 169 \<and> b = 254 \<longleftrightarrow> a * 256 + b = 43518"
      using digit_eq [of b 256 254 a 169] o(2) by simp
    then show ?thesis unfolding v4_is_link_local_def cidr_def using o(4,5) d by (simp add: word8_eq)
  qed
  have 4: "v4_is_documentation ip \<longleftrightarrow>
      cidr (ipv4 192 0 2 0) 24 ip \<or> cidr (ipv4 198 51 100 0) 24 ip \<or> cidr (ipv4 203 0 113 0) 24 ip"
  proof -
    have "a = 192 \<and> b = 0 \<and> c = 2 \<longleftrightarrow> (a * 256 + b) * 256 + c = 12582914"
      "a = 198 \<and> b = 51 \<and> c = 100 \<longleftrightarrow> (a * 256 + b) * 256 + c = 12989284"
      "a = 203 \<and> b = 0 \<and> c = 113 \<longleftrightarrow> (a * 256 + b) * 256 + c = 13303921"
      using o(2,3) digit_eq [of c 256 2 "a * 256 + b" "192 * 256"] digit_eq [of b 256 0 a 192]
        digit_eq [of c 256 100 "a * 256 + b" "198 * 256 + 51"] digit_eq [of b 256 51 a 198]
        digit_eq [of c 256 113 "a * 256 + b" "203 * 256"] digit_eq [of b 256 0 a 203] by auto
    moreover have "octet ip 1 = 0 \<longleftrightarrow> b = 0" using o(5) by (simp add: word_unat_eq_iff)
    ultimately show ?thesis
      unfolding v4_is_documentation_def cidr_def using o(4-7) by (simp add: word8_eq)
  qed
  have 5: "v4_is_multicast ip \<longleftrightarrow> cidr (ipv4 224 0 0 0) 4 ip"
  proof -
    have "224 \<le> a \<and> a \<le> 239 \<longleftrightarrow> a div 16 = 14" by presburger
    then show ?thesis unfolding v4_is_multicast_def cidr_def using o(4) d by (simp add: word8_eq word_le_nat_alt)
  qed
  have 6: "is_cgnat_v4 ip \<longleftrightarrow> cidr (ipv4 100 64 0 0) 10 ip"
  proof -
    have "a = 100 \<and> b div 64 = 1 \<longleftrightarrow> a * 4 + b div 64 = 401"
      using digit_eq [of "b div 64" 4 1 a 100] o(2) by simp
    then show ?thesis unfolding is_cgnat_v4_def octet1_mask cidr_def using o(4,5) d by (simp add: word8_eq)
  qed
  have 7: "v4_is_broadcast ip \<longleftrightarrow> cidr (ipv4 255 255 255 255) 32 ip" "v4_is_unspecified ip \<longleftrightarrow> cidr (ipv4 0 0 0 0) 32 ip"
    by (simp_all add: v4_is_broadcast_def v4_is_unspecified_def cidr_def word_unat_eq_iff)
  show ?thesis unfolding v4_is_disallowed_def 1 2 3 4 5 6 7 blocked_v4_def by auto
qed

lemma div_digit:
  fixes q r :: nat
  assumes "r < 2 ^ 32" and "l \<le> 32"
  shows "(q * 2 ^ 32 + r) div 2 ^ (32 - l) = q * 2 ^ l + r div 2 ^ (32 - l)" and "r div 2 ^ (32 - l) < 2 ^ l"
proof -
  have e: "(2::nat) ^ 32 = 2 ^ l * 2 ^ (32 - l)" using assms(2) by (simp flip: power_add)
  show "(q * 2 ^ 32 + r) div 2 ^ (32 - l) = q * 2 ^ l + r div 2 ^ (32 - l)"
    unfolding e mult.assoc [symmetric] by simp
  show "r div 2 ^ (32 - l) < 2 ^ l" using assms(1) unfolding e by (rule less_mult_imp_div_less)
qed

lemma mapped_cidr:
  fixes ip :: "128 word"
  assumes "l \<le> 32" and "base < 2 ^ 32"
  shows "cidr (0xffff * 2 ^ 32 + base) (96 + l) ip \<longleftrightarrow> drop_bit 32 ip = 0xffff \<and> cidr base l (ucast ip :: 32 word)"
proof -
  let ?q = "unat ip div 2 ^ 32" and ?r = "unat ip mod 2 ^ 32"
  have n: "unat ip = ?q * 2 ^ 32 + ?r" by (simp only: div_mult_mod_eq)
  have r: "?r < 2 ^ 32" by simp
  have l: "LENGTH(128) - (96 + l) = 32 - l" by simp
  have u: "unat (ucast ip :: 32 word) = ?r" unfolding unsigned_ucast_eq take_bit_eq_mod by simp
  have d: "drop_bit 32 ip = 0xffff \<longleftrightarrow> ?q = 0xffff"
    unfolding word_unat_eq_iff unat_drop_bit by simp
  have "cidr (0xffff * 2 ^ 32 + base) (96 + l) ip \<longleftrightarrow>
      ?q * 2 ^ l + ?r div 2 ^ (32 - l) = 0xffff * 2 ^ l + base div 2 ^ (32 - l)"
    unfolding cidr_def l div_digit(1) [OF assms(2,1)] by (subst n) (simp only: div_digit(1) [OF r assms(1)])
  also have "\<dots> \<longleftrightarrow> ?q = 0xffff \<and> ?r div 2 ^ (32 - l) = base div 2 ^ (32 - l)"
    by (rule digit_eq [symmetric]) (rule div_digit(2) [OF r assms(1)], rule div_digit(2) [OF assms(2,1)])
  finally show ?thesis unfolding d cidr_def u by simp
qed

lemma blocked_v4_bounds: "(base, len) \<in> set blocked_v4 \<Longrightarrow> len \<le> 32 \<and> base < 2 ^ 32"
  by (auto simp: blocked_v4_def)

lemma segment0_mask:
  assumes "unat c = d * 2 ^ k" and "k \<le> 16"
  shows "segment0 ip AND NOT (mask k) = c \<longleftrightarrow> unat ip div 2 ^ (112 + k) = d"
  unfolding and_high_eq [OF assms(1)] unat_segment0 by (simp add: div_mult2_eq [symmetric] power_add)

lemma v6_disallowed_cidr: "ip_is_disallowed (V6 ip) \<longleftrightarrow> (\<exists>(base, len) \<in> set blocked_v6. cidr base len ip)"
proof -
  have 1: "v6_is_loopback ip \<longleftrightarrow> cidr 1 128 ip" "v6_is_unspecified ip \<longleftrightarrow> cidr 0 128 ip"
    by (simp_all add: v6_is_loopback_def v6_is_unspecified_def cidr_def word_unat_eq_iff)
  have 2: "v6_is_multicast ip \<longleftrightarrow> cidr (0xff * 2 ^ 120) 8 ip"
    using segment0_mask [of "0xff00" 255 8 ip] unfolding v6_is_multicast_def masks [symmetric] cidr_def by simp
  have 3: "is_ula_v6 ip \<longleftrightarrow> cidr (0xfc * 2 ^ 120) 7 ip"
    using segment0_mask [of "0xfc00" 126 9 ip] unfolding is_ula_v6_def masks [symmetric] cidr_def by simp
  have 4: "is_link_local_v6 ip \<longleftrightarrow> cidr (0xfe80 * 2 ^ 112) 10 ip"
    using segment0_mask [of "0xfe80" 1018 6 ip] unfolding is_link_local_v6_def masks [symmetric] cidr_def by simp
  have "(\<exists>(base, len) \<in> set blocked_v4. cidr (0xffff * 2 ^ 32 + base) (96 + len) ip) \<longleftrightarrow>
      (\<exists>(base, len) \<in> set blocked_v4. drop_bit 32 ip = 0xffff \<and> cidr base len (ucast ip :: 32 word))"
  proof (rule bex_cong [OF refl])
    fix x assume "x \<in> set blocked_v4"
    then show "(case x of (base, len) \<Rightarrow> cidr (0xffff * 2 ^ 32 + base) (96 + len) ip) \<longleftrightarrow>
        (case x of (base, len) \<Rightarrow> drop_bit 32 ip = 0xffff \<and> cidr base len (ucast ip :: 32 word))"
      using mapped_cidr [of "snd x" "fst x" ip] blocked_v4_bounds [of "fst x" "snd x"] by (simp only: split_beta prod.collapse)
  qed
  also have "\<dots> \<longleftrightarrow> (case to_ipv4_mapped ip of None \<Rightarrow> False | Some v4 \<Rightarrow> v4_is_disallowed v4)"
    by (auto simp: to_ipv4_mapped_def v4_disallowed_cidr)
  finally show ?thesis unfolding ip_is_disallowed.simps 1 2 3 4 blocked_v6_def by auto
qed
subsection \<open>What the guard approves\<close>

lemma reject_if_disallowed_iff: "reject_if_disallowed libs ip = Inr u \<longleftrightarrow> \<not> ip_is_disallowed ip"
  by (simp add: reject_if_disallowed_def)

lemma reject_any_iff: "reject_any libs addrs = Inr u \<longleftrightarrow> list_all (\<lambda>a. \<not> ip_is_disallowed (fst a)) addrs"
  by (induction libs addrs rule: reject_any.induct)
    (auto simp: reject_if_disallowed_iff reject_if_disallowed_def split: sum.splits)

text \<open>Everything an approved target says, by the kind of host the URL names.\<close>

lemma resolve_public_target_Inr:
  assumes "resolve_public_target libs n url_str = Inr target"
  obtains url host where "parse_url libs url_str = Inr url" and "url_scheme url = ''https''"
    and "url_host url = Some host" and "ct_addrs target \<noteq> []"
    and "list_all (\<lambda>a. \<not> ip_is_disallowed (fst a)) (ct_addrs target)"
    and "case host of HostDomain h \<Rightarrow> ct_host target = h \<and> lookup_host libs n h (ct_port target) = Inr (ct_addrs target)
         | HostIpv4 ip \<Rightarrow> ct_host target = fmt_ip libs (V4 ip) \<and> ct_addrs target = [(V4 ip, ct_port target)]
         | HostIpv6 ip \<Rightarrow> ct_host target = fmt_ip libs (V6 ip) \<and> ct_addrs target = [(V6 ip, ct_port target)]"
proof -
  obtain url where u: "parse_url libs url_str = Inr url"
    using assms by (auto simp: resolve_public_target_def split: sum.splits)
  obtain host where h: "url_host url = Some host"
    using assms u by (auto simp: resolve_public_target_def Let_def split: if_splits option.splits)
  show ?thesis
    by (rule that [OF u _ h])
      (use assms u h in \<open>auto simp: resolve_public_target_def Let_def reject_if_disallowed_iff reject_any_iff
        split: if_splits url_host.splits sum.splits\<close>)
qed

text \<open>
  What the guard relies on in the URL parser and the text form of addresses: the text of an
  address parses back to it, and a host the parser calls a domain is not the text of one.
\<close>

definition literals_ok :: "net_libs \<Rightarrow> bool" where
  "literals_ok libs \<longleftrightarrow>
     (\<forall>ip. parse_ip libs (fmt_ip libs ip) = Some ip) \<and>
     (\<forall>s url h. parse_url libs s = Inr url \<longrightarrow> url_host url = Some (HostDomain h) \<longrightarrow> parse_ip libs h = None)"

text \<open>
  A client that can only reach public addresses on a request to a URL: one built for the
  URL's own host from public addresses, or the shared one where the URL names a public
  address itself.
\<close>

definition public_client :: "net_libs \<Rightarrow> string \<Rightarrow> http_client \<Rightarrow> bool" where
  "public_client libs url_str c =
     (case parse_url libs url_str of
        Inl _ \<Rightarrow> False
      | Inr url \<Rightarrow>
          url_scheme url = ''https'' \<and>
          (case (url_host url, c) of
             (Some (HostDomain h), PinnedClient h' addrs) \<Rightarrow>
               h' = h \<and> addrs \<noteq> [] \<and> list_all (\<lambda>a. \<not> ip_is_disallowed (fst a)) addrs
           | (Some (HostIpv4 ip), SharedClient) \<Rightarrow> \<not> ip_is_disallowed (V4 ip)
           | (Some (HostIpv6 ip), SharedClient) \<Rightarrow> \<not> ip_is_disallowed (V6 ip)
           | _ \<Rightarrow> False))"

lemma pinned_client_for_public:
  assumes "pinned_client_for libs n SharedClient url_str = Inr c" and "literals_ok libs"
  shows "public_client libs url_str c"
proof -
  obtain target where t: "resolve_public_target libs n url_str = Inr target"
    using assms(1) by (auto simp: pinned_client_for_def split: sum.splits)
  from t show ?thesis
  proof (rule resolve_public_target_Inr)
    fix url host
    assume a: "parse_url libs url_str = Inr url" "url_scheme url = ''https''" "url_host url = Some host"
      "ct_addrs target \<noteq> []" "list_all (\<lambda>a. \<not> ip_is_disallowed (fst a)) (ct_addrs target)"
      "case host of HostDomain h \<Rightarrow> ct_host target = h \<and> lookup_host libs n h (ct_port target) = Inr (ct_addrs target)
         | HostIpv4 ip \<Rightarrow> ct_host target = fmt_ip libs (V4 ip) \<and> ct_addrs target = [(V4 ip, ct_port target)]
         | HostIpv6 ip \<Rightarrow> ct_host target = fmt_ip libs (V6 ip) \<and> ct_addrs target = [(V6 ip, ct_port target)]"
    show ?thesis
      using assms t a
      by (cases host)
        (auto simp: public_client_def pinned_client_for_def is_literal_def pinned_client_def literals_ok_def
          split: if_splits option.splits)
  qed
qed

lemma guarded_get_public:
  assumes "literals_ok libs" and "\<And>c. public_client libs url c \<Longrightarrow> g n c url = http_get libs n c url"
  shows "guarded_get (libs\<lparr>http_get := g\<rparr>) n SharedClient url = guarded_get libs n SharedClient url"
proof -
  have r: "resolve_public_target (libs\<lparr>http_get := g\<rparr>) n url = resolve_public_target libs n url"
  proof -
    have f: "fmt_ip (libs\<lparr>http_get := g\<rparr>) = fmt_ip libs" "lookup_host (libs\<lparr>http_get := g\<rparr>) = lookup_host libs"
      "parse_url (libs\<lparr>http_get := g\<rparr>) = parse_url libs" by simp_all
    have rj: "reject_if_disallowed (libs\<lparr>http_get := g\<rparr>) = reject_if_disallowed libs"
      by (rule ext) (simp add: reject_if_disallowed_def)
    have "reject_any (libs\<lparr>http_get := g\<rparr>) addrs = reject_any libs addrs" for addrs
      by (induction addrs) (simp_all add: rj split: sum.splits)
    then show ?thesis unfolding resolve_public_target_def rj f by (simp only:)
  qed
  have p: "pinned_client_for (libs\<lparr>http_get := g\<rparr>) n SharedClient url = pinned_client_for libs n SharedClient url"
    by (simp add: pinned_client_for_def r is_literal_def pinned_client_def split: sum.splits)
  show ?thesis
    unfolding guarded_get_def pinned_client_for_def [symmetric] p
    using pinned_client_for_public [OF _ assms(1)] assms(2) by (simp split: sum.splits)
qed

subsection \<open>Capped reads\<close>

lemma read_capped_iff:
  assumes "length buf \<le> max_bytes"
  shows "read_capped max_bytes buf chunks = Inr b \<longleftrightarrow>
    list_all (\<lambda>c. \<not> isl c) chunks \<and> b = buf @ concat (map projr chunks) \<and> length b \<le> max_bytes"
  using assms
proof (induction max_bytes buf chunks rule: read_capped.induct)
  case (3 max_bytes buf chunk chunks)
  then show ?case by (cases "length buf + length chunk \<le> max_bytes") auto
qed auto

subsection \<open>Properties\<close>

text \<open>
  Property C30 (equivalence). The range check is exactly membership in the blocked networks:
  its tests on octets, segments and bit masks refuse an address if and only if it lies in one
  of twelve IPv4 networks (unspecified, private, carrier-grade NAT, loopback, link-local with
  the metadata address, documentation, multicast, broadcast), or in one of the five IPv6 ones
  (unspecified, loopback, multicast, unique local, link-local) or is one of the IPv4 ones
  mapped into IPv6.
\<close>

theorem ip_guard_is_cidr:
  "ip_is_disallowed ip \<longleftrightarrow>
     (case ip of V4 v4 \<Rightarrow> \<exists>(base, len) \<in> set blocked_v4. cidr base len v4
      | V6 v6 \<Rightarrow> \<exists>(base, len) \<in> set blocked_v6. cidr base len v6)"
proof (cases ip)
  case (V4 v4)
  then show ?thesis using v4_disallowed_cidr by simp
next
  case (V6 v6)
  then show ?thesis using v6_disallowed_cidr [of v6] by (simp only: IpAddr.case)
qed

text \<open>
  A guarded fetch is bounded: text is returned only if the response was
  a success obtained by a client that can reach nothing but public addresses for the URL,
  and it is then the whole body, chunk by chunk, of at most the given size; a body one byte
  longer is refused and never truncated.
\<close>

theorem fetch_text_bounded:
  assumes "literals_ok libs" and "fetch_text libs n SharedClient url max_bytes = Inr text"
  shows "length text \<le> max_bytes \<and>
    (\<exists>c resp. public_client libs url c \<and> http_get libs n c url = Inr resp \<and>
      200 \<le> ans_status resp \<and> ans_status resp < 300 \<and>
      list_all (\<lambda>c. \<not> isl c) (ans_chunks resp) \<and> text = concat (map projr (ans_chunks resp)))"
proof -
  obtain resp where g: "guarded_get libs n SharedClient url = Inr resp"
    and r: "read_capped max_bytes [] (ans_chunks resp) = Inr text"
    using assms(2) by (auto simp: fetch_text_def split: sum.splits option.splits)
  obtain c where c: "pinned_client_for libs n SharedClient url = Inr c" "http_get libs n c url = Inr resp"
    "200 \<le> ans_status resp" "ans_status resp < 300"
    using g unfolding guarded_get_def pinned_client_for_def [symmetric]
    by (auto split: sum.splits if_splits)
  show ?thesis
    using pinned_client_for_public [OF c(1) assms(1)] c(2-4) r read_capped_iff [of "[]" max_bytes] by auto
qed

definition sample_libs_net :: net_libs where
  "sample_libs_net = \<lparr>parse_url = (\<lambda>s. Inr \<lparr>url_scheme = ''https'', url_host = Some (HostIpv4 0x08080808),
       url_port_or_known_default = Some 443, url_text = s\<rparr>),
     lookup_host = (\<lambda>n h p. Inl ''no such host''),
     parse_ip = (\<lambda>s. case s of [] \<Rightarrow> None | c # cs \<Rightarrow>
       if c = CHR ''4'' then Some (V4 (word_of_nat (length cs))) else Some (V6 (word_of_nat (length cs)))),
     fmt_ip = (\<lambda>ip. case ip of V4 w \<Rightarrow> CHR ''4'' # replicate (unat w) CHR ''x''
       | V6 w \<Rightarrow> CHR ''6'' # replicate (unat w) CHR ''x''),
     build_client = (\<lambda>n. None),
     http_get = (\<lambda>n c u. Inr \<lparr>ans_status = 200, ans_chunks = [Inr ''ab'', Inr ''c'']\<rparr>),
     fmt_status = show_nat, parse_json_bytes = (\<lambda>b. Inr (JStr b)), utf8_error = (\<lambda>b. None)\<rparr>"

lemma sample_literals_ok: "literals_ok sample_libs_net"
  by (auto simp: literals_ok_def sample_libs_net_def split: IpAddr.splits)

lemma sample_public_ip: "\<not> v4_is_disallowed 0x08080808"
  by (simp add: v4_disallowed_cidr blocked_v4_def cidr_def)

theorem fetch_text_bounded_witness:
  "length ''abc'' \<le> 3 \<and>
   (\<exists>c resp. public_client sample_libs_net ''u'' c \<and> http_get sample_libs_net 0 c ''u'' = Inr resp \<and>
      200 \<le> ans_status resp \<and> ans_status resp < 300 \<and>
      list_all (\<lambda>c. \<not> isl c) (ans_chunks resp) \<and> ''abc'' = concat (map projr (ans_chunks resp)))"
proof (rule fetch_text_bounded [OF sample_literals_ok])
  have "parse_ip sample_libs_net (fmt_ip sample_libs_net (V4 0x08080808)) \<noteq> None"
    using sample_literals_ok by (simp add: literals_ok_def)
  then have "is_literal sample_libs_net \<lparr>ct_host = fmt_ip sample_libs_net (V4 0x08080808), ct_port = 443,
      ct_addrs = [(V4 0x08080808, 443)]\<rparr>" by (simp add: is_literal_def)
  moreover have "resolve_public_target sample_libs_net 0 ''u'' =
      Inr \<lparr>ct_host = fmt_ip sample_libs_net (V4 0x08080808), ct_port = 443, ct_addrs = [(V4 0x08080808, 443)]\<rparr>"
    using sample_public_ip by (simp add: resolve_public_target_def reject_if_disallowed_def)
      (simp add: sample_libs_net_def reject_if_disallowed_def)
  ultimately have "guarded_get sample_libs_net 0 SharedClient ''u'' =
      Inr \<lparr>ans_status = 200, ans_chunks = [Inr ''ab'', Inr ''c'']\<rparr>"
    by (simp add: guarded_get_def) (simp add: sample_libs_net_def)
  then show "fetch_text sample_libs_net 0 SharedClient ''u'' 3 = Inr ''abc''"
    by (simp add: fetch_text_def) (simp add: sample_libs_net_def)
qed

end
