(* ===== verification/Webhook.thy ===== *)
theory Webhook
  imports Registry_Transfer Url_Guard
begin

text \<open>
  Signed outbound webhooks: the types of \<^verbatim>\<open>dpp-types/src/webhook.rs\<close>, the statements of
  \<^verbatim>\<open>dpp-dal/src/pg/repo_webhook.rs\<close>, the delivery drain
  \<^verbatim>\<open>dpp-node/src/infra/webhook_drain.rs\<close> and the subscription service
  \<^verbatim>\<open>dpp-vault/src/domain/webhook_service.rs\<close>. The address guard is that of \<open>Url_Guard\<close>; the
  HTTP client, the HMAC and the random bytes of a secret are fields of \<open>webhook_port\<close>.
\<close>

subsection \<open>Types\<close>

datatype WebhookDeliveryStatus = DeliveryPending | DeliveryDelivered | DeliveryExhausted

fun delivery_as_db :: "WebhookDeliveryStatus \<Rightarrow> string" where
  "delivery_as_db DeliveryPending = ''pending''"
| "delivery_as_db DeliveryDelivered = ''delivered''"
| "delivery_as_db DeliveryExhausted = ''exhausted''"

definition delivery_from_db :: "string \<Rightarrow> WebhookDeliveryStatus" where
  "delivery_from_db s =
     (if s = ''delivered'' then DeliveryDelivered
      else if s = ''exhausted'' then DeliveryExhausted
      else DeliveryPending)"

record WebhookSubscription =
  sub_id :: uuid
  sub_url :: string
  sub_events :: "string list"
  sub_active :: bool
  sub_description :: "string option"
  sub_created_at :: time
  sub_updated_at :: time

record CreateWebhookRequest =
  cw_url :: string
  cw_events :: "string list"
  cw_description :: "string option"

record WebhookDeliveryRow =
  del_delivery_id :: uuid
  del_subscription_id :: uuid
  del_url :: string
  del_secret :: string
  del_event_type :: string
  del_body :: string
  del_attempts :: nat

record WebhookCounts =
  whc_pending :: nat
  whc_delivered :: nat
  whc_exhausted :: nat

definition row_to_subscription :: "webhook_subscription_rec \<Rightarrow> WebhookSubscription" where
  "row_to_subscription r =
     \<lparr>sub_id = ws_id r, sub_url = ws_url r, sub_events = ws_events r, sub_active = ws_active r,
      sub_description = ws_description r, sub_created_at = ws_created_at r, sub_updated_at = ws_updated_at r\<rparr>"

subsection \<open>Statements\<close>

definition subscription_create ::
  "pg_env \<Rightarrow> CreateWebhookRequest \<Rightarrow> string \<Rightarrow> odal \<Rightarrow> (dpp_error + WebhookSubscription) \<times> odal" where
  "subscription_create env input secret db =
     (let n = tick db; now = now_at env n;
          r = \<lparr>ws_id = uuid_at env n 0, ws_url = cw_url input, ws_secret = secret, ws_events = cw_events input,
               ws_active = True, ws_description = cw_description input, ws_created_at = now, ws_updated_at = now\<rparr>
      in case fault_at env n of
           Some e \<Rightarrow> (Inl (db_err env e), bump db)
         | None \<Rightarrow>
             if ws_id r \<in> ws_id ` set (webhook_subscription db) then (Inl (db_err env unique_violation), bump db)
             else (Inr (row_to_subscription r), bump (db\<lparr>webhook_subscription := webhook_subscription db @ [r]\<rparr>)))"

definition subscription_list :: "pg_env \<Rightarrow> odal \<Rightarrow> (dpp_error + WebhookSubscription list) \<times> odal" where
  "subscription_list env db =
     (case fault_at env (tick db) of
        Some e \<Rightarrow> (Inl (db_err env e), bump db)
      | None \<Rightarrow> (Inr (map row_to_subscription
                   (sort_key (\<lambda>r. - ws_created_at r) (webhook_subscription db))), bump db))"

definition subscription_get :: "pg_env \<Rightarrow> uuid \<Rightarrow> odal \<Rightarrow> (dpp_error + WebhookSubscription option) \<times> odal" where
  "subscription_get env ident db =
     (case exec_lookup webhook_subscription ws_id env ident db of
        (Inl e, db') \<Rightarrow> (Inl e, db')
      | (Inr r, db') \<Rightarrow> (Inr (map_option row_to_subscription r), db'))"

definition subscription_deactivate :: "pg_env \<Rightarrow> uuid \<Rightarrow> odal \<Rightarrow> (dpp_error + bool) \<times> odal" where
  "subscription_deactivate env ident db =
     (case exec_update webhook_subscription webhook_subscription_update ws_id env ident
        (\<lambda>_ _. True) (\<lambda>_. True) (\<lambda>now rnd r. r\<lparr>ws_active := False, ws_updated_at := now\<rparr>) db of
        (Inl e, db') \<Rightarrow> (Inl e, db')
      | (Inr m, db') \<Rightarrow> (Inr (0 < m), db'))"

definition new_delivery :: "time \<Rightarrow> uuid \<Rightarrow> uuid \<Rightarrow> string \<Rightarrow> string \<Rightarrow> webhook_delivery_rec" where
  "new_delivery now ident sub event_type body =
     \<lparr>wd_id = ident, wd_subscription_id = sub, wd_event_type = event_type, wd_body = body,
      wd_status = ''pending'', wd_attempts = 0, wd_next_attempt_at = now, wd_last_attempt_at = None,
      wd_message = None, wd_delivered_at = None, wd_updated_at = now\<rparr>"

text \<open>
  \<^verbatim>\<open>INSERT ... SELECT\<close> into the deliveries: one row per selected subscription, with the
  identifiers the server generates. A clash of identifiers refuses the statement.
\<close>

definition insert_deliveries ::
  "pg_env \<Rightarrow> (webhook_subscription_rec \<Rightarrow> bool) \<Rightarrow> string \<Rightarrow> string \<Rightarrow> odal \<Rightarrow> (dpp_error + nat) \<times> odal" where
  "insert_deliveries env p event_type body db =
     (let n = tick db;
          subs = filter p (webhook_subscription db);
          rows = map (\<lambda>(i, s). new_delivery (now_at env n) (uuid_at env n i) (ws_id s) event_type body)
                   (zip [0..<length subs] subs)
      in case fault_at env n of
           Some e \<Rightarrow> (Inl (db_err env e), bump db)
         | None \<Rightarrow>
             if distinct (map wd_id (webhook_delivery db @ rows))
             then (Inr (length rows), bump (db\<lparr>webhook_delivery := webhook_delivery db @ rows\<rparr>))
             else (Inl (db_err env unique_violation), bump db))"

definition subscribed :: "string \<Rightarrow> webhook_subscription_rec \<Rightarrow> bool" where
  "subscribed event_type s \<longleftrightarrow> ws_active s \<and> (event_type \<in> set (ws_events s) \<or> ''*'' \<in> set (ws_events s))"

definition fan_out :: "pg_env \<Rightarrow> string \<Rightarrow> string \<Rightarrow> odal \<Rightarrow> (dpp_error + nat) \<times> odal" where
  "fan_out env event_type body = insert_deliveries env (subscribed event_type) event_type body"

definition webhook_enqueue :: "pg_env \<Rightarrow> string \<Rightarrow> string \<Rightarrow> odal \<Rightarrow> (dpp_error + nat) \<times> odal" where
  "webhook_enqueue env event_type body = fan_out env event_type body"

definition webhook_enqueue_for :: "pg_env \<Rightarrow> uuid \<Rightarrow> string \<Rightarrow> string \<Rightarrow> odal \<Rightarrow> (dpp_error + nat) \<times> odal" where
  "webhook_enqueue_for env sub event_type body =
     insert_deliveries env (\<lambda>s. ws_id s = sub) event_type body"

definition to_delivery_row :: "webhook_subscription_rec list \<Rightarrow> webhook_delivery_rec \<Rightarrow> WebhookDeliveryRow option" where
  "to_delivery_row subs d =
     map_option (\<lambda>s. \<lparr>del_delivery_id = wd_id d, del_subscription_id = wd_subscription_id d, del_url = ws_url s,
        del_secret = ws_secret s, del_event_type = wd_event_type d, del_body = wd_body d, del_attempts = wd_attempts d\<rparr>)
       (row_at ws_id (wd_subscription_id d) subs)"

text \<open>The join with the subscription: a delivery whose subscription is gone is not selected.\<close>

definition webhook_due :: "pg_env \<Rightarrow> nat \<Rightarrow> odal \<Rightarrow> (dpp_error + WebhookDeliveryRow list) \<times> odal" where
  "webhook_due env limit db =
     (case exec_select webhook_delivery env
        (\<lambda>now d. wd_status d = ''pending'' \<and> wd_next_attempt_at d \<le> now \<and>
           to_delivery_row (webhook_subscription db) d \<noteq> None)
        wd_next_attempt_at limit db of
        (Inl e, db') \<Rightarrow> (Inl e, db')
      | (Inr ds, db') \<Rightarrow> (Inr (List.map_filter (to_delivery_row (webhook_subscription db)) ds), db'))"

abbreviation delivery_mark ::
  "pg_env \<Rightarrow> uuid \<Rightarrow> (webhook_delivery_rec \<Rightarrow> bool) \<Rightarrow>
   (time \<Rightarrow> rat \<Rightarrow> webhook_delivery_rec \<Rightarrow> webhook_delivery_rec) \<Rightarrow> odal \<Rightarrow> (dpp_error + unit) \<times> odal"
where
  "delivery_mark env ident ok f db \<equiv>
     exec_mark webhook_delivery webhook_delivery_update wd_id env
       ''webhook_delivery row'' ident (\<lambda>_ _. True) ok f db"

definition delivered_row :: "time \<Rightarrow> rat \<Rightarrow> webhook_delivery_rec \<Rightarrow> webhook_delivery_rec" where
  "delivered_row now rnd d = d\<lparr>wd_status := ''delivered'', wd_delivered_at := Some now,
     wd_last_attempt_at := Some now, wd_attempts := wd_attempts d + 1, wd_message := None, wd_updated_at := now\<rparr>"

definition delivery_mark_delivered :: "pg_env \<Rightarrow> uuid \<Rightarrow> odal \<Rightarrow> (dpp_error + unit) \<times> odal" where
  "delivery_mark_delivered env ident = delivery_mark env ident (\<lambda>_. True) delivered_row"

definition delivery_failed_row :: "string \<Rightarrow> time \<Rightarrow> rat \<Rightarrow> webhook_delivery_rec \<Rightarrow> webhook_delivery_rec" where
  "delivery_failed_row message now rnd d = d\<lparr>wd_attempts := wd_attempts d + 1, wd_message := Some message,
     wd_last_attempt_at := Some now, wd_next_attempt_at := now + backoff (wd_attempts d) rnd, wd_updated_at := now\<rparr>"

definition delivery_mark_attempt_failed :: "pg_env \<Rightarrow> uuid \<Rightarrow> string \<Rightarrow> odal \<Rightarrow> (dpp_error + unit) \<times> odal" where
  "delivery_mark_attempt_failed env ident message =
     delivery_mark env ident (\<lambda>d. backoff_ok (wd_attempts d)) (delivery_failed_row message)"

definition exhausted_row :: "string \<Rightarrow> time \<Rightarrow> rat \<Rightarrow> webhook_delivery_rec \<Rightarrow> webhook_delivery_rec" where
  "exhausted_row message now rnd d = d\<lparr>wd_status := ''exhausted'', wd_message := Some message,
     wd_last_attempt_at := Some now, wd_attempts := wd_attempts d + 1, wd_updated_at := now\<rparr>"

definition delivery_mark_exhausted :: "pg_env \<Rightarrow> uuid \<Rightarrow> string \<Rightarrow> odal \<Rightarrow> (dpp_error + unit) \<times> odal" where
  "delivery_mark_exhausted env ident message = delivery_mark env ident (\<lambda>_. True) (exhausted_row message)"

definition delivery_count :: "string \<Rightarrow> odal \<Rightarrow> nat" where
  "delivery_count status db = length (filter (\<lambda>d. wd_status d = status) (webhook_delivery db))"

definition delivery_status_counts :: "pg_env \<Rightarrow> odal \<Rightarrow> (dpp_error + WebhookCounts) \<times> odal" where
  "delivery_status_counts env db =
     (case fault_at env (tick db) of
        Some e \<Rightarrow> (Inl (db_err env e), bump db)
      | None \<Rightarrow> (Inr \<lparr>whc_pending = delivery_count ''pending'' db, whc_delivered = delivery_count ''delivered'' db,
                       whc_exhausted = delivery_count ''exhausted'' db\<rparr>, bump db))"

subsection \<open>The drain\<close>

record http_request =
  rq_url :: string
  rq_headers :: "(string \<times> string) list"
  rq_body :: string

record webhook_port =
  net :: net_libs
  send_answer :: "nat \<Rightarrow> http_client \<Rightarrow> http_request \<Rightarrow> string + nat"
  fmt_http_status :: "nat \<Rightarrow> string"
  unix_seconds :: "nat \<Rightarrow> int"
  hmac_hex :: "string \<Rightarrow> string \<Rightarrow> string"
  random_token :: "nat \<Rightarrow> string"
  test_event_body :: "nat \<Rightarrow> uuid \<Rightarrow> string + string"

definition MAX_ATTEMPTS :: nat where
  "MAX_ATTEMPTS = 8"

record WebhookDrainStats =
  wds_delivered :: nat
  wds_retried :: nat
  wds_exhausted :: nat

definition webhook_stats_default :: WebhookDrainStats where
  "webhook_stats_default = \<lparr>wds_delivered = 0, wds_retried = 0, wds_exhausted = 0\<rparr>"

definition signature_header :: "webhook_port \<Rightarrow> string \<Rightarrow> int \<Rightarrow> string \<Rightarrow> string" where
  "signature_header port secret timestamp body =
     ''t='' @ show_int timestamp @ '',v1='' @ hmac_hex port secret (show_int timestamp @ ''.'' @ body)"

definition client_for_target :: "webhook_port \<Rightarrow> nat \<Rightarrow> string \<Rightarrow> bool \<Rightarrow> string + http_client" where
  "client_for_target port n url allow_private =
     (if allow_private then Inr SharedClient
      else case pinned_client_for (net port) n SharedClient url of
             Inl e \<Rightarrow> Inl (show_fetch_error e)
           | Inr c \<Rightarrow> Inr c)"

definition webhook_back_off_or_exhaust ::
  "pg_env \<Rightarrow> uuid \<Rightarrow> nat \<Rightarrow> string \<Rightarrow> WebhookDrainStats \<times> odal \<Rightarrow> WebhookDrainStats \<times> odal" where
  "webhook_back_off_or_exhaust env ident attempts reason st =
     (case st of (stats, db) \<Rightarrow>
        if MAX_ATTEMPTS \<le> attempts + 1
        then (stats\<lparr>wds_exhausted := wds_exhausted stats + 1\<rparr>,
              snd (delivery_mark_exhausted env ident (''max attempts reached: '' @ reason) db))
        else (stats\<lparr>wds_retried := wds_retried stats + 1\<rparr>,
              snd (delivery_mark_attempt_failed env ident reason db)))"

definition delivery_request :: "pg_env \<Rightarrow> webhook_port \<Rightarrow> nat \<Rightarrow> WebhookDeliveryRow \<Rightarrow> http_request" where
  "delivery_request env port n row =
     \<lparr>rq_url = del_url row,
      rq_headers = [(''Content-Type'', ''application/json''),
        (''X-Odal-Signature'', signature_header port (del_secret row) (unix_seconds port n) (del_body row)),
        (''X-Odal-Delivery'', fmt_uuid env (del_delivery_id row)),
        (''X-Odal-Event'', del_event_type row)],
      rq_body = del_body row\<rparr>"

definition webhook_drain_row ::
  "pg_env \<Rightarrow> webhook_port \<Rightarrow> bool \<Rightarrow> WebhookDeliveryRow \<Rightarrow> WebhookDrainStats \<times> odal \<Rightarrow> WebhookDrainStats \<times> odal" where
  "webhook_drain_row env port allow_private row st =
     (case st of (stats, db) \<Rightarrow>
        (case client_for_target port (tick db) (del_url row) allow_private of
           Inl reason \<Rightarrow>
             (stats\<lparr>wds_exhausted := wds_exhausted stats + 1\<rparr>,
              snd (delivery_mark_exhausted env (del_delivery_id row) (''blocked target: '' @ reason) db))
         | Inr client \<Rightarrow>
             (case send_answer port (tick db) client (delivery_request env port (tick db) row) of
                Inr status \<Rightarrow>
                  if 200 \<le> status \<and> status < 300
                  then (stats\<lparr>wds_delivered := wds_delivered stats + 1\<rparr>,
                        snd (delivery_mark_delivered env (del_delivery_id row) db))
                  else webhook_back_off_or_exhaust env (del_delivery_id row) (del_attempts row)
                         (''receiver returned '' @ fmt_http_status port status) st
              | Inl e \<Rightarrow>
                  webhook_back_off_or_exhaust env (del_delivery_id row) (del_attempts row) e st)))"

definition webhook_drain_once ::
  "pg_env \<Rightarrow> webhook_port \<Rightarrow> nat \<Rightarrow> bool \<Rightarrow> odal \<Rightarrow> WebhookDrainStats \<times> odal" where
  "webhook_drain_once env port batch allow_private db =
     (case webhook_due env batch db of
        (Inl _, db') \<Rightarrow> (webhook_stats_default, db')
      | (Inr due, db') \<Rightarrow> fold (webhook_drain_row env port allow_private) due (webhook_stats_default, db'))"

subsection \<open>The subscription service\<close>

definition SECRET_PREFIX :: string where
  "SECRET_PREFIX = ''whsec_''"

definition WEBHOOK_TEST_EVENT :: string where
  "WEBHOOK_TEST_EVENT = ''dpp.webhook.test''"

record CreatedWebhook =
  created_subscription :: WebhookSubscription
  created_secret :: string

definition generate_secret :: "webhook_port \<Rightarrow> nat \<Rightarrow> string" where
  "generate_secret port n = SECRET_PREFIX @ random_token port n"

definition webhook_list :: "pg_env \<Rightarrow> odal \<Rightarrow> (dpp_error + WebhookSubscription list) \<times> odal" where
  "webhook_list env db = subscription_list env db"

definition webhook_create ::
  "pg_env \<Rightarrow> webhook_port \<Rightarrow> bool \<Rightarrow> CreateWebhookRequest \<Rightarrow> odal \<Rightarrow> (dpp_error + CreatedWebhook) \<times> odal" where
  "webhook_create env port allow_private input db =
     (case validate_webhook_url (net port) (cw_url input) allow_private of
        Inl m \<Rightarrow> (Inl (Validation m), db)
      | Inr normalised \<Rightarrow>
          (let input = input\<lparr>cw_url := normalised\<rparr> in
           if cw_events input = [] \<or> list_all (\<lambda>e. str_trim e = []) (cw_events input)
           then (Inl (Validation ''at least one event filter is required (use \"*\" for all events)''), db)
           else
             (let secret = generate_secret port (tick db) in
              case subscription_create env input secret db of
                (Inl e, db') \<Rightarrow> (Inl e, db')
              | (Inr sub, db') \<Rightarrow> (Inr \<lparr>created_subscription = sub, created_secret = secret\<rparr>, db'))))"

definition webhook_deactivate :: "pg_env \<Rightarrow> uuid \<Rightarrow> odal \<Rightarrow> (dpp_error + unit) \<times> odal" where
  "webhook_deactivate env ident db =
     (case subscription_get env ident db of
        (Inl e, db') \<Rightarrow> (Inl e, db')
      | (Inr None, db') \<Rightarrow> (Inl (NotFound (fmt_uuid env ident)), db')
      | (Inr (Some _), db') \<Rightarrow>
          (case subscription_deactivate env ident db' of
             (Inl e, db'') \<Rightarrow> (Inl e, db'')
           | (Inr _, db'') \<Rightarrow> (Inr (), db'')))"

definition webhook_test :: "pg_env \<Rightarrow> webhook_port \<Rightarrow> uuid \<Rightarrow> odal \<Rightarrow> (dpp_error + unit) \<times> odal" where
  "webhook_test env port ident db =
     (case subscription_get env ident db of
        (Inl e, db') \<Rightarrow> (Inl e, db')
      | (Inr None, db') \<Rightarrow> (Inl (NotFound (fmt_uuid env ident)), db')
      | (Inr (Some sub), db') \<Rightarrow>
          (case test_event_body port (tick db') (sub_id sub) of
             Inl e \<Rightarrow> (Inl (Serialisation e), db')
           | Inr body \<Rightarrow>
               (case webhook_enqueue_for env (sub_id sub) WEBHOOK_TEST_EVENT body db' of
                  (Inl e, db'') \<Rightarrow> (Inl e, db'')
                | (Inr _, db'') \<Rightarrow> (Inr (), db''))))"

subsection \<open>A pass as a sequence of outbox statements\<close>

lemmas delivery_row_defs = delivered_row_def delivery_failed_row_def exhausted_row_def

lemma delivery_row_keys [simp]:
  "wd_id (delivered_row now rnd d) = wd_id d"
  "wd_id (delivery_failed_row message now rnd d) = wd_id d"
  "wd_id (exhausted_row message now rnd d) = wd_id d"
  by (simp_all add: delivery_row_defs)

lemmas delivery_mark_defs = delivery_mark_delivered_def delivery_mark_attempt_failed_def delivery_mark_exhausted_def

inductive delivery_step :: "pg_env \<Rightarrow> uuid \<Rightarrow> odal \<Rightarrow> odal \<Rightarrow> bool" for env where
  delivery_delivered: "delivery_step env ident db (snd (delivery_mark_delivered env ident db))"
| delivery_failed: "delivery_step env ident db (snd (delivery_mark_attempt_failed env ident message db))"
| delivery_exhausted: "delivery_step env ident db (snd (delivery_mark_exhausted env ident message db))"

interpretation delivery_ob: outbox webhook_delivery wd_id "delivery_step env" for env
proof unfold_locales
  fix k s t k'
  assume st: "delivery_step env k s t"
  show "map wd_id (webhook_delivery t) = map wd_id (webhook_delivery s)"
    using st by cases (simp_all add: delivery_mark_defs delivery_t.exec_mark_snd delivery_t.exec_update_keys)
  show "row_at wd_id k' (webhook_delivery t) = row_at wd_id k' (webhook_delivery s)" if "k' \<noteq> k"
    using st that by cases (simp_all add: delivery_mark_defs delivery_t.exec_mark_snd delivery_t.exec_update_frame)
qed

lemma delivery_step_only: "delivery_step env k s t \<Longrightarrow> \<exists>rs. t = bump (s\<lparr>webhook_delivery := rs\<rparr>)"
  by (induction rule: delivery_step.induct)
    (simp only: delivery_mark_defs delivery_t.exec_mark_snd; rule delivery_t.exec_update_only)+

lemma webhook_drain_row_step:
  "delivery_step env (del_delivery_id row) (snd st) (snd (webhook_drain_row env port allow_private row st))"
  by (auto simp: webhook_drain_row_def webhook_back_off_or_exhaust_def intro: delivery_step.intros
      split: prod.splits sum.splits)

lemma delivery_runs_other_tables:
  "runs (delivery_step env) K s t \<Longrightarrow> \<exists>rs n. t = s\<lparr>webhook_delivery := rs, tick := n\<rparr> \<and> tick s \<le> n"
proof (induction rule: runs.induct)
  case (runs_refl s)
  have "s = s\<lparr>webhook_delivery := webhook_delivery s, tick := tick s\<rparr>" by simp
  then show ?case by blast
next
  case (runs_step k s t u)
  from delivery_step_only [OF runs_step(1)] runs_step(4)
  obtain rs n where "u = s\<lparr>webhook_delivery := rs, tick := n\<rparr>" "tick s \<le> n" by (auto simp: bump_def)
  then show ?case by blast
qed

text \<open>
  One attempt at a delivery: it is delivered, it is given up (its target is blocked, or
  this was the last attempt), or it is backed off below the cap; in each case the
  attempts go up by one and everything but the outcome columns stays.
\<close>

definition delivery_attempted :: "time \<Rightarrow> webhook_delivery_rec \<Rightarrow> webhook_delivery_rec \<Rightarrow> bool" where
  "delivery_attempted now d d' \<longleftrightarrow>
     wd_id d' = wd_id d \<and> wd_subscription_id d' = wd_subscription_id d \<and> wd_event_type d' = wd_event_type d \<and>
     wd_body d' = wd_body d \<and> wd_attempts d' = wd_attempts d + 1 \<and>
     (wd_status d' = ''delivered'' \<and> wd_delivered_at d' \<noteq> None \<or> wd_status d' = ''exhausted'' \<or>
      wd_status d' = wd_status d \<and> wd_attempts d' < MAX_ATTEMPTS \<and> wd_delivered_at d' = wd_delivered_at d \<and>
      now < wd_next_attempt_at d')"

lemma attempted_rows:
  "delivery_attempted now d (delivered_row now rnd d)"
  "delivery_attempted now d (exhausted_row message now rnd d)"
  "wd_attempts d + 1 < MAX_ATTEMPTS \<Longrightarrow> 0 \<le> rnd \<Longrightarrow> delivery_attempted now d (delivery_failed_row message now rnd d)"
  by (auto simp: delivery_attempted_def delivery_row_defs backoff_positive)

text \<open>The statement a row's handling issues, as one update of the row.\<close>

lemma webhook_drain_row_update:
  assumes "0 \<le> random_at env (tick db)" and "del_attempts row = wd_attempts d"
  shows "\<exists>ok f. snd (webhook_drain_row env port allow_private row (stats, db)) =
       snd (exec_update webhook_delivery webhook_delivery_update wd_id env (del_delivery_id row) (\<lambda>_ _. True) ok f db) \<and>
     (\<forall>now rnd d. wd_id (f now rnd d) = wd_id d) \<and> ok d \<and>
     delivery_attempted (now_at env (tick db)) d (f (now_at env (tick db)) (random_at env (tick db)) d)"
proof -
  let ?now = "now_at env (tick db)" and ?rnd = "random_at env (tick db)" and ?id = "del_delivery_id row"
  have retry: "\<exists>ok f. snd (webhook_back_off_or_exhaust env ?id (del_attempts row) reason (stats, db)) =
       snd (exec_update webhook_delivery webhook_delivery_update wd_id env ?id (\<lambda>_ _. True) ok f db) \<and>
     (\<forall>now rnd d. wd_id (f now rnd d) = wd_id d) \<and> ok d \<and> delivery_attempted ?now d (f ?now ?rnd d)" for reason
  proof (cases "MAX_ATTEMPTS \<le> wd_attempts d + 1")
    case True
    then show ?thesis
      using attempted_rows(2) [of ?now d "''max attempts reached: '' @ reason" ?rnd] assms(2)
      by (auto simp: webhook_back_off_or_exhaust_def delivery_mark_defs delivery_t.exec_mark_snd
          intro!: exI [of _ "\<lambda>_. True"] exI [of _ "exhausted_row (''max attempts reached: '' @ reason)"])
  next
    case False
    then have "backoff_ok (wd_attempts d)" by (simp add: backoff_ok_def MAX_ATTEMPTS_def)
    then show ?thesis
      using attempted_rows(3) [of d ?rnd ?now reason] assms False
      by (auto simp: webhook_back_off_or_exhaust_def delivery_mark_defs delivery_t.exec_mark_snd
          intro!: exI [of _ "\<lambda>d. backoff_ok (wd_attempts d)"] exI [of _ "delivery_failed_row reason"])
  qed
  have blocked: "\<exists>ok f. snd (delivery_mark_exhausted env ?id message db) =
       snd (exec_update webhook_delivery webhook_delivery_update wd_id env ?id (\<lambda>_ _. True) ok f db) \<and>
     (\<forall>now rnd d. wd_id (f now rnd d) = wd_id d) \<and> ok d \<and> delivery_attempted ?now d (f ?now ?rnd d)" for message
    using attempted_rows(2) [of ?now d message ?rnd]
    by (auto simp: delivery_mark_defs delivery_t.exec_mark_snd
        intro!: exI [of _ "\<lambda>_. True"] exI [of _ "exhausted_row message"])
  have delivered: "\<exists>ok f. snd (delivery_mark_delivered env ?id db) =
       snd (exec_update webhook_delivery webhook_delivery_update wd_id env ?id (\<lambda>_ _. True) ok f db) \<and>
     (\<forall>now rnd d. wd_id (f now rnd d) = wd_id d) \<and> ok d \<and> delivery_attempted ?now d (f ?now ?rnd d)"
    using attempted_rows(1) [of ?now d ?rnd]
    by (auto simp: delivery_mark_defs delivery_t.exec_mark_snd
        intro!: exI [of _ "\<lambda>_. True"] exI [of _ delivered_row])
  show ?thesis
    using retry blocked delivered unfolding webhook_drain_row_def by (simp split: sum.splits)
qed

subsection \<open>What a pass fetches\<close>

lemma webhook_due_db: "snd (webhook_due env limit db) = bump db"
  by (auto simp: webhook_due_def exec_select_def split: prod.splits sum.splits)

lemma to_delivery_row_SomeD:
  "to_delivery_row subs d = Some row \<Longrightarrow> del_delivery_id row = wd_id d \<and> del_attempts row = wd_attempts d \<and>
     (\<exists>s. row_at ws_id (wd_subscription_id d) subs = Some s \<and> del_url row = ws_url s)"
  by (auto simp: to_delivery_row_def)

lemma webhook_due_rows:
  assumes "webhook_due env limit db = (Inr rows, db')"
  shows "\<And>row. row \<in> set rows \<Longrightarrow> \<exists>d \<in> set (webhook_delivery db).
      to_delivery_row (webhook_subscription db) d = Some row \<and> wd_status d = ''pending'' \<and>
      wd_next_attempt_at d \<le> now_at env (tick db)"
    and "keys_ok db \<Longrightarrow> distinct (map del_delivery_id rows)"
proof -
  let ?row = "to_delivery_row (webhook_subscription db)"
  from assms obtain ds where
    ds: "exec_select webhook_delivery env
        (\<lambda>now d. wd_status d = ''pending'' \<and> wd_next_attempt_at d \<le> now \<and> ?row d \<noteq> None)
        wd_next_attempt_at limit db = (Inr ds, db')" and rows: "rows = List.map_filter ?row ds"
    by (auto simp: webhook_due_def split: prod.splits sum.splits)
  show "\<exists>d \<in> set (webhook_delivery db). ?row d = Some row \<and> wd_status d = ''pending'' \<and>
      wd_next_attempt_at d \<le> now_at env (tick db)" if "row \<in> set rows" for row
    using exec_select_InrD(2) [OF ds] that unfolding rows by (auto simp: map_filter_def)
  have join: "map del_delivery_id (List.map_filter ?row xs) = map wd_id xs"
    if "\<forall>d \<in> set xs. ?row d \<noteq> None" for xs
    using that
  proof (induction xs)
    case (Cons x xs)
    then show ?case by (auto simp: map_filter_simps dest: to_delivery_row_SomeD split: option.splits)
  qed (simp add: map_filter_simps)
  have "\<forall>d \<in> set ds. ?row d \<noteq> None" using exec_select_InrD(2) [OF ds] by auto
  note join = join [OF this]
  show "distinct (map del_delivery_id rows)" if "keys_ok db"
    using exec_select_InrD(5) [OF ds, of wd_id] that unfolding rows join by (simp add: keys_ok_def)
qed

definition webhook_due_keys :: "pg_env \<Rightarrow> odal \<Rightarrow> uuid set" where
  "webhook_due_keys env db = wd_id ` {d \<in> set (webhook_delivery db).
     wd_status d = ''pending'' \<and> wd_next_attempt_at d \<le> now_at env (tick db)}"

lemma webhook_rows_runs:
  "runs (delivery_step env) (del_delivery_id ` set rows) (snd st)
     (snd (fold (webhook_drain_row env port allow_private) rows st))"
proof (rule runs_fold [where proj = snd])
  fix row st
  show "runs (delivery_step env) {del_delivery_id row} (snd st) (snd (webhook_drain_row env port allow_private row st))"
    using webhook_drain_row_step [of env row st port allow_private] by (rule runs_single) simp
qed

lemma webhook_drain_runs:
  "runs (delivery_step env) (webhook_due_keys env db) (bump db) (snd (webhook_drain_once env port batch allow_private db))"
proof -
  obtain res where d: "webhook_due env batch db = (res, bump db)"
    using webhook_due_db [of env batch db] by (metis prod.collapse)
  show ?thesis
  proof (cases res)
    case (Inr rows)
    have "del_delivery_id ` set rows \<subseteq> webhook_due_keys env db"
      using webhook_due_rows(1) [OF d [unfolded Inr]] unfolding webhook_due_keys_def
      by (fastforce dest!: to_delivery_row_SomeD)
    with webhook_rows_runs [of env rows "(webhook_stats_default, bump db)" port allow_private]
    show ?thesis by (auto simp: webhook_drain_once_def d Inr intro: runs_mono)
  qed (simp add: webhook_drain_once_def d)
qed

text \<open>What a pass does to one fetched row: nothing when its statement failed, else one attempt.\<close>

definition delivery_outcome :: "pg_env \<Rightarrow> nat \<Rightarrow> webhook_delivery_rec \<Rightarrow> webhook_delivery_rec \<Rightarrow> bool" where
  "delivery_outcome env n0 d d' \<longleftrightarrow>
     (d' = d \<and> \<not> fault_free env) \<or> (\<exists>n. delivery_attempted (now_at env n) d d' \<and> n0 \<le> n)"

lemma webhook_drain_row_outcome:
  assumes "random_ok env" and "distinct (map wd_id (webhook_delivery (snd st)))"
    and "row_at wd_id (del_delivery_id row) (webhook_delivery (snd st)) = Some d"
    and "del_attempts row = wd_attempts d" and "n0 \<le> tick (snd st)"
  shows "opt_holds (delivery_outcome env n0 d) (row_at wd_id (del_delivery_id row)
    (webhook_delivery (snd (webhook_drain_row env port allow_private row st))))"
proof -
  let ?id = "del_delivery_id row"
  obtain stats db0 where st: "st = (stats, db0)" by fastforce
  have rnd: "0 \<le> random_at env (tick db0)" using assms(1) by (simp add: random_ok_def)
  from webhook_drain_row_update [OF rnd assms(4), of port allow_private stats] obtain ok f where
    u: "snd (webhook_drain_row env port allow_private row (stats, db0)) =
       snd (exec_update webhook_delivery webhook_delivery_update wd_id env ?id (\<lambda>_ _. True) ok f db0)"
    and f: "\<And>now rnd d. wd_id (f now rnd d) = wd_id d" and ok: "ok d"
    and a: "delivery_attempted (now_at env (tick db0)) d (f (now_at env (tick db0)) (random_at env (tick db0)) d)"
    by blast
  have r0: "row_at wd_id ?id (webhook_delivery db0) = Some d" using assms(3) by (simp add: st)
  have id: "wd_id d = ?id" using r0 by (blast dest: row_at_SomeD)
  have a': "\<exists>n. delivery_attempted (now_at env n) d (f (now_at env (tick db0)) (random_at env (tick db0)) d) \<and> n0 \<le> n"
    using a assms(5) by (auto simp: st)
  show ?thesis
  proof (cases "fault_free env")
    case True
    have "distinct (map wd_id (webhook_delivery db0))" using assms(2) by (simp add: st)
    note hit = delivery_t.exec_update_hit [of env db0 ?id d "\<lambda>_ _. True" ok f, OF _ this r0 TrueI ok]
    have "row_at wd_id ?id (webhook_delivery (snd (exec_update webhook_delivery webhook_delivery_update wd_id env
        ?id (\<lambda>_ _. True) ok f db0))) = Some (f (now_at env (tick db0)) (random_at env (tick db0)) d)"
      using True hit r0 id by (simp add: fault_free_def table_simps f)
    with a' u show ?thesis by (auto simp: st delivery_outcome_def)
  next
    case False
    from delivery_t.exec_update_row_at [of f ?id env ?id "\<lambda>_ _. True" ok db0, OF f] r0 id
    show ?thesis using u a' False by (auto simp: st delivery_outcome_def)
  qed
qed

lemma webhook_drain_fetched:
  assumes "random_ok env" and "keys_ok db" and "webhook_due env batch db = (Inr rows, db1)"
    and "row \<in> set rows" and "row_at wd_id (del_delivery_id row) (webhook_delivery db) = Some d"
    and "del_attempts row = wd_attempts d"
    and "webhook_drain_once env port batch allow_private db = (stats, db')"
  shows "opt_holds (delivery_outcome env (tick db) d) (row_at wd_id (del_delivery_id row) (webhook_delivery db'))"
proof -
  let ?id = "del_delivery_id row" and ?f = "webhook_drain_row env port allow_private"
  have db1: "db1 = bump db" using webhook_due_db [of env batch db] assms(3) by simp
  obtain us vs where rows: "rows = us @ row # vs" using assms(4) by (blast dest: split_list)
  let ?st = "fold ?f us (webhook_stats_default, bump db)"
  have db': "db' = snd (fold ?f vs (?f row ?st))"
    using assms(3,7) by (simp add: webhook_drain_once_def db1 rows)
  note before = webhook_rows_runs [of env us "(webhook_stats_default, bump db)" port allow_private]
    and after = webhook_rows_runs [of env vs "?f row ?st" port allow_private]
  have out: "?id \<notin> del_delivery_id ` set us" "?id \<notin> del_delivery_id ` set vs"
    using webhook_due_rows(2) [OF assms(3,2)] rows by auto
  have "distinct (map wd_id (webhook_delivery (snd ?st)))"
    using delivery_ob.runs_distinct [OF before] assms(2) by (simp add: keys_ok_def)
  moreover have "row_at wd_id ?id (webhook_delivery (snd ?st)) = Some d"
    using delivery_ob.runs_frame [OF before out(1)] assms(5) by simp
  moreover have "tick db \<le> tick (snd ?st)" using delivery_runs_other_tables [OF before] by auto
  ultimately have "opt_holds (delivery_outcome env (tick db) d) (row_at wd_id ?id (webhook_delivery (snd (?f row ?st))))"
    using assms(1,6) by (intro webhook_drain_row_outcome)
  then show ?thesis using delivery_ob.runs_frame [OF after out(2)] by (simp add: db')
qed

lemma webhook_drain_row_cases:
  assumes "random_ok env" and "keys_ok db" and "row_at wd_id ident (webhook_delivery db) = Some d"
    and "webhook_drain_once env port batch allow_private db = (stats, db')"
  shows "opt_holds (\<lambda>d'. d' = d \<or> (wd_status d = ''pending'' \<and> wd_next_attempt_at d \<le> now_at env (tick db) \<and>
      (\<exists>n. delivery_attempted (now_at env n) d d'))) (row_at wd_id ident (webhook_delivery db'))"
proof -
  obtain res where due: "webhook_due env batch db = (res, bump db)"
    using webhook_due_db [of env batch db] by (metis prod.collapse)
  have unique: "d0 = d" if "d0 \<in> set (webhook_delivery db)" "wd_id d0 = ident" for d0
    using row_at_in_set [of wd_id "webhook_delivery db" d0] that assms(2,3) by (simp add: keys_ok_def)
  show ?thesis
  proof (cases "\<exists>rows row. res = Inr rows \<and> row \<in> set rows \<and> del_delivery_id row = ident")
    case True
    then obtain rows row where res: "res = Inr rows" and row: "row \<in> set rows" "del_delivery_id row = ident" by blast
    from webhook_due_rows(1) [OF due [unfolded res] row(1)] obtain d0 where
      d0: "d0 \<in> set (webhook_delivery db)" "to_delivery_row (webhook_subscription db) d0 = Some row"
        "wd_status d0 = ''pending''" "wd_next_attempt_at d0 \<le> now_at env (tick db)" by blast
    have "d0 = d" using unique [OF d0(1)] to_delivery_row_SomeD [OF d0(2)] row(2) by simp
    with d0 have att: "del_attempts row = wd_attempts d" using to_delivery_row_SomeD by blast
    have r: "row_at wd_id (del_delivery_id row) (webhook_delivery db) = Some d" using assms(3) row(2) by simp
    from webhook_drain_fetched [OF assms(1,2) due [unfolded res] row(1) r att assms(4)] show ?thesis
      using d0 \<open>d0 = d\<close> row(2) by (auto simp: opt_holds_def delivery_outcome_def split: option.splits)
  next
    case False
    have "row_at wd_id ident (webhook_delivery db') = Some d"
    proof (cases res)
      case (Inr rows)
      with False have "ident \<notin> del_delivery_id ` set rows" by auto
      from delivery_ob.runs_frame [OF webhook_rows_runs this, where st1 = "(webhook_stats_default, bump db)"] assms(3,4) due Inr
      show ?thesis by (simp add: webhook_drain_once_def) (metis snd_conv bump_simps(5))
    qed (use assms(3,4) due in \<open>simp add: webhook_drain_once_def; metis bump_simps(5)\<close>)
    then show ?thesis by simp
  qed
qed

text \<open>
  What every delivery keeps: a known status, at most \<open>MAX_ATTEMPTS\<close> attempts, fewer while
  it is pending, and the time of delivery once it is delivered.
\<close>

definition delivery_ok :: "webhook_delivery_rec \<Rightarrow> bool" where
  "delivery_ok d \<longleftrightarrow>
     wd_status d \<in> {''pending'', ''delivered'', ''exhausted''} \<and> wd_attempts d \<le> MAX_ATTEMPTS \<and>
     (wd_status d = ''pending'' \<longrightarrow> wd_attempts d < MAX_ATTEMPTS) \<and>
     (wd_status d = ''delivered'' \<longrightarrow> wd_delivered_at d \<noteq> None)"

lemma delivery_attempted_ok:
  "delivery_attempted now d d' \<Longrightarrow> delivery_ok d \<Longrightarrow> wd_status d = ''pending'' \<Longrightarrow> delivery_ok d'"
  by (auto simp: delivery_attempted_def delivery_ok_def)

subsection \<open>Properties\<close>

text \<open>
  Whatever a receiver answers and whichever statements fail, a
  pass changes only deliveries that are pending and due, each by at most one attempt that
  leaves its subscription, event and body as they were, and it keeps every delivery
  within the cap of eight attempts: no delivery is lost, sent for ever, or taken back
  from a terminal state.
\<close>

theorem webhook_drain_safe:
  assumes "random_ok env" and "keys_ok db"
    and "webhook_drain_once env port batch allow_private db = (stats, db')"
  shows "(\<exists>rs n. db' = db\<lparr>webhook_delivery := rs, tick := n\<rparr>) \<and>
    map wd_id (webhook_delivery db') = map wd_id (webhook_delivery db) \<and>
    (\<forall>ident d. row_at wd_id ident (webhook_delivery db) = Some d \<longrightarrow>
       opt_holds (\<lambda>d'. d' = d \<or> (wd_status d = ''pending'' \<and> wd_next_attempt_at d \<le> now_at env (tick db) \<and>
         (\<exists>n. delivery_attempted (now_at env n) d d'))) (row_at wd_id ident (webhook_delivery db'))) \<and>
    (list_all delivery_ok (webhook_delivery db) \<longrightarrow> list_all delivery_ok (webhook_delivery db'))"
proof -
  have run: "runs (delivery_step env) (webhook_due_keys env db) (bump db) db'"
    using webhook_drain_runs [of env db port batch allow_private] assms(3) by simp
  from delivery_runs_other_tables [OF run] obtain rs n where "db' = (bump db)\<lparr>webhook_delivery := rs, tick := n\<rparr>" by blast
  then have others: "\<exists>rs n. db' = db\<lparr>webhook_delivery := rs, tick := n\<rparr>" by (auto simp: bump_def)
  have keys: "map wd_id (webhook_delivery db') = map wd_id (webhook_delivery db)"
    using delivery_ob.runs_keys [OF run] by simp
  have "delivery_ok d'" if all: "list_all delivery_ok (webhook_delivery db)" and d': "d' \<in> set (webhook_delivery db')" for d'
  proof -
    have at': "row_at wd_id (wd_id d') (webhook_delivery db') = Some d'"
      using d' keys assms(2) by (intro row_at_in_set) (simp_all add: keys_ok_def)
    then obtain d where d: "row_at wd_id (wd_id d') (webhook_delivery db) = Some d"
      by (metis keys row_at_None not_None_eq option.distinct(1))
    have "delivery_ok d" using row_at_SomeD [OF d] all by (auto simp: list_all_iff)
    with webhook_drain_row_cases [OF assms(1,2) d assms(3)] at' show ?thesis
      by (auto intro: delivery_attempted_ok)
  qed
  then show ?thesis
    using others keys webhook_drain_row_cases [OF assms(1,2) _ assms(3)] by (simp add: list_all_iff)
qed

text \<open>A receiver that answers 503, and a queue with one subscription and one delivery on its last attempt.\<close>

definition sample_webhook_port :: webhook_port where
  "sample_webhook_port = \<lparr>net = sample_libs_net,
     send_answer = (\<lambda>n c rq. Inr 503), fmt_http_status = show_nat, unix_seconds = int,
     hmac_hex = (\<lambda>k m. ''00''), random_token = (\<lambda>n. ''token''),
     test_event_body = (\<lambda>n u. Inr ''body'')\<rparr>"

definition sample_sub :: webhook_subscription_rec where
  "sample_sub = \<lparr>ws_id = 4, ws_url = ''https://r.example'', ws_secret = ''whsec_x'', ws_events = [''*''],
     ws_active = True, ws_description = None, ws_created_at = 0, ws_updated_at = 0\<rparr>"

definition sample_webhook_db :: odal where
  "sample_webhook_db = empty_db\<lparr>webhook_subscription := [sample_sub],
     webhook_delivery := [(new_delivery 0 41 4 ''e'' ''b'')\<lparr>wd_attempts := 7\<rparr>]\<rparr>"

lemma sample_webhook_simps:
  "tick sample_webhook_db = 0" "webhook_subscription sample_webhook_db = [sample_sub]"
  "webhook_delivery sample_webhook_db = [(new_delivery 0 41 4 ''e'' ''b'')\<lparr>wd_attempts := 7\<rparr>]"
  by (simp_all add: sample_webhook_db_def empty_db_def)

lemma sample_webhook_keys: "keys_ok sample_webhook_db"
  by (simp add: sample_webhook_db_def keys_ok_def empty_db_def)

theorem webhook_drain_safe_witness:
  "list_all delivery_ok (webhook_delivery (snd (webhook_drain_once sample_env sample_webhook_port 10 False sample_webhook_db)))"
proof -
  obtain stats db' where d: "webhook_drain_once sample_env sample_webhook_port 10 False sample_webhook_db = (stats, db')"
    by fastforce
  have "list_all delivery_ok (webhook_delivery sample_webhook_db)"
    by (simp add: sample_webhook_simps new_delivery_def delivery_ok_def MAX_ATTEMPTS_def)
  with webhook_drain_safe [OF sample_env_ok(2) sample_webhook_keys d] show ?thesis by (simp add: d)
qed

text \<open>
  With no database fault, every delivery a pass fetched takes an
  attempt: it is delivered, exhausted, or backed off with one attempt more and fewer than
  eight. A delivery is therefore settled after at most eight passes that fetch it.
\<close>

theorem webhook_drain_advances:
  assumes "fault_free env" and "random_ok env" and "keys_ok db"
    and "webhook_due env batch db = (Inr rows, db1)" and "row \<in> set rows"
    and "webhook_drain_once env port batch allow_private db = (stats, db')"
  shows "\<exists>d d' n. row_at wd_id (del_delivery_id row) (webhook_delivery db) = Some d \<and>
    row_at wd_id (del_delivery_id row) (webhook_delivery db') = Some d' \<and>
    delivery_attempted (now_at env n) d d' \<and> tick db \<le> n"
proof -
  from webhook_due_rows(1) [OF assms(4,5)] obtain d where
    d: "d \<in> set (webhook_delivery db)" "to_delivery_row (webhook_subscription db) d = Some row" by blast
  note row = to_delivery_row_SomeD [OF d(2)]
  have r: "row_at wd_id (del_delivery_id row) (webhook_delivery db) = Some d"
    using row_at_in_set [of wd_id "webhook_delivery db" d] d(1) assms(3) row by (simp add: keys_ok_def)
  from webhook_drain_fetched [OF assms(2-5) r _ assms(6)] row assms(1) r show ?thesis
    by (auto simp: opt_holds_def delivery_outcome_def split: option.splits)
qed

theorem webhook_drain_advances_witness:
  "\<exists>d'. row_at wd_id 41 (webhook_delivery (snd (webhook_drain_once sample_env sample_webhook_port 10 False sample_webhook_db)))
     = Some d' \<and> wd_attempts d' = 8 \<and> wd_status d' \<noteq> ''pending''"
proof -
  let ?d = "(new_delivery 0 41 4 ''e'' ''b'')\<lparr>wd_attempts := 7\<rparr>"
  let ?row = "\<lparr>del_delivery_id = 41, del_subscription_id = 4, del_url = ''https://r.example'', del_secret = ''whsec_x'',
    del_event_type = ''e'', del_body = ''b'', del_attempts = 7\<rparr>"
  obtain stats db' where d: "webhook_drain_once sample_env sample_webhook_port 10 False sample_webhook_db = (stats, db')"
    by fastforce
  have due: "webhook_due sample_env 10 sample_webhook_db = (Inr [?row], bump sample_webhook_db)"
    unfolding webhook_due_def exec_select_fault_free [OF sample_env_ok(1)]
    by (simp add: sample_webhook_simps new_delivery_def to_delivery_row_def sample_sub_def map_filter_def)
  from webhook_drain_advances [OF sample_env_ok sample_webhook_keys due _ d] show ?thesis
    by (auto simp: d sample_webhook_simps new_delivery_def delivery_attempted_def MAX_ATTEMPTS_def)
qed

text \<open>
  The fan-out of an event queues one delivery of exactly the
  given body for each active subscription whose filter names the event or is \<^verbatim>\<open>*\<close>, in the
  subscriptions' order, pending and due at once, and none for any other; it answers how
  many. Freshly generated identifiers are distinct from each other and from those in use.
\<close>

theorem fan_out_exact:
  assumes "fault_free env" and "keys_ok db"
    and "distinct (map wd_id (webhook_delivery db) @
           map (uuid_at env (tick db)) [0..<length (webhook_subscription db)])"
    and "fan_out env event_type body db = (res, db')"
  shows "\<exists>rows. webhook_delivery db' = webhook_delivery db @ rows \<and> res = Inr (length rows) \<and>
    map wd_subscription_id rows = map ws_id (filter (subscribed event_type) (webhook_subscription db)) \<and>
    list_all (\<lambda>d. wd_event_type d = event_type \<and> wd_body d = body \<and> wd_status d = ''pending'' \<and>
      wd_attempts d = 0 \<and> wd_next_attempt_at d = now_at env (tick db)) rows \<and> keys_ok db'"
proof -
  let ?subs = "filter (subscribed event_type) (webhook_subscription db)"
  let ?new = "\<lambda>(i, s). new_delivery (now_at env (tick db)) (uuid_at env (tick db) i) (ws_id s) event_type body"
  let ?rows = "map ?new (zip [0..<length ?subs] ?subs)"
  have ids: "map wd_id ?rows = map (uuid_at env (tick db)) [0..<length ?subs]"
    by (rule nth_equalityI) (auto simp: new_delivery_def)
  have subs: "map wd_subscription_id ?rows = map ws_id ?subs"
    by (rule nth_equalityI) (auto simp: new_delivery_def)
  have "distinct (map wd_id (webhook_delivery db @ ?rows))"
    unfolding map_append ids by (rule distinct_fresh_prefix [OF assms(3)]) simp
  moreover have "list_all (\<lambda>d. wd_event_type d = event_type \<and> wd_body d = body \<and> wd_status d = ''pending'' \<and>
      wd_attempts d = 0 \<and> wd_next_attempt_at d = now_at env (tick db)) ?rows"
    by (auto simp: list_all_iff new_delivery_def)
  ultimately obtain rows where rows: "rows = ?rows" "distinct (map wd_id (webhook_delivery db @ rows))"
    "map wd_subscription_id rows = map ws_id ?subs"
    "list_all (\<lambda>d. wd_event_type d = event_type \<and> wd_body d = body \<and> wd_status d = ''pending'' \<and>
      wd_attempts d = 0 \<and> wd_next_attempt_at d = now_at env (tick db)) rows"
    using subs by blast
  have "fan_out env event_type body db = (Inr (length rows), bump (db\<lparr>webhook_delivery := webhook_delivery db @ rows\<rparr>))"
    using assms(1) rows(2) unfolding fan_out_def insert_deliveries_def Let_def fault_free_def rows(1) [symmetric]
    by simp
  with assms(2,4) rows(2-4) show ?thesis
    by (intro exI [of _ rows]) (auto simp: keys_ok_def)
qed

theorem fan_out_exact_witness:
  "fst (fan_out sample_env ''dpp.passport.published'' ''body'' sample_webhook_db) = Inr 1"
proof -
  obtain res db' where f: "fan_out sample_env ''dpp.passport.published'' ''body'' sample_webhook_db = (res, db')" by fastforce
  have "distinct (map wd_id (webhook_delivery sample_webhook_db) @
      map (uuid_at sample_env (tick sample_webhook_db)) [0..<length (webhook_subscription sample_webhook_db)])"
    by (simp add: sample_webhook_simps new_delivery_def)
  from fan_out_exact [OF sample_env_ok(1) sample_webhook_keys this f] show ?thesis
    by (auto simp: f sample_webhook_simps sample_sub_def subscribed_def)
qed



text \<open>
  One failed name lookup ends a delivery. Where the receiver's URL names
  a host and the lookup fails when the delivery is handled, however briefly, the delivery is
  closed as exhausted at once, whatever attempts it has left: the guard does not tell a name
  that cannot be resolved from a target it refuses, and the drain never retries a refusal,
  while an unreachable receiver is tried eight times.
\<close>

theorem webhook_dns_failure_exhausts:
  assumes "fault_free env" and "keys_ok db"
    and "row_at wd_id (wd_id d) (webhook_delivery db) = Some d" and "wd_status d = ''pending''"
    and "to_delivery_row (webhook_subscription db) d = Some row"
    and "parse_url (net port) (del_url row) = Inr url" and "url_scheme url = ''https''"
    and "url_host url = Some (HostDomain host)" and "url_port_or_known_default url = Some p"
    and "lookup_host (net port) (tick db) host p = Inl e"
  shows "map_option wd_status (row_at wd_id (wd_id d)
      (webhook_delivery (snd (webhook_drain_row env port False row (stats, db))))) = Some ''exhausted''"
proof -
  have "client_for_target port (tick db) (del_url row) False =
      Inl (''target refused by the outbound guard: DNS resolution failed: '' @ e)"
    using assms(6-10) by (simp add: client_for_target_def pinned_client_for_def resolve_public_target_def)
  moreover have "del_delivery_id row = wd_id d"
    using assms(5) by (auto simp: to_delivery_row_def split: option.splits)
  moreover have "fault_at env (tick db) = None" using assms(1) by (simp add: fault_free_def)
  ultimately show ?thesis
    using assms(2-4)
    by (simp add: webhook_drain_row_def delivery_mark_exhausted_def
        delivery_t.exec_mark_hit(2) keys_ok_def exhausted_row_def)
qed

text \<open>A first attempt, to a receiver named by a host that does not resolve just now.\<close>

definition sample_unresolved_port :: webhook_port where
  "sample_unresolved_port = sample_webhook_port\<lparr>net := sample_libs_net\<lparr>parse_url :=
     \<lambda>s. Inr \<lparr>url_scheme = ''https'', url_host = Some (HostDomain ''r.example''),
       url_port_or_known_default = Some 443, url_text = s\<rparr>\<rparr>\<rparr>"

definition sample_first_db :: odal where
  "sample_first_db = empty_db\<lparr>webhook_subscription := [sample_sub],
     webhook_delivery := [new_delivery 0 41 4 ''e'' ''b'']\<rparr>"

definition sample_first_row :: WebhookDeliveryRow where
  "sample_first_row = \<lparr>del_delivery_id = 41, del_subscription_id = 4, del_url = ''https://r.example'',
     del_secret = ''whsec_x'', del_event_type = ''e'', del_body = ''b'', del_attempts = 0\<rparr>"

theorem webhook_dns_failure_exhausts_witness:
  "map_option wd_status (row_at wd_id 41 (webhook_delivery
     (snd (webhook_drain_row sample_env sample_unresolved_port False sample_first_row
       (webhook_stats_default, sample_first_db))))) = Some ''exhausted''"
  using webhook_dns_failure_exhausts [OF sample_env_ok(1), of sample_first_db "new_delivery 0 41 4 ''e'' ''b''"
      sample_first_row sample_unresolved_port
      "\<lparr>url_scheme = ''https'', url_host = Some (HostDomain ''r.example''),
        url_port_or_known_default = Some 443, url_text = ''https://r.example''\<rparr>"
      "''r.example''" 443 "''no such host''" webhook_stats_default]
  by (simp add: sample_first_db_def sample_first_row_def sample_unresolved_port_def empty_db_def keys_ok_def
      new_delivery_def to_delivery_row_def sample_sub_def sample_libs_net_def)

end
