(* ===== verification/Snapshot.thy ===== *)
theory Snapshot
  imports Webhook
begin

text \<open>
  The continuity tier: the types of \<^verbatim>\<open>dpp-types/src/snapshot.rs\<close>, the reconcile outbox of
  \<^verbatim>\<open>dpp-dal/src/pg/repo_snapshot.rs\<close>, the rule of \<^verbatim>\<open>dpp-vault/src/public_view.rs\<close> that says which
  passports are served, the object store of \<^verbatim>\<open>dpp-node/src/infra/s3_snapshot.rs\<close>, the drain
  \<^verbatim>\<open>dpp-node/src/infra/snapshot_drain.rs\<close> and the cadences of \<^verbatim>\<open>dpp-node/src/infra/drain.rs\<close>. The
  rendering of a passport's signed view and page, the reading of the stored document and
  the failures of the object store are fields of \<open>snapshot_port\<close>. The bucket is a map from
  keys to objects.
\<close>

subsection \<open>Cadences\<close>

definition DRAIN_INTERVAL :: time where "DRAIN_INTERVAL = 30"
definition SWEEP_INTERVAL :: time where "SWEEP_INTERVAL = 3600"
definition SNAPSHOT_VALIDITY :: time where "SNAPSHOT_VALIDITY = 7 * 24 * 3600"
definition SNAPSHOT_REFRESH_INTERVAL :: time where "SNAPSHOT_REFRESH_INTERVAL = 24 * 3600"
definition SNAPSHOT_REFRESH_SCAN_INTERVAL :: time where "SNAPSHOT_REFRESH_SCAN_INTERVAL = 900"

subsection \<open>Types\<close>

definition snapshot_json_key :: "string \<Rightarrow> string" where
  "snapshot_json_key dpp_id = dpp_id @ ''/public.json''"

definition snapshot_html_key :: "string \<Rightarrow> string" where
  "snapshot_html_key dpp_id = dpp_id @ ''/public.html''"

record SnapshotMeta =
  as_of :: time
  valid_until :: time
  max_age :: time

datatype SnapshotReconcileStatus = ReconcilePending | ReconcileReconciled | ReconcileExhausted

fun reconcile_as_db :: "SnapshotReconcileStatus \<Rightarrow> string" where
  "reconcile_as_db ReconcilePending = ''pending''"
| "reconcile_as_db ReconcileReconciled = ''reconciled''"
| "reconcile_as_db ReconcileExhausted = ''exhausted''"

definition reconcile_from_db :: "string \<Rightarrow> SnapshotReconcileStatus" where
  "reconcile_from_db s =
     (if s = ''reconciled'' then ReconcileReconciled
      else if s = ''exhausted'' then ReconcileExhausted
      else ReconcilePending)"

record SnapshotReconcileRow =
  sn_id :: uuid
  sn_passport_id :: uuid
  sn_attempts :: nat

record SnapshotOutboxCounts =
  soc_pending :: nat
  soc_reconciled :: nat
  soc_exhausted :: nat

subsection \<open>Which passports are served\<close>

text \<open>
  The statuses the rule names, and one for those it does not know. A passport is its
  status and the date of its first publish.
\<close>

datatype PassportStatus = Draft | Published | Suspended | Superseded | Retired | Deactivated | OtherStatus string

record Passport =
  p_status :: PassportStatus
  p_published_at :: "time option"

definition retired_draft :: "Passport \<Rightarrow> bool" where
  "retired_draft p \<longleftrightarrow> p_status p = Retired \<and> p_published_at p = None"

definition never_published :: "Passport \<Rightarrow> bool" where
  "never_published p \<longleftrightarrow> p_status p = Draft \<or> retired_draft p"

definition serves_publicly :: "Passport \<Rightarrow> bool" where
  "serves_publicly p =
     (case p_status p of
        Published \<Rightarrow> True
      | Deactivated \<Rightarrow> True
      | Superseded \<Rightarrow> True
      | Retired \<Rightarrow> \<not> never_published p
      | Suspended \<Rightarrow> False
      | Draft \<Rightarrow> False
      | OtherStatus _ \<Rightarrow> False)"

subsection \<open>The outbox\<close>

definition new_reconcile :: "time \<Rightarrow> uuid \<Rightarrow> uuid \<Rightarrow> snapshot_outbox_rec" where
  "new_reconcile now ident pid =
     \<lparr>so_id = ident, so_passport_id = pid, so_status = ''pending'', so_attempts = 0, so_next_attempt_at = now,
      so_last_attempt_at = None, so_message = None, so_reconciled_at = None, so_updated_at = now\<rparr>"

definition rearm_row :: "time \<Rightarrow> snapshot_outbox_rec \<Rightarrow> snapshot_outbox_rec" where
  "rearm_row now s = s\<lparr>so_status := ''pending'', so_attempts := 0, so_next_attempt_at := now,
     so_message := None, so_reconciled_at := None, so_updated_at := now\<rparr>"

definition snapshot_enqueue :: "pg_env \<Rightarrow> uuid \<Rightarrow> odal \<Rightarrow> (dpp_error + unit) \<times> odal" where
  "snapshot_enqueue env pid db =
     (let n = tick db; now = now_at env n
      in case fault_at env n of
           Some e \<Rightarrow> (Inl (db_err env e), bump db)
         | None \<Rightarrow>
             if pid \<in> so_passport_id ` set (snapshot_outbox db)
             then (Inr (), bump (db\<lparr>snapshot_outbox :=
                     upd_where (\<lambda>s. so_passport_id s = pid) (rearm_row now) (snapshot_outbox db)\<rparr>))
             else if pid \<notin> pp_id ` set (passport db) then (Inl (db_err env foreign_key_violation), bump db)
             else if uuid_at env n 0 \<in> so_id ` set (snapshot_outbox db) then (Inl (db_err env unique_violation), bump db)
             else (Inr (), bump (db\<lparr>snapshot_outbox :=
                     snapshot_outbox db @ [new_reconcile now (uuid_at env n 0) pid]\<rparr>)))"

text \<open>A passport that was public once and whose row is missing, exhausted, or older than the passport.\<close>

definition divergent :: "snapshot_outbox_rec list \<Rightarrow> passport_rec \<Rightarrow> bool" where
  "divergent ob p \<longleftrightarrow>
     pp_published_at p \<noteq> None \<and>
     (case row_at so_passport_id (pp_id p) ob of
        None \<Rightarrow> True
      | Some s \<Rightarrow> so_status s = ''exhausted'' \<or>
          (so_status s = ''reconciled'' \<and> opt_holds (\<lambda>t. t < pp_updated_at p) (so_reconciled_at s)))"

definition snapshot_enqueue_divergent :: "pg_env \<Rightarrow> nat \<Rightarrow> odal \<Rightarrow> (dpp_error + nat) \<times> odal" where
  "snapshot_enqueue_divergent env limit db =
     (let n = tick db; now = now_at env n;
          picked = map pp_id (take limit (sort_key pp_updated_at
                     (filter (divergent (snapshot_outbox db)) (passport db))));
          missing = filter (\<lambda>pid. pid \<notin> so_passport_id ` set (snapshot_outbox db)) picked;
          fresh = map (\<lambda>(i, pid). new_reconcile now (uuid_at env n i) pid) (zip [0..<length missing] missing)
      in case fault_at env n of
           Some e \<Rightarrow> (Inl (db_err env e), bump db)
         | None \<Rightarrow>
             if distinct (map so_id (snapshot_outbox db @ fresh))
             then (Inr (length picked), bump (db\<lparr>snapshot_outbox :=
                     upd_where (\<lambda>s. so_passport_id s \<in> set picked) (rearm_row now) (snapshot_outbox db) @ fresh\<rparr>))
             else (Inl (db_err env unique_violation), bump db))"

definition stale_row :: "time \<Rightarrow> time \<Rightarrow> passport_rec list \<Rightarrow> snapshot_outbox_rec \<Rightarrow> bool" where
  "stale_row now older_than ps s \<longleftrightarrow>
     so_status s = ''reconciled'' \<and> opt_holds (\<lambda>t. t < now - older_than) (so_reconciled_at s) \<and>
     opt_holds (\<lambda>p. pp_status p = ''active'') (row_at pp_id (so_passport_id s) ps)"

definition snapshot_enqueue_stale :: "pg_env \<Rightarrow> time \<Rightarrow> nat \<Rightarrow> odal \<Rightarrow> (dpp_error + nat) \<times> odal" where
  "snapshot_enqueue_stale env older_than limit db =
     (let n = tick db; now = now_at env n;
          picked = map so_id (take limit (sort_key (\<lambda>s. case so_reconciled_at s of Some t \<Rightarrow> t | None \<Rightarrow> 0)
                     (filter (stale_row now older_than (passport db)) (snapshot_outbox db))))
      in case fault_at env n of
           Some e \<Rightarrow> (Inl (db_err env e), bump db)
         | None \<Rightarrow>
             (Inr (length (filter (\<lambda>s. so_id s \<in> set picked) (snapshot_outbox db))),
              bump (db\<lparr>snapshot_outbox :=
                upd_where (\<lambda>s. so_id s \<in> set picked) (rearm_row now) (snapshot_outbox db)\<rparr>)))"

definition to_reconcile_row :: "snapshot_outbox_rec \<Rightarrow> SnapshotReconcileRow" where
  "to_reconcile_row s = \<lparr>sn_id = so_id s, sn_passport_id = so_passport_id s, sn_attempts = so_attempts s\<rparr>"

definition snapshot_due :: "pg_env \<Rightarrow> nat \<Rightarrow> odal \<Rightarrow> (dpp_error + SnapshotReconcileRow list) \<times> odal" where
  "snapshot_due env limit db =
     (case exec_select snapshot_outbox env
        (\<lambda>now s. so_status s = ''pending'' \<and> so_next_attempt_at s \<le> now) so_next_attempt_at limit db of
        (Inl e, db') \<Rightarrow> (Inl e, db')
      | (Inr rs, db') \<Rightarrow> (Inr (map to_reconcile_row rs), db'))"

abbreviation snapshot_mark ::
  "pg_env \<Rightarrow> uuid \<Rightarrow> (snapshot_outbox_rec \<Rightarrow> bool) \<Rightarrow>
   (time \<Rightarrow> rat \<Rightarrow> snapshot_outbox_rec \<Rightarrow> snapshot_outbox_rec) \<Rightarrow> odal \<Rightarrow> (dpp_error + unit) \<times> odal"
where
  "snapshot_mark env ident ok f db \<equiv>
     exec_mark snapshot_outbox snapshot_outbox_update so_id env
       ''snapshot_outbox row'' ident (\<lambda>_ _. True) ok f db"

definition reconciled_row :: "time \<Rightarrow> rat \<Rightarrow> snapshot_outbox_rec \<Rightarrow> snapshot_outbox_rec" where
  "reconciled_row now rnd s = s\<lparr>so_status := ''reconciled'', so_reconciled_at := Some now,
     so_last_attempt_at := Some now, so_attempts := so_attempts s + 1, so_message := None, so_updated_at := now\<rparr>"

definition snapshot_mark_reconciled :: "pg_env \<Rightarrow> uuid \<Rightarrow> odal \<Rightarrow> (dpp_error + unit) \<times> odal" where
  "snapshot_mark_reconciled env ident = snapshot_mark env ident (\<lambda>_. True) reconciled_row"

definition snapshot_failed_row :: "string \<Rightarrow> time \<Rightarrow> rat \<Rightarrow> snapshot_outbox_rec \<Rightarrow> snapshot_outbox_rec" where
  "snapshot_failed_row message now rnd s = s\<lparr>so_attempts := so_attempts s + 1, so_message := Some message,
     so_last_attempt_at := Some now, so_next_attempt_at := now + backoff (so_attempts s) rnd, so_updated_at := now\<rparr>"

definition snapshot_mark_attempt_failed :: "pg_env \<Rightarrow> uuid \<Rightarrow> string \<Rightarrow> odal \<Rightarrow> (dpp_error + unit) \<times> odal" where
  "snapshot_mark_attempt_failed env ident message =
     snapshot_mark env ident (\<lambda>s. backoff_ok (so_attempts s)) (snapshot_failed_row message)"

definition snapshot_exhausted_row :: "string \<Rightarrow> time \<Rightarrow> rat \<Rightarrow> snapshot_outbox_rec \<Rightarrow> snapshot_outbox_rec" where
  "snapshot_exhausted_row message now rnd s = s\<lparr>so_status := ''exhausted'', so_message := Some message,
     so_last_attempt_at := Some now, so_attempts := so_attempts s + 1, so_updated_at := now\<rparr>"

definition snapshot_mark_exhausted :: "pg_env \<Rightarrow> uuid \<Rightarrow> string \<Rightarrow> odal \<Rightarrow> (dpp_error + unit) \<times> odal" where
  "snapshot_mark_exhausted env ident message = snapshot_mark env ident (\<lambda>_. True) (snapshot_exhausted_row message)"

definition snapshot_count :: "string \<Rightarrow> odal \<Rightarrow> nat" where
  "snapshot_count status db = length (filter (\<lambda>s. so_status s = status) (snapshot_outbox db))"

definition snapshot_status_counts :: "pg_env \<Rightarrow> odal \<Rightarrow> (dpp_error + SnapshotOutboxCounts) \<times> odal" where
  "snapshot_status_counts env db =
     (case fault_at env (tick db) of
        Some e \<Rightarrow> (Inl (db_err env e), bump db)
      | None \<Rightarrow> (Inr \<lparr>soc_pending = snapshot_count ''pending'' db, soc_reconciled = snapshot_count ''reconciled'' db,
                       soc_exhausted = snapshot_count ''exhausted'' db\<rparr>, bump db))"

subsection \<open>The object store\<close>

record s3_object =
  obj_body :: string
  obj_content_type :: string
  obj_cache_control :: string
  obj_metadata :: "(string \<times> string) list"

type_synonym bucket = "string \<Rightarrow> s3_object option"

record snapshot_port =
  s3_fault :: "nat \<Rightarrow> nat \<Rightarrow> string option"
  read_doc :: "string \<Rightarrow> dpp_error + PassportStatus"
  render_public_snapshot :: "nat \<Rightarrow> uuid \<Rightarrow> Passport \<Rightarrow> time \<Rightarrow> time \<Rightarrow> dpp_error + string"
  parse_json :: "string \<Rightarrow> string + json"
  render_page :: "string \<Rightarrow> json \<Rightarrow> string \<Rightarrow> time \<Rightarrow> time \<Rightarrow> string"
  snapshot_now :: "nat \<Rightarrow> time"
  rfc3339_secs :: "time \<Rightarrow> string"

text \<open>The headers and the user metadata every snapshot object carries.\<close>

definition with_snapshot_meta :: "snapshot_port \<Rightarrow> SnapshotMeta \<Rightarrow> string \<Rightarrow> string \<Rightarrow> s3_object" where
  "with_snapshot_meta port meta content_type bytes =
     \<lparr>obj_body = bytes, obj_content_type = content_type,
      obj_cache_control = ''public, max-age='' @ show_int \<lfloor>max_age meta\<rfloor>,
      obj_metadata = [(''odal-snapshot'', ''true''), (''odal-as-of'', rfc3339_secs port (as_of meta)),
                      (''odal-valid-until'', rfc3339_secs port (valid_until meta))]\<rparr>"

text \<open>One request to the store, the \<open>i\<close>-th for the row at position \<open>n\<close>: a refused one changes nothing.\<close>

definition s3_request ::
  "snapshot_port \<Rightarrow> nat \<Rightarrow> nat \<Rightarrow> string \<Rightarrow> (bucket \<Rightarrow> bucket) \<Rightarrow> bucket \<Rightarrow> (dpp_error + unit) \<times> bucket" where
  "s3_request port n i context f bkt =
     (case s3_fault port n i of
        Some e \<Rightarrow> (Inl (Internal (context @ e)), bkt)
      | None \<Rightarrow> (Inr (), f bkt))"

definition put_public_json ::
  "snapshot_port \<Rightarrow> nat \<Rightarrow> string \<Rightarrow> string \<Rightarrow> SnapshotMeta \<Rightarrow> bucket \<Rightarrow> (dpp_error + unit) \<times> bucket" where
  "put_public_json port n dpp_id bytes meta =
     s3_request port n 0 ''snapshot S3 PUT failed: ''
       (\<lambda>b. b(snapshot_json_key dpp_id \<mapsto> with_snapshot_meta port meta ''application/json'' bytes))"

definition put_public_html ::
  "snapshot_port \<Rightarrow> nat \<Rightarrow> string \<Rightarrow> string \<Rightarrow> SnapshotMeta \<Rightarrow> bucket \<Rightarrow> (dpp_error + unit) \<times> bucket" where
  "put_public_html port n dpp_id bytes meta =
     s3_request port n 1 ''snapshot S3 PUT (html) failed: ''
       (\<lambda>b. b(snapshot_html_key dpp_id \<mapsto> with_snapshot_meta port meta ''text/html; charset=utf-8'' bytes))"

definition s3_remove :: "snapshot_port \<Rightarrow> nat \<Rightarrow> string \<Rightarrow> bucket \<Rightarrow> (dpp_error + unit) \<times> bucket" where
  "s3_remove port n dpp_id bkt =
     (case s3_request port n 0 ''snapshot S3 DELETE (html) failed: '' (\<lambda>b. b(snapshot_html_key dpp_id := None)) bkt of
        (Inl e, b1) \<Rightarrow> (Inl e, b1)
      | (Inr _, b1) \<Rightarrow>
          s3_request port n 1 ''snapshot S3 DELETE failed: '' (\<lambda>b. b(snapshot_json_key dpp_id := None)) b1)"

subsection \<open>The drain\<close>

record SnapshotDrainStats =
  sds_stored :: nat
  sds_removed :: nat
  sds_retried :: nat
  sds_exhausted :: nat

definition snapshot_stats_default :: SnapshotDrainStats where
  "snapshot_stats_default = \<lparr>sds_stored = 0, sds_removed = 0, sds_retried = 0, sds_exhausted = 0\<rparr>"

definition SNAPSHOT_MAX_ATTEMPTS :: nat where
  "SNAPSHOT_MAX_ATTEMPTS = 8"

datatype reconcile_action = Stored | Removed

definition snapshot_back_off_or_exhaust ::
  "pg_env \<Rightarrow> uuid \<Rightarrow> nat \<Rightarrow> string \<Rightarrow> SnapshotDrainStats \<times> odal \<Rightarrow> SnapshotDrainStats \<times> odal" where
  "snapshot_back_off_or_exhaust env ident attempts reason st =
     (case st of (stats, db) \<Rightarrow>
        if SNAPSHOT_MAX_ATTEMPTS \<le> attempts + 1
        then (stats\<lparr>sds_exhausted := sds_exhausted stats + 1\<rparr>,
              snd (snapshot_mark_exhausted env ident (''max attempts reached: '' @ reason) db))
        else (stats\<lparr>sds_retried := sds_retried stats + 1\<rparr>,
              snd (snapshot_mark_attempt_failed env ident reason db)))"

definition find_by_id_any_status ::
  "pg_env \<Rightarrow> snapshot_port \<Rightarrow> uuid \<Rightarrow> odal \<Rightarrow> (dpp_error + Passport option) \<times> odal" where
  "find_by_id_any_status env port pid db =
     (case exec_lookup passport pp_id env pid db of
        (Inl e, db') \<Rightarrow> (Inl e, db')
      | (Inr None, db') \<Rightarrow> (Inr None, db')
      | (Inr (Some r), db') \<Rightarrow>
          (case read_doc port (pp_doc_status r) of
             Inl e \<Rightarrow> (Inl e, db')
           | Inr st \<Rightarrow> (Inr (Some \<lparr>p_status = st, p_published_at = pp_published_at r\<rparr>), db')))"

definition store_published ::
  "snapshot_port \<Rightarrow> nat \<Rightarrow> uuid \<Rightarrow> string \<Rightarrow> Passport \<Rightarrow> string \<Rightarrow> bucket \<Rightarrow> (dpp_error + unit) \<times> bucket" where
  "store_published port n pid dpp_id p resolver_base_url bkt =
     (let as_of = of_int \<lfloor>snapshot_now port n\<rfloor>;
          valid_until = as_of + SNAPSHOT_VALIDITY;
          meta = \<lparr>as_of = as_of, valid_until = valid_until, max_age = SNAPSHOT_REFRESH_INTERVAL\<rparr>
      in case render_public_snapshot port n pid p as_of valid_until of
           Inl e \<Rightarrow> (Inl e, bkt)
         | Inr js \<Rightarrow>
             (case put_public_json port n dpp_id js meta bkt of
                (Inl e, b1) \<Rightarrow> (Inl e, b1)
              | (Inr _, b1) \<Rightarrow>
                  (case parse_json port js of
                     Inl e \<Rightarrow> (Inl (Serialisation e), b1)
                   | Inr view \<Rightarrow>
                       put_public_html port n dpp_id (render_page port dpp_id view resolver_base_url as_of valid_until)
                         meta b1)))"

text \<open>
  One row. The store is reached over the network, and other tasks run meanwhile:
  \<open>meanwhile\<close> is what they do to the database between the read of the passport and the
  write of the row.
\<close>

definition snapshot_drain_row ::
  "pg_env \<Rightarrow> snapshot_port \<Rightarrow> string \<Rightarrow> (odal \<Rightarrow> odal) \<Rightarrow> SnapshotReconcileRow \<Rightarrow>
   SnapshotDrainStats \<times> bucket \<times> odal \<Rightarrow> SnapshotDrainStats \<times> bucket \<times> odal" where
  "snapshot_drain_row env port resolver_base_url meanwhile row st =
     (case st of (stats, bkt, db) \<Rightarrow>
        (let dpp_id = fmt_uuid env (sn_passport_id row) in
         case find_by_id_any_status env port (sn_passport_id row) db of
           (Inl e, db1) \<Rightarrow>
             (case snapshot_back_off_or_exhaust env (sn_id row) (sn_attempts row)
                     (''passport lookup failed: '' @ fmt_dpp env e) (stats, meanwhile db1) of
                (stats', db2) \<Rightarrow> (stats', bkt, db2))
         | (Inr found, db1) \<Rightarrow>
             (case (case found of
                      Some p \<Rightarrow>
                        if serves_publicly p
                        then map_prod (map_sum id (\<lambda>_. Stored)) id
                               (store_published port (tick db1) (sn_passport_id row) dpp_id p resolver_base_url bkt)
                        else map_prod (map_sum id (\<lambda>_. Removed)) id (s3_remove port (tick db1) dpp_id bkt)
                    | None \<Rightarrow> map_prod (map_sum id (\<lambda>_. Removed)) id (s3_remove port (tick db1) dpp_id bkt)) of
                (Inr Stored, bkt') \<Rightarrow>
                  (stats\<lparr>sds_stored := sds_stored stats + 1\<rparr>, bkt',
                   snd (snapshot_mark_reconciled env (sn_id row) (meanwhile db1)))
              | (Inr Removed, bkt') \<Rightarrow>
                  (stats\<lparr>sds_removed := sds_removed stats + 1\<rparr>, bkt',
                   snd (snapshot_mark_reconciled env (sn_id row) (meanwhile db1)))
              | (Inl e, bkt') \<Rightarrow>
                  (case snapshot_back_off_or_exhaust env (sn_id row) (sn_attempts row) (fmt_dpp env e)
                          (stats, meanwhile db1) of
                     (stats', db2) \<Rightarrow> (stats', bkt', db2)))))"

definition snapshot_drain_once ::
  "pg_env \<Rightarrow> snapshot_port \<Rightarrow> string \<Rightarrow> (odal \<Rightarrow> odal) \<Rightarrow> nat \<Rightarrow> bucket \<times> odal \<Rightarrow>
   SnapshotDrainStats \<times> bucket \<times> odal" where
  "snapshot_drain_once env port resolver_base_url meanwhile batch s =
     (case s of (bkt, db) \<Rightarrow>
        (case snapshot_due env batch db of
           (Inl _, db') \<Rightarrow> (snapshot_stats_default, bkt, db')
         | (Inr due, db') \<Rightarrow>
             fold (snapshot_drain_row env port resolver_base_url meanwhile) due (snapshot_stats_default, bkt, db')))"

subsection \<open>What the drain does to the store and to the row\<close>

lemmas snapshot_row_defs = reconciled_row_def snapshot_failed_row_def snapshot_exhausted_row_def

lemma snapshot_row_keys [simp]:
  "so_id (reconciled_row now rnd s) = so_id s" "so_id (snapshot_failed_row message now rnd s) = so_id s"
  "so_id (snapshot_exhausted_row message now rnd s) = so_id s" "so_id (rearm_row now s) = so_id s"
  "so_passport_id (reconciled_row now rnd s) = so_passport_id s"
  "so_passport_id (snapshot_failed_row message now rnd s) = so_passport_id s"
  "so_passport_id (snapshot_exhausted_row message now rnd s) = so_passport_id s"
  "so_passport_id (rearm_row now s) = so_passport_id s"
  by (simp_all add: snapshot_row_defs rearm_row_def)

lemmas snapshot_mark_defs = snapshot_mark_reconciled_def snapshot_mark_attempt_failed_def snapshot_mark_exhausted_def

lemma snapshot_keys_differ: "snapshot_json_key x \<noteq> snapshot_html_key y"
proof
  assume "snapshot_json_key x = snapshot_html_key y"
  then have "rev (snapshot_json_key x) ! 0 = rev (snapshot_html_key y) ! 0" by simp
  then show False by (simp add: snapshot_json_key_def snapshot_html_key_def nth_append)
qed

text \<open>A store or a removal that succeeds has written or cleared both objects, and no other.\<close>

lemma store_published_ok:
  assumes "store_published port n pid dpp_id p url bkt = (Inr u, bkt')"
  shows "bkt' (snapshot_json_key dpp_id) \<noteq> None" and "bkt' (snapshot_html_key dpp_id) \<noteq> None"
    and "k \<noteq> snapshot_json_key dpp_id \<Longrightarrow> k \<noteq> snapshot_html_key dpp_id \<Longrightarrow> bkt' k = bkt k"
  using assms snapshot_keys_differ
  by (auto simp: store_published_def Let_def put_public_json_def put_public_html_def s3_request_def
      split: sum.splits prod.splits option.splits)

lemma s3_remove_ok:
  assumes "s3_remove port n dpp_id bkt = (Inr u, bkt')"
  shows "bkt' (snapshot_json_key dpp_id) = None" and "bkt' (snapshot_html_key dpp_id) = None"
    and "k \<noteq> snapshot_json_key dpp_id \<Longrightarrow> k \<noteq> snapshot_html_key dpp_id \<Longrightarrow> bkt' k = bkt k"
  using assms
  by (auto simp: s3_remove_def s3_request_def split: sum.splits prod.splits option.splits)

lemma snapshot_back_off_row:
  assumes "snapshot_back_off_or_exhaust env ident attempts reason (stats, db) = (stats', db')"
    and "row_at so_id ident (snapshot_outbox db) = Some r"
  shows "opt_holds (\<lambda>r'. so_status r' = so_status r \<or> so_status r' = ''exhausted'') (row_at so_id ident (snapshot_outbox db'))"
    and "sds_stored stats' = sds_stored stats" and "sds_removed stats' = sds_removed stats"
proof -
  have one: "opt_holds (\<lambda>r'. so_status r' = so_status r \<or> so_status r' = ''exhausted'') (row_at so_id ident
      (snapshot_outbox (snd (exec_update snapshot_outbox snapshot_outbox_update so_id env ident q ok f db))))"
    if "\<And>now rnd r. so_id (f now rnd r) = so_id r"
      and "\<And>now rnd. so_status (f now rnd r) = so_status r \<or> so_status (f now rnd r) = ''exhausted''" for q ok f
    using snapshot_t.exec_update_row_at [of f ident env ident q ok db, OF that(1)] assms(2) that(2) by auto
  show "opt_holds (\<lambda>r'. so_status r' = so_status r \<or> so_status r' = ''exhausted'') (row_at so_id ident (snapshot_outbox db'))"
    using assms(1) one [of "snapshot_exhausted_row (''max attempts reached: '' @ reason)"]
      one [of "snapshot_failed_row reason"]
    by (auto simp: snapshot_back_off_or_exhaust_def snapshot_mark_defs snapshot_t.exec_mark_snd
        snapshot_failed_row_def snapshot_exhausted_row_def split: if_splits)
  show "sds_stored stats' = sds_stored stats" "sds_removed stats' = sds_removed stats"
    using assms(1) by (auto simp: snapshot_back_off_or_exhaust_def split: if_splits)
qed

subsection \<open>Properties\<close>

text \<open>
  Property C3 (safety). What a reconcile counts, it has done, whatever the store, the
  database and other tasks do: a passport counted as stored was served when it was read
  and both its objects are there; one counted as removed was not, and both its objects are
  gone; a row counted as neither is not closed by the drain as reconciled.
\<close>

theorem snapshot_reconcile_applied:
  assumes "find_by_id_any_status env port (sn_passport_id row) db = (res, db1)"
    and "row_at so_id (sn_id row) (snapshot_outbox (meanwhile db1)) = Some r"
    and "snapshot_drain_row env port url meanwhile row (stats, bkt, db) = (stats', bkt', db')"
  shows "(\<exists>p. res = Inr (Some p) \<and> serves_publicly p \<and> stats' = stats\<lparr>sds_stored := sds_stored stats + 1\<rparr> \<and>
        bkt' (snapshot_json_key (fmt_uuid env (sn_passport_id row))) \<noteq> None \<and>
        bkt' (snapshot_html_key (fmt_uuid env (sn_passport_id row))) \<noteq> None) \<or>
     (\<exists>found. res = Inr found \<and> \<not> opt_holds serves_publicly found \<and>
        stats' = stats\<lparr>sds_removed := sds_removed stats + 1\<rparr> \<and>
        bkt' (snapshot_json_key (fmt_uuid env (sn_passport_id row))) = None \<and>
        bkt' (snapshot_html_key (fmt_uuid env (sn_passport_id row))) = None) \<or>
     (sds_stored stats' = sds_stored stats \<and> sds_removed stats' = sds_removed stats \<and>
        opt_holds (\<lambda>r'. so_status r' = so_status r \<or> so_status r' = ''exhausted'')
          (row_at so_id (sn_id row) (snapshot_outbox db')))"
proof -
  let ?id = "fmt_uuid env (sn_passport_id row)"
  note bo = snapshot_back_off_row [OF _ assms(2)]
  show ?thesis
  proof (cases res)
    case (Inl e)
    then show ?thesis using assms(1,3) bo by (auto simp: snapshot_drain_row_def Let_def split: prod.splits)
  next
    case (Inr found)
    show ?thesis
    proof (cases "opt_holds serves_publicly found")
      case True
      then obtain p where p: "found = Some p" "serves_publicly p" by (cases found) auto
      obtain res' b' where s: "store_published port (tick db1) (sn_passport_id row) ?id p url bkt = (res', b')" by fastforce
      show ?thesis
        using assms(1,3) Inr p s bo store_published_ok(1,2) [of port "tick db1" "sn_passport_id row" ?id p url bkt _ b']
        by (cases res') (auto simp: snapshot_drain_row_def Let_def split: prod.splits)
    next
      case False
      obtain res' b' where s: "s3_remove port (tick db1) ?id bkt = (res', b')" by fastforce
      show ?thesis
        using assms(1,3) Inr False s bo s3_remove_ok(1,2) [of port "tick db1" ?id bkt _ b']
        by (cases res'; cases found) (auto simp: snapshot_drain_row_def Let_def split: prod.splits)
    qed
  qed
qed

text \<open>A store that takes every request, and a tier with one published passport queued.\<close>

definition sample_snapshot_port :: snapshot_port where
  "sample_snapshot_port = \<lparr>s3_fault = (\<lambda>n i. None),
     read_doc = (\<lambda>s. Inr (if s = ''active'' then Published else Suspended)),
     render_public_snapshot = (\<lambda>n pid p a v. Inr ''json''), parse_json = (\<lambda>s. Inr JNull),
     render_page = (\<lambda>d j u a v. ''page''), snapshot_now = of_nat, rfc3339_secs = (\<lambda>t. ''t'')\<rparr>"

definition sample_passport :: "string \<Rightarrow> time \<Rightarrow> passport_rec" where
  "sample_passport st t = \<lparr>pp_id = 7, pp_status = st, pp_doc_status = st, pp_published_at = Some 0, pp_updated_at = t, pp_jws = None, pp_seal = None\<rparr>"

definition sample_tier :: odal where
  "sample_tier = empty_db\<lparr>passport := [sample_passport ''active'' 0], snapshot_outbox := [new_reconcile 0 51 7]\<rparr>"

lemma sample_tier_simps:
  "tick sample_tier = 0" "passport sample_tier = [sample_passport ''active'' 0]"
  "snapshot_outbox sample_tier = [new_reconcile 0 51 7]"
  by (simp_all add: sample_tier_def empty_db_def)

lemma sample_tier_keys: "keys_ok sample_tier"
  by (simp add: sample_tier_def keys_ok_def empty_db_def)

lemma sample_find: "find_by_id_any_status sample_env sample_snapshot_port 7 sample_tier =
    (Inr (Some \<lparr>p_status = Published, p_published_at = Some 0\<rparr>), bump sample_tier)"
  by (simp add: find_by_id_any_status_def exec_lookup_fault_free [OF sample_env_ok(1)] sample_tier_simps
      sample_passport_def sample_snapshot_port_def)

lemma sample_row_at: "row_at so_id 51 (snapshot_outbox sample_tier) = Some (new_reconcile 0 51 7)"
  by (simp add: sample_tier_simps new_reconcile_def)

theorem snapshot_reconcile_applied_witness:
  "(\<exists>stats' bkt' db'. snapshot_drain_row sample_env sample_snapshot_port ''url'' (\<lambda>d. d)
       (to_reconcile_row (new_reconcile 0 51 7)) (snapshot_stats_default, \<lambda>_. None, sample_tier) = (stats', bkt', db') \<and>
     (stats' = snapshot_stats_default\<lparr>sds_stored := 1\<rparr> \<and> bkt' (snapshot_json_key ''uuid'') \<noteq> None \<or>
      sds_stored stats' = 0 \<and> sds_removed stats' = 0))"
proof -
  let ?row = "to_reconcile_row (new_reconcile 0 51 7)"
  obtain stats' bkt' db' where d: "snapshot_drain_row sample_env sample_snapshot_port ''url'' (\<lambda>d. d) ?row
      (snapshot_stats_default, \<lambda>_. None, sample_tier) = (stats', bkt', db')" by (metis prod_cases3)
  have f: "find_by_id_any_status sample_env sample_snapshot_port (sn_passport_id ?row) sample_tier =
      (Inr (Some \<lparr>p_status = Published, p_published_at = Some 0\<rparr>), bump sample_tier)"
    by (simp add: sample_find to_reconcile_row_def new_reconcile_def)
  have r: "row_at so_id (sn_id ?row) (snapshot_outbox ((\<lambda>d. d) (bump sample_tier))) = Some (new_reconcile 0 51 7)"
    using sample_row_at by (simp add: to_reconcile_row_def new_reconcile_def)
  from snapshot_reconcile_applied [OF f r d] d show ?thesis
    by (auto simp: snapshot_stats_default_def serves_publicly_def)
qed

text \<open>A store and a renderer that do not fail.\<close>

definition store_ok :: "snapshot_port \<Rightarrow> bool" where
  "store_ok port \<longleftrightarrow> (\<forall>n i. s3_fault port n i = None) \<and>
     (\<forall>n pid p a v. \<exists>js view. render_public_snapshot port n pid p a v = Inr js \<and> parse_json port js = Inr view)"

lemma store_ok_results:
  assumes "store_ok port"
  shows "\<exists>b'. store_published port n pid dpp_id p url bkt = (Inr (), b')"
    and "\<exists>b'. s3_remove port n dpp_id bkt = (Inr (), b')"
proof -
  let ?a = "of_int \<lfloor>snapshot_now port n\<rfloor>"
  from assms obtain js view where "render_public_snapshot port n pid p ?a (?a + SNAPSHOT_VALIDITY) = Inr js"
    "parse_json port js = Inr view" unfolding store_ok_def by blast
  then show "\<exists>b'. store_published port n pid dpp_id p url bkt = (Inr (), b')"
    using assms by (simp add: store_published_def Let_def put_public_json_def put_public_html_def s3_request_def store_ok_def)
  show "\<exists>b'. s3_remove port n dpp_id bkt = (Inr (), b')"
    using assms by (simp add: s3_remove_def s3_request_def store_ok_def)
qed

lemma snapshot_reconciled_hit:
  assumes "fault_free env" and "keys_ok db" and "row_at so_id ident (snapshot_outbox db) = Some r"
  shows "row_at so_id ident (snapshot_outbox (snd (snapshot_mark_reconciled env ident db))) =
    Some (reconciled_row (now_at env (tick db)) (random_at env (tick db)) r)"
  using snapshot_t.exec_mark_hit(2) [of env db ident r "\<lambda>_ _. True" "\<lambda>_. True" reconciled_row] assms
  by (simp add: snapshot_mark_defs fault_free_def keys_ok_def)

text \<open>The row is marked with what the tier was made to match, under whatever other tasks do meanwhile.\<close>

lemma snapshot_drain_row_ok:
  assumes "fault_free env" and "store_ok port" and "keys_ok (meanwhile db1)"
    and "find_by_id_any_status env port (sn_passport_id row) db = (Inr found, db1)"
    and "row_at so_id (sn_id row) (snapshot_outbox (meanwhile db1)) = Some r"
    and "snapshot_drain_row env port url meanwhile row (stats, bkt, db) = (stats', bkt', db')"
  shows "db' = snd (snapshot_mark_reconciled env (sn_id row) (meanwhile db1))"
    and "(bkt' (snapshot_json_key (fmt_uuid env (sn_passport_id row))) \<noteq> None) = opt_holds serves_publicly found"
    and "(bkt' (snapshot_html_key (fmt_uuid env (sn_passport_id row))) \<noteq> None) = opt_holds serves_publicly found"
    and "k \<noteq> snapshot_json_key (fmt_uuid env (sn_passport_id row)) \<Longrightarrow>
         k \<noteq> snapshot_html_key (fmt_uuid env (sn_passport_id row)) \<Longrightarrow> bkt' k = bkt k"
proof -
  let ?id = "fmt_uuid env (sn_passport_id row)"
  have all: "db' = snd (snapshot_mark_reconciled env (sn_id row) (meanwhile db1)) \<and>
      (bkt' (snapshot_json_key ?id) \<noteq> None) = opt_holds serves_publicly found \<and>
      (bkt' (snapshot_html_key ?id) \<noteq> None) = opt_holds serves_publicly found \<and>
      (\<forall>k. k \<noteq> snapshot_json_key ?id \<longrightarrow> k \<noteq> snapshot_html_key ?id \<longrightarrow> bkt' k = bkt k)"
  proof (cases "opt_holds serves_publicly found")
    case True
    then obtain p where p: "found = Some p" "serves_publicly p" by (cases found) auto
    from store_ok_results(1) [OF assms(2)] obtain b' where
      s: "store_published port (tick db1) (sn_passport_id row) ?id p url bkt = (Inr (), b')" by blast
    show ?thesis
      using assms(4,6) p s store_published_ok [OF s] by (auto simp: snapshot_drain_row_def Let_def)
  next
    case False
    from store_ok_results(2) [OF assms(2)] obtain b' where
      s: "s3_remove port (tick db1) ?id bkt = (Inr (), b')" by blast
    show ?thesis
      using assms(4,6) False s s3_remove_ok [OF s]
      by (cases found) (auto simp: snapshot_drain_row_def Let_def)
  qed
  then show "db' = snd (snapshot_mark_reconciled env (sn_id row) (meanwhile db1))"
    "(bkt' (snapshot_json_key ?id) \<noteq> None) = opt_holds serves_publicly found"
    "(bkt' (snapshot_html_key ?id) \<noteq> None) = opt_holds serves_publicly found"
    "k \<noteq> snapshot_json_key ?id \<Longrightarrow> k \<noteq> snapshot_html_key ?id \<Longrightarrow> bkt' k = bkt k"
    by blast+
qed

text \<open>
  The tier converges: with a database and a store that do not fail,
  and nothing else running, handling a row leaves both objects of the passport there
  exactly when the passport is served (published, superseded, deactivated, or retired
  after a publish), both gone when it is not or no longer exists, and the row reconciled.
\<close>

theorem snapshot_reconcile_converges:
  assumes "fault_free env" and "keys_ok db" and "store_ok port"
    and "find_by_id_any_status env port (sn_passport_id row) db = (Inr found, db1)"
    and "row_at so_id (sn_id row) (snapshot_outbox db) = Some r"
    and "snapshot_drain_row env port url (\<lambda>d. d) row (stats, bkt, db) = (stats', bkt', db')"
  shows "opt_holds (\<lambda>r'. so_status r' = ''reconciled'') (row_at so_id (sn_id row) (snapshot_outbox db')) \<and>
    (bkt' (snapshot_json_key (fmt_uuid env (sn_passport_id row))) \<noteq> None \<longleftrightarrow> opt_holds serves_publicly found) \<and>
    (bkt' (snapshot_html_key (fmt_uuid env (sn_passport_id row))) \<noteq> None \<longleftrightarrow> opt_holds serves_publicly found) \<and>
    (\<forall>k. k \<noteq> snapshot_json_key (fmt_uuid env (sn_passport_id row)) \<longrightarrow>
         k \<noteq> snapshot_html_key (fmt_uuid env (sn_passport_id row)) \<longrightarrow> bkt' k = bkt k)"
proof -
  have db1: "db1 = bump db"
    using assms(1,4) by (auto simp: find_by_id_any_status_def exec_lookup_fault_free split: option.splits sum.splits)
  have k: "keys_ok ((\<lambda>d. d) db1)" and r: "row_at so_id (sn_id row) (snapshot_outbox ((\<lambda>d. d) db1)) = Some r"
    using assms(2,5) by (simp_all add: db1 keys_ok_def)
  note d = snapshot_drain_row_ok [where meanwhile = "\<lambda>d. d", OF assms(1,3) k assms(4) r assms(6)]
  show ?thesis
    using d snapshot_reconciled_hit [OF assms(1) k r] by (auto simp: reconciled_row_def)
qed

lemma sample_store_ok: "store_ok sample_snapshot_port"
  by (simp add: store_ok_def sample_snapshot_port_def)

theorem snapshot_reconcile_converges_witness:
  "\<exists>stats' bkt' db'. snapshot_drain_row sample_env sample_snapshot_port ''url'' (\<lambda>d. d)
       (to_reconcile_row (new_reconcile 0 51 7)) (snapshot_stats_default, \<lambda>_. None, sample_tier) = (stats', bkt', db') \<and>
     bkt' (snapshot_json_key ''uuid'') \<noteq> None"
proof -
  let ?row = "to_reconcile_row (new_reconcile 0 51 7)"
  obtain stats' bkt' db' where d: "snapshot_drain_row sample_env sample_snapshot_port ''url'' (\<lambda>d. d) ?row
      (snapshot_stats_default, \<lambda>_. None, sample_tier) = (stats', bkt', db')" by (metis prod_cases3)
  have f: "find_by_id_any_status sample_env sample_snapshot_port (sn_passport_id ?row) sample_tier =
      (Inr (Some \<lparr>p_status = Published, p_published_at = Some 0\<rparr>), bump sample_tier)"
    by (simp add: sample_find to_reconcile_row_def new_reconcile_def)
  have r: "row_at so_id (sn_id ?row) (snapshot_outbox sample_tier) = Some (new_reconcile 0 51 7)"
    using sample_row_at by (simp add: to_reconcile_row_def new_reconcile_def)
  from snapshot_reconcile_converges [OF sample_env_ok(1) sample_tier_keys sample_store_ok f r d] d show ?thesis
    by (auto simp: serves_publicly_def)
qed

text \<open>
  Property C37 (error). A withdrawal can be lost. The row is closed without a check that it
  is still the row that was fetched: when a passport is withdrawn and its row re-armed
  while the drain is writing the snapshot it read before, the drain closes the row as
  reconciled after the withdrawal. The objects stay, the sweep sees a reconciliation newer
  than the passport, and the refresh only looks at active passports, so nothing queues the
  removal again.
\<close>

theorem snapshot_rearm_lost:
  assumes "fault_free env" and "store_ok port" and "keys_ok (meanwhile db1)"
    and "find_by_id_any_status env port (sn_passport_id row) db = (Inr (Some p), db1)" and "serves_publicly p"
    and "row_at so_id (sn_id row) (snapshot_outbox (meanwhile db1)) = Some r"
    and "so_status r = ''pending''" and "so_passport_id r = sn_passport_id row"
    and "row_at pp_id (sn_passport_id row) (passport (meanwhile db1)) = Some withdrawn"
    and "pp_status withdrawn \<noteq> ''active''" and "pp_updated_at withdrawn \<le> now_at env (tick (meanwhile db1))"
    and "snapshot_drain_row env port url meanwhile row (stats, bkt, db) = (stats', bkt', db')"
  shows "bkt' (snapshot_json_key (fmt_uuid env (sn_passport_id row))) \<noteq> None \<and>
    (\<exists>r'. row_at so_id (sn_id row) (snapshot_outbox db') = Some r' \<and> so_status r' = ''reconciled'' \<and>
       \<not> stale_row now older_than (passport db') r') \<and>
    \<not> divergent (snapshot_outbox db') withdrawn"
proof -
  let ?now = "now_at env (tick (meanwhile db1))" and ?rnd = "random_at env (tick (meanwhile db1))"
  let ?r = "reconciled_row ?now ?rnd r"
  note d = snapshot_drain_row_ok [OF assms(1-4,6,12)]
  have r': "row_at so_id (sn_id row) (snapshot_outbox db') = Some ?r"
    using snapshot_reconciled_hit [OF assms(1,3,6)] by (simp add: d(1))
  have rows: "map so_passport_id (snapshot_outbox db') = map so_passport_id (snapshot_outbox (meanwhile db1)) \<and>
      passport db' = passport (meanwhile db1)"
    using snapshot_t.exec_update_rows [of env "sn_id row" "\<lambda>_ _. True" "\<lambda>_. True" reconciled_row "meanwhile db1"]
      snapshot_t.exec_update_only [of env "sn_id row" "\<lambda>_ _. True" "\<lambda>_. True" reconciled_row "meanwhile db1"]
    by (auto simp: d(1) snapshot_mark_defs snapshot_t.exec_mark_snd table_simps)
  have "row_at so_passport_id (so_passport_id ?r) (snapshot_outbox db') = Some ?r"
    using rows assms(3) row_at_SomeD [OF r'] by (intro row_at_in_set) (simp_all add: keys_ok_def)
  moreover have pid: "pp_id withdrawn = sn_passport_id row" using assms(9) by (blast dest: row_at_SomeD)
  ultimately have "\<not> divergent (snapshot_outbox db') withdrawn"
    using assms(8,11) by (simp add: divergent_def reconciled_row_def)
  moreover have "\<not> stale_row now older_than (passport db') ?r"
    using rows assms(8-10) by (simp add: stale_row_def)
  ultimately show ?thesis
    using d(2) assms(5) r' by (auto simp: reconciled_row_def)
qed

text \<open>A suspension and its enqueue, as one task.\<close>

definition sample_suspend :: "odal \<Rightarrow> odal" where
  "sample_suspend db = snd (snapshot_enqueue sample_env 7 (db\<lparr>passport := [sample_passport ''suspended'' (of_nat (tick db))]\<rparr>))"

theorem snapshot_rearm_lost_witness:
  "\<exists>stats' bkt' db'. snapshot_drain_row sample_env sample_snapshot_port ''url'' sample_suspend
       (to_reconcile_row (new_reconcile 0 51 7)) (snapshot_stats_default, \<lambda>_. None, sample_tier) = (stats', bkt', db') \<and>
     bkt' (snapshot_json_key ''uuid'') \<noteq> None \<and> \<not> divergent (snapshot_outbox db') (sample_passport ''suspended'' 1)"
proof -
  let ?row = "to_reconcile_row (new_reconcile 0 51 7)"
  obtain stats' bkt' db' where d: "snapshot_drain_row sample_env sample_snapshot_port ''url'' sample_suspend ?row
      (snapshot_stats_default, \<lambda>_. None, sample_tier) = (stats', bkt', db')" by (metis prod_cases3)
  have f: "find_by_id_any_status sample_env sample_snapshot_port (sn_passport_id ?row) sample_tier =
      (Inr (Some \<lparr>p_status = Published, p_published_at = Some 0\<rparr>), bump sample_tier)"
    by (simp add: sample_find to_reconcile_row_def new_reconcile_def)
  have susp: "snapshot_outbox (sample_suspend (bump sample_tier)) = [rearm_row 1 (new_reconcile 0 51 7)]"
    "passport (sample_suspend (bump sample_tier)) = [sample_passport ''suspended'' 1]"
    "tick (sample_suspend (bump sample_tier)) = 2"
    by (simp_all add: sample_suspend_def snapshot_enqueue_def Let_def sample_tier_simps new_reconcile_def)
  have k: "keys_ok (sample_suspend (bump sample_tier))"
    using sample_tier_keys susp by (auto simp: keys_ok_def sample_suspend_def snapshot_enqueue_def Let_def sample_tier_simps new_reconcile_def)
  have r: "row_at so_id (sn_id ?row) (snapshot_outbox (sample_suspend (bump sample_tier))) = Some (rearm_row 1 (new_reconcile 0 51 7))"
    by (simp add: susp to_reconcile_row_def new_reconcile_def rearm_row_def)
  have p: "row_at pp_id (sn_passport_id ?row) (passport (sample_suspend (bump sample_tier))) = Some (sample_passport ''suspended'' 1)"
    by (simp add: susp to_reconcile_row_def new_reconcile_def sample_passport_def)
  from snapshot_rearm_lost [OF sample_env_ok(1) sample_store_ok k f _ r _ _ p _ _ d] show ?thesis
    using d by (auto simp: serves_publicly_def rearm_row_def new_reconcile_def to_reconcile_row_def sample_passport_def susp)
qed

text \<open>The passports a sweep picks are divergent, and all of those when they fit its limit.\<close>

lemma sweep_picked:
  "p \<in> set (take limit (sort_key pp_updated_at (filter (divergent ob) ps))) \<Longrightarrow> p \<in> set ps \<and> divergent ob p"
  by (drule in_set_takeD) simp

lemma sweep_picks_all:
  assumes "length ps \<le> limit" and "p \<in> set ps" and "divergent ob p"
  shows "p \<in> set (take limit (sort_key pp_updated_at (filter (divergent ob) ps)))"
proof -
  have "length (sort_key pp_updated_at (filter (divergent ob) ps)) \<le> limit"
    unfolding length_sort by (rule le_trans [OF length_filter_le assms(1)])
  with assms show ?thesis by simp
qed

lemma fresh_reconcile_at:
  assumes "pid \<in> set missing"
  shows "opt_holds (\<lambda>s. so_status s = ''pending'' \<and> so_attempts s = 0 \<and> so_next_attempt_at s = now)
    (row_at so_passport_id pid (map (\<lambda>(i, q). new_reconcile now (ids i) q) (zip [k..<k + length missing] missing)))"
  using assms
proof (induction missing arbitrary: k)
  case (Cons a missing)
  have "[k..<k + length (a # missing)] = k # [Suc k..<Suc k + length missing]"
    by (simp add: upt_conv_Cons del: upt_Suc)
  then show ?case
    unfolding zip_Cons_Cons list.map prod.case row_at_simps using Cons.IH [of "Suc k"] Cons.prems
    by (auto simp: new_reconcile_def simp del: upt_Suc)
qed simp

abbreviation sweep_ids :: "nat \<Rightarrow> odal \<Rightarrow> uuid list" where
  "sweep_ids limit db \<equiv> map pp_id (take limit (sort_key pp_updated_at
     (filter (divergent (snapshot_outbox db)) (passport db))))"

abbreviation sweep_missing :: "nat \<Rightarrow> odal \<Rightarrow> uuid list" where
  "sweep_missing limit db \<equiv> filter (\<lambda>pid. pid \<notin> so_passport_id ` set (snapshot_outbox db)) (sweep_ids limit db)"

abbreviation sweep_fresh :: "pg_env \<Rightarrow> nat \<Rightarrow> odal \<Rightarrow> snapshot_outbox_rec list" where
  "sweep_fresh env limit db \<equiv> map (\<lambda>(i, pid). new_reconcile (now_at env (tick db)) (uuid_at env (tick db) i) pid)
     (zip [0..<length (sweep_missing limit db)] (sweep_missing limit db))"

text \<open>The outbox after the sweep, row by row.\<close>

lemma sweep_lookup:
  assumes "fault_free env"
    and "distinct (map so_id (snapshot_outbox db) @ map (uuid_at env (tick db)) [0..<length (passport db)])"
    and "snapshot_enqueue_divergent env limit db = (res, db')"
  shows "res = Inr (length (sweep_ids limit db))"
    and "row_at so_passport_id pid (snapshot_outbox db') =
      (case row_at so_passport_id pid (snapshot_outbox db) of
         Some s \<Rightarrow> Some (if pid \<in> set (sweep_ids limit db) then rearm_row (now_at env (tick db)) s else s)
       | None \<Rightarrow> row_at so_passport_id pid (sweep_fresh env limit db))"
proof -
  have "length (sweep_missing limit db) \<le> length (sweep_ids limit db)" by (rule length_filter_le)
  also have "\<dots> \<le> length (filter (divergent (snapshot_outbox db)) (passport db))" by simp
  also have "\<dots> \<le> length (passport db)" by (rule length_filter_le)
  finally have "distinct (map so_id (snapshot_outbox db) @
      map (uuid_at env (tick db)) [0..<length (sweep_missing limit db)])"
    by (rule distinct_fresh_prefix [OF assms(2)])
  moreover have ids: "map so_id (sweep_fresh env limit db) =
      map (uuid_at env (tick db)) [0..<length (sweep_missing limit db)]"
    by (rule nth_equalityI) (auto simp: new_reconcile_def)
  ultimately have fresh: "distinct (map so_id (snapshot_outbox db @ sweep_fresh env limit db))"
    unfolding map_append ids by blast
  have f: "fault_at env (tick db) = None" using assms(1) by (simp add: fault_free_def)
  have "snapshot_enqueue_divergent env limit db = (Inr (length (sweep_ids limit db)),
      bump (db\<lparr>snapshot_outbox := upd_where (\<lambda>s. so_passport_id s \<in> set (sweep_ids limit db))
         (rearm_row (now_at env (tick db))) (snapshot_outbox db) @ sweep_fresh env limit db\<rparr>))"
    unfolding snapshot_enqueue_divergent_def Let_def f option.case if_P [OF fresh] by (rule refl)
  with assms(3) have eq: "res = Inr (length (sweep_ids limit db))"
      "snapshot_outbox db' = upd_where (\<lambda>s. so_passport_id s \<in> set (sweep_ids limit db))
         (rearm_row (now_at env (tick db))) (snapshot_outbox db) @ sweep_fresh env limit db"
    by auto
  show "res = Inr (length (sweep_ids limit db))" by (rule eq(1))
  show "row_at so_passport_id pid (snapshot_outbox db') =
      (case row_at so_passport_id pid (snapshot_outbox db) of
         Some s \<Rightarrow> Some (if pid \<in> set (sweep_ids limit db) then rearm_row (now_at env (tick db)) s else s)
       | None \<Rightarrow> row_at so_passport_id pid (sweep_fresh env limit db))"
    unfolding eq(2) row_at_append
    by (subst row_at_upd_where) (auto split: option.splits dest: row_at_SomeD)
qed

lemma sweep_ids_iff:
  assumes "keys_ok db" and "p \<in> set (passport db)"
  shows "pp_id p \<in> set (sweep_ids limit db) \<longleftrightarrow>
    p \<in> set (take limit (sort_key pp_updated_at (filter (divergent (snapshot_outbox db)) (passport db))))"
proof -
  have "inj_on pp_id (set (passport db))" using assms(1) by (simp add: keys_ok_def distinct_map)
  moreover have "set (take limit (sort_key pp_updated_at (filter (divergent (snapshot_outbox db)) (passport db))))
      \<subseteq> set (passport db)" using sweep_picked by blast
  ultimately show ?thesis using assms(2) by (auto dest: inj_onD)
qed

text \<open>
  The repair sweep queues what diverged and disturbs nothing
  else: every passport that was public once and whose row is missing, exhausted or older
  than the passport is pending and due afterwards, with a fresh attempt budget (all of
  them when they fit the limit); a passport that is not divergent keeps its row, so a
  pending row keeps its backoff. Generated identifiers are fresh.
\<close>

theorem snapshot_sweep_effect:
  assumes "fault_free env" and "keys_ok db"
    and "distinct (map so_id (snapshot_outbox db) @ map (uuid_at env (tick db)) [0..<length (passport db)])"
    and "snapshot_enqueue_divergent env limit db = (res, db')" and "p \<in> set (passport db)"
  shows "(\<exists>m. res = Inr m) \<and>
    (divergent (snapshot_outbox db) p \<longrightarrow> length (passport db) \<le> limit \<longrightarrow>
       opt_holds (\<lambda>s. so_status s = ''pending'' \<and> so_attempts s = 0 \<and> so_next_attempt_at s = now_at env (tick db))
         (row_at so_passport_id (pp_id p) (snapshot_outbox db'))) \<and>
    (\<not> divergent (snapshot_outbox db) p \<longrightarrow>
       row_at so_passport_id (pp_id p) (snapshot_outbox db') = row_at so_passport_id (pp_id p) (snapshot_outbox db))"
proof -
  let ?ob = "snapshot_outbox db" and ?now = "now_at env (tick db)"
  note look = sweep_lookup [OF assms(1,3,4)] and picked = sweep_ids_iff [OF assms(2,5), of limit]
  show ?thesis
  proof (intro conjI impI)
    show "\<exists>m. res = Inr m" using look(1) by blast
    show "row_at so_passport_id (pp_id p) (snapshot_outbox db') = row_at so_passport_id (pp_id p) ?ob"
      if "\<not> divergent ?ob p"
    proof -
      have out: "pp_id p \<notin> set (sweep_ids limit db)" using that picked sweep_picked by blast
      then have "row_at so_passport_id (pp_id p) (sweep_fresh env limit db) = None"
        by (auto simp: row_at_None new_reconcile_def dest!: set_zip_rightD)
      with look(2) out show ?thesis by (auto split: option.splits)
    qed
    show "opt_holds (\<lambda>s. so_status s = ''pending'' \<and> so_attempts s = 0 \<and> so_next_attempt_at s = ?now)
         (row_at so_passport_id (pp_id p) (snapshot_outbox db'))"
      if "divergent ?ob p" "length (passport db) \<le> limit"
    proof -
      have in': "pp_id p \<in> set (sweep_ids limit db)"
        using picked sweep_picks_all [OF that(2) assms(5) that(1)] by blast
      show ?thesis
      proof (cases "row_at so_passport_id (pp_id p) ?ob")
        case (Some s)
        with look(2) in' show ?thesis by (simp add: rearm_row_def)
      next
        case None
        then have "pp_id p \<in> set (sweep_missing limit db)" using in' by (simp add: row_at_None)
        from fresh_reconcile_at [OF this, of ?now "uuid_at env (tick db)" 0] None look(2) show ?thesis by simp
      qed
    qed
  qed
qed

theorem snapshot_sweep_effect_witness:
  "opt_holds (\<lambda>s. so_status s = ''pending'') (row_at so_passport_id 7
     (snapshot_outbox (snd (snapshot_enqueue_divergent sample_env 5 (sample_tier\<lparr>snapshot_outbox := []\<rparr>)))))"
proof -
  let ?db = "sample_tier\<lparr>snapshot_outbox := []\<rparr>"
  obtain res db' where s: "snapshot_enqueue_divergent sample_env 5 ?db = (res, db')" by fastforce
  have "keys_ok ?db" using sample_tier_keys by (simp add: keys_ok_def)
  moreover have "distinct (map so_id (snapshot_outbox ?db) @ map (uuid_at sample_env (tick ?db)) [0..<length (passport ?db)])"
    by (simp add: sample_tier_simps)
  moreover have "sample_passport ''active'' 0 \<in> set (passport ?db)" by (simp add: sample_tier_simps)
  ultimately show ?thesis
    using snapshot_sweep_effect [OF sample_env_ok(1) _ _ s, of "sample_passport ''active'' 0"]
    by (auto simp: s divergent_def sample_passport_def opt_holds_def sample_tier_simps split: option.splits)
qed

text \<open>
  The refresh renews less than the tier holds. A deactivated passport
  that was published is served, so the drain stores a snapshot of it that stops vouching
  for itself after seven days; but the refresh only re-arms rows of active passports, so
  whatever its threshold and limit it never renews that one, and the snapshot of a
  passport the node still serves lapses.
\<close>

theorem snapshot_refresh_misses_served:
  assumes "keys_ok db" and "s \<in> set (snapshot_outbox db)"
    and "row_at pp_id (so_passport_id s) (passport db) = Some p" and "pp_status p \<noteq> ''active''"
  shows "serves_publicly \<lparr>p_status = Deactivated, p_published_at = t\<rparr> \<and>
    s \<in> set (snapshot_outbox (snd (snapshot_enqueue_stale env older_than limit db)))"
proof -
  let ?st = "filter (stale_row (now_at env (tick db)) older_than (passport db)) (snapshot_outbox db)"
  let ?picked = "map so_id (take limit (sort_key (\<lambda>s. case so_reconciled_at s of Some t \<Rightarrow> t | None \<Rightarrow> 0) ?st))"
  have "\<not> stale_row (now_at env (tick db)) older_than (passport db) s"
    using assms(3,4) by (simp add: stale_row_def)
  moreover have "inj_on so_id (set (snapshot_outbox db))" using assms(1) by (simp add: keys_ok_def distinct_map)
  ultimately have "so_id s \<notin> set ?picked"
    using assms(2) by (auto dest!: in_set_takeD dest: inj_onD)
  then show ?thesis
    using assms(2)
    by (cases "fault_at env (tick db)")
      (auto simp: serves_publicly_def snapshot_enqueue_stale_def Let_def set_upd_where image_iff)
qed

theorem snapshot_refresh_misses_served_witness:
  "reconciled_row 0 0 (new_reconcile 0 51 7) \<in> set (snapshot_outbox (snd (snapshot_enqueue_stale sample_env 86400 100
     (empty_db\<lparr>tick := 700000, passport := [sample_passport ''deactivated'' 0],
        snapshot_outbox := [reconciled_row 0 0 (new_reconcile 0 51 7)]\<rparr>))))"
proof -
  let ?db = "empty_db\<lparr>tick := 700000, passport := [sample_passport ''deactivated'' 0],
        snapshot_outbox := [reconciled_row 0 0 (new_reconcile 0 51 7)]\<rparr>"
  have "keys_ok ?db" by (simp add: keys_ok_def empty_db_def)
  moreover have "row_at pp_id (so_passport_id (reconciled_row 0 0 (new_reconcile 0 51 7))) (passport ?db) =
      Some (sample_passport ''deactivated'' 0)" by (simp add: new_reconcile_def sample_passport_def)
  ultimately show ?thesis
    using snapshot_refresh_misses_served [of ?db "reconciled_row 0 0 (new_reconcile 0 51 7)"
        "sample_passport ''deactivated'' 0" None sample_env 86400 100]
    by (simp add: sample_passport_def)
qed

end
