(* ===== verification/Scan_Counter.thy ===== *)
theory Scan_Counter
  imports DPP_Prelude
begin

text \<open>
  The resolver's scan counter: the wire types of \<^verbatim>\<open>dpp-common/src/scan.rs\<close> and the
  accumulator with its flush of \<^verbatim>\<open>dpp-resolver/src/infra/scan_counter.rs\<close>. The hash maps are
  association lists with distinct keys, in whatever order; a day is its number. Counts are
  natural numbers: a 64-bit counter cannot be reached by increments of one. The whole life
  of a counter is a sequence of operations, \<open>scan_step\<close>, with a ghost record of what was
  recorded, dropped, sent and resolved.
\<close>

subsection \<open>Wire types\<close>

type_synonym day = int

datatype ScanVariant = Html | Json

fun variant_as_db :: "ScanVariant \<Rightarrow> string" where
  "variant_as_db Html = ''html''"
| "variant_as_db Json = ''json''"

record ScanBatchEntry =
  sbe_dpp_id :: string
  sbe_day :: day
  sbe_variant :: ScanVariant
  sbe_count :: nat

record QrRenderBatchEntry =
  qre_dpp_id :: string
  qre_day :: day
  qre_count :: nat

record ScanBatch =
  sb_scans :: "ScanBatchEntry list"
  sb_qr_renders :: "QrRenderBatchEntry list"
  sb_flush_interval_secs :: "nat option"

definition batch_is_empty :: "ScanBatch \<Rightarrow> bool" where
  "batch_is_empty b \<longleftrightarrow> sb_scans b = [] \<and> sb_qr_renders b = []"

subsection \<open>The accumulator\<close>

definition MAX_TRACKED_KEYS :: nat where
  "MAX_TRACKED_KEYS = 50000"

record KeyedBatch =
  kb_id :: uuid
  kb_batch :: ScanBatch

type_synonym scan_key = "string \<times> day \<times> ScanVariant"
type_synonym qr_key = "string \<times> day"

record ScanCounter =
  sc_scans :: "(scan_key \<times> nat) list"
  sc_qr_renders :: "(qr_key \<times> nat) list"
  sc_pending :: "KeyedBatch option"
  sc_flush_interval_secs :: "nat option"

definition with_flush_interval :: "nat \<Rightarrow> ScanCounter" where
  "with_flush_interval secs =
     \<lparr>sc_scans = [], sc_qr_renders = [], sc_pending = None, sc_flush_interval_secs = Some secs\<rparr>"

text \<open>The increment of one key: counted, started, or dropped at capacity.\<close>

definition bump_count :: "('k \<times> nat) list \<Rightarrow> 'k \<Rightarrow> ('k \<times> nat) list" where
  "bump_count m key =
     (case map_of m key of
        Some _ \<Rightarrow> map (\<lambda>(k, c). if k = key then (k, c + 1) else (k, c)) m
      | None \<Rightarrow> if length m < MAX_TRACKED_KEYS then m @ [(key, 1)] else m)"

definition record_scan :: "day \<Rightarrow> string \<Rightarrow> ScanVariant \<Rightarrow> ScanCounter \<Rightarrow> ScanCounter" where
  "record_scan today dpp_id variant sc =
     sc\<lparr>sc_scans := bump_count (sc_scans sc) (dpp_id, today, variant)\<rparr>"

definition record_qr_render :: "day \<Rightarrow> string \<Rightarrow> ScanCounter \<Rightarrow> ScanCounter" where
  "record_qr_render today dpp_id sc =
     sc\<lparr>sc_qr_renders := bump_count (sc_qr_renders sc) (dpp_id, today)\<rparr>"

definition counter_drain :: "ScanCounter \<Rightarrow> ScanBatch \<times> ScanCounter" where
  "counter_drain sc =
     (\<lparr>sb_scans = map (\<lambda>((dpp_id, d, variant), c).
         \<lparr>sbe_dpp_id = dpp_id, sbe_day = d, sbe_variant = variant, sbe_count = c\<rparr>) (sc_scans sc),
       sb_qr_renders = map (\<lambda>((dpp_id, d), c). \<lparr>qre_dpp_id = dpp_id, qre_day = d, qre_count = c\<rparr>) (sc_qr_renders sc),
       sb_flush_interval_secs = sc_flush_interval_secs sc\<rparr>,
      sc\<lparr>sc_scans := [], sc_qr_renders := []\<rparr>)"

definition next_flush :: "uuid \<Rightarrow> ScanCounter \<Rightarrow> KeyedBatch \<times> ScanCounter" where
  "next_flush new_id sc =
     (case sc_pending sc of
        Some held \<Rightarrow> (held, sc)
      | None \<Rightarrow> (case counter_drain sc of (b, sc') \<Rightarrow> (\<lparr>kb_id = new_id, kb_batch = b\<rparr>, sc')))"

definition hold :: "KeyedBatch \<Rightarrow> ScanCounter \<Rightarrow> ScanCounter" where
  "hold kb sc = (if batch_is_empty (kb_batch kb) then sc else sc\<lparr>sc_pending := Some kb\<rparr>)"

definition clear_pending :: "ScanCounter \<Rightarrow> ScanCounter" where
  "clear_pending sc = sc\<lparr>sc_pending := None\<rparr>"

definition has_pending :: "ScanCounter \<Rightarrow> bool" where
  "has_pending sc \<longleftrightarrow> sc_pending sc \<noteq> None"

text \<open>
  What a send comes back with: a status, or a failure after which nothing is known. The
  match on it, given the batch that was sent.
\<close>

datatype send_result = Answered nat | SendFailed

definition settle_flush :: "KeyedBatch \<Rightarrow> send_result \<Rightarrow> ScanCounter \<Rightarrow> ScanCounter" where
  "settle_flush keyed result sc =
     (case result of
        Answered status \<Rightarrow>
          if 200 \<le> status \<and> status < 300 then clear_pending sc
          else if 400 \<le> status \<and> status < 500 then
            (if status = 409 then hold keyed sc else clear_pending sc)
          else hold keyed sc
      | SendFailed \<Rightarrow> hold keyed sc)"

text \<open>
  One flush: \<open>send\<close> is the POST with the batch's identifier as its idempotency key, on
  whatever state is at the other end.
\<close>

definition flush_once ::
  "(KeyedBatch \<Rightarrow> 's \<Rightarrow> send_result \<times> 's) \<Rightarrow> uuid \<Rightarrow> ScanCounter \<times> 's \<Rightarrow> ScanCounter \<times> 's" where
  "flush_once send new_id st =
     (case next_flush new_id (fst st) of
        (keyed, sc') \<Rightarrow>
          (case send keyed (snd st) of (result, s') \<Rightarrow> (settle_flush keyed result sc', s')))"

subsection \<open>What a batch counts\<close>

definition batch_scans :: "ScanBatch \<Rightarrow> scan_key \<Rightarrow> nat" where
  "batch_scans b key =
     sum_list (map sbe_count (filter (\<lambda>e. (sbe_dpp_id e, sbe_day e, sbe_variant e) = key) (sb_scans b)))"

definition batch_qr :: "ScanBatch \<Rightarrow> qr_key \<Rightarrow> nat" where
  "batch_qr b key =
     sum_list (map qre_count (filter (\<lambda>e. (qre_dpp_id e, qre_day e) = key) (sb_qr_renders b)))"

definition live :: "('k \<times> nat) list \<Rightarrow> 'k \<Rightarrow> nat" where
  "live m key = (case map_of m key of Some c \<Rightarrow> c | None \<Rightarrow> 0)"

text \<open>Whether the accumulator has room for a key, or drops its increment.\<close>

definition tracked :: "('k \<times> nat) list \<Rightarrow> 'k \<Rightarrow> bool" where
  "tracked m key \<longleftrightarrow> map_of m key \<noteq> None \<or> length m < MAX_TRACKED_KEYS"

lemma bump_count_keys:
  assumes "distinct (map fst m)"
  shows "distinct (map fst (bump_count m key))"
proof -
  have "map fst (map (\<lambda>(k, c). if k = key then (k, c + 1) else (k, c)) m) = map fst m" by (induction m) auto
  then show ?thesis
    using assms by (auto simp: bump_count_def map_of_eq_None_iff simp del: map_map split: option.splits)
qed

lemma bump_count_live:
  "live (bump_count m key) k = live m k + (if k = key \<and> tracked m key then 1 else 0)"
proof (cases "map_of m key")
  case None
  then show ?thesis
    by (auto simp: bump_count_def live_def tracked_def map_add_def split: option.splits)
next
  case (Some c)
  have "map_of (map (\<lambda>(k, c). if k = key then (k, c + 1) else (k, c)) m) k =
      map_option (\<lambda>c. if k = key then c + 1 else c) (map_of m k)"
    by (induction m) auto
  then show ?thesis using Some
    by (auto simp: bump_count_def live_def tracked_def split: option.splits)
qed

lemma sum_filter_key:
  assumes "distinct (map fst m)"
  shows "sum_list (map snd (filter (\<lambda>e. fst e = k) m)) = live m k"
  using assms
proof (induction m)
  case (Cons e m)
  have "filter (\<lambda>x. fst x = fst e) m = []" using Cons.prems by (auto simp: filter_empty_conv rev_image_eqI)
  with Cons show ?case by (cases e) (auto simp: live_def split: option.splits)
qed (simp add: live_def)

lemma counter_drain_counts:
  assumes "distinct (map fst (sc_scans sc))" and "distinct (map fst (sc_qr_renders sc))"
  shows "batch_scans (fst (counter_drain sc)) k = live (sc_scans sc) k"
    and "batch_qr (fst (counter_drain sc)) q = live (sc_qr_renders sc) q"
proof -
  have "batch_scans (fst (counter_drain sc)) k = sum_list (map snd (filter (\<lambda>e. fst e = k) (sc_scans sc)))"
    by (simp add: batch_scans_def counter_drain_def filter_map o_def split_def)
  then show "batch_scans (fst (counter_drain sc)) k = live (sc_scans sc) k"
    using sum_filter_key [OF assms(1)] by simp
  have "batch_qr (fst (counter_drain sc)) q = sum_list (map snd (filter (\<lambda>e. fst e = q) (sc_qr_renders sc)))"
    by (simp add: batch_qr_def counter_drain_def filter_map o_def split_def)
  then show "batch_qr (fst (counter_drain sc)) q = live (sc_qr_renders sc) q"
    using sum_filter_key [OF assms(2)] by simp
qed

subsection \<open>The life of a counter\<close>

text \<open>
  The counter with the ghost record of its life: how often each key was recorded and
  dropped, every batch that was sent, and those whose sending was settled for good (the node
  confirmed it, or rejected it permanently). The flush loop sends one batch at a time, the
  one \<open>in_flight\<close>; scans go on being recorded while it waits for the answer. A flush
  takes a fresh identifier, and any result may come back from it.
\<close>

record scan_life =
  counter :: ScanCounter
  in_flight :: "KeyedBatch option"
  recorded :: "scan_key \<Rightarrow> nat"
  qr_recorded :: "qr_key \<Rightarrow> nat"
  dropped :: "scan_key \<Rightarrow> nat"
  qr_dropped :: "qr_key \<Rightarrow> nat"
  sent :: "KeyedBatch list"
  resolved :: "KeyedBatch list"

definition new_life :: "nat \<Rightarrow> scan_life" where
  "new_life secs = \<lparr>counter = with_flush_interval secs, in_flight = None, recorded = (\<lambda>_. 0), qr_recorded = (\<lambda>_. 0),
     dropped = (\<lambda>_. 0), qr_dropped = (\<lambda>_. 0), sent = [], resolved = []\<rparr>"

definition is_final :: "send_result \<Rightarrow> bool" where
  "is_final result =
     (case result of Answered status \<Rightarrow>
        (200 \<le> status \<and> status < 300) \<or> (400 \<le> status \<and> status < 500 \<and> status \<noteq> 409)
      | SendFailed \<Rightarrow> False)"

definition tally :: "('k \<Rightarrow> nat) \<Rightarrow> 'k \<Rightarrow> bool \<Rightarrow> 'k \<Rightarrow> nat" where
  "tally f key yes k = f k + (if k = key \<and> yes then 1 else 0)"

definition scan_life_scan :: "day \<Rightarrow> string \<Rightarrow> ScanVariant \<Rightarrow> scan_life \<Rightarrow> scan_life" where
  "scan_life_scan today dpp_id variant g = g\<lparr>counter := record_scan today dpp_id variant (counter g),
     recorded := tally (recorded g) (dpp_id, today, variant) True,
     dropped := tally (dropped g) (dpp_id, today, variant)
       (\<not> tracked (sc_scans (counter g)) (dpp_id, today, variant))\<rparr>"

definition scan_life_qr :: "day \<Rightarrow> string \<Rightarrow> scan_life \<Rightarrow> scan_life" where
  "scan_life_qr today dpp_id g = g\<lparr>counter := record_qr_render today dpp_id (counter g),
     qr_recorded := tally (qr_recorded g) (dpp_id, today) True,
     qr_dropped := tally (qr_dropped g) (dpp_id, today)
       (\<not> tracked (sc_qr_renders (counter g)) (dpp_id, today))\<rparr>"

definition scan_life_start :: "uuid \<Rightarrow> scan_life \<Rightarrow> scan_life" where
  "scan_life_start new_id g =
     (case next_flush new_id (counter g) of (keyed, sc') \<Rightarrow>
        g\<lparr>counter := sc', in_flight := Some keyed, sent := sent g @ [keyed]\<rparr>)"

definition scan_life_end :: "KeyedBatch \<Rightarrow> send_result \<Rightarrow> scan_life \<Rightarrow> scan_life" where
  "scan_life_end keyed result g = g\<lparr>counter := settle_flush keyed result (counter g), in_flight := None,
     resolved := (if is_final result then resolved g @ [keyed] else resolved g)\<rparr>"

inductive scan_step :: "scan_life \<Rightarrow> scan_life \<Rightarrow> bool" where
  scan: "scan_step g (scan_life_scan today dpp_id variant g)"
| qr: "scan_step g (scan_life_qr today dpp_id g)"
| start: "in_flight g = None \<Longrightarrow> new_id \<notin> kb_id ` set (sent g) \<Longrightarrow> scan_step g (scan_life_start new_id g)"
| settle: "in_flight g = Some keyed \<Longrightarrow> scan_step g (scan_life_end keyed result g)"

inductive_cases scan_stepE: "scan_step g g'"

text \<open>A flush is a start and its settling, whatever the other end does.\<close>

lemma flush_once_steps:
  assumes "in_flight g = None" and "new_id \<notin> kb_id ` set (sent g)"
  shows "\<exists>g'. scan_step\<^sup>*\<^sup>* g g' \<and> counter g' = fst (flush_once send new_id (counter g, s)) \<and> in_flight g' = None"
proof -
  obtain keyed sc' where n: "next_flush new_id (counter g) = (keyed, sc')" by fastforce
  obtain result s' where r: "send keyed s = (result, s')" by fastforce
  let ?h = "scan_life_start new_id g"
  have h: "in_flight ?h = Some keyed" "counter ?h = sc'" by (simp_all add: scan_life_start_def n)
  then have "scan_step\<^sup>*\<^sup>* g (scan_life_end keyed result ?h)"
    using scan_step.start [OF assms] scan_step.settle [OF h(1)]
    by (blast intro: r_into_rtranclp rtranclp.rtrancl_into_rtrancl)
  moreover have "counter (scan_life_end keyed result ?h) = fst (flush_once send new_id (counter g, s))"
    by (simp add: scan_life_end_def h(2) flush_once_def n r)
  moreover have "in_flight (scan_life_end keyed result ?h) = None" by (simp add: scan_life_end_def)
  ultimately show ?thesis by blast
qed

text \<open>What is counted somewhere: in the live maps, in the batch being delivered, in a settled one.\<close>

definition in_batch :: "(ScanBatch \<Rightarrow> 'k \<Rightarrow> nat) \<Rightarrow> KeyedBatch option \<Rightarrow> 'k \<Rightarrow> nat" where
  "in_batch f held k = (case held of None \<Rightarrow> 0 | Some kb \<Rightarrow> f (kb_batch kb) k)"

definition outstanding :: "scan_life \<Rightarrow> KeyedBatch option" where
  "outstanding g = (case in_flight g of Some kb \<Rightarrow> Some kb | None \<Rightarrow> sc_pending (counter g))"

definition in_resolved :: "(ScanBatch \<Rightarrow> 'k \<Rightarrow> nat) \<Rightarrow> scan_life \<Rightarrow> 'k \<Rightarrow> nat" where
  "in_resolved f g k = sum_list (map (\<lambda>kb. f (kb_batch kb) k) (resolved g))"

definition counts_ok :: "scan_life \<Rightarrow> bool" where
  "counts_ok g \<longleftrightarrow>
     (\<forall>k. recorded g k = live (sc_scans (counter g)) k + in_batch batch_scans (outstanding g) k +
        in_resolved batch_scans g k + dropped g k) \<and>
     (\<forall>k. qr_recorded g k = live (sc_qr_renders (counter g)) k + in_batch batch_qr (outstanding g) k +
        in_resolved batch_qr g k + qr_dropped g k)"

definition ids_unique :: "KeyedBatch list \<Rightarrow> bool" where
  "ids_unique kbs \<longleftrightarrow> (\<forall>a \<in> set kbs. \<forall>b \<in> set kbs. kb_id a = kb_id b \<longrightarrow> a = b)"

definition ids_ok :: "scan_life \<Rightarrow> bool" where
  "ids_ok g \<longleftrightarrow>
     ids_unique (sent g) \<and> set (resolved g) \<subseteq> set (sent g) \<and> distinct (map kb_id (resolved g)) \<and>
     (\<forall>kb. outstanding g = Some kb \<longrightarrow> kb \<in> set (sent g) \<and> kb_id kb \<notin> kb_id ` set (resolved g)) \<and>
     (\<forall>kb. sc_pending (counter g) = Some kb \<longrightarrow> outstanding g = Some kb \<and> \<not> batch_is_empty (kb_batch kb))"

definition maps_ok :: "scan_life \<Rightarrow> bool" where
  "maps_ok g \<longleftrightarrow> distinct (map fst (sc_scans (counter g))) \<and> distinct (map fst (sc_qr_renders (counter g))) \<and>
     length (sc_scans (counter g)) \<le> MAX_TRACKED_KEYS \<and> length (sc_qr_renders (counter g)) \<le> MAX_TRACKED_KEYS"

lemma ids_unique_again: "ids_unique kbs \<Longrightarrow> kb \<in> set kbs \<Longrightarrow> ids_unique (kbs @ [kb])"
  by (auto simp: ids_unique_def)

lemma ids_unique_fresh: "ids_unique kbs \<Longrightarrow> kb_id kb \<notin> kb_id ` set kbs \<Longrightarrow> ids_unique (kbs @ [kb])"
  unfolding ids_unique_def by (simp, metis image_eqI)

lemma bump_count_length: "length m \<le> MAX_TRACKED_KEYS \<Longrightarrow> length (bump_count m key) \<le> MAX_TRACKED_KEYS"
  by (auto simp: bump_count_def split: option.splits)

lemma settle_flush_maps [simp]:
  "sc_scans (settle_flush keyed result sc) = sc_scans sc"
  "sc_qr_renders (settle_flush keyed result sc) = sc_qr_renders sc"
  by (simp_all add: settle_flush_def hold_def clear_pending_def split: send_result.splits)

lemma settle_flush_pending:
  "sc_pending (settle_flush keyed result sc) =
     (if is_final result then None
      else if batch_is_empty (kb_batch keyed) then sc_pending sc else Some keyed)"
  by (auto simp: settle_flush_def hold_def clear_pending_def is_final_def split: send_result.splits)

lemmas scan_life_defs = scan_life_scan_def scan_life_qr_def scan_life_start_def scan_life_end_def
  record_scan_def record_qr_render_def next_flush_def counter_drain_def

lemma scan_life_records [simp]:
  "outstanding (scan_life_scan today dpp_id variant g) = outstanding g"
  "outstanding (scan_life_qr today dpp_id g) = outstanding g"
  "in_resolved f (scan_life_scan today dpp_id variant g) = in_resolved f g"
  "in_resolved f (scan_life_qr today dpp_id g) = in_resolved f g"
  by (auto simp: outstanding_def in_resolved_def scan_life_defs fun_eq_iff split: option.splits)

lemma scan_step_maps: "scan_step g g' \<Longrightarrow> maps_ok g \<Longrightarrow> maps_ok g'"
  by (erule scan_stepE)
    (auto simp: maps_ok_def scan_life_defs bump_count_keys bump_count_length split: option.splits)

lemma empty_batch_counts: "batch_is_empty b \<Longrightarrow> batch_scans b k = 0 \<and> batch_qr b q = 0"
  by (simp add: batch_is_empty_def batch_scans_def batch_qr_def)

lemma scan_step_ids:
  assumes "scan_step g g'" and "ids_ok g"
  shows "ids_ok g'"
  using assms(1)
proof cases
  case (start new_id)
  have out: "outstanding g = sc_pending (counter g)" using start by (simp add: outstanding_def)
  show ?thesis
  proof (cases "sc_pending (counter g)")
    case None
    with start have "g' = g\<lparr>counter := snd (counter_drain (counter g)), in_flight := Some \<lparr>kb_id = new_id, kb_batch = fst (counter_drain (counter g))\<rparr>,
        sent := sent g @ [\<lparr>kb_id = new_id, kb_batch = fst (counter_drain (counter g))\<rparr>]\<rparr>"
      by (simp add: scan_life_start_def next_flush_def split_def)
    moreover have "sc_pending (snd (counter_drain (counter g))) = None" using None by (simp add: counter_drain_def)
    ultimately show ?thesis
      using assms(2) start(3) by (auto simp: ids_ok_def outstanding_def intro!: ids_unique_fresh)
  next
    case (Some held)
    with start have "g' = g\<lparr>in_flight := Some held, sent := sent g @ [held]\<rparr>"
      by (simp add: scan_life_start_def next_flush_def)
    then show ?thesis
      using assms(2) Some out by (auto simp: ids_ok_def outstanding_def intro!: ids_unique_again)
  qed
next
  case (settle keyed result)
  then have out: "outstanding g = Some keyed" by (simp add: outstanding_def)
  then have k: "keyed \<in> set (sent g)" "kb_id keyed \<notin> kb_id ` set (resolved g)"
    "sc_pending (counter g) = None \<or> sc_pending (counter g) = Some keyed \<and> \<not> batch_is_empty (kb_batch keyed)"
    using assms(2) by (auto simp: ids_ok_def)
  let ?g = "scan_life_end keyed result g"
  have "outstanding ?g = sc_pending (counter ?g)" by (simp add: scan_life_end_def outstanding_def)
  moreover have "sc_pending (counter ?g) = Some kb \<Longrightarrow> kb = keyed \<and> \<not> is_final result \<and> \<not> batch_is_empty (kb_batch kb)" for kb
    using k(3) by (auto simp: scan_life_end_def settle_flush_pending split: if_splits)
  moreover have "set (resolved ?g) \<subseteq> set (sent ?g) \<and> distinct (map kb_id (resolved ?g))"
    using k(1,2) assms(2) by (auto simp: scan_life_end_def ids_ok_def)
  moreover have "sent ?g = sent g" and "\<not> is_final result \<Longrightarrow> resolved ?g = resolved g"
    by (simp_all add: scan_life_end_def)
  ultimately have "ids_ok ?g"
    using assms(2) k(1,2) unfolding ids_ok_def by (metis (no_types, lifting))
  then show ?thesis using settle by simp
qed (use assms(2) in \<open>auto simp: ids_ok_def scan_life_defs outstanding_def split: option.splits\<close>)

lemma drained_counts:
  assumes "maps_ok g" and "sc_pending (counter g) = None" and "next_flush new_id (counter g) = (keyed, sc')"
  shows "batch_scans (kb_batch keyed) k = live (sc_scans (counter g)) k"
    and "batch_qr (kb_batch keyed) q = live (sc_qr_renders (counter g)) q"
proof -
  have "kb_batch keyed = fst (counter_drain (counter g))" using assms(2,3) by (auto simp: next_flush_def split_def)
  then show "batch_scans (kb_batch keyed) k = live (sc_scans (counter g)) k"
    and "batch_qr (kb_batch keyed) q = live (sc_qr_renders (counter g)) q"
    using assms(1) by (simp_all add: maps_ok_def counter_drain_counts)
qed

lemma scan_step_counts:
  assumes "scan_step g g'" and "counts_ok g" and "maps_ok g" and "ids_ok g"
  shows "counts_ok g'"
  using assms(1)
proof cases
  case (scan today dpp_id variant)
  then show ?thesis
    using assms(2)
    by (simp add: counts_ok_def) (simp add: scan_life_defs bump_count_live tally_def)
next
  case (qr today dpp_id)
  then show ?thesis
    using assms(2)
    by (simp add: counts_ok_def) (simp add: scan_life_defs bump_count_live tally_def)
next
  case (start new_id)
  obtain keyed sc' where n: "next_flush new_id (counter g) = (keyed, sc')" by fastforce
  have out: "outstanding g = sc_pending (counter g)" using start by (simp add: outstanding_def)
  have g': "g' = g\<lparr>counter := sc', in_flight := Some keyed, sent := sent g @ [keyed]\<rparr>"
    using start by (simp add: scan_life_start_def n)
  show ?thesis
  proof (cases "sc_pending (counter g)")
    case None
    have "sc_scans sc' = []" "sc_qr_renders sc' = []"
      using n None by (auto simp: next_flush_def counter_drain_def)
    then show ?thesis
      using assms(2) None out
      by (simp add: g' counts_ok_def outstanding_def in_batch_def in_resolved_def live_def
          drained_counts [OF assms(3) None n])
  next
    case (Some held)
    then have "keyed = held" "sc' = counter g" using n by (auto simp: next_flush_def)
    then show ?thesis
      using assms(2) Some out by (simp add: g' counts_ok_def outstanding_def in_batch_def in_resolved_def)
  qed
next
  case (settle keyed result)
  have "outstanding g = Some keyed" using settle by (simp add: outstanding_def)
  then show ?thesis
    using assms(2,4) settle empty_batch_counts [of "kb_batch keyed"]
    by (auto simp: counts_ok_def ids_ok_def scan_life_end_def outstanding_def in_batch_def in_resolved_def
        settle_flush_pending split: option.splits)
qed

lemma new_life_ok: "counts_ok (new_life secs)" "maps_ok (new_life secs)" "ids_ok (new_life secs)"
  by (simp_all add: new_life_def with_flush_interval_def counts_ok_def maps_ok_def ids_ok_def ids_unique_def live_def
      outstanding_def in_batch_def in_resolved_def)

lemma scan_life_invariant:
  assumes "scan_step\<^sup>*\<^sup>* (new_life secs) g"
  shows "counts_ok g \<and> maps_ok g \<and> ids_ok g"
  using assms
proof (induction rule: rtranclp_induct)
  case base
  then show ?case by (simp add: new_life_ok)
next
  case (step y z)
  then show ?case by (blast intro: scan_step_counts scan_step_maps scan_step_ids)
qed

lemma scan_run_steps:
  "scan_step\<^sup>*\<^sup>* g0 g \<Longrightarrow> scan_step\<^sup>*\<^sup>* g0 (scan_life_scan today dpp_id variant g)"
  "scan_step\<^sup>*\<^sup>* g0 g \<Longrightarrow> scan_step\<^sup>*\<^sup>* g0 (scan_life_qr today dpp_id g)"
  "scan_step\<^sup>*\<^sup>* g0 g \<Longrightarrow> in_flight g = None \<Longrightarrow> new_id \<notin> kb_id ` set (sent g) \<Longrightarrow>
   scan_step\<^sup>*\<^sup>* g0 (scan_life_start new_id g)"
  "scan_step\<^sup>*\<^sup>* g0 g \<Longrightarrow> in_flight g = Some keyed \<Longrightarrow> scan_step\<^sup>*\<^sup>* g0 (scan_life_end keyed result g)"
  by (blast intro: rtranclp.rtrancl_into_rtrancl scan_step.intros)+

text \<open>A life to look at: two scans, a flush whose answer is lost while a third arrives, and its resend.\<close>

definition sample_scan_key :: scan_key where
  "sample_scan_key = (''p1'', 20000, Html)"

definition sample_scan_batch :: KeyedBatch where
  "sample_scan_batch = \<lparr>kb_id = 7, kb_batch = \<lparr>sb_scans = [\<lparr>sbe_dpp_id = ''p1'', sbe_day = 20000, sbe_variant = Html, sbe_count = 2\<rparr>],
     sb_qr_renders = [], sb_flush_interval_secs = Some 300\<rparr>\<rparr>"

definition sample_scan_life :: scan_life where
  "sample_scan_life =
     scan_life_end sample_scan_batch (Answered 204) (scan_life_start 8
       (scan_life_end sample_scan_batch SendFailed (scan_life_scan 20000 ''p1'' Html (scan_life_start 7
         (scan_life_scan 20000 ''p1'' Html (scan_life_scan 20000 ''p1'' Html (new_life 300)))))))"

lemmas sample_scan_defs = sample_scan_life_def sample_scan_batch_def sample_scan_key_def scan_life_defs new_life_def
  with_flush_interval_def bump_count_def tally_def tracked_def MAX_TRACKED_KEYS_def settle_flush_def hold_def
  clear_pending_def is_final_def batch_is_empty_def

lemma sample_scan_life_run: "scan_step\<^sup>*\<^sup>* (new_life 300) sample_scan_life"
  unfolding sample_scan_life_def
  by (intro scan_run_steps rtranclp.rtrancl_refl) (simp_all add: sample_scan_defs)

text \<open>
  Property C31 (invariant). Through any interleaving of scans, QR renders and flushes with
  whatever answers, every recorded count is in exactly one place: still in the live map, in
  the one batch being delivered, in a batch that was settled, or among the increments the
  capacity bound dropped. The maps never exceed \<open>MAX_TRACKED_KEYS\<close> keys.
\<close>

theorem scan_counts_conserved:
  assumes "scan_step\<^sup>*\<^sup>* (new_life secs) g"
  shows "recorded g k = live (sc_scans (counter g)) k + in_batch batch_scans (outstanding g) k +
      in_resolved batch_scans g k + dropped g k \<and>
    qr_recorded g q = live (sc_qr_renders (counter g)) q + in_batch batch_qr (outstanding g) q +
      in_resolved batch_qr g q + qr_dropped g q \<and>
    length (sc_scans (counter g)) \<le> MAX_TRACKED_KEYS \<and> length (sc_qr_renders (counter g)) \<le> MAX_TRACKED_KEYS"
  using scan_life_invariant [OF assms] unfolding counts_ok_def maps_ok_def by blast

theorem scan_counts_conserved_witness:
  "recorded sample_scan_life sample_scan_key = 3 \<and> in_resolved batch_scans sample_scan_life sample_scan_key = 2 \<and>
   live (sc_scans (counter sample_scan_life)) sample_scan_key = 1 \<and>
   recorded sample_scan_life sample_scan_key = live (sc_scans (counter sample_scan_life)) sample_scan_key +
     in_batch batch_scans (outstanding sample_scan_life) sample_scan_key +
     in_resolved batch_scans sample_scan_life sample_scan_key + dropped sample_scan_life sample_scan_key"
  using scan_counts_conserved [OF sample_scan_life_run, of sample_scan_key]
  by (simp add: sample_scan_defs in_resolved_def batch_scans_def live_def)

text \<open>
  A batch goes back unchanged: two sends under one identifier carry the
  same batch, so a resend is recognisable; no batch is settled twice; and the batch held for
  the next tick is one that was sent and not settled, and is never empty, so it cannot starve
  the counter.
\<close>

theorem scan_resend_identical:
  assumes "scan_step\<^sup>*\<^sup>* (new_life secs) g"
  shows "(\<forall>a \<in> set (sent g). \<forall>b \<in> set (sent g). kb_id a = kb_id b \<longrightarrow> a = b) \<and>
    distinct (map kb_id (resolved g)) \<and>
    (\<forall>kb. sc_pending (counter g) = Some kb \<longrightarrow>
      kb \<in> set (sent g) \<and> kb_id kb \<notin> kb_id ` set (resolved g) \<and> \<not> batch_is_empty (kb_batch kb))"
  using scan_life_invariant [OF assms] unfolding ids_ok_def ids_unique_def by metis

theorem scan_resend_identical_witness:
  "length (sent sample_scan_life) = 2 \<and> sent sample_scan_life ! 0 = sent sample_scan_life ! 1 \<and>
   distinct (map kb_id (resolved sample_scan_life)) \<and> length (resolved sample_scan_life) = 1"
proof -
  have len: "length (sent sample_scan_life) = 2" "length (resolved sample_scan_life) = 1"
    "kb_id (sent sample_scan_life ! 0) = kb_id (sent sample_scan_life ! 1)"
    by (simp_all add: sample_scan_defs)
  have "sent sample_scan_life ! 0 = sent sample_scan_life ! 1"
    using scan_resend_identical [OF sample_scan_life_run] len by (metis nth_mem one_less_numeral_iff pos2 semiring_norm(76))
  then show ?thesis using len scan_resend_identical [OF sample_scan_life_run] by simp
qed

end
