(* ===== verification/Idempotency.thy ===== *)
theory Idempotency
  imports Statements
begin

text \<open>
  Idempotency keys, store side: the routes that accept a key
  (\<^verbatim>\<open>dpp-common/src/idempotency/policy.rs\<close>), the records that cross the port
  (\<^verbatim>\<open>store.rs\<close>) and its implementation on PostgreSQL
  (\<^verbatim>\<open>dpp-dal/src/pg/repo_idempotency.rs\<close>). A claim is two statements, and the requests of
  a node run theirs in any order: \<open>others\<close> is the step relation of everything that may
  happen in the store around one holder of a claim, and the properties hold for every
  sequence of such steps. Durations are in microseconds.
\<close>

subsection \<open>Keyed routes\<close>

record RoutePolicy =
  redact_members :: "string list"
  secret_already_delivered_marker :: bool

definition verbatim :: RoutePolicy where
  "verbatim = \<lparr>redact_members = [], secret_already_delivered_marker = False\<rparr>"

definition secret_bearing :: "string list \<Rightarrow> RoutePolicy" where
  "secret_bearing members = \<lparr>redact_members = members, secret_already_delivered_marker = True\<rparr>"

definition KEYED :: "(string \<times> string \<times> RoutePolicy) list" where
  "KEYED =
     [(''POST'', ''/vault/api/v1/dpp'', verbatim),
      (''POST'', ''/vault/api/v1/dpp/{dppId}/evidence'', verbatim),
      (''POST'', ''/vault/api/v1/plugins'', verbatim),
      (''POST'', ''/vault/api/v1/facilities'', verbatim),
      (''POST'', ''/vault/api/v1/operator-identifiers'', verbatim),
      (''POST'', ''/vault/api/v1/unsold-goods'', verbatim),
      (''POST'', ''/vault/api/v1/credentials'', verbatim),
      (''POST'', ''/vault/api/v1/api-keys'', secret_bearing [''secret'']),
      (''POST'', ''/vault/api/v1/webhooks'', secret_bearing [''secret'']),
      (''POST'', ''/integrator/api/v1/import/{productGroup}'', verbatim),
      (''POST'', ''/vault/internal/scan-batch'', verbatim)]"

definition policy_for :: "string \<Rightarrow> string \<Rightarrow> RoutePolicy option" where
  "policy_for method template =
     map_option (\<lambda>(_, _, policy). policy) (find (\<lambda>(m, p, _). m = method \<and> p = template) KEYED)"

definition keyed_routes :: "(string \<times> string) list" where
  "keyed_routes = map (\<lambda>(method, template, _). (method, template)) KEYED"

subsection \<open>The records of the port\<close>

definition DEFAULT_RETENTION :: nat where
  "DEFAULT_RETENTION = 24 * 60 * 60 * 1000000"

definition DEFAULT_LEASE :: nat where
  "DEFAULT_LEASE = 60 * 1000000"

record RequestKey =
  rk_principal :: string
  rk_method :: string
  rk_path :: string
  rk_key :: string

record StoredResponse =
  sr_status :: nat
  sr_body :: string
  sr_content_type :: "string option"

datatype ClaimToken = ClaimToken (as_uuid: uuid)

definition mint_token :: "pg_env \<Rightarrow> nat \<Rightarrow> ClaimToken" where
  "mint_token env n = ClaimToken (uuid_at env n 0)"

datatype Settled = Applied | Superseded

datatype Claim = Claimed ClaimToken | Replay StoredResponse | InFlight | FingerprintMismatch

datatype IdempotencyError = Unavailable string

subsection \<open>The PostgreSQL store\<close>

definition idem_err :: "pg_env \<Rightarrow> sqlx_error \<Rightarrow> IdempotencyError" where
  "idem_err env e = Unavailable (fmt_sqlx env e)"

definition settled :: "nat \<Rightarrow> Settled" where
  "settled rows_affected = (if rows_affected = 0 then Superseded else Applied)"

text \<open>The interval in microseconds, saturated at the largest 64-bit value.\<close>

definition as_interval :: "nat \<Rightarrow> time" where
  "as_interval d = of_nat (if d < 2 ^ 63 then d else 2 ^ 63 - 1) / 1000000"

definition idem_row_key :: "idempotency_rec \<Rightarrow> RequestKey" where
  "idem_row_key r = \<lparr>rk_principal = ik_principal r, rk_method = ik_method r, rk_path = ik_path r, rk_key = ik_key r\<rparr>"

text \<open>The row check on the fingerprint: 64 lower-case hexadecimal digits.\<close>

definition is_digest :: "string \<Rightarrow> bool" where
  "is_digest fp \<longleftrightarrow> length fp = 64 \<and>
     list_all (\<lambda>c. let n = of_char c :: nat in (48 \<le> n \<and> n \<le> 57) \<or> (97 \<le> n \<and> n \<le> 102)) fp"

text \<open>The condition of the upsert: a row past its retention, or a claim past its lease.\<close>

definition reclaimable :: "time \<Rightarrow> idempotency_rec \<Rightarrow> bool" where
  "reclaimable now r \<longleftrightarrow>
     ik_expires_at r \<le> now \<or> (ik_state r = ''in_flight'' \<and> ik_lease_expires_at r \<le> now)"

definition fresh_claim ::
  "RequestKey \<Rightarrow> string \<Rightarrow> nat \<Rightarrow> nat \<Rightarrow> ClaimToken \<Rightarrow> time \<Rightarrow> idempotency_rec" where
  "fresh_claim key fp lease retention token now =
     \<lparr>ik_principal = rk_principal key, ik_method = rk_method key, ik_path = rk_path key, ik_key = rk_key key,
      ik_fingerprint = fp, ik_state = ''in_flight'', ik_response_status = None, ik_response_body = None,
      ik_content_type = None, ik_lease_expires_at = now + as_interval lease,
      ik_expires_at = now + as_interval retention, ik_created_at = now, ik_completed_at = None,
      ik_claim_token = as_uuid token\<rparr>"

text \<open>
  The first statement of a claim, with what \<^verbatim>\<open>RETURNING\<close> says: whether a row was written.
  The row check runs on the proposed row before the conflict is looked for. The update
  sets every column of the row that is not part of its key to the proposed value, so the
  row becomes the proposed one.
\<close>

definition claim_insert ::
  "pg_env \<Rightarrow> RequestKey \<Rightarrow> string \<Rightarrow> nat \<Rightarrow> nat \<Rightarrow> ClaimToken \<Rightarrow> odal \<Rightarrow> (IdempotencyError + bool) \<times> odal" where
  "claim_insert env key fp lease retention token db =
     (let now = now_at env (tick db); r' = fresh_claim key fp lease retention token now
      in case fault_at env (tick db) of
           Some e \<Rightarrow> (Inl (idem_err env e), bump db)
         | None \<Rightarrow>
             if \<not> is_digest fp then (Inl (idem_err env check_violation), bump db)
             else case row_at idem_row_key key (idempotency_key db) of
                 None \<Rightarrow> (Inr True, bump (idempotency_key_update (\<lambda>rs. rs @ [r']) db))
               | Some r \<Rightarrow>
                   if reclaimable now r
                   then (Inr True, bump (idempotency_key_update
                          (upd_where (\<lambda>r. idem_row_key r = key) (\<lambda>_. r')) db))
                   else (Inr False, bump db))"

text \<open>What a row that could not be reclaimed says to the caller.\<close>

definition standing_claim :: "string \<Rightarrow> idempotency_rec option \<Rightarrow> Claim" where
  "standing_claim fp row =
     (case row of
        None \<Rightarrow> InFlight
      | Some r \<Rightarrow>
          if ik_fingerprint r \<noteq> fp then FingerprintMismatch
          else if ik_state r \<noteq> ''completed'' then InFlight
          else case ik_response_status r of
              None \<Rightarrow> InFlight
            | Some status \<Rightarrow>
                Replay \<lparr>sr_status = (if 0 \<le> status \<and> status < 2 ^ 16 then nat status else 500),
                  sr_body = (case ik_response_body r of Some b \<Rightarrow> b | None \<Rightarrow> []),
                  sr_content_type = ik_content_type r\<rparr>)"

definition claim_read ::
  "pg_env \<Rightarrow> RequestKey \<Rightarrow> string \<Rightarrow> odal \<Rightarrow> (IdempotencyError + Claim) \<times> odal" where
  "claim_read env key fp db =
     (case pg_lookup env (tick db) idem_row_key key (idempotency_key db) of
        Inl e \<Rightarrow> (Inl (idem_err env e), bump db)
      | Inr row \<Rightarrow> (Inr (standing_claim fp row), bump db))"

definition claim ::
  "pg_env \<Rightarrow> RequestKey \<Rightarrow> string \<Rightarrow> nat \<Rightarrow> nat \<Rightarrow> odal \<Rightarrow> (IdempotencyError + Claim) \<times> odal" where
  "claim env key fp lease retention db =
     (let token = mint_token env (tick db)
      in case claim_insert env key fp lease retention token db of
           (Inl e, db1) \<Rightarrow> (Inl e, db1)
         | (Inr True, db1) \<Rightarrow> (Inr (Claimed token), db1)
         | (Inr False, db1) \<Rightarrow> claim_read env key fp db1)"

text \<open>The condition of an outcome and of a release: the claim is still this token's.\<close>

definition held_by :: "RequestKey \<Rightarrow> ClaimToken \<Rightarrow> idempotency_rec \<Rightarrow> bool" where
  "held_by key token r \<longleftrightarrow>
     idem_row_key r = key \<and> ik_state r = ''in_flight'' \<and> ik_claim_token r = as_uuid token"

definition i16_or_500 :: "nat \<Rightarrow> int" where
  "i16_or_500 n = (if n < 2 ^ 15 then int n else 500)"

definition completed_row :: "StoredResponse \<Rightarrow> time \<Rightarrow> idempotency_rec \<Rightarrow> idempotency_rec" where
  "completed_row response now r =
     r\<lparr>ik_state := ''completed'', ik_response_status := Some (i16_or_500 (sr_status response)),
       ik_response_body := Some (sr_body response), ik_content_type := sr_content_type response,
       ik_completed_at := Some now\<rparr>"

text \<open>An outcome. The row check admits statuses from 100 to 599.\<close>

definition complete ::
  "pg_env \<Rightarrow> RequestKey \<Rightarrow> ClaimToken \<Rightarrow> StoredResponse \<Rightarrow> odal \<Rightarrow> (IdempotencyError + Settled) \<times> odal" where
  "complete env key token response db =
     (let p = held_by key token; status = i16_or_500 (sr_status response);
          n = length (filter p (idempotency_key db))
      in case fault_at env (tick db) of
           Some e \<Rightarrow> (Inl (idem_err env e), bump db)
         | None \<Rightarrow>
             if n > 0 \<and> \<not> (100 \<le> status \<and> status \<le> 599)
             then (Inl (idem_err env check_violation), bump db)
             else (Inr (settled n), bump (idempotency_key_update
                    (upd_where p (completed_row response (now_at env (tick db)))) db)))"

text \<open>\<^verbatim>\<open>DELETE ... WHERE p\<close>, with the number of rows that went.\<close>

definition pg_delete ::
  "pg_env \<Rightarrow> (idempotency_rec \<Rightarrow> bool) \<Rightarrow> odal \<Rightarrow> (IdempotencyError + nat) \<times> odal" where
  "pg_delete env p db =
     (case fault_at env (tick db) of
        Some e \<Rightarrow> (Inl (idem_err env e), bump db)
      | None \<Rightarrow> (Inr (length (filter p (idempotency_key db))),
                 bump (idempotency_key_update (filter (\<lambda>r. \<not> p r)) db)))"

definition release ::
  "pg_env \<Rightarrow> RequestKey \<Rightarrow> ClaimToken \<Rightarrow> odal \<Rightarrow> (IdempotencyError + Settled) \<times> odal" where
  "release env key token db =
     (case pg_delete env (held_by key token) db of
        (Inl e, db1) \<Rightarrow> (Inl e, db1)
      | (Inr n, db1) \<Rightarrow> (Inr (settled n), db1))"

definition purge_expired :: "pg_env \<Rightarrow> odal \<Rightarrow> (IdempotencyError + nat) \<times> odal" where
  "purge_expired env db = pg_delete env (\<lambda>r. ik_expires_at r \<le> now_at env (tick db)) db"

text \<open>The primary key of the table.\<close>

definition idem_keys_ok :: "odal \<Rightarrow> bool" where
  "idem_keys_ok db \<longleftrightarrow> distinct (map idem_row_key (idempotency_key db))"

abbreviation idem_row :: "RequestKey \<Rightarrow> odal \<Rightarrow> idempotency_rec option" where
  "idem_row key db \<equiv> row_at idem_row_key key (idempotency_key db)"

subsection \<open>What the statements do to the rows\<close>

lemma idempotency_key_same:
  "g (idempotency_key db) = idempotency_key db \<Longrightarrow> idempotency_key_update g db = db"
  by simp

lemma idem_row_key_simps [simp]:
  "idem_row_key (fresh_claim key fp lease retention token now) = key"
  "idem_row_key (completed_row response now r) = idem_row_key r"
  by (simp_all add: idem_row_key_def fresh_claim_def completed_row_def)

lemma row_at_filter_keep:
  assumes "row_at key k rs = Some r" and "p r"
  shows "row_at key k (filter p rs) = Some r"
  using assms by (induction rs) (auto split: if_splits)

lemma row_at_filter_drop:
  assumes "distinct (map key rs)" and "row_at key k rs = Some r" and "\<not> p r"
  shows "row_at key k (filter p rs) = None"
  using assms by (induction rs) (auto simp: row_at_None split: if_splits)

lemma row_at_replace:
  assumes "key r' = k"
  shows "row_at key k' (upd_where (\<lambda>r. key r = k) (\<lambda>_. r') rs) =
    (if k' = k then map_option (\<lambda>_. r') (row_at key k rs) else row_at key k' rs)"
  using assms by (induction rs) auto

lemma upd_where_replace_keys:
  "key r' = k \<Longrightarrow> map key (upd_where (\<lambda>r. key r = k) (\<lambda>_. r') rs) = map key rs"
  by (auto simp: upd_where_def)

text \<open>
  What a statement leaves in every key's row. The first statement of a claim changes the
  row of its own key only, to a fresh claim, and only where there was none or it was
  reclaimable.
\<close>

lemma claim_insert_row:
  "idem_row k (snd (claim_insert env key fp lease retention token db)) =
     (if fst (claim_insert env key fp lease retention token db) = Inr True \<and> k = key
      then Some (fresh_claim key fp lease retention token (now_at env (tick db)))
      else idem_row k db)"
  by (cases "idem_row k db")
    (auto simp: claim_insert_def Let_def table_simps row_at_replace split: option.splits)

lemma claim_insert_granted:
  assumes "fst (claim_insert env key fp lease retention token db) = Inr True"
    and "idem_row key db = Some r"
  shows "reclaimable (now_at env (tick db)) r"
  using assms by (auto simp: claim_insert_def Let_def split: option.splits if_splits)

lemma complete_row:
  "idem_row k (snd (complete env key token response db)) = idem_row k db \<or>
   idem_row k (snd (complete env key token response db)) =
     map_option (\<lambda>r. if held_by key token r then completed_row response (now_at env (tick db)) r else r)
       (idem_row k db)"
  by (auto simp: complete_def Let_def table_simps split: option.splits)

lemma pg_delete_row:
  assumes "idem_row k db = Some r" and "\<not> p r"
  shows "idem_row k (snd (pg_delete env p db)) = Some r"
  using assms by (auto simp: pg_delete_def row_at_filter_keep split: option.splits)

lemma pg_delete_row_cases:
  assumes "idem_keys_ok db"
  shows "idem_row k (snd (pg_delete env p db)) = idem_row k db \<or> idem_row k (snd (pg_delete env p db)) = None"
proof (cases "idem_row k db")
  case None
  then show ?thesis by (auto simp: pg_delete_def row_at_None split: option.splits)
next
  case (Some r)
  then show ?thesis
    using assms pg_delete_row [OF Some, of p env]
    by (cases "p r") (auto simp: pg_delete_def idem_keys_ok_def row_at_filter_drop split: option.splits)
qed

lemma release_snd: "snd (release env key token db) = snd (pg_delete env (held_by key token) db)"
  by (simp add: release_def split: prod.splits sum.splits)

lemma idem_ticks [simp]:
  "tick (snd (claim_insert env key fp lease retention token db)) = tick db + 1"
  "tick (snd (claim_read env key fp db)) = tick db + 1"
  "tick (snd (complete env key token response db)) = tick db + 1"
  "tick (snd (pg_delete env p db)) = tick db + 1"
  "tick (snd (release env key token db)) = tick db + 1"
  "tick (snd (purge_expired env db)) = tick db + 1"
  by (simp_all add: claim_insert_def claim_read_def complete_def pg_delete_def release_snd purge_expired_def
      Let_def split: option.splits sum.splits)

lemma claim_read_db [simp]: "snd (claim_read env key fp db) = bump db"
  by (simp add: claim_read_def split: sum.splits)

text \<open>Every statement keeps the primary key.\<close>

lemma idem_keys_preserved:
  assumes "idem_keys_ok db"
  shows "idem_keys_ok (snd (claim_insert env key fp lease retention token db))"
    and "idem_keys_ok (snd (complete env key token response db))"
    and "idem_keys_ok (snd (pg_delete env p db))"
  using assms
  by (auto simp: idem_keys_ok_def claim_insert_def complete_def pg_delete_def Let_def row_at_None
      upd_where_replace_keys table_simps distinct_map_filter split: option.splits)

subsection \<open>Everything else that happens in the store\<close>

text \<open>
  One step of the rest of the world, seen from the holder of \<open>tok\<close>: a statement of any
  other request, on any key, with any fingerprint and duration; a sweep; or anything that
  leaves the table alone. Minted tokens differ from every earlier one, so a claim of
  another request never carries \<open>tok\<close>, and nobody else presents it.
\<close>

inductive others :: "pg_env \<Rightarrow> ClaimToken \<Rightarrow> odal \<Rightarrow> odal \<Rightarrow> bool" for env :: pg_env and tok :: ClaimToken where
  other_claim: "mint_token env (tick db) \<noteq> tok \<Longrightarrow>
    others env tok db (snd (claim_insert env key fp lease retention (mint_token env (tick db)) db))"
| other_read: "others env tok db (snd (claim_read env key fp db))"
| other_complete: "t \<noteq> tok \<Longrightarrow> others env tok db (snd (complete env key t response db))"
| other_release: "t \<noteq> tok \<Longrightarrow> others env tok db (snd (release env key t db))"
| other_purge: "others env tok db (snd (purge_expired env db))"
| elsewhere: "idempotency_key db' = idempotency_key db \<Longrightarrow> tick db \<le> tick db' \<Longrightarrow> others env tok db db'"

lemma others_tick: "others env tok db db' \<Longrightarrow> tick db \<le> tick db'"
  by (erule others.cases) auto

lemma others_keys: "others env tok db db' \<Longrightarrow> idem_keys_ok db \<Longrightarrow> idem_keys_ok db'"
  by (erule others.cases)
    (auto simp: release_snd purge_expired_def idem_keys_preserved, simp_all add: idem_keys_ok_def)

lemma others_star_tick: "(others env tok)\<^sup>*\<^sup>* db db' \<Longrightarrow> tick db \<le> tick db'"
  by (induction rule: rtranclp_induct) (auto dest: others_tick)

lemma others_star_keys: "(others env tok)\<^sup>*\<^sup>* db db' \<Longrightarrow> idem_keys_ok db \<Longrightarrow> idem_keys_ok db'"
  by (induction rule: rtranclp_induct) (auto dest: others_keys)

text \<open>
  A row that is neither expired nor reclaimable and that no presented token holds is left
  as it is by every step.
\<close>

lemma others_keep_row:
  assumes "others env tok db db'" and "idem_row k db = Some r"
    and "\<not> reclaimable (now_at env (tick db)) r"
    and "\<And>t. t \<noteq> tok \<Longrightarrow> \<not> held_by k t r"
  shows "idem_row k db' = Some r"
proof -
  have live: "\<not> ik_expires_at r \<le> now_at env (tick db)" using assms(3) by (simp add: reclaimable_def)
  have free: "\<not> held_by key t r" if "t \<noteq> tok" for t key
    using assms(4) [OF that] row_at_SomeD [OF assms(2)] by (auto simp: held_by_def)
  show ?thesis
    using assms(1)
  proof cases
    case (other_claim key fp lease retention)
    then show ?thesis
      using assms(2,3) claim_insert_granted [of env key fp lease retention "mint_token env (tick db)" db r]
      by (auto simp: claim_insert_row)
  next
    case (other_complete t key response)
    then show ?thesis
      using complete_row [of k env key t response db] assms(2) free [of t key] by auto
  next
    case (other_release t key)
    then show ?thesis
      using pg_delete_row [of k db r "held_by key t" env] assms(2) free [of t key]
      by (auto simp: release_snd)
  next
    case other_purge
    then show ?thesis using pg_delete_row [of k db r "\<lambda>r. ik_expires_at r \<le> now_at env (tick db)" env] assms(2) live
      by (simp add: purge_expired_def)
  qed (use assms(2) in auto)
qed

lemma others_star_keep_row:
  assumes "(others env tok)\<^sup>*\<^sup>* db db'" and "mono (now_at env)" and "idem_row k db = Some r"
    and "\<not> reclaimable (now_at env (tick db')) r" and "\<And>t. t \<noteq> tok \<Longrightarrow> \<not> held_by k t r"
  shows "idem_row k db' = Some r"
  using assms(1,4)
proof (induction rule: rtranclp_induct)
  case base
  then show ?case using assms(3) by simp
next
  case (step y z)
  have "now_at env (tick y) \<le> now_at env (tick z)"
    using others_tick [OF step.hyps(2)] assms(2) by (auto dest: monoD)
  then have "\<not> reclaimable (now_at env (tick y)) r"
    using step.prems by (auto simp: reclaimable_def)
  with step assms(5) show ?case by (blast intro: others_keep_row)
qed

text \<open>
  Whatever happens, a row still held by \<open>tok\<close> is the row the claim of \<open>tok\<close> wrote: no other
  claim carries the token.
\<close>

lemma others_keep_claim:
  assumes "others env tok db db'" and "opt_holds (held_by k tok) (idem_row k db')" and "idem_keys_ok db"
  shows "idem_row k db' = idem_row k db"
  using assms
proof cases
  case (other_claim key fp lease retention)
  then show ?thesis using assms(2)
    by (auto simp: claim_insert_row held_by_def fresh_claim_def dest: ClaimToken.expand split: if_splits)
next
  case (other_complete t key response)
  then show ?thesis using complete_row [of k env key t response db] assms(2)
    by (cases "idem_row k db") (auto simp: held_by_def completed_row_def split: if_splits)
next
  case (other_release t key)
  then show ?thesis using assms(2) pg_delete_row_cases [OF assms(3), of k env "held_by key t"]
    by (auto simp: release_snd)
next
  case other_purge
  then show ?thesis
    using assms(2) pg_delete_row_cases [OF assms(3), of k env "\<lambda>r. ik_expires_at r \<le> now_at env (tick db)"]
    by (auto simp: purge_expired_def)
qed simp_all

lemma others_star_keep_claim:
  assumes "(others env tok)\<^sup>*\<^sup>* db db'" and "opt_holds (held_by k tok) (idem_row k db')" and "idem_keys_ok db"
  shows "idem_row k db' = idem_row k db"
  using assms(1,2)
proof (induction rule: rtranclp_induct)
  case (step y z)
  have "idem_row k z = idem_row k y"
    by (rule others_keep_claim [OF step.hyps(2) step.prems others_star_keys [OF step.hyps(1) assms(3)]])
  with step show ?case by simp
qed simp

subsection \<open>Claims\<close>

lemma claim_Claimed:
  assumes "claim env key fp lease retention db = (Inr (Claimed tok), db')"
  shows "tok = mint_token env (tick db)"
    and "claim_insert env key fp lease retention tok db = (Inr True, db')"
  using assms
  by (auto simp: claim_def claim_read_def standing_claim_def Let_def
      split: prod.splits sum.splits bool.splits option.splits if_splits)

lemma claim_Claimed_row:
  assumes "claim env key fp lease retention db = (Inr (Claimed tok), db')"
  shows "idem_row key db' = Some (fresh_claim key fp lease retention tok (now_at env (tick db)))"
    and "tick db' = tick db + 1"
  using claim_Claimed(2) [OF assms] claim_insert_row [of key env key fp lease retention tok db]
    idem_ticks(1) [of env key fp lease retention tok db] by simp_all

text \<open>Where the key's row is not reclaimable, a claim is not granted, and says what stands there.\<close>

lemma claim_refused:
  assumes "idem_row key db = Some r" and "\<not> reclaimable (now_at env (tick db)) r"
  shows "fst (claim env key fp lease retention db) = Inr (standing_claim fp (Some r)) \<or>
    (\<exists>e. fst (claim env key fp lease retention db) = Inl e)"
    and "idempotency_key (snd (claim env key fp lease retention db)) = idempotency_key db"
    and "fault_free env \<Longrightarrow> is_digest fp \<Longrightarrow>
      fst (claim env key fp lease retention db) = Inr (standing_claim fp (Some r))"
  using assms
  by (auto simp: claim_def claim_insert_def claim_read_def pg_lookup_def fault_free_def Let_def split: option.splits)

lemma fresh_claim_held: "held_by key t (fresh_claim key fp lease retention tok now) \<longleftrightarrow> t = tok"
  by (auto simp: held_by_def fresh_claim_def idem_row_key_def dest: ClaimToken.expand)

lemma fresh_claim_live:
  "\<not> reclaimable now' (fresh_claim key fp lease retention tok now) \<longleftrightarrow>
     now' < now + as_interval lease \<and> now' < now + as_interval retention"
  by (auto simp: reclaimable_def fresh_claim_def)

text \<open>The claim a request was granted is still its own, whatever others do, until its lease ends.\<close>

lemma claim_stays:
  assumes "claim env key fp lease retention db = (Inr (Claimed tok), db1)" and "mono (now_at env)"
    and "(others env tok)\<^sup>*\<^sup>* db1 db2"
    and "now_at env (tick db2) < now_at env (tick db) + as_interval lease"
    and "as_interval lease \<le> as_interval retention"
  shows "idem_row key db2 = Some (fresh_claim key fp lease retention tok (now_at env (tick db)))"
  by (rule others_star_keep_row [OF assms(3,2) claim_Claimed_row(1) [OF assms(1)]])
    (use assms(4,5) in \<open>auto simp: fresh_claim_live fresh_claim_held\<close>)

subsection \<open>Outcomes\<close>

lemma idem_keys_only_row:
  assumes "idem_keys_ok db" and "idem_row key db = Some r"
  shows "filter (held_by key t) (idempotency_key db) = (if held_by key t r then [r] else [])"
  using filter_key_distinct [of idem_row_key "idempotency_key db" key
      "\<lambda>r. ik_state r = ''in_flight'' \<and> ik_claim_token r = as_uuid t"] assms row_at_SomeD [OF assms(2)]
  by (simp add: held_by_def [abs_def] idem_keys_ok_def)

lemma complete_Applied:
  assumes "complete env key tok resp db = (Inr Applied, db')" and "idem_keys_ok db"
  shows "opt_holds (held_by key tok) (idem_row key db)"
    and "idem_row key db' = map_option (completed_row resp (now_at env (tick db))) (idem_row key db)"
    and "100 \<le> i16_or_500 (sr_status resp)" and "i16_or_500 (sr_status resp) \<le> 599"
proof -
  have n: "filter (held_by key tok) (idempotency_key db) \<noteq> []"
    and s: "100 \<le> i16_or_500 (sr_status resp)" "i16_or_500 (sr_status resp) \<le> 599"
    and db': "db' = bump (idempotency_key_update
      (upd_where (held_by key tok) (completed_row resp (now_at env (tick db)))) db)"
    using assms(1) by (auto simp: complete_def settled_def Let_def split: option.splits if_splits)
  from n obtain r where r: "r \<in> set (idempotency_key db)" "held_by key tok r"
    by (auto simp: filter_empty_conv)
  then have "idem_row key db = Some r"
    using assms(2) row_at_in_set [of idem_row_key "idempotency_key db" r]
    by (auto simp: held_by_def idem_keys_ok_def)
  with r(2) show "opt_holds (held_by key tok) (idem_row key db)"
    and "idem_row key db' = map_option (completed_row resp (now_at env (tick db))) (idem_row key db)"
    by (simp_all add: db' table_simps)
  show "100 \<le> i16_or_500 (sr_status resp)" "i16_or_500 (sr_status resp) \<le> 599" by (rule s)+
qed

text \<open>A row that holds an outcome answers a claim with it, or with a refusal if the body differs.\<close>

lemma standing_claim_completed:
  assumes "sr_status resp < 2 ^ 15"
  shows "standing_claim fp (Some (completed_row resp now r)) =
    (if fp = ik_fingerprint r then Replay resp else FingerprintMismatch)"
  using assms by (auto simp: standing_claim_def completed_row_def i16_or_500_def)

text \<open>An outcome or a release whose token the key's row does not carry.\<close>

lemma settle_superseded:
  assumes "idem_keys_ok db" and "idem_row key db = Some r" and "\<not> held_by key tok r"
    and "fault_at env (tick db) = None"
  shows "complete env key tok resp db = (Inr Superseded, bump db)"
    and "release env key tok db = (Inr Superseded, bump db)"
proof -
  have none: "filter (held_by key tok) (idempotency_key db) = []"
    using idem_keys_only_row [OF assms(1,2), of tok] assms(3) by simp
  then have "upd_where (held_by key tok) f (idempotency_key db) = idempotency_key db" for f
    by (intro upd_where_none) (simp add: filter_empty_conv)
  moreover have "filter (\<lambda>r. \<not> held_by key tok r) (idempotency_key db) = idempotency_key db"
    using none by (auto simp: filter_empty_conv intro: filter_True)
  ultimately show "complete env key tok resp db = (Inr Superseded, bump db)"
    and "release env key tok db = (Inr Superseded, bump db)"
    using assms(4) none
    by (simp_all add: complete_def release_def pg_delete_def settled_def Let_def idempotency_key_same)
qed

lemma settle_applied:
  assumes "idem_keys_ok db" and "idem_row key db = Some r" and "held_by key tok r"
    and "fault_at env (tick db) = None" and "100 \<le> sr_status resp" and "sr_status resp \<le> 599"
  shows "fst (complete env key tok resp db) = Inr Applied"
    and "idem_row key (snd (complete env key tok resp db)) =
      Some (completed_row resp (now_at env (tick db)) r)"
    and "fst (release env key tok db) = Inr Applied"
    and "idem_row key (snd (release env key tok db)) = None"
  using assms idem_keys_only_row [OF assms(1,2), of tok]
  by (auto simp: complete_def release_def pg_delete_def settled_def i16_or_500_def Let_def table_simps
      idem_keys_ok_def row_at_filter_drop)

text \<open>A recorded outcome is what later claims are answered with.\<close>

lemma idempotency_replay:
  assumes "claim env key fp lease retention db = (Inr (Claimed tok), db1)" and "idem_keys_ok db"
    and "mono (now_at env)" and "(others env tok)\<^sup>*\<^sup>* db1 db2"
    and "complete env key tok resp db2 = (Inr Applied, db3)" and "sr_status resp < 1000"
    and "(others env tok')\<^sup>*\<^sup>* db3 db4"
    and "now_at env (tick db4) < now_at env (tick db) + as_interval retention"
    and "fault_free env" and "is_digest fp'"
  shows "fst (claim env key fp' lease' retention' db4) =
    Inr (if fp' = fp then Replay resp else FingerprintMismatch)"
proof -
  let ?r = "fresh_claim key fp lease retention tok (now_at env (tick db))"
  let ?c = "completed_row resp (now_at env (tick db2)) ?r"
  have k1: "idem_keys_ok db1"
    using claim_Claimed(2) [OF assms(1)] idem_keys_preserved(1) [OF assms(2), of env key fp lease retention tok]
    by simp
  note k2 = others_star_keys [OF assms(4) k1]
  note applied = complete_Applied [OF assms(5) k2]
  have "idem_row key db2 = Some ?r"
    using others_star_keep_claim [OF assms(4) applied(1) k1] claim_Claimed_row(1) [OF assms(1)] by simp
  with applied(2) have row3: "idem_row key db3 = Some ?c" by simp
  have live: "\<not> reclaimable (now_at env (tick db4)) ?c"
    using assms(8) by (simp add: reclaimable_def completed_row_def fresh_claim_def)
  have row4: "idem_row key db4 = Some ?c"
    by (rule others_star_keep_row [OF assms(7,3) row3 live]) (simp add: held_by_def completed_row_def)
  have "standing_claim fp' (Some ?c) = (if fp' = fp then Replay resp else FingerprintMismatch)"
    using standing_claim_completed [of resp fp'] assms(6) by (simp add: fresh_claim_def)
  with claim_refused(3) [OF row4 live assms(9,10)] show ?thesis by simp
qed

subsection \<open>Properties\<close>

text \<open>
  Property C4 (safety). Mutual exclusion of claims. Once a request has been granted the
  claim on a key, then as long as its lease has not run out, and whatever the rest of the
  node does in the store, in any order -- claims by any request with any body, outcomes and
  releases under other tokens, sweeps, failing statements -- no further claim on the key is
  granted. The caller is told that the request is in flight, or that its body differs, or
  that the store failed, and the rows are as they were.
\<close>

theorem idempotency_mutual_exclusion:
  assumes "claim env key fp lease retention db = (Inr (Claimed tok), db1)" and "mono (now_at env)"
    and "(others env tok)\<^sup>*\<^sup>* db1 db2"
    and "now_at env (tick db2) < now_at env (tick db) + as_interval lease"
    and "as_interval lease \<le> as_interval retention"
  shows "(fst (claim env key fp' lease' retention' db2) =
            Inr (if fp' = fp then InFlight else FingerprintMismatch) \<or>
          (\<exists>e. fst (claim env key fp' lease' retention' db2) = Inl e)) \<and>
         idempotency_key (snd (claim env key fp' lease' retention' db2)) = idempotency_key db2"
proof -
  let ?r = "fresh_claim key fp lease retention tok (now_at env (tick db))"
  have row: "idem_row key db2 = Some ?r" by (rule claim_stays [OF assms])
  have live: "\<not> reclaimable (now_at env (tick db2)) ?r"
    using assms(4,5) by (simp add: fresh_claim_live)
  have "standing_claim fp' (Some ?r) = (if fp' = fp then InFlight else FingerprintMismatch)"
    by (auto simp: standing_claim_def fresh_claim_def)
  with claim_refused(1,2) [OF row live, of fp' lease' retention'] show ?thesis by simp
qed

text \<open>
  Replay. When the outcome of a granted claim has been applied,
  then until the retention of that claim ends, and whatever happens in the store in between
  and afterwards (the former holder included), a claim on the same key with the same body is
  answered with exactly the recorded response, and one with another body with a mismatch.
  The lease plays no part here: an applied outcome was recorded under the claim itself.
\<close>

theorem idempotency_replay_roundtrip:
  assumes "claim env key fp lease retention db = (Inr (Claimed tok), db1)" and "idem_keys_ok db"
    and "mono (now_at env)" and "(others env tok)\<^sup>*\<^sup>* db1 db2"
    and "complete env key tok resp db2 = (Inr Applied, db3)" and "sr_status resp < 1000"
    and "(others env tok')\<^sup>*\<^sup>* db3 db4"
    and "now_at env (tick db4) < now_at env (tick db) + as_interval retention"
    and "fault_free env" and "is_digest fp'"
  shows "fst (claim env key fp' lease' retention' db4) =
    Inr (if fp' = fp then Replay resp else FingerprintMismatch)"
  by (rule idempotency_replay [OF assms])

text \<open>
  A request that outlived its lease disturbs nobody. When the claim on
  a key has been granted to \<open>tok2\<close>, then until its lease ends and whatever else happens in
  the store, an outcome or a release under any other token is answered as superseded and
  writes nothing, while the outcome of the holder itself is applied.
\<close>

theorem idempotency_superseded_harmless:
  assumes "claim env key fp lease retention db = (Inr (Claimed tok2), db1)" and "idem_keys_ok db"
    and "mono (now_at env)" and "(others env tok2)\<^sup>*\<^sup>* db1 db2"
    and "now_at env (tick db2) < now_at env (tick db) + as_interval lease"
    and "as_interval lease \<le> as_interval retention" and "fault_free env"
    and "tok \<noteq> tok2" and "100 \<le> sr_status resp" and "sr_status resp \<le> 599"
  shows "complete env key tok resp db2 = (Inr Superseded, bump db2) \<and>
    release env key tok db2 = (Inr Superseded, bump db2) \<and>
    fst (complete env key tok2 resp db2) = Inr Applied"
proof -
  let ?r = "fresh_claim key fp lease retention tok2 (now_at env (tick db))"
  have row: "idem_row key db2 = Some ?r" by (rule claim_stays [OF assms(1,3-6)])
  have k1: "idem_keys_ok db1"
    using claim_Claimed(2) [OF assms(1)] idem_keys_preserved(1) [OF assms(2), of env key fp lease retention tok2]
    by simp
  note k2 = others_star_keys [OF assms(4) k1]
  have ff: "fault_at env (tick db2) = None" using assms(7) by (simp add: fault_free_def)
  have "\<not> held_by key tok ?r" "held_by key tok2 ?r" using assms(8) by (simp_all add: fresh_claim_held)
  then show ?thesis
    using settle_superseded [OF k2 row _ ff, of tok] settle_applied(1) [OF k2 row _ ff assms(9,10)] ff by simp
qed

subsection \<open>A concrete run\<close>

text \<open>
  A request claims a key in an empty store; another request on another route claims its own
  key, and the sweep runs.
\<close>

definition sample_key :: RequestKey where
  "sample_key = \<lparr>rk_principal = ''user'', rk_method = ''POST'', rk_path = ''/vault/api/v1/dpp'', rk_key = ''k1''\<rparr>"

definition sample_digest :: string where
  "sample_digest = replicate 64 CHR ''a''"

definition sample_response :: StoredResponse where
  "sample_response = \<lparr>sr_status = 201, sr_body = ''{}'', sr_content_type = Some ''application/json''\<rparr>"

definition sample_claimed :: odal where
  "sample_claimed = bump (empty_db\<lparr>idempotency_key :=
     [fresh_claim sample_key sample_digest DEFAULT_LEASE DEFAULT_RETENTION (ClaimToken 0) 0]\<rparr>)"

definition sample_later :: odal where
  "sample_later = snd (purge_expired sample_env
     (snd (claim_insert sample_env (sample_key\<lparr>rk_path := ''/vault/api/v1/plugins''\<rparr>) sample_digest
        DEFAULT_LEASE DEFAULT_RETENTION (mint_token sample_env 1) sample_claimed)))"

definition sample_completed :: odal where
  "sample_completed = snd (complete sample_env sample_key (ClaimToken 0) sample_response sample_later)"

lemma sample_mono: "mono (now_at sample_env)"
  by (auto intro!: monoI)

lemma sample_digest_ok: "is_digest sample_digest"
  by (simp add: is_digest_def sample_digest_def list_all_iff Let_def)

lemma sample_intervals:
  "as_interval DEFAULT_LEASE = 60" "as_interval DEFAULT_RETENTION = 86400"
  "as_interval DEFAULT_LEASE \<le> as_interval DEFAULT_RETENTION"
  by (simp_all add: as_interval_def DEFAULT_LEASE_def DEFAULT_RETENTION_def)

lemma sample_claim:
  "claim sample_env sample_key sample_digest DEFAULT_LEASE DEFAULT_RETENTION empty_db =
     (Inr (Claimed (ClaimToken 0)), sample_claimed)"
  by (simp add: claim_def claim_insert_def mint_token_def sample_digest_ok empty_db_def sample_claimed_def Let_def)

lemma sample_keys: "idem_keys_ok empty_db"
  by (simp add: idem_keys_ok_def empty_db_def)

lemma sample_tick: "tick sample_claimed = 1" "tick sample_later = 3"
  by (simp_all add: sample_claimed_def sample_later_def empty_db_def)

lemma sample_others: "(others sample_env (ClaimToken 0))\<^sup>*\<^sup>* sample_claimed sample_later"
proof -
  have "others sample_env (ClaimToken 0) sample_claimed
     (snd (claim_insert sample_env (sample_key\<lparr>rk_path := ''/vault/api/v1/plugins''\<rparr>) sample_digest
        DEFAULT_LEASE DEFAULT_RETENTION (mint_token sample_env (tick sample_claimed)) sample_claimed))"
    by (rule other_claim) (simp add: mint_token_def sample_tick)
  then show ?thesis
    unfolding sample_later_def sample_tick
    by (rule converse_rtranclp_into_rtranclp) (blast intro: other_purge)
qed

lemma sample_held:
  "idem_row sample_key sample_later =
     Some (fresh_claim sample_key sample_digest DEFAULT_LEASE DEFAULT_RETENTION (ClaimToken 0) 0)"
  using claim_stays [OF sample_claim sample_mono sample_others]
  by (simp add: sample_tick sample_intervals empty_db_def)

lemma sample_complete:
  "complete sample_env sample_key (ClaimToken 0) sample_response sample_later = (Inr Applied, sample_completed)"
proof -
  have "idem_keys_ok sample_claimed"
    by (simp add: idem_keys_ok_def sample_claimed_def)
  then have "idem_keys_ok sample_later" by (rule others_star_keys [OF sample_others])
  from settle_applied(1) [OF this sample_held, of "ClaimToken 0" sample_env sample_response] show ?thesis
    by (simp add: sample_completed_def fresh_claim_held sample_response_def prod_eq_iff)
qed

theorem idempotency_mutual_exclusion_witness:
  "(fst (claim sample_env sample_key sample_digest DEFAULT_LEASE DEFAULT_RETENTION sample_later) = Inr InFlight \<or>
    (\<exists>e. fst (claim sample_env sample_key sample_digest DEFAULT_LEASE DEFAULT_RETENTION sample_later) = Inl e)) \<and>
   idempotency_key (snd (claim sample_env sample_key sample_digest DEFAULT_LEASE DEFAULT_RETENTION sample_later)) =
     idempotency_key sample_later"
  using idempotency_mutual_exclusion [OF sample_claim sample_mono sample_others _ sample_intervals(3),
      of sample_digest DEFAULT_LEASE DEFAULT_RETENTION]
  by (simp add: sample_tick sample_intervals empty_db_def)

theorem idempotency_replay_roundtrip_witness:
  "fst (claim sample_env sample_key sample_digest DEFAULT_LEASE DEFAULT_RETENTION sample_completed) =
     Inr (Replay sample_response)"
  using idempotency_replay_roundtrip [OF sample_claim sample_keys sample_mono sample_others sample_complete
      _ rtranclp.rtrancl_refl _ sample_env_ok(1) sample_digest_ok, of DEFAULT_LEASE DEFAULT_RETENTION]
  by (simp add: sample_completed_def sample_tick sample_intervals empty_db_def sample_response_def)

theorem idempotency_superseded_harmless_witness:
  "complete sample_env sample_key (ClaimToken 7) sample_response sample_later =
     (Inr Superseded, bump sample_later) \<and>
   release sample_env sample_key (ClaimToken 7) sample_later = (Inr Superseded, bump sample_later) \<and>
   fst (complete sample_env sample_key (ClaimToken 0) sample_response sample_later) = Inr Applied"
  using idempotency_superseded_harmless [OF sample_claim sample_keys sample_mono sample_others _
      sample_intervals(3) sample_env_ok(1), of "ClaimToken 7" sample_response]
  by (simp add: sample_tick sample_intervals empty_db_def sample_response_def)

end
