(* ===== verification/Idempotency_Middleware.thy ===== *)
theory Idempotency_Middleware
  imports Idempotency
begin

text \<open>
  The middleware in front of the keyed routes
  (\<^verbatim>\<open>dpp-common/src/idempotency/middleware.rs\<close>) and the refusals it writes
  (\<^verbatim>\<open>http_problem.rs\<close>). As in the code it is written against the store port: the
  operations are the fields of \<open>idem_store\<close>, the laws its clients rely on are the locale
  \<open>idempotency_port\<close>, and the PostgreSQL store is the interpretation \<open>pg_port\<close>. The handler
  behind the middleware is an arbitrary function on the rest of the node's state and the
  store.
\<close>

subsection \<open>Requests, responses and the libraries\<close>

text \<open>
  A body is the bytes it yields, or \<open>None\<close> for a stream that fails while it is read. The
  route template is what the router matched, and the user is the \<^verbatim>\<open>AuthContext\<close> that the
  vault's authentication left in the request, if any.
\<close>

record AxumRequest =
  rq_method :: string
  rq_headers :: "(string \<times> string) list"
  rq_template :: "string option"
  rq_user_id :: "string option"
  rq_body :: "string option"

record AxumResponse =
  rp_status :: nat
  rp_headers :: "(string \<times> string) list"
  rp_body :: "string option"

text \<open>\<^verbatim>\<open>HeaderMap::get\<close>, the first value, and \<^verbatim>\<open>HeaderMap::insert\<close>, which replaces all of them.\<close>

definition header_get :: "string \<Rightarrow> (string \<times> string) list \<Rightarrow> string option" where
  "header_get name hs = map_of hs name"

definition header_insert :: "string \<Rightarrow> string \<Rightarrow> (string \<times> string) list \<Rightarrow> (string \<times> string) list" where
  "header_insert name v hs = filter (\<lambda>(n, _). n \<noteq> name) hs @ [(name, v)]"

text \<open>\<^verbatim>\<open>HeaderValue::to_str\<close>: visible ASCII, space and tab only.\<close>

definition header_to_str :: "string \<Rightarrow> string option" where
  "header_to_str v =
     (if list_all (\<lambda>c. let n = of_char c :: nat in (32 \<le> n \<and> n < 127) \<or> n = 9) v then Some v else None)"

text \<open>\<^verbatim>\<open>HeaderValue::from_str\<close>: every byte from 32 on but DEL, and tab.\<close>

definition header_from_str :: "string \<Rightarrow> string option" where
  "header_from_str v =
     (if list_all (\<lambda>c. let n = of_char c :: nat in (32 \<le> n \<and> n \<noteq> 127) \<or> n = 9) v then Some v else None)"

definition to_bytes :: "string option \<Rightarrow> nat \<Rightarrow> string option" where
  "to_bytes body limit =
     (case body of None \<Rightarrow> None | Some b \<Rightarrow> if length b \<le> limit then Some b else None)"

text \<open>
  What the middleware takes from libraries: the hexadecimal SHA-256 of the body, the JSON
  parser and printer, and how long a store call takes. A call that is given up on may have
  taken effect or not.
\<close>

datatype store_wait = InTime | GivenUpDone | GivenUpLost

record 's http_libs =
  sha256_hex :: "string \<Rightarrow> string"
  json_parse :: "string \<Rightarrow> json option"
  json_print :: "json \<Rightarrow> string"
  wait_for :: "'s \<Rightarrow> store_wait"

record 's idem_store =
  st_claim :: "RequestKey \<Rightarrow> string \<Rightarrow> nat \<Rightarrow> nat \<Rightarrow> 's \<Rightarrow> (IdempotencyError + Claim) \<times> 's"
  st_complete :: "RequestKey \<Rightarrow> ClaimToken \<Rightarrow> StoredResponse \<Rightarrow> 's \<Rightarrow> (IdempotencyError + Settled) \<times> 's"
  st_release :: "RequestKey \<Rightarrow> ClaimToken \<Rightarrow> 's \<Rightarrow> (IdempotencyError + Settled) \<times> 's"

record 's IdempotencyLayerState =
  ils_store :: "'s idem_store"
  ils_principal :: "AxumRequest \<Rightarrow> string option"

subsection \<open>Refusals\<close>

definition to_lowercase :: "string \<Rightarrow> string" where
  "to_lowercase s = map (\<lambda>c. let n = of_char c :: nat in if 65 \<le> n \<and> n \<le> 90 then char_of (n + 32) else c) s"

definition problem_type :: "string \<Rightarrow> string" where
  "problem_type title =
     ''https://problems.odal-node.io/'' @ map (\<lambda>c. if c = CHR '' '' then CHR ''-'' else c) (to_lowercase title)"

definition problem :: "'s http_libs \<Rightarrow> nat \<Rightarrow> string \<Rightarrow> string \<Rightarrow> AxumResponse" where
  "problem libs status title detail =
     \<lparr>rp_status = status, rp_headers = [(''content-type'', ''application/problem+json'')],
      rp_body = Some (json_print libs (JObj
        [(''type'', JStr (problem_type title)), (''title'', JStr title),
         (''status'', JNum (show_nat status)), (''detail'', JStr detail)]))\<rparr>"

definition tap_header :: "string \<Rightarrow> string \<Rightarrow> AxumResponse \<Rightarrow> AxumResponse" where
  "tap_header name v response = response\<lparr>rp_headers := header_insert name v (rp_headers response)\<rparr>"

subsection \<open>The middleware\<close>

definition IDEMPOTENCY_KEY_HEADER :: string where
  "IDEMPOTENCY_KEY_HEADER = ''idempotency-key''"

definition MAX_BUFFER :: nat where
  "MAX_BUFFER = 9 * 1024 * 1024"

definition MAX_KEY_LEN :: nat where
  "MAX_KEY_LEN = 255"

definition fingerprint :: "'s http_libs \<Rightarrow> string \<Rightarrow> string" where
  "fingerprint libs body = sha256_hex libs body"

definition bounded ::
  "'s http_libs \<Rightarrow> ('s \<Rightarrow> (IdempotencyError + 'a) \<times> 's) \<Rightarrow> 's \<Rightarrow> (IdempotencyError + 'a) \<times> 's" where
  "bounded libs call s =
     (case wait_for libs s of
        InTime \<Rightarrow> call s
      | GivenUpDone \<Rightarrow> (Inl (Unavailable ''no answer within 10s''), snd (call s))
      | GivenUpLost \<Rightarrow> (Inl (Unavailable ''no answer within 10s''), s))"

text \<open>Member removal and insertion of a JSON object, whose members are kept in key order.\<close>

definition obj_remove :: "string \<Rightarrow> (string \<times> json) list \<Rightarrow> (string \<times> json) list" where
  "obj_remove member kvs = filter (\<lambda>(k, _). k \<noteq> member) kvs"

fun obj_insert :: "string \<Rightarrow> json \<Rightarrow> (string \<times> json) list \<Rightarrow> (string \<times> json) list" where
  "obj_insert k v [] = [(k, v)]"
| "obj_insert k v ((k', v') # kvs) =
     (if k = k' then (k, v) # kvs
      else if k < k' then (k, v) # (k', v') # kvs
      else (k', v') # obj_insert k v kvs)"

definition redact :: "'s http_libs \<Rightarrow> string \<Rightarrow> RoutePolicy \<Rightarrow> string" where
  "redact libs bytes policy =
     (if redact_members policy = [] then bytes
      else case json_parse libs bytes of
          None \<Rightarrow> []
        | Some (JObj kvs) \<Rightarrow>
            let kvs' = fold obj_remove (redact_members policy) kvs
            in json_print libs (JObj (if secret_already_delivered_marker policy
                 then obj_insert ''secretAlreadyDelivered'' (JBool True) kvs' else kvs'))
        | Some v \<Rightarrow> json_print libs v)"

text \<open>A replayed response. A status that is no HTTP status is answered as 200.\<close>

definition replay :: "StoredResponse \<Rightarrow> AxumResponse" where
  "replay stored =
     (let status = (if 100 \<le> sr_status stored \<and> sr_status stored < 1000 then sr_status stored else 200);
          response = \<lparr>rp_status = status, rp_headers = [(''content-type'', ''application/octet-stream'')],
                      rp_body = Some (sr_body stored)\<rparr>;
          response = (case Option.bind (sr_content_type stored) header_from_str of
                        Some ct \<Rightarrow> tap_header ''content-type'' ct response | None \<Rightarrow> response)
      in tap_header ''idempotency-replayed'' ''true'' response)"

definition is_server_error :: "nat \<Rightarrow> bool" where
  "is_server_error status \<longleftrightarrow> 500 \<le> status \<and> status < 600"

definition stored_response :: "'s http_libs \<Rightarrow> RoutePolicy \<Rightarrow> AxumResponse \<Rightarrow> string \<Rightarrow> StoredResponse" where
  "stored_response libs policy response bytes =
     \<lparr>sr_status = rp_status response, sr_body = redact libs bytes policy,
      sr_content_type = Option.bind (header_get ''content-type'' (rp_headers response)) header_to_str\<rparr>"

text \<open>
  The outcome. What became of it is only logged (\<^verbatim>\<open>log_settlement\<close>), so the result of the
  store call is dropped and its effect kept.
\<close>

definition record_outcome ::
  "'s http_libs \<Rightarrow> 's IdempotencyLayerState \<Rightarrow> RequestKey \<Rightarrow> ClaimToken \<Rightarrow> RoutePolicy \<Rightarrow> AxumResponse \<Rightarrow> 's \<Rightarrow>
   AxumResponse \<times> 's" where
  "record_outcome libs state key token policy response s =
     (if is_server_error (rp_status response) \<or> rp_status response = 429 then
        (response, snd (bounded libs (st_release (ils_store state) key token) s))
      else case to_bytes (rp_body response) MAX_BUFFER of
          None \<Rightarrow> (response\<lparr>rp_body := Some []\<rparr>,
                   snd (bounded libs (st_release (ils_store state) key token) s))
        | Some bytes \<Rightarrow>
            (response\<lparr>rp_body := Some bytes\<rparr>,
             snd (bounded libs (st_complete (ils_store state) key token
                    (stored_response libs policy response bytes)) s)))"

text \<open>
  From the header to the key: the checks before the store is asked. \<open>Inl\<close> is the refusal.
\<close>

definition admit ::
  "'s http_libs \<Rightarrow> 's IdempotencyLayerState \<Rightarrow> AxumRequest \<Rightarrow> string \<Rightarrow>
   AxumResponse + RequestKey \<times> RoutePolicy \<times> string" where
  "admit libs state request raw_key =
     (case header_to_str raw_key of
        None \<Rightarrow> Inl (problem libs 400 ''Malformed Idempotency Key''
          ''`Idempotency-Key` must be non-empty printable ASCII of at most 255 characters.'')
      | Some k \<Rightarrow>
          if str_trim k = [] \<or> length k > MAX_KEY_LEN then
            Inl (problem libs 400 ''Malformed Idempotency Key''
              ''`Idempotency-Key` must be non-empty printable ASCII of at most 255 characters.'')
          else
            let template = (case rq_template request of Some t \<Rightarrow> t | None \<Rightarrow> [])
            in case policy_for (rq_method request) template of
                 None \<Rightarrow> Inl (problem libs 400 ''Idempotency Key Not Accepted Here''
                   (''`'' @ rq_method request @ '' '' @ template @
                    ''` does not accept an `Idempotency-Key`. It is idempotent by shape -- repeating it reaches the same state -- so a key would record nothing. Retry it directly.''))
               | Some policy \<Rightarrow>
                   (case ils_principal state request of
                      None \<Rightarrow> Inl (problem libs 400 ''Idempotency Key Without A Caller''
                        ''`Idempotency-Key` is scoped to the authenticated caller, and this request has none. Authenticate, or omit the header.'')
                    | Some caller \<Rightarrow>
                        (case to_bytes (rq_body request) MAX_BUFFER of
                           None \<Rightarrow> Inl (problem libs 413 ''Request Too Large To Make Idempotent''
                             ''The request body exceeds what can be buffered to fingerprint it. Resend without an `Idempotency-Key`, or send a smaller body.'')
                         | Some bytes \<Rightarrow>
                             Inr (\<lparr>rk_principal = caller, rk_method = rq_method request,
                                   rk_path = template, rk_key = str_trim k\<rparr>, policy, bytes))))"

definition idempotency_middleware ::
  "'s http_libs \<Rightarrow> 's IdempotencyLayerState \<Rightarrow> (AxumRequest \<Rightarrow> 'w \<times> 's \<Rightarrow> AxumResponse \<times> 'w \<times> 's) \<Rightarrow>
   AxumRequest \<Rightarrow> 'w \<times> 's \<Rightarrow> AxumResponse \<times> 'w \<times> 's" where
  "idempotency_middleware libs state run_next request ws =
     (case header_get IDEMPOTENCY_KEY_HEADER (rq_headers request) of
        None \<Rightarrow> run_next request ws
      | Some raw_key \<Rightarrow>
          (case admit libs state request raw_key of
             Inl refusal \<Rightarrow> (refusal, ws)
           | Inr (key, policy, bytes) \<Rightarrow>
               (case bounded libs (st_claim (ils_store state) key (fingerprint libs bytes)
                       DEFAULT_LEASE DEFAULT_RETENTION) (snd ws) of
                  (Inr (Replay stored), s1) \<Rightarrow> (replay stored, fst ws, s1)
                | (Inr InFlight, s1) \<Rightarrow>
                    (tap_header ''retry-after'' ''1'' (problem libs 409 ''Idempotent Request In Flight''
                      ''An earlier attempt with this `Idempotency-Key` is still running. Retry shortly; do not change the body.''),
                     fst ws, s1)
                | (Inr FingerprintMismatch, s1) \<Rightarrow>
                    (problem libs 422 ''Idempotency Key Reuse''
                      ''This `Idempotency-Key` was already used for a request with a different body. A retry must resend byte-identical bytes -- member order and whitespace count, because the fingerprint is over the raw body. Use a new key for a new request.'',
                     fst ws, s1)
                | (Inl e, s1) \<Rightarrow>
                    (problem libs 503 ''Idempotency Store Unavailable''
                      ''The record that makes this request safe to retry could not be written, so the request was not run. Retry with the same key.'',
                     fst ws, s1)
                | (Inr (Claimed token), s1) \<Rightarrow>
                    (case run_next (request\<lparr>rq_body := Some bytes\<rparr>) (fst ws, s1) of
                       (response, w2, s2) \<Rightarrow>
                         (case record_outcome libs state key token policy response s2 of
                            (answer, s3) \<Rightarrow> (answer, w2, s3))))))"

subsection \<open>The port's contract\<close>

text \<open>
  What the documentation of \<^verbatim>\<open>IdempotencyStore\<close> promises, with two views of the store:
  whether a token holds the claim on a key for a body, and the response recorded for a key.
  A granted claim is held; the only response that is ever recorded is the one handed to
  \<^verbatim>\<open>complete\<close>; nothing else than that changes a recorded response to another.
\<close>

locale idempotency_port =
  fixes store :: "'s idem_store"
    and inv :: "'s \<Rightarrow> bool"
    and holds :: "RequestKey \<Rightarrow> ClaimToken \<Rightarrow> string \<Rightarrow> 's \<Rightarrow> bool"
    and recorded :: "RequestKey \<Rightarrow> 's \<Rightarrow> StoredResponse option"
  assumes claim_inv: "inv s \<Longrightarrow> inv (snd (st_claim store key fp lease retention s))"
    and complete_inv: "inv s \<Longrightarrow> inv (snd (st_complete store key token response s))"
    and claim_holds: "st_claim store key fp lease retention s = (Inr (Claimed token), s') \<Longrightarrow>
      holds key token fp s'"
    and claim_recorded: "inv s \<Longrightarrow>
      recorded k (snd (st_claim store key fp lease retention s)) \<in> {recorded k s, None}"
    and complete_recorded: "inv s \<Longrightarrow> recorded k (snd (st_complete store key token response s)) \<noteq> recorded k s \<Longrightarrow>
      \<exists>x. recorded k (snd (st_complete store key token response s)) = Some x \<and> sr_body x = sr_body response"
    and release_recorded: "inv s \<Longrightarrow>
      recorded k (snd (st_release store key token s)) \<in> {recorded k s, None}"
begin

lemma bounded_claim_recorded:
  assumes "inv s"
  shows "recorded k (snd (bounded libs (st_claim store key fp lease retention) s)) \<in> {recorded k s, None}"
  using claim_recorded [OF assms] by (simp add: bounded_def split: store_wait.splits)

lemma bounded_claim_inv: "inv s \<Longrightarrow> inv (snd (bounded libs (st_claim store key fp lease retention) s))"
  using claim_inv by (simp add: bounded_def split: store_wait.splits)

lemma bounded_claimed:
  assumes "bounded libs (st_claim store key fp lease retention) s = (Inr (Claimed token), s')"
  shows "holds key token fp s'"
  using assms claim_holds by (auto simp: bounded_def split: store_wait.splits)

lemma record_outcome_recorded:
  assumes "inv s" and "ils_store state = store"
    and "recorded k (snd (record_outcome libs state key token policy response s)) = Some x"
    and "recorded k (snd (record_outcome libs state key token policy response s)) \<noteq> recorded k s"
  shows "\<exists>bytes. sr_body x = redact libs bytes policy"
proof -
  have rel: "recorded k (snd (bounded libs (st_release store key token) s)) \<in> {recorded k s, None}"
    using release_recorded [OF assms(1)] by (simp add: bounded_def split: store_wait.splits)
  have com: "recorded k (snd (bounded libs (st_complete store key token y) s)) = recorded k s \<or>
    (\<exists>z. recorded k (snd (bounded libs (st_complete store key token y) s)) = Some z \<and> sr_body z = sr_body y)" for y
    using complete_recorded [OF assms(1), of k key token y] by (simp add: bounded_def split: store_wait.splits) blast
  have body: "sr_body (stored_response libs policy response b) = redact libs b policy" for b
    by (simp add: stored_response_def)
  show ?thesis
  proof (cases "to_bytes (rp_body response) MAX_BUFFER")
    case None
    then show ?thesis using assms(2-4) rel by (auto simp: record_outcome_def split: if_splits)
  next
    case (Some b)
    then show ?thesis
      using assms(2-4) rel com [of "stored_response libs policy response b"]
      by (auto simp: record_outcome_def body split: if_splits)
  qed
qed

text \<open>The handler runs only in a state in which this request holds the claim for its body.\<close>

lemma runs_under_claim:
  assumes "ils_store state = store"
    and "header_get IDEMPOTENCY_KEY_HEADER (rq_headers request) = Some raw_key"
    and "idempotency_middleware libs state run_next request (w, s) = (answer, w', s')" and "w' \<noteq> w"
  obtains key policy bytes token s1 where "admit libs state request raw_key = Inr (key, policy, bytes)"
    and "holds key token (fingerprint libs bytes) s1"
    and "w' = fst (snd (run_next (request\<lparr>rq_body := Some bytes\<rparr>) (w, s1)))"
proof (cases "admit libs state request raw_key")
  case (Inl refusal)
  then show ?thesis using assms by (simp add: idempotency_middleware_def)
next
  case (Inr a)
  obtain key policy bytes where a: "a = (key, policy, bytes)" by (cases a)
  obtain c s1 where c: "bounded libs (st_claim store key (fingerprint libs bytes) DEFAULT_LEASE DEFAULT_RETENTION) s = (c, s1)"
    by fastforce
  obtain token where t: "c = Inr (Claimed token)"
    using assms c by (auto simp: idempotency_middleware_def Inr a split: sum.splits Claim.splits)
  have "w' = fst (snd (run_next (request\<lparr>rq_body := Some bytes\<rparr>) (w, s1)))"
    using assms c by (auto simp: idempotency_middleware_def Inr a t split: prod.splits)
  with Inr [unfolded a] bounded_claimed [OF c [unfolded t]] show ?thesis by (rule that)
qed

text \<open>A response recorded by the middleware on an admitted request is a redacted one.\<close>

lemma records_redacted:
  assumes "ils_store state = store" and "inv s"
    and "header_get IDEMPOTENCY_KEY_HEADER (rq_headers request) = Some raw_key"
    and "admit libs state request raw_key = Inr (key, policy, bytes)"
    and "\<And>rq w s. inv s \<Longrightarrow> inv (snd (snd (run_next rq (w, s))))"
    and "\<And>rq w s. recorded k (snd (snd (run_next rq (w, s)))) \<in> {recorded k s, None}"
    and "recorded k (snd (snd (idempotency_middleware libs state run_next request (w, s)))) = Some x"
    and "recorded k s \<noteq> Some x"
  shows "\<exists>b. sr_body x = redact libs b policy"
proof -
  obtain c s1 where c: "bounded libs (st_claim store key (fingerprint libs bytes) DEFAULT_LEASE DEFAULT_RETENTION) s = (c, s1)"
    by fastforce
  have r1: "recorded k s1 \<in> {recorded k s, None}" and i1: "inv s1"
    using bounded_claim_recorded [OF assms(2)] bounded_claim_inv [OF assms(2)] c by (metis snd_conv)+
  obtain token where t: "c = Inr (Claimed token)"
    using assms(1,3,4,7,8) c r1 by (auto simp: idempotency_middleware_def split: sum.splits Claim.splits)
  obtain response w2 s2 where h: "run_next (request\<lparr>rq_body := Some bytes\<rparr>) (w, s1) = (response, w2, s2)"
    by (metis prod_cases3)
  have r2: "recorded k s2 \<noteq> Some x" and i2: "inv s2"
    using assms(6) [of "request\<lparr>rq_body := Some bytes\<rparr>" w s1] assms(5) [OF i1, of "request\<lparr>rq_body := Some bytes\<rparr>" w]
      r1 assms(8) h by auto
  have "recorded k (snd (record_outcome libs state key token policy response s2)) = Some x"
    using assms(1,3,4,7) c h by (simp add: idempotency_middleware_def t split: prod.splits)
  with record_outcome_recorded [OF i2 assms(1)] r2 show ?thesis by auto
qed

end

subsection \<open>The PostgreSQL store behind the port\<close>

definition pg_store :: "pg_env \<Rightarrow> odal idem_store" where
  "pg_store env = \<lparr>st_claim = claim env, st_complete = complete env, st_release = release env\<rparr>"

definition claim_held :: "RequestKey \<Rightarrow> ClaimToken \<Rightarrow> string \<Rightarrow> odal \<Rightarrow> bool" where
  "claim_held key token fp db \<longleftrightarrow>
     opt_holds (\<lambda>r. held_by key token r \<and> ik_fingerprint r = fp) (idem_row key db)"

text \<open>The response a row replays to a request with the row's own fingerprint.\<close>

definition replayable :: "idempotency_rec \<Rightarrow> StoredResponse option" where
  "replayable r =
     (case standing_claim (ik_fingerprint r) (Some r) of Replay x \<Rightarrow> Some x | _ \<Rightarrow> None)"

definition recorded_at :: "RequestKey \<Rightarrow> odal \<Rightarrow> StoredResponse option" where
  "recorded_at key db = Option.bind (idem_row key db) replayable"

lemma replayable_fresh [simp]: "replayable (fresh_claim key fp lease retention token now) = None"
  by (simp add: replayable_def standing_claim_def fresh_claim_def)

lemma replayable_completed:
  "\<exists>x. replayable (completed_row response now r) = Some x \<and> sr_body x = sr_body response"
  by (simp add: replayable_def standing_claim_def completed_row_def)

lemma claim_snd:
  "snd (claim env key fp lease retention db) =
     (let db1 = snd (claim_insert env key fp lease retention (mint_token env (tick db)) db)
      in if fst (claim_insert env key fp lease retention (mint_token env (tick db)) db) = Inr False
         then bump db1 else db1)"
  by (auto simp: claim_def Let_def split: prod.splits sum.splits bool.splits)

lemma claim_recorded_at:
  "recorded_at k (snd (claim env key fp lease retention db)) \<in> {recorded_at k db, None}"
  by (auto simp: recorded_at_def claim_snd Let_def claim_insert_row)

lemma complete_recorded_at:
  assumes "recorded_at k (snd (complete env key token response db)) \<noteq> recorded_at k db"
  shows "\<exists>x. recorded_at k (snd (complete env key token response db)) = Some x \<and> sr_body x = sr_body response"
  using complete_row [of k env key token response db] assms
    replayable_completed [of response "now_at env (tick db)"]
  by (cases "idem_row k db") (auto simp: recorded_at_def split: if_splits)

lemma release_recorded_at:
  assumes "idem_keys_ok db"
  shows "recorded_at k (snd (release env key token db)) \<in> {recorded_at k db, None}"
  using pg_delete_row_cases [OF assms, of k env "held_by key token"]
  by (auto simp: recorded_at_def release_snd)

lemma claim_keeps_keys:
  assumes "idem_keys_ok db"
  shows "idem_keys_ok (snd (claim env key fp lease retention db))"
  using idem_keys_preserved(1) [OF assms, of env key fp lease retention "mint_token env (tick db)"]
  by (simp add: claim_snd Let_def idem_keys_ok_def)

interpretation pg_port: idempotency_port "pg_store env" idem_keys_ok claim_held recorded_at for env
proof unfold_locales
  fix key fp lease retention s token s'
  assume "st_claim (pg_store env) key fp lease retention s = (Inr (Claimed token), s')"
  then have "claim env key fp lease retention s = (Inr (Claimed token), s')" by (simp add: pg_store_def)
  from claim_Claimed_row(1) [OF this] show "claim_held key token fp s'"
    by (simp add: claim_held_def fresh_claim_held) (simp add: fresh_claim_def)
qed (simp_all add: pg_store_def claim_keeps_keys idem_keys_preserved claim_recorded_at [simplified]
    complete_recorded_at release_recorded_at [simplified])

subsection \<open>Who the caller is\<close>

text \<open>
  The three bindings: the vault reads the authenticated user, the internal scan route is one
  fixed caller, and the integrator derives a name from the bearer token.
\<close>

definition vault_idempotency_state :: "'s idem_store \<Rightarrow> 's IdempotencyLayerState" where
  "vault_idempotency_state store = \<lparr>ils_store = store, ils_principal = rq_user_id\<rparr>"

definition RESOLVER_PRINCIPAL :: string where
  "RESOLVER_PRINCIPAL = ''mtls:odal-resolver''"

definition resolver_idempotency_state :: "'s idem_store \<Rightarrow> 's IdempotencyLayerState" where
  "resolver_idempotency_state store = \<lparr>ils_store = store, ils_principal = (\<lambda>_. Some RESOLVER_PRINCIPAL)\<rparr>"

definition bearer_principal :: "'s http_libs \<Rightarrow> string \<Rightarrow> string" where
  "bearer_principal libs token = ''bearer:'' @ take 32 (sha256_hex libs token)"

definition strip_prefix :: "string \<Rightarrow> string \<Rightarrow> string option" where
  "strip_prefix p s = (if prefix p s then Some (drop (length p) s) else None)"

definition integrator_idempotency_state :: "'s http_libs \<Rightarrow> 's idem_store \<Rightarrow> 's IdempotencyLayerState" where
  "integrator_idempotency_state libs store =
     \<lparr>ils_store = store,
      ils_principal = (\<lambda>request.
        case Option.bind (Option.bind (header_get ''authorization'' (rq_headers request)) header_to_str)
               (strip_prefix ''Bearer '') of
          None \<Rightarrow> None
        | Some t \<Rightarrow> if str_trim t = [] then None else Some (bearer_principal libs (str_trim t)))\<rparr>"

subsection \<open>Redaction\<close>

lemma obj_remove_keys: "set (map fst (obj_remove m kvs)) = set (map fst kvs) - {m}"
  by (auto simp: obj_remove_def)

lemma fold_obj_remove_keys: "set (map fst (fold obj_remove ms kvs)) = set (map fst kvs) - set ms"
proof (induction ms arbitrary: kvs)
  case (Cons m ms)
  then show ?case using obj_remove_keys [of m kvs] by auto
qed simp

lemma obj_insert_keys: "set (map fst (obj_insert k v kvs)) = insert k (set (map fst kvs))"
  by (induction kvs rule: obj_insert.induct) auto

lemma obj_insert_member: "(k, v) \<in> set (obj_insert k v kvs)"
  by (induction k v kvs rule: obj_insert.induct) auto

text \<open>What a redacted body can be: nothing, or printed JSON without the member.\<close>

lemma redact_secret_free:
  assumes "m \<in> set (redact_members policy)" and "secret_already_delivered_marker policy"
    and "m \<noteq> ''secretAlreadyDelivered''"
  shows "redact libs b policy = [] \<or>
    (\<exists>v. redact libs b policy = json_print libs v \<and>
      (\<forall>kvs. v = JObj kvs \<longrightarrow> m \<notin> set (map fst kvs) \<and> (''secretAlreadyDelivered'', JBool True) \<in> set kvs))"
proof (cases "json_parse libs b")
  case None
  then show ?thesis using assms(1) by (auto simp: redact_def)
next
  case (Some v)
  show ?thesis
  proof (cases v)
    case (JObj kvs)
    let ?kvs = "obj_insert ''secretAlreadyDelivered'' (JBool True) (fold obj_remove (redact_members policy) kvs)"
    have "redact libs b policy = json_print libs (JObj ?kvs)"
      using Some JObj assms(1,2) by (auto simp: redact_def Let_def)
    moreover have "m \<notin> set (map fst ?kvs)"
      using assms(1,3) unfolding obj_insert_keys fold_obj_remove_keys by simp
    ultimately show ?thesis using obj_insert_member by blast
  qed (use Some assms(1) in \<open>auto simp: redact_def intro!: exI [of _ v]\<close>)
qed

lemma admit_Inr:
  assumes "admit libs state request raw_key = Inr (key, policy, bytes)"
  shows "policy_for (rq_method request) (case rq_template request of Some t \<Rightarrow> t | None \<Rightarrow> []) = Some policy"
    and "ils_principal state request = Some (rk_principal key)"
    and "rk_method key = rq_method request"
    and "rk_path key = (case rq_template request of Some t \<Rightarrow> t | None \<Rightarrow> [])"
    and "rq_body request = Some bytes" and "length bytes \<le> MAX_BUFFER"
  using assms by (auto simp: admit_def to_bytes_def Let_def split: option.splits if_splits)

subsection \<open>Properties\<close>

text \<open>
  The handler behind a keyed request runs under a claim. If a request
  with an idempotency key changed anything outside the store, then the key was well formed,
  the route accepts keys, the caller is known, and the handler ran in a state of the store
  whose row for exactly this caller, method, route and key is in flight under a token of this
  request and carries the fingerprint of exactly this body. In every other case -- replay,
  conflict, mismatch, refusal, a store that fails or does not answer in time -- nothing ran.
\<close>

theorem idempotency_handler_runs_under_claim:
  assumes "ils_store state = pg_store env"
    and "header_get IDEMPOTENCY_KEY_HEADER (rq_headers request) = Some raw_key"
    and "idempotency_middleware libs state run_next request (w, db) = (answer, w', db')" and "w' \<noteq> w"
  shows "\<exists>key policy bytes token db1.
    admit libs state request raw_key = Inr (key, policy, bytes) \<and>
    (rk_method key, rk_path key) \<in> set keyed_routes \<and>
    ils_principal state request = Some (rk_principal key) \<and> rq_body request = Some bytes \<and>
    claim_held key token (fingerprint libs bytes) db1 \<and>
    w' = fst (snd (run_next request (w, db1)))"
proof -
  obtain key policy bytes token db1 where a: "admit libs state request raw_key = Inr (key, policy, bytes)"
    and h: "claim_held key token (fingerprint libs bytes) db1"
    and w: "w' = fst (snd (run_next (request\<lparr>rq_body := Some bytes\<rparr>) (w, db1)))"
    by (rule pg_port.runs_under_claim [OF assms])
  note adm = admit_Inr [OF a]
  have "request\<lparr>rq_body := Some bytes\<rparr> = request" using adm(5) by (cases request) simp
  moreover have "(rk_method key, rk_path key) \<in> set keyed_routes"
    using adm(1,3,4) by (force simp: policy_for_def keyed_routes_def find_Some_iff in_set_conv_nth)
  ultimately show ?thesis using a h w adm(2,5) by metis
qed

text \<open>
  Property C33 (safety). Secrets are not stored. On the two routes whose response carries a
  once-only secret, whatever the handler answers and however the store behaves, a response
  that a request of theirs adds to the store has an empty body, or is printed JSON that, if
  it is an object, has no \<^verbatim>\<open>secret\<close> member and says that the secret was already delivered.
\<close>

theorem idempotency_secret_not_stored:
  assumes "ils_store state = pg_store env" and "idem_keys_ok db"
    and "header_get IDEMPOTENCY_KEY_HEADER (rq_headers request) = Some raw_key"
    and "rq_method request = ''POST''"
    and "rq_template request \<in> {Some ''/vault/api/v1/api-keys'', Some ''/vault/api/v1/webhooks''}"
    and "\<And>rq w db. idempotency_key (snd (snd (run_next rq (w, db)))) = idempotency_key db"
    and "recorded_at k (snd (snd (idempotency_middleware libs state run_next request (w, db)))) = Some x"
    and "recorded_at k db \<noteq> Some x"
  shows "sr_body x = [] \<or> (\<exists>v. sr_body x = json_print libs v \<and>
    (\<forall>kvs. v = JObj kvs \<longrightarrow> ''secret'' \<notin> set (map fst kvs) \<and> (''secretAlreadyDelivered'', JBool True) \<in> set kvs))"
proof (cases "admit libs state request raw_key")
  case (Inl refusal)
  then show ?thesis using assms(3,7,8) by (simp add: idempotency_middleware_def)
next
  case (Inr a)
  obtain key policy bytes where a: "admit libs state request raw_key = Inr (key, policy, bytes)"
    using Inr by (cases a) simp
  have p: "policy = secret_bearing [''secret'']"
    using admit_Inr(1) [OF a] assms(4,5) by (auto simp: policy_for_def KEYED_def)
  have "\<exists>b. sr_body x = redact libs b policy"
    by (rule pg_port.records_redacted [OF assms(1-3) a _ _ assms(7,8)])
      (simp_all add: idem_keys_ok_def recorded_at_def assms(6))
  then obtain b where b: "sr_body x = redact libs b policy" by blast
  show ?thesis
    unfolding b by (rule redact_secret_free) (simp_all add: p secret_bearing_def)
qed

text \<open>A request whose claim is granted, and how its outcome is recorded.\<close>

lemma middleware_claimed:
  assumes "header_get IDEMPOTENCY_KEY_HEADER (rq_headers request) = Some raw_key"
    and "admit libs state request raw_key = Inr (key, policy, bytes)"
    and "bounded libs (st_claim (ils_store state) key (fingerprint libs bytes) DEFAULT_LEASE DEFAULT_RETENTION) s =
      (Inr (Claimed token), s1)"
    and "run_next request (w, s1) = (response, w2, s2)"
  shows "idempotency_middleware libs state run_next request (w, s) =
    (fst (record_outcome libs state key token policy response s2), w2,
     snd (record_outcome libs state key token policy response s2))"
proof -
  have "request\<lparr>rq_body := Some bytes\<rparr> = request" using admit_Inr(5) [OF assms(2)] by (cases request) simp
  with assms show ?thesis by (simp add: idempotency_middleware_def split: prod.splits)
qed

lemma record_outcome_complete:
  assumes "\<not> is_server_error (rp_status response)" and "rp_status response \<noteq> 429"
    and "rp_body response = Some b" and "length b \<le> MAX_BUFFER"
  shows "record_outcome libs state key token policy response s =
    (response, snd (bounded libs (st_complete (ils_store state) key token (stored_response libs policy response b)) s))"
proof -
  have "response\<lparr>rp_body := Some b\<rparr> = response" using assms(3) by (cases response) simp
  with assms show ?thesis by (simp add: record_outcome_def to_bytes_def)
qed

lemma middleware_replays:
  assumes "header_get IDEMPOTENCY_KEY_HEADER (rq_headers request) = Some raw_key"
    and "admit libs state request raw_key = Inr (key, policy, bytes)"
    and "wait_for libs s = InTime"
    and "fst (st_claim (ils_store state) key (fingerprint libs bytes) DEFAULT_LEASE DEFAULT_RETENTION s) =
      Inr (Replay stored)"
  shows "fst (idempotency_middleware libs state run_next request (w, s)) = replay stored"
    and "fst (snd (idempotency_middleware libs state run_next request (w, s))) = w"
    and "snd (snd (idempotency_middleware libs state run_next request (w, s))) =
      snd (st_claim (ils_store state) key (fingerprint libs bytes) DEFAULT_LEASE DEFAULT_RETENTION s)"
  using assms by (auto simp: idempotency_middleware_def bounded_def split: prod.splits)

lemma retry_runs_once:
  assumes "ils_store state = pg_store env" and "idem_keys_ok db" and "mono (now_at env)" and "fault_free env"
    and "\<And>db. wait_for libs db = InTime" and "\<And>b. is_digest (sha256_hex libs b)"
    and "header_get IDEMPOTENCY_KEY_HEADER (rq_headers request) = Some raw_key"
    and "admit libs state request raw_key = Inr (key, policy, bytes)"
    and "claim env key (fingerprint libs bytes) DEFAULT_LEASE DEFAULT_RETENTION db = (Inr (Claimed tok), db1)"
    and "run_next request (w, db1) = (response, w2, db2)" and "(others env tok)\<^sup>*\<^sup>* db1 db2"
    and "now_at env (tick db2) < now_at env (tick db) + as_interval DEFAULT_LEASE"
    and "100 \<le> rp_status response" and "rp_status response < 500" and "rp_status response \<noteq> 429"
    and "rp_body response = Some b" and "length b \<le> MAX_BUFFER"
    and "idempotency_middleware libs state run_next request (w, db) = (answer, w', db3)"
    and "(others env tok')\<^sup>*\<^sup>* db3 db4"
    and "now_at env (tick db4) < now_at env (tick db) + as_interval DEFAULT_RETENTION"
  shows "answer = response \<and> w' = w2 \<and>
    fst (idempotency_middleware libs state run_next request (w4, db4)) =
      replay (stored_response libs policy response b) \<and>
    fst (snd (idempotency_middleware libs state run_next request (w4, db4))) = w4 \<and>
    db3 = snd (complete env key tok (stored_response libs policy response b) db2) \<and>
    snd (snd (idempotency_middleware libs state run_next request (w4, db4))) =
      snd (claim env key (fingerprint libs bytes) DEFAULT_LEASE DEFAULT_RETENTION db4)"
proof -
  let ?sr = "stored_response libs policy response b"
  have granted: "bounded libs (st_claim (ils_store state) key (fingerprint libs bytes) DEFAULT_LEASE DEFAULT_RETENTION)
      db = (Inr (Claimed tok), db1)"
    using assms(9) by (simp add: bounded_def assms(1,5) pg_store_def)
  have first: "idempotency_middleware libs state run_next request (w, db) =
      (response, w2, snd (complete env key tok ?sr db2))"
    using middleware_claimed [where run_next = run_next and w = w, OF assms(7,8) granted assms(10)] assms(13-17)
    by (simp add: record_outcome_complete is_server_error_def bounded_def assms(1,5) pg_store_def)
  have k1: "idem_keys_ok db1" using claim_keeps_keys [OF assms(2)] assms(9) by (metis snd_conv)
  note k2 = others_star_keys [OF assms(11) k1]
  have row: "idem_row key db2 = Some (fresh_claim key (fingerprint libs bytes) DEFAULT_LEASE DEFAULT_RETENTION tok
      (now_at env (tick db)))"
    by (rule claim_stays [OF assms(9,3,11,12) sample_intervals(3)])
  have "fst (complete env key tok ?sr db2) = Inr Applied"
    by (rule settle_applied(1) [OF k2 row])
      (use assms(4,13,14) in \<open>simp_all add: fresh_claim_held fault_free_def stored_response_def\<close>)
  then have c: "complete env key tok ?sr db2 = (Inr Applied, db3)"
    using first assms(18) by (simp add: prod_eq_iff)
  have "sr_status ?sr < 1000" using assms(14) by (simp add: stored_response_def)
  with idempotency_replay [OF assms(9,2,3,11) c _ assms(19,20,4), of "fingerprint libs bytes"]
  have "fst (claim env key (fingerprint libs bytes) DEFAULT_LEASE DEFAULT_RETENTION db4) = Inr (Replay ?sr)"
    using assms(6) by (simp add: fingerprint_def)
  then have "fst (st_claim (ils_store state) key (fingerprint libs bytes) DEFAULT_LEASE DEFAULT_RETENTION db4) =
      Inr (Replay ?sr)" by (simp add: assms(1) pg_store_def)
  from middleware_replays [where run_next = run_next, OF assms(7,8,5) this] first assms(18) show ?thesis
    by (simp add: assms(1) pg_store_def)
qed


subsection \<open>A concrete request\<close>

definition sample_libs :: "odal http_libs" where
  "sample_libs = \<lparr>sha256_hex = (\<lambda>_. sample_digest),
     json_parse = (\<lambda>_. Some (JObj [(''id'', JStr ''7''), (''secret'', JStr ''whsec'')])),
     json_print = (\<lambda>v. case v of JObj kvs \<Rightarrow> str_join '','' (map fst kvs) | _ \<Rightarrow> ''json''),
     wait_for = (\<lambda>_. InTime)\<rparr>"

definition sample_request :: "string \<Rightarrow> AxumRequest" where
  "sample_request route = \<lparr>rq_method = ''POST'', rq_headers = [(''idempotency-key'', ''k1'')],
     rq_template = Some route, rq_user_id = Some ''user'', rq_body = Some ''{}''\<rparr>"

definition sample_handler :: "AxumRequest \<Rightarrow> nat \<times> odal \<Rightarrow> AxumResponse \<times> nat \<times> odal" where
  "sample_handler request = (\<lambda>(w, db). (\<lparr>rp_status = 201, rp_headers = [(''content-type'', ''application/json'')],
     rp_body = Some ''{}''\<rparr>, Suc w, bump db))"

abbreviation sample_state :: "odal IdempotencyLayerState" where
  "sample_state \<equiv> vault_idempotency_state (pg_store sample_env)"

lemma sample_header:
  "header_get IDEMPOTENCY_KEY_HEADER (rq_headers (sample_request route)) = Some ''k1''"
  by (simp add: header_get_def IDEMPOTENCY_KEY_HEADER_def sample_request_def)

lemma sample_admit_vault:
  assumes "policy_for ''POST'' route = Some policy"
  shows "admit sample_libs sample_state (sample_request route) ''k1'' =
    Inr (\<lparr>rk_principal = ''user'', rk_method = ''POST'', rk_path = route, rk_key = ''k1''\<rparr>, policy, ''{}'')"
  using assms
  by (simp add: admit_def header_to_str_def str_trim_def is_ws_def MAX_KEY_LEN_def MAX_BUFFER_def to_bytes_def
      vault_idempotency_state_def sample_request_def Let_def)

lemma sample_policies:
  "policy_for ''POST'' ''/vault/api/v1/dpp'' = Some verbatim"
  "policy_for ''POST'' ''/vault/api/v1/webhooks'' = Some (secret_bearing [''secret''])"
  by (simp_all add: policy_for_def KEYED_def)

lemma sample_admit:
  "admit sample_libs sample_state (sample_request ''/vault/api/v1/dpp'') ''k1'' = Inr (sample_key, verbatim, ''{}'')"
  using sample_admit_vault [OF sample_policies(1)] by (simp add: sample_key_def)

lemma sample_store: "ils_store sample_state = pg_store sample_env"
  by (simp add: vault_idempotency_state_def)

lemma sample_libs_simps [simp]:
  "sha256_hex sample_libs b = sample_digest" "wait_for sample_libs s = InTime"
  "fingerprint sample_libs b = sample_digest"
  by (simp_all add: sample_libs_def fingerprint_def)

definition sample_response_http :: AxumResponse where
  "sample_response_http = \<lparr>rp_status = 201, rp_headers = [(''content-type'', ''application/json'')], rp_body = Some ''{}''\<rparr>"

lemma sample_handler_run: "sample_handler request (w, db) = (sample_response_http, Suc w, bump db)"
  by (simp add: sample_handler_def sample_response_http_def)

lemma sample_first_run:
  "idempotency_middleware sample_libs sample_state sample_handler (sample_request ''/vault/api/v1/dpp'') (5, empty_db) =
     (sample_response_http, 6, snd (complete sample_env sample_key (ClaimToken 0)
        (stored_response sample_libs verbatim sample_response_http ''{}'') (bump sample_claimed)))"
  by (subst middleware_claimed [OF sample_header sample_admit, where token = "ClaimToken 0" and ?s1.0 = sample_claimed
        and response = sample_response_http and ?w2.0 = 6 and ?s2.0 = "bump sample_claimed"])
    (simp_all add: sample_handler_run bounded_def vault_idempotency_state_def pg_store_def sample_claim record_outcome_def
      is_server_error_def to_bytes_def MAX_BUFFER_def sample_response_http_def)

lemma sample_start: "tick empty_db = 0"
  by (simp add: empty_db_def)

theorem idempotency_handler_runs_under_claim_witness:
  "\<exists>key policy bytes token db1.
    admit sample_libs sample_state (sample_request ''/vault/api/v1/dpp'') ''k1'' = Inr (key, policy, bytes) \<and>
    (rk_method key, rk_path key) \<in> set keyed_routes \<and>
    ils_principal sample_state (sample_request ''/vault/api/v1/dpp'') = Some (rk_principal key) \<and>
    rq_body (sample_request ''/vault/api/v1/dpp'') = Some bytes \<and>
    claim_held key token (fingerprint sample_libs bytes) db1 \<and>
    6 = fst (snd (sample_handler (sample_request ''/vault/api/v1/dpp'') (5, db1)))"
  by (rule idempotency_handler_runs_under_claim [OF sample_store sample_header sample_first_run]) simp


definition sample_secret_key :: RequestKey where
  "sample_secret_key = sample_key\<lparr>rk_path := ''/vault/api/v1/webhooks''\<rparr>"

lemma sample_secret_admit:
  "admit sample_libs sample_state (sample_request ''/vault/api/v1/webhooks'') ''k1'' =
     Inr (sample_secret_key, secret_bearing [''secret''], ''{}'')"
  using sample_admit_vault [OF sample_policies(2)] by (simp add: sample_secret_key_def sample_key_def)

definition sample_secret_claimed :: odal where
  "sample_secret_claimed = bump (empty_db\<lparr>idempotency_key :=
     [fresh_claim sample_secret_key sample_digest DEFAULT_LEASE DEFAULT_RETENTION (ClaimToken 0) 0]\<rparr>)"

lemma sample_secret_claim:
  "claim sample_env sample_secret_key sample_digest DEFAULT_LEASE DEFAULT_RETENTION empty_db =
     (Inr (Claimed (ClaimToken 0)), sample_secret_claimed)"
  by (simp add: claim_def claim_insert_def mint_token_def sample_digest_ok empty_db_def sample_secret_claimed_def Let_def)

lemma sample_secret_run:
  "idempotency_middleware sample_libs sample_state sample_handler (sample_request ''/vault/api/v1/webhooks'') (5, empty_db) =
     (sample_response_http, 6, snd (complete sample_env sample_secret_key (ClaimToken 0)
        (stored_response sample_libs (secret_bearing [''secret'']) sample_response_http ''{}'')
        (bump sample_secret_claimed)))"
  by (subst middleware_claimed [OF sample_header sample_secret_admit, where token = "ClaimToken 0"
        and ?s1.0 = sample_secret_claimed and response = sample_response_http and ?w2.0 = 6
        and ?s2.0 = "bump sample_secret_claimed"])
    (simp_all add: sample_handler_run bounded_def vault_idempotency_state_def pg_store_def sample_secret_claim
      record_outcome_def is_server_error_def to_bytes_def MAX_BUFFER_def sample_response_http_def)

lemma sample_secret_stored:
  "stored_response sample_libs (secret_bearing [''secret'']) sample_response_http ''{}'' =
     \<lparr>sr_status = 201, sr_body = ''id,secretAlreadyDelivered'', sr_content_type = Some ''application/json''\<rparr>"
  by (simp add: stored_response_def redact_def secret_bearing_def sample_libs_def obj_remove_def
      sample_response_http_def header_get_def header_to_str_def)

lemma sample_secret_recorded:
  "recorded_at sample_secret_key (snd (complete sample_env sample_secret_key (ClaimToken 0)
     \<lparr>sr_status = 201, sr_body = ''id,secretAlreadyDelivered'', sr_content_type = Some ''application/json''\<rparr>
     (bump sample_secret_claimed))) =
   Some \<lparr>sr_status = 201, sr_body = ''id,secretAlreadyDelivered'', sr_content_type = Some ''application/json''\<rparr>"
  by (simp add: recorded_at_def complete_def sample_secret_claimed_def fresh_claim_held i16_or_500_def
      replayable_def standing_claim_completed Let_def) (simp add: completed_row_def standing_claim_def i16_or_500_def)

theorem idempotency_secret_not_stored_witness:
  "''id,secretAlreadyDelivered'' = [] \<or>
   (\<exists>v. ''id,secretAlreadyDelivered'' = json_print sample_libs v \<and>
    (\<forall>kvs. v = JObj kvs \<longrightarrow> ''secret'' \<notin> set (map fst kvs) \<and> (''secretAlreadyDelivered'', JBool True) \<in> set kvs))"
  using idempotency_secret_not_stored [OF sample_store sample_keys
      sample_header [where route = "''/vault/api/v1/webhooks''"], where run_next = sample_handler and w = 5 and k = sample_secret_key
        and libs = sample_libs and x = "\<lparr>sr_status = 201, sr_body = ''id,secretAlreadyDelivered'',
          sr_content_type = Some ''application/json''\<rparr>"]
  unfolding sample_secret_run snd_conv sample_secret_stored sample_secret_recorded
  by (simp add: sample_request_def sample_handler_run recorded_at_def empty_db_def)

end
