(* ===== verification/Scan_Telemetry.thy ===== *)
theory Scan_Telemetry
  imports Scan_Counter Idempotency_Middleware
begin

text \<open>
  The node's side of scan telemetry: the increments and read models of
  \<^verbatim>\<open>dpp-types/src/scan.rs\<close>, the PostgreSQL repository \<^verbatim>\<open>dpp-dal/src/pg/repo_scan.rs\<close>, the ingest
  handler \<^verbatim>\<open>dpp-vault/src/handlers/scan_ingest.rs\<close>, the liveness marker
  \<^verbatim>\<open>dpp-vault/src/infra/scan_liveness.rs\<close> and the stats handlers' window
  (\<^verbatim>\<open>handlers/stats.rs\<close>). Counts are 64-bit columns: a sum that does not fit is an error of
  the statement. UUID parsing, JSON extraction and the wall clock are parameters.
\<close>

subsection \<open>Increments and read models\<close>

record ScanIncrement =
  si_dpp_id :: uuid
  si_day :: day
  si_variant :: string
  si_count :: int

record QrRenderIncrement =
  qi_dpp_id :: uuid
  qi_day :: day
  qi_count :: int

record DailyScanCount =
  dsc_day :: day
  dsc_count :: int

record PassportScanStats =
  pss_window_days :: int
  pss_total_scans :: int
  pss_scans_html :: int
  pss_scans_json :: int
  pss_daily :: "DailyScanCount list"
  pss_qr_renders :: int
  pss_ingesting :: bool
  pss_last_ingest_at :: "time option"

record OperatorScanStats =
  oss_window_days :: int
  oss_total_scans :: int
  oss_total_qr_renders :: int
  oss_distinct_passports_scanned :: int
  oss_ingesting :: bool
  oss_last_ingest_at :: "time option"

record ScanPruneCounts =
  spc_scans :: nat
  spc_qr_renders :: nat

subsection \<open>The repository\<close>

definition unzip_scans :: "ScanIncrement list \<Rightarrow> uuid list \<times> day list \<times> string list \<times> int list" where
  "unzip_scans scans =
     foldl (\<lambda>(ids, days, variants, counts) s.
        (ids @ [si_dpp_id s], days @ [si_day s], variants @ [si_variant s], counts @ [si_count s]))
       ([], [], [], []) scans"

definition unzip_qr_renders :: "QrRenderIncrement list \<Rightarrow> uuid list \<times> day list \<times> int list" where
  "unzip_qr_renders qr =
     foldl (\<lambda>(ids, days, counts) q. (ids @ [qi_dpp_id q], days @ [qi_day q], counts @ [qi_count q]))
       ([], [], []) qr"

text \<open>A \<^verbatim>\<open>BIGINT\<close> value.\<close>

definition bigint_ok :: "int \<Rightarrow> bool" where
  "bigint_ok n \<longleftrightarrow> - (2 ^ 63) \<le> n \<and> n < 2 ^ 63"

text \<open>\<^verbatim>\<open>SELECT key, SUM(count) ... GROUP BY key\<close>.\<close>

definition group_sums :: "('k \<times> int) list \<Rightarrow> ('k \<times> int) list" where
  "group_sums rows =
     map (\<lambda>k. (k, sum_list (map snd (filter (\<lambda>e. fst e = k) rows)))) (remdups (map fst rows))"

text \<open>The count of a key: a table holds at most one row of it.\<close>

definition count_of :: "('k \<times> int) list \<Rightarrow> 'k \<Rightarrow> int" where
  "count_of tbl k = (case map_of tbl k of Some c \<Rightarrow> c | None \<Rightarrow> 0)"

text \<open>
  \<^verbatim>\<open>INSERT ... ON CONFLICT DO UPDATE SET count = count + EXCLUDED.count\<close> of rows with
  distinct keys: \<open>check\<close> is the column check, \<open>fk\<close> whether the referenced passport exists. The
  sum of the increments is numeric and is cast to the column's type.
\<close>

definition upsert_counts ::
  "('k \<Rightarrow> bool) \<Rightarrow> ('k \<Rightarrow> bool) \<Rightarrow> ('k \<times> int) list \<Rightarrow> ('k \<times> int) list \<Rightarrow> sqlx_error + ('k \<times> int) list" where
  "upsert_counts check fk deltas tbl =
     (if \<exists>e \<in> set deltas. \<not> bigint_ok (snd e) then Inl out_of_range
      else if \<exists>e \<in> set deltas. \<not> check (fst e) then Inl check_violation
      else if \<exists>e \<in> set deltas. map_of tbl (fst e) = None \<and> \<not> fk (fst e) then Inl fk_violation
      else if \<exists>e \<in> set deltas. map_of tbl (fst e) \<noteq> None \<and> \<not> bigint_ok (count_of tbl (fst e) + snd e)
        then Inl out_of_range
      else Inr (map (\<lambda>(k, c). (k, c + count_of deltas k)) tbl @
                filter (\<lambda>(k, _). map_of tbl k = None) deltas))"

definition known_passport :: "odal \<Rightarrow> uuid \<Rightarrow> bool" where
  "known_passport db u \<longleftrightarrow> u \<in> set (map pp_id (passport db))"

definition insert_scans :: "pg_env \<Rightarrow> ScanIncrement list \<Rightarrow> odal \<Rightarrow> sqlx_error + scan_telemetry_rec list" where
  "insert_scans env scans db =
     (case fault_at env (tick db) of
        Some e \<Rightarrow> Inl e
      | None \<Rightarrow>
          (case unzip_scans scans of (ids, days, variants, counts) \<Rightarrow>
             upsert_counts (\<lambda>(_, _, variant). variant \<in> {''html'', ''json''}) (\<lambda>(u, _, _). known_passport db u)
               (group_sums (zip (zip ids (zip days variants)) counts)) (scan_telemetry db)))"

definition insert_qr_renders :: "pg_env \<Rightarrow> QrRenderIncrement list \<Rightarrow> odal \<Rightarrow> sqlx_error + qr_render_rec list" where
  "insert_qr_renders env qr db =
     (case fault_at env (tick db) of
        Some e \<Rightarrow> Inl e
      | None \<Rightarrow>
          (case unzip_qr_renders qr of (ids, days, counts) \<Rightarrow>
             upsert_counts (\<lambda>_. True) (\<lambda>(u, _). known_passport db u)
               (group_sums (zip (zip ids days) counts)) (qr_render db)))"

text \<open>
  The commit of the two tables, at the end of the transaction. A failed commit is reported
  as an error and may have taken effect.
\<close>

definition commit_telemetry ::
  "pg_env \<Rightarrow> scan_telemetry_rec list \<Rightarrow> qr_render_rec list \<Rightarrow> odal \<Rightarrow> (dpp_error + unit) \<times> odal" where
  "commit_telemetry env st qt db =
     (case fault_at env (tick db) of
        Some e \<Rightarrow> (Inl (db_err env e),
          bump (if commit_lost env (tick db) then db\<lparr>scan_telemetry := st, qr_render := qt\<rparr> else db))
      | None \<Rightarrow> (Inr (), bump (db\<lparr>scan_telemetry := st, qr_render := qt\<rparr>)))"

definition record_batch ::
  "pg_env \<Rightarrow> ScanIncrement list \<Rightarrow> QrRenderIncrement list \<Rightarrow> odal \<Rightarrow> (dpp_error + unit) \<times> odal" where
  "record_batch env scans qr_renders db =
     (if scans = [] \<and> qr_renders = [] then (Inr (), db)
      else case fault_at env (tick db) of
          Some e \<Rightarrow> (Inl (db_err env e), bump db)
        | None \<Rightarrow>
            let db1 = bump db in
            (case (if scans = [] then Inr (scan_telemetry db1) else insert_scans env scans db1) of
               Inl e \<Rightarrow> (Inl (db_err env e), bump db1)
             | Inr st \<Rightarrow>
                 let db2 = (if scans = [] then db1 else bump db1) in
                 (case (if qr_renders = [] then Inr (qr_render db2) else insert_qr_renders env qr_renders db2) of
                    Inl e \<Rightarrow> (Inl (db_err env e), bump db2)
                  | Inr qt \<Rightarrow> commit_telemetry env st qt (if qr_renders = [] then db2 else bump db2))))"

text \<open>
  The window of the read models: the cast of the 64-bit parameter to \<^verbatim>\<open>int\<close>, the arithmetic
  on it and the date arithmetic can fail. Days count from 1970-01-01, and PostgreSQL's dates
  are the Julian days below 2147483494.
\<close>

definition int4_range :: "int \<Rightarrow> bool" where
  "int4_range n \<longleftrightarrow> - (2 ^ 31) \<le> n \<and> n < 2 ^ 31"

definition date_ok :: "day \<Rightarrow> bool" where
  "date_ok d \<longleftrightarrow> 0 \<le> d + 2440588 \<and> d + 2440588 < 2147483494"

definition current_date :: "pg_env \<Rightarrow> nat \<Rightarrow> day" where
  "current_date env n = \<lfloor>now_at env n / 86400\<rfloor>"

definition days_before :: "pg_env \<Rightarrow> nat \<Rightarrow> int \<Rightarrow> int \<Rightarrow> sqlx_error + day" where
  "days_before env n days m =
     (if \<not> int4_range days \<or> \<not> int4_range (days - m) \<or> \<not> date_ok (current_date env n - (days - m))
      then Inl out_of_range else Inr (current_date env n - (days - m)))"

text \<open>\<^verbatim>\<open>COALESCE(SUM(count), 0)::bigint\<close> over the rows that satisfy a condition.\<close>

definition sum_where :: "('r \<Rightarrow> bool) \<Rightarrow> ('r \<times> int) list \<Rightarrow> int" where
  "sum_where p tbl = sum_list (map snd (filter (\<lambda>e. p (fst e)) tbl))"

definition query_window ::
  "pg_env \<Rightarrow> int \<Rightarrow> (day \<Rightarrow> odal \<Rightarrow> int list) \<Rightarrow> odal \<Rightarrow> (dpp_error + int list) \<times> odal" where
  "query_window env window_days q db =
     (case fault_at env (tick db) of
        Some e \<Rightarrow> (Inl (db_err env e), bump db)
      | None \<Rightarrow>
          (case days_before env (tick db) window_days 1 of
             Inl e \<Rightarrow> (Inl (db_err env e), bump db)
           | Inr from_day \<Rightarrow>
               if list_all bigint_ok (q from_day db) then (Inr (q from_day db), bump db)
               else (Inl (db_err env out_of_range), bump db)))"

definition scan_totals :: "uuid \<Rightarrow> day \<Rightarrow> odal \<Rightarrow> int list" where
  "scan_totals dpp_id from_day db =
     [sum_where (\<lambda>(u, d, _). u = dpp_id \<and> from_day \<le> d) (scan_telemetry db),
      sum_where (\<lambda>(u, d, v). u = dpp_id \<and> from_day \<le> d \<and> v = ''html'') (scan_telemetry db),
      sum_where (\<lambda>(u, d, v). u = dpp_id \<and> from_day \<le> d \<and> v = ''json'') (scan_telemetry db)]"

text \<open>The days of the daily series, oldest first, each with its sum.\<close>

definition scan_days :: "uuid \<Rightarrow> day \<Rightarrow> odal \<Rightarrow> day list" where
  "scan_days dpp_id from_day db =
     sort (remdups (map (\<lambda>((_, d, _), _). d)
       (filter (\<lambda>((u, d, _), _). u = dpp_id \<and> from_day \<le> d) (scan_telemetry db))))"

definition scan_daily :: "uuid \<Rightarrow> day \<Rightarrow> odal \<Rightarrow> int list" where
  "scan_daily dpp_id from_day db =
     map (\<lambda>d. sum_where (\<lambda>(u, d', _). u = dpp_id \<and> d' = d) (scan_telemetry db)) (scan_days dpp_id from_day db)"

definition qr_total :: "uuid \<Rightarrow> day \<Rightarrow> odal \<Rightarrow> int list" where
  "qr_total dpp_id from_day db = [sum_where (\<lambda>(u, d). u = dpp_id \<and> from_day \<le> d) (qr_render db)]"

text \<open>
  The three queries run one after the other, outside a transaction; each reads the table as
  it is when it runs.
\<close>

definition passport_stats :: "pg_env \<Rightarrow> uuid \<Rightarrow> int \<Rightarrow> odal \<Rightarrow> (dpp_error + PassportScanStats) \<times> odal" where
  "passport_stats env dpp_id window_days db =
     (case query_window env window_days (scan_totals dpp_id) db of
        (Inl e, db1) \<Rightarrow> (Inl e, db1)
      | (Inr totals, db1) \<Rightarrow>
          (case query_window env window_days (scan_daily dpp_id) db1 of
             (Inl e, db2) \<Rightarrow> (Inl e, db2)
           | (Inr daily, db2) \<Rightarrow>
               (case query_window env window_days (qr_total dpp_id) db2 of
                  (Inl e, db3) \<Rightarrow> (Inl e, db3)
                | (Inr qr, db3) \<Rightarrow>
                    (Inr \<lparr>pss_window_days = window_days, pss_total_scans = totals ! 0, pss_scans_html = totals ! 1,
                      pss_scans_json = totals ! 2,
                      pss_daily = map (\<lambda>(d, c). \<lparr>dsc_day = d, dsc_count = c\<rparr>)
                        (zip (scan_days dpp_id (current_date env (tick db1) - (window_days - 1)) db1) daily),
                      pss_qr_renders = qr ! 0, pss_ingesting = False, pss_last_ingest_at = None\<rparr>, db3))))"

definition operator_totals :: "day \<Rightarrow> odal \<Rightarrow> int list" where
  "operator_totals from_day db =
     [sum_where (\<lambda>(_, d, _). from_day \<le> d) (scan_telemetry db),
      int (length (remdups (map (\<lambda>((u, _, _), _). u) (filter (\<lambda>((_, d, _), _). from_day \<le> d) (scan_telemetry db)))))]"

definition operator_stats :: "pg_env \<Rightarrow> int \<Rightarrow> odal \<Rightarrow> (dpp_error + OperatorScanStats) \<times> odal" where
  "operator_stats env window_days db =
     (case query_window env window_days operator_totals db of
        (Inl e, db1) \<Rightarrow> (Inl e, db1)
      | (Inr row, db1) \<Rightarrow>
          (case query_window env window_days (\<lambda>from_day db. [sum_where (\<lambda>(_, d). from_day \<le> d) (qr_render db)]) db1 of
             (Inl e, db2) \<Rightarrow> (Inl e, db2)
           | (Inr qr, db2) \<Rightarrow>
               (Inr \<lparr>oss_window_days = window_days, oss_total_scans = row ! 0, oss_total_qr_renders = qr ! 0,
                 oss_distinct_passports_scanned = row ! 1, oss_ingesting = False, oss_last_ingest_at = None\<rparr>, db2)))"

text \<open>\<^verbatim>\<open>DELETE ... WHERE day < CURRENT_DATE - horizon\<close>, in one transaction over both tables.\<close>

definition delete_before ::
  "pg_env \<Rightarrow> int \<Rightarrow> ('r \<Rightarrow> day) \<Rightarrow> ('r \<times> int) list \<Rightarrow> nat \<Rightarrow> sqlx_error + nat \<times> ('r \<times> int) list" where
  "delete_before env horizon day_of tbl n =
     (case fault_at env n of
        Some e \<Rightarrow> Inl e
      | None \<Rightarrow>
          (case days_before env n horizon 0 of
             Inl e \<Rightarrow> Inl e
           | Inr d \<Rightarrow> Inr (length (filter (\<lambda>e. day_of (fst e) < d) tbl), filter (\<lambda>e. \<not> day_of (fst e) < d) tbl)))"

definition prune :: "pg_env \<Rightarrow> int \<Rightarrow> odal \<Rightarrow> (dpp_error + ScanPruneCounts) \<times> odal" where
  "prune env horizon_days db =
     (case fault_at env (tick db) of
        Some e \<Rightarrow> (Inl (db_err env e), bump db)
      | None \<Rightarrow>
          let db1 = bump db in
          (case delete_before env horizon_days (\<lambda>(_, d, _). d) (scan_telemetry db1) (tick db1) of
             Inl e \<Rightarrow> (Inl (db_err env e), bump db1)
           | Inr (scans, st) \<Rightarrow>
               let db2 = bump db1 in
               (case delete_before env horizon_days (\<lambda>(_, d). d) (qr_render db2) (tick db2) of
                  Inl e \<Rightarrow> (Inl (db_err env e), bump db2)
                | Inr (qr_renders, qt) \<Rightarrow>
                    (case commit_telemetry env st qt (bump db2) of
                       (Inl e, db3) \<Rightarrow> (Inl e, db3)
                     | (Inr _, db3) \<Rightarrow> (Inr \<lparr>spc_scans = scans, spc_qr_renders = qr_renders\<rparr>, db3)))))"

definition SCAN_RETENTION_DAYS :: int where
  "SCAN_RETENTION_DAYS = 730"

subsection \<open>Liveness\<close>

definition STALE_AFTER_INTERVALS :: int where
  "STALE_AFTER_INTERVALS = 3"

record LastIngest =
  li_at :: time
  li_interval_secs :: "nat option"

definition record_ingest :: "time \<Rightarrow> nat option \<Rightarrow> LastIngest option \<Rightarrow> LastIngest option" where
  "record_ingest now interval_secs slot = Some \<lparr>li_at = now, li_interval_secs = interval_secs\<rparr>"

definition last_ingest :: "LastIngest option \<Rightarrow> time option" where
  "last_ingest slot = map_option li_at slot"

text \<open>
  \<^verbatim>\<open>i64::saturating_mul\<close>, and chrono's \<^verbatim>\<open>Duration::seconds\<close>, which panics (\<open>None\<close>) on a
  value whose milliseconds do not fit 64 bits.
\<close>

definition saturating_mul :: "int \<Rightarrow> int \<Rightarrow> int" where
  "saturating_mul a b = max (- (2 ^ 63)) (min (2 ^ 63 - 1) (a * b))"

definition duration_seconds :: "int \<Rightarrow> time option" where
  "duration_seconds n = (if \<bar>n\<bar> \<le> (2 ^ 63 - 1) div 1000 then Some (of_int n) else None)"

definition is_fresh :: "LastIngest \<Rightarrow> time \<Rightarrow> bool option" where
  "is_fresh li now =
     (case li_interval_secs li of
        None \<Rightarrow> Some True
      | Some interval \<Rightarrow>
          if \<not> interval < 2 ^ 63 then Some True
          else map_option (\<lambda>d. now - li_at li < d) (duration_seconds (saturating_mul (int interval) STALE_AFTER_INTERVALS)))"

definition is_ingesting :: "time \<Rightarrow> LastIngest option \<Rightarrow> bool option" where
  "is_ingesting now slot = (case slot of None \<Rightarrow> Some False | Some li \<Rightarrow> is_fresh li now)"

subsection \<open>The handlers\<close>

text \<open>
  What the handlers take from libraries: UUID parsing, axum's JSON extraction with its
  rejection (a status and a text), the names of the statuses, the resolver's serialisation
  of a batch and its spelling of a UUID.
\<close>

record ingest_libs =
  parse_uuid :: "string \<Rightarrow> uuid option"
  json_extract :: "AxumRequest \<Rightarrow> (nat \<times> string) + ScanBatch"
  canonical_reason :: "nat \<Rightarrow> string option"
  encode_batch :: "ScanBatch \<Rightarrow> string"
  uuid_to_string :: "uuid \<Rightarrow> string"

definition i64_or_max :: "nat \<Rightarrow> int" where
  "i64_or_max n = (if n < 2 ^ 63 then int n else 2 ^ 63 - 1)"

definition scan_increments :: "ingest_libs \<Rightarrow> ScanBatch \<Rightarrow> ScanIncrement list" where
  "scan_increments libs batch =
     List.map_filter (\<lambda>s. map_option (\<lambda>u. \<lparr>si_dpp_id = u, si_day = sbe_day s,
          si_variant = variant_as_db (sbe_variant s), si_count = i64_or_max (sbe_count s)\<rparr>)
        (parse_uuid libs (sbe_dpp_id s))) (sb_scans batch)"

definition qr_increments :: "ingest_libs \<Rightarrow> ScanBatch \<Rightarrow> QrRenderIncrement list" where
  "qr_increments libs batch =
     List.map_filter (\<lambda>q. map_option (\<lambda>u. \<lparr>qi_dpp_id = u, qi_day = qre_day q, qi_count = i64_or_max (qre_count q)\<rparr>)
        (parse_uuid libs (qre_dpp_id q))) (sb_qr_renders batch)"

definition ingest_batch :: "ingest_libs \<Rightarrow> pg_env \<Rightarrow> ScanBatch \<Rightarrow> odal \<Rightarrow> (dpp_error + unit) \<times> odal" where
  "ingest_batch libs env batch = record_batch env (scan_increments libs batch) (qr_increments libs batch)"

definition problem_from :: "'s http_libs \<Rightarrow> ingest_libs \<Rightarrow> nat \<Rightarrow> string \<Rightarrow> AxumResponse" where
  "problem_from http libs status detail =
     problem http status (case canonical_reason libs status of Some r \<Rightarrow> r | None \<Rightarrow> ''Error'') detail"

definition internal_error :: "'s http_libs \<Rightarrow> AxumResponse" where
  "internal_error http = problem http 500 ''Internal Server Error'' ''An internal error occurred.''"

definition no_content :: AxumResponse where
  "no_content = \<lparr>rp_status = 204, rp_headers = [], rp_body = Some []\<rparr>"

definition scan_ingest_handler ::
  "odal http_libs \<Rightarrow> ingest_libs \<Rightarrow> pg_env \<Rightarrow> (nat \<Rightarrow> time) \<Rightarrow>
   AxumRequest \<Rightarrow> LastIngest option \<times> odal \<Rightarrow> AxumResponse \<times> LastIngest option \<times> odal" where
  "scan_ingest_handler http libs env utc_now request st =
     (case json_extract libs request of
        Inl (status, detail) \<Rightarrow> (problem_from http libs status detail, st)
      | Inr batch \<Rightarrow>
          let slot = record_ingest (utc_now (tick (snd st))) (sb_flush_interval_secs batch) (fst st) in
          (case ingest_batch libs env batch (snd st) of
             (Inr _, db) \<Rightarrow> (no_content, slot, db)
           | (Inl e, db) \<Rightarrow> (internal_error http, slot, db)))"

definition DEFAULT_WINDOW_DAYS :: int where
  "DEFAULT_WINDOW_DAYS = 30"

definition MAX_WINDOW_DAYS :: int where
  "MAX_WINDOW_DAYS = 730"

definition clamp_window :: "int option \<Rightarrow> int" where
  "clamp_window days = max 1 (min MAX_WINDOW_DAYS (case days of Some d \<Rightarrow> d | None \<Rightarrow> DEFAULT_WINDOW_DAYS))"

text \<open>
  The stats handlers, after authentication: the statistics with the liveness overlaid, the
  internal error, or a panic (\<open>None\<close>) from the freshness rule.
\<close>

definition passport_stats_handler ::
  "pg_env \<Rightarrow> (nat \<Rightarrow> time) \<Rightarrow> uuid \<Rightarrow> int option \<Rightarrow> LastIngest option \<times> odal \<Rightarrow>
   (dpp_error + PassportScanStats) option \<times> odal" where
  "passport_stats_handler env utc_now dpp_id days st =
     (case passport_stats env dpp_id (clamp_window days) (snd st) of
        (Inl e, db) \<Rightarrow> (Some (Inl e), db)
      | (Inr stats, db) \<Rightarrow>
          (map_option (\<lambda>fresh. Inr (stats\<lparr>pss_last_ingest_at := last_ingest (fst st), pss_ingesting := fresh\<rparr>))
             (is_ingesting (utc_now (tick db)) (fst st)), db))"

definition operator_stats_handler ::
  "pg_env \<Rightarrow> (nat \<Rightarrow> time) \<Rightarrow> int option \<Rightarrow> LastIngest option \<times> odal \<Rightarrow>
   (dpp_error + OperatorScanStats) option \<times> odal" where
  "operator_stats_handler env utc_now days st =
     (case operator_stats env (clamp_window days) (snd st) of
        (Inl e, db) \<Rightarrow> (Some (Inl e), db)
      | (Inr stats, db) \<Rightarrow>
          (map_option (\<lambda>fresh. Inr (stats\<lparr>oss_last_ingest_at := last_ingest (fst st), oss_ingesting := fresh\<rparr>))
             (is_ingesting (utc_now (tick db)) (fst st)), db))"

subsection \<open>The repository adds what it is given\<close>

lemma unzip_scans_map:
  "unzip_scans scans = (map si_dpp_id scans, map si_day scans, map si_variant scans, map si_count scans)"
proof -
  have "foldl (\<lambda>(ids, days, variants, counts) s.
        (ids @ [si_dpp_id s], days @ [si_day s], variants @ [si_variant s], counts @ [si_count s])) (a, b, c, d) scans =
      (a @ map si_dpp_id scans, b @ map si_day scans, c @ map si_variant scans, d @ map si_count scans)" for a b c d
    by (induction scans arbitrary: a b c d) auto
  then show ?thesis by (simp add: unzip_scans_def)
qed

lemma unzip_qr_renders_map:
  "unzip_qr_renders qr = (map qi_dpp_id qr, map qi_day qr, map qi_count qr)"
proof -
  have "foldl (\<lambda>(ids, days, counts) q. (ids @ [qi_dpp_id q], days @ [qi_day q], counts @ [qi_count q])) (a, b, c) qr =
      (a @ map qi_dpp_id qr, b @ map qi_day qr, c @ map qi_count qr)" for a b c
    by (induction qr arbitrary: a b c) auto
  then show ?thesis by (simp add: unzip_qr_renders_def)
qed

lemma zip_maps: "zip (map f xs) (map g xs) = map (\<lambda>x. (f x, g x)) xs"
  by (induction xs) auto

definition scan_delta :: "ScanIncrement \<Rightarrow> scan_telemetry_rec" where
  "scan_delta s = ((si_dpp_id s, si_day s, si_variant s), si_count s)"

definition qr_delta :: "QrRenderIncrement \<Rightarrow> qr_render_rec" where
  "qr_delta q = ((qi_dpp_id q, qi_day q), qi_count q)"

text \<open>What a list of increments adds to a key.\<close>

definition added :: "('k \<times> int) list \<Rightarrow> 'k \<Rightarrow> int" where
  "added rows k = sum_list (map snd (filter (\<lambda>e. fst e = k) rows))"

lemma added_Nil [simp]: "added [] k = 0"
  by (simp add: added_def)

lemma group_sums_count: "count_of (group_sums rows) k = added rows k"
proof -
  have m: "map_of (map (\<lambda>k. (k, f k)) ks) k = (if k \<in> set ks then Some (f k) else None)" for f :: "'a \<Rightarrow> int" and ks
    by (induction ks) auto
  have "k \<notin> set (map fst rows) \<Longrightarrow> filter (\<lambda>e. fst e = k) rows = []" by (auto simp: filter_empty_conv)
  then show ?thesis by (auto simp: count_of_def group_sums_def added_def m)
qed

lemma group_sums_distinct: "distinct (map fst (group_sums rows))"
  by (simp add: group_sums_def o_def)

lemma upsert_counts_adds:
  assumes "upsert_counts check fk deltas tbl = Inr tbl'"
    and "distinct (map fst deltas)" and "distinct (map fst tbl)"
  shows "count_of tbl' k = count_of tbl k + count_of deltas k" and "distinct (map fst tbl')"
proof -
  let ?old = "map (\<lambda>(k, c). (k, c + count_of deltas k)) tbl"
  let ?new = "filter (\<lambda>(k, _). map_of tbl k = None) deltas"
  have t: "tbl' = ?old @ ?new" using assms(1) by (simp add: upsert_counts_def split: if_splits)
  have old: "map_of ?old k = map_option (\<lambda>c. c + count_of deltas k) (map_of tbl k)" by (induction tbl) auto
  have new: "map_of ?new k = (if map_of tbl k = None then map_of deltas k else None)" by (induction deltas) auto
  show "count_of tbl' k = count_of tbl k + count_of deltas k"
    using old new by (auto simp: t count_of_def map_add_def split: option.splits)
  have "map fst ?old = map fst tbl" by (induction tbl) auto
  moreover have "distinct (map fst ?new)" using assms(2) by (induction deltas) auto
  moreover have "set (map fst ?new) \<inter> set (map fst tbl) = {}" by (force simp: map_of_eq_None_iff)
  ultimately have "distinct (map fst ?old @ map fst ?new)" using assms(3) by (simp only: distinct_append) blast
  then show "distinct (map fst tbl')" by (simp only: t map_append)
qed

definition telemetry_ok :: "odal \<Rightarrow> bool" where
  "telemetry_ok db \<longleftrightarrow> distinct (map fst (scan_telemetry db)) \<and> distinct (map fst (qr_render db))"

lemma insert_scans_adds:
  assumes "insert_scans env scans db = Inr st" and "telemetry_ok db"
  shows "count_of st k = count_of (scan_telemetry db) k + added (map scan_delta scans) k" and "distinct (map fst st)"
proof -
  have z: "zip (zip (map si_dpp_id scans) (zip (map si_day scans) (map si_variant scans))) (map si_count scans) =
      map scan_delta scans" by (simp add: zip_maps scan_delta_def [abs_def])
  have u: "upsert_counts (\<lambda>(_, _, variant). variant \<in> {''html'', ''json''}) (\<lambda>(u, _, _). known_passport db u)
      (group_sums (map scan_delta scans)) (scan_telemetry db) = Inr st"
    using assms(1) by (simp add: insert_scans_def unzip_scans_map z split: option.splits)
  show "count_of st k = count_of (scan_telemetry db) k + added (map scan_delta scans) k" and "distinct (map fst st)"
    using upsert_counts_adds [OF u group_sums_distinct] assms(2) by (simp_all add: telemetry_ok_def group_sums_count)
qed

lemma insert_qr_renders_adds:
  assumes "insert_qr_renders env qr db = Inr qt" and "telemetry_ok db"
  shows "count_of qt k = count_of (qr_render db) k + added (map qr_delta qr) k" and "distinct (map fst qt)"
proof -
  have z: "zip (zip (map qi_dpp_id qr) (map qi_day qr)) (map qi_count qr) = map qr_delta qr"
    by (simp add: zip_maps qr_delta_def [abs_def])
  have u: "upsert_counts (\<lambda>_. True) (\<lambda>(u, _). known_passport db u) (group_sums (map qr_delta qr)) (qr_render db) = Inr qt"
    using assms(1) by (simp add: insert_qr_renders_def unzip_qr_renders_map z split: option.splits)
  show "count_of qt k = count_of (qr_render db) k + added (map qr_delta qr) k" and "distinct (map fst qt)"
    using upsert_counts_adds [OF u group_sums_distinct] assms(2) by (simp_all add: telemetry_ok_def group_sums_count)
qed

definition telemetry_added :: "ScanIncrement list \<Rightarrow> QrRenderIncrement list \<Rightarrow> odal \<Rightarrow> odal \<Rightarrow> bool" where
  "telemetry_added scans qr db db' \<longleftrightarrow>
     (\<forall>k. count_of (scan_telemetry db') k = count_of (scan_telemetry db) k + added (map scan_delta scans) k) \<and>
     (\<forall>k. count_of (qr_render db') k = count_of (qr_render db) k + added (map qr_delta qr) k)"

definition telemetry_same :: "odal \<Rightarrow> odal \<Rightarrow> bool" where
  "telemetry_same db db' \<longleftrightarrow> scan_telemetry db' = scan_telemetry db \<and> qr_render db' = qr_render db"

text \<open>The statements of the transaction, up to its commit.\<close>

lemma record_batch_commit:
  assumes "record_batch env scans qr db = (res, db')" and "telemetry_ok db"
  shows "(\<exists>e. res = Inl e) \<and> telemetry_same db db' \<or> scans = [] \<and> qr = [] \<and> res = Inr () \<and> db' = db \<or>
    (\<exists>st qt db0. commit_telemetry env st qt db0 = (res, db') \<and> telemetry_same db db0 \<and>
      telemetry_added scans qr db (db0\<lparr>scan_telemetry := st, qr_render := qt\<rparr>) \<and>
      distinct (map fst st) \<and> distinct (map fst qt))"
proof (cases "scans = [] \<and> qr = []")
  case True
  then show ?thesis using assms(1) by (auto simp: record_batch_def)
next
  case False
  let ?scan = "\<lambda>db. if scans = [] then Inr (scan_telemetry db) else insert_scans env scans db"
  let ?qr = "\<lambda>db. if qr = [] then Inr (qr_render db) else insert_qr_renders env qr db"
  let ?db2 = "if scans = [] then bump db else bump (bump db)"
  let ?db3 = "if qr = [] then ?db2 else bump ?db2"
  have same: "telemetry_same db ?db3" "telemetry_ok (bump db)" "telemetry_ok ?db2"
    using assms(2) by (auto simp: telemetry_same_def telemetry_ok_def)
  consider e where "res = Inl e" "telemetry_same db db'"
    | st qt where "?scan (bump db) = Inr st" "?qr ?db2 = Inr qt" "commit_telemetry env st qt ?db3 = (res, db')"
    using assms(1) False
    by (auto simp: record_batch_def telemetry_same_def Let_def split: option.splits sum.splits if_splits)
  then show ?thesis
  proof cases
    case 2
    have "count_of st k = count_of (scan_telemetry db) k + added (map scan_delta scans) k" "distinct (map fst st)" for k
      using 2(1) insert_scans_adds [OF _ same(2)] same(2) by (auto simp: telemetry_ok_def split: if_splits)
    moreover have "count_of qt k = count_of (qr_render db) k + added (map qr_delta qr) k" "distinct (map fst qt)" for k
      using 2(2) insert_qr_renders_adds [OF _ same(3)] same(3) by (auto simp: telemetry_ok_def split: if_splits)
    ultimately have "telemetry_added scans qr db (?db3\<lparr>scan_telemetry := st, qr_render := qt\<rparr>) \<and>
        distinct (map fst st) \<and> distinct (map fst qt)"
      unfolding telemetry_added_def by simp
    with 2(3) same(1) show ?thesis by blast
  qed auto
qed

lemma record_batch_outcome:
  assumes "telemetry_ok db" and "record_batch env scans qr db = (res, db')"
  shows "telemetry_ok db' \<and> (telemetry_added scans qr db db' \<or> telemetry_same db db') \<and>
    (res = Inr () \<longrightarrow> telemetry_added scans qr db db') \<and>
    (res \<noteq> Inr () \<and> (\<forall>n. \<not> commit_lost env n) \<longrightarrow> telemetry_same db db')"
  using record_batch_commit [OF assms(2,1)]
proof (elim disjE exE conjE)
  fix st qt db0
  assume c: "commit_telemetry env st qt db0 = (res, db')" "telemetry_same db db0"
    "telemetry_added scans qr db (db0\<lparr>scan_telemetry := st, qr_render := qt\<rparr>)" "distinct (map fst st)" "distinct (map fst qt)"
  show ?thesis
  proof (cases "res = Inr () \<or> commit_lost env (tick db0)")
    case True
    then have "scan_telemetry db' = st" "qr_render db' = qt"
      using c(1) by (auto simp: commit_telemetry_def split: option.splits if_splits)
    with c(3-5) show ?thesis using True by (auto simp: telemetry_added_def telemetry_ok_def)
  next
    case False
    then have "telemetry_same db0 db'" using c(1)
      by (auto simp: commit_telemetry_def telemetry_same_def split: option.splits if_splits)
    with c(2) False assms(1) show ?thesis by (auto simp: telemetry_same_def telemetry_ok_def)
  qed
qed (use assms(1) in \<open>auto simp: telemetry_same_def telemetry_ok_def telemetry_added_def\<close>)

text \<open>
  Property C32 (safety). A window lands whole or not at all: either every count of both tables
  is raised by exactly the sum of its increments, or neither table changes. A reported success
  means the first, and a reported failure the second, unless a commit whose answer was lost
  had taken effect. The rows stay unique per passport, day and surface.
\<close>

theorem record_batch_all_or_nothing:
  assumes "telemetry_ok db" and "record_batch env scans qr db = (res, db')"
  shows "telemetry_ok db' \<and> (telemetry_added scans qr db db' \<or> telemetry_same db db') \<and>
    (res = Inr () \<longrightarrow> telemetry_added scans qr db db') \<and>
    (res \<noteq> Inr () \<and> (\<forall>n. \<not> commit_lost env n) \<longrightarrow> telemetry_same db db')"
  by (rule record_batch_outcome [OF assms])

text \<open>Nothing but the counters and the statement count changes.\<close>

lemma record_batch_frame:
  "idempotency_key (snd (record_batch env scans qr db)) = idempotency_key db"
  "passport (snd (record_batch env scans qr db)) = passport db"
  "tick db \<le> tick (snd (record_batch env scans qr db))"
  by (auto simp: record_batch_def commit_telemetry_def Let_def split: option.splits sum.splits)

definition sample_scan_db :: odal where
  "sample_scan_db = empty_db\<lparr>passport := [\<lparr>pp_id = 5, pp_status = ''active'', pp_doc_status = ''active'',
     pp_published_at = None, pp_updated_at = 0, pp_jws = None, pp_seal = None\<rparr>], scan_telemetry := [((5, 100, ''html''), 40)]\<rparr>"

definition sample_increments :: "ScanIncrement list" where
  "sample_increments = [\<lparr>si_dpp_id = 5, si_day = 100, si_variant = ''html'', si_count = 2\<rparr>,
     \<lparr>si_dpp_id = 5, si_day = 101, si_variant = ''json'', si_count = 7\<rparr>,
     \<lparr>si_dpp_id = 5, si_day = 100, si_variant = ''html'', si_count = 3\<rparr>]"

lemma sample_scan_db_ok: "telemetry_ok sample_scan_db"
  by (simp add: telemetry_ok_def sample_scan_db_def empty_db_def)

lemma sample_record_batch:
  "fst (record_batch sample_env sample_increments [] sample_scan_db) = Inr ()"
  "scan_telemetry (snd (record_batch sample_env sample_increments [] sample_scan_db)) =
     [((5, 100, ''html''), 45), ((5, 101, ''json''), 7)]"
  by (simp_all add: record_batch_def insert_scans_def unzip_scans_def group_sums_def upsert_counts_def commit_telemetry_def
      bigint_ok_def count_of_def known_passport_def sample_increments_def sample_scan_db_def empty_db_def Let_def)

theorem record_batch_all_or_nothing_witness:
  "telemetry_added sample_increments [] sample_scan_db (snd (record_batch sample_env sample_increments [] sample_scan_db)) \<and>
   count_of (scan_telemetry (snd (record_batch sample_env sample_increments [] sample_scan_db))) (5, 100, ''html'') = 40 + (2 + 3)"
  using record_batch_all_or_nothing [OF sample_scan_db_ok surjective_pairing]
  by (simp add: sample_record_batch count_of_def)

lemma upsert_counts_fk:
  assumes "(k, c) \<in> set deltas" and "map_of tbl k = None" and "\<not> fk k"
  shows "\<exists>e. upsert_counts check fk deltas tbl = Inl e"
  using assms by (auto simp: upsert_counts_def)

lemma insert_scans_fk:
  assumes "s \<in> set scans" and "\<not> known_passport db (si_dpp_id s)"
    and "map_of (scan_telemetry db) (si_dpp_id s, si_day s, si_variant s) = None"
  shows "\<exists>e. insert_scans env scans db = Inl e"
proof (cases "fault_at env (tick db)")
  case None
  have z: "zip (zip (map si_dpp_id scans) (zip (map si_day scans) (map si_variant scans))) (map si_count scans) =
      map scan_delta scans" by (simp add: zip_maps scan_delta_def [abs_def])
  have "\<exists>c. ((si_dpp_id s, si_day s, si_variant s), c) \<in> set (group_sums (map scan_delta scans))"
    using assms(1) by (auto simp: group_sums_def scan_delta_def)
  then obtain c where "((si_dpp_id s, si_day s, si_variant s), c) \<in> set (group_sums (map scan_delta scans))" ..
  from upsert_counts_fk [OF this, where tbl = "scan_telemetry db" and fk = "\<lambda>(u, _, _). known_passport db u"] assms(2,3)
  show ?thesis by (simp add: insert_scans_def None unzip_scans_map z)
qed (simp add: insert_scans_def)

lemma record_batch_fk:
  assumes "s \<in> set scans" and "\<not> known_passport db (si_dpp_id s)"
    and "map_of (scan_telemetry db) (si_dpp_id s, si_day s, si_variant s) = None"
  shows "\<exists>e db'. record_batch env scans qr db = (Inl e, db') \<and> telemetry_same db db'"
proof -
  have "\<exists>e. insert_scans env scans (bump db) = Inl e"
    by (rule insert_scans_fk [OF assms(1)]) (use assms(2,3) in \<open>simp_all add: known_passport_def\<close>)
  moreover have "scans \<noteq> []" using assms(1) by auto
  ultimately show ?thesis
    by (auto simp: record_batch_def telemetry_same_def Let_def split: option.splits)
qed

text \<open>Every counted row belongs to a passport of the node: the foreign key of the table.\<close>

definition telemetry_fk :: "odal \<Rightarrow> bool" where
  "telemetry_fk db \<longleftrightarrow> (\<forall>((u, _, _), _) \<in> set (scan_telemetry db). known_passport db u)"

text \<open>
  One row of a passport the node does not know fails the whole window:
  the insert violates the foreign key, whatever the other rows are, nothing is counted and
  the handler answers 500. On that answer the resolver holds the batch, and the next flush
  sends the same batch again.
\<close>

theorem scan_unknown_passport_holds_window:
  assumes "json_extract libs request = Inr (kb_batch keyed)" and "s \<in> set (sb_scans (kb_batch keyed))"
    and "parse_uuid libs (sbe_dpp_id s) = Some u" and "\<not> known_passport db u" and "telemetry_fk db"
    and "scan_ingest_handler http libs env utc_now request (slot, db) = (response, slot', db')"
  shows "rp_status response = 500 \<and> telemetry_same db db' \<and>
    fst (next_flush new_id (settle_flush keyed (Answered (rp_status response)) sc)) = keyed"
proof -
  let ?scans = "scan_increments libs (kb_batch keyed)"
  let ?s = "\<lparr>si_dpp_id = u, si_day = sbe_day s, si_variant = variant_as_db (sbe_variant s), si_count = i64_or_max (sbe_count s)\<rparr>"
  have "?s \<in> set ?scans" using assms(2,3) by (force simp: scan_increments_def map_filter_def)
  moreover have "map_of (scan_telemetry db) (u, d, v) = None" for d v
    using assms(4,5) by (auto simp: telemetry_fk_def map_of_eq_None_iff)
  ultimately obtain e db2 where "ingest_batch libs env (kb_batch keyed) db = (Inl e, db2)" "telemetry_same db db2"
    using record_batch_fk [of ?s ?scans db] assms(4) unfolding ingest_batch_def by fastforce
  then have "response = internal_error http" "db' = db2"
    using assms(6) by (simp_all add: scan_ingest_handler_def assms(1) Let_def)
  moreover have "\<not> batch_is_empty (kb_batch keyed)" using assms(2) by (auto simp: batch_is_empty_def)
  ultimately show ?thesis
    using \<open>telemetry_same db db2\<close>
    by (simp add: internal_error_def problem_def settle_flush_def hold_def next_flush_def)
qed

subsection \<open>Read models, retention and freshness\<close>

lemma sum_where_disjoint:
  "sum_where (\<lambda>k. p k \<and> q k) tbl + sum_where (\<lambda>k. p k \<and> \<not> q k) tbl = sum_where p tbl"
  by (induction tbl) (auto simp: sum_where_def)

lemma sum_where_cong: "(\<And>k c. (k, c) \<in> set tbl \<Longrightarrow> p k = q k) \<Longrightarrow> sum_where p tbl = sum_where q tbl"
  unfolding sum_where_def by (intro arg_cong [of _ _ "\<lambda>xs. sum_list (map snd xs)"] filter_cong) auto

lemma sum_where_split:
  assumes "distinct ds" and "\<And>k c. (k, c) \<in> set tbl \<Longrightarrow> p k \<Longrightarrow> f k \<in> set ds"
  shows "sum_list (map (\<lambda>d. sum_where (\<lambda>k. p k \<and> f k = d) tbl) ds) = sum_where p tbl"
  using assms
proof (induction ds arbitrary: p)
  case Nil
  then have "sum_where p tbl = sum_where (\<lambda>_. False) tbl" by (intro sum_where_cong) auto
  then show ?case by (simp add: sum_where_def)
next
  case (Cons d ds)
  have "sum_list (map (\<lambda>x. sum_where (\<lambda>k. p k \<and> f k = x) tbl) ds) =
      sum_list (map (\<lambda>x. sum_where (\<lambda>k. (p k \<and> f k \<noteq> d) \<and> f k = x) tbl) ds)"
    using Cons.prems(1) by (intro arg_cong [of _ _ sum_list] map_cong) (auto intro!: sum_where_cong)
  also have "\<dots> = sum_where (\<lambda>k. p k \<and> f k \<noteq> d) tbl"
    using Cons.prems by (intro Cons.IH) auto
  finally show ?case using sum_where_disjoint [of p "\<lambda>k. f k = d" tbl] by simp
qed

lemma query_window_bump: "snd (query_window env w q db) = bump db"
  by (auto simp: query_window_def split: option.splits sum.splits)

lemma query_window_InrD:
  "query_window env w q db = (Inr row, db') \<Longrightarrow> row = q (current_date env (tick db) - (w - 1)) db \<and> db' = bump db"
  by (auto simp: query_window_def days_before_def split: option.splits sum.splits if_splits)

lemma scan_days_mem:
  "((u, d, v), c) \<in> set (scan_telemetry db) \<Longrightarrow> from_day \<le> d \<Longrightarrow> d \<in> set (scan_days u from_day db)"
  by (force simp: scan_days_def)

lemma scan_days_range: "d \<in> set (scan_days u from_day db) \<Longrightarrow> from_day \<le> d"
  by (auto simp: scan_days_def)

lemma scan_daily_total:
  "sum_list (scan_daily u from_day db) = sum_where (\<lambda>(u', d, _). u' = u \<and> from_day \<le> d) (scan_telemetry db)"
proof -
  let ?p = "\<lambda>(u', d, _). u' = u \<and> from_day \<le> d"
  have "scan_daily u from_day db =
      map (\<lambda>d. sum_where (\<lambda>k. ?p k \<and> fst (snd k) = d) (scan_telemetry db)) (scan_days u from_day db)"
    unfolding scan_daily_def
    by (intro map_cong refl sum_where_cong) (auto dest: scan_days_range)
  then show ?thesis
    using sum_where_split [of "scan_days u from_day db" "scan_telemetry db" ?p "\<lambda>k. fst (snd k)"]
    by (auto simp: scan_days_mem) (simp add: scan_days_def)
qed

text \<open>The column check: a row's surface is one of the two.\<close>

definition telemetry_variants :: "odal \<Rightarrow> bool" where
  "telemetry_variants db \<longleftrightarrow> (\<forall>((_, _, v), _) \<in> set (scan_telemetry db). v = ''html'' \<or> v = ''json'')"

text \<open>
  The statistics of a passport agree with each other: the total is
  the sum of the two surfaces and, when no midnight falls between the queries, the sum of the
  daily series, which runs in order over distinct days of the window. QR renders are in none
  of them.
\<close>

theorem passport_stats_consistent:
  assumes "passport_stats env dpp_id window_days db = (Inr stats, db')" and "telemetry_variants db"
  shows "pss_total_scans stats = pss_scans_html stats + pss_scans_json stats \<and>
    (current_date env (tick db) = current_date env (tick db + 1) \<longrightarrow>
       sum_list (map dsc_count (pss_daily stats)) = pss_total_scans stats) \<and>
    sorted_wrt (<) (map dsc_day (pss_daily stats)) \<and>
    (\<forall>d \<in> set (map dsc_day (pss_daily stats)). current_date env (tick db + 1) - window_days < d)"
proof -
  let ?from = "\<lambda>n. current_date env n - (window_days - 1)"
  obtain totals daily qr where q: "query_window env window_days (scan_totals dpp_id) db = (Inr totals, bump db)"
    "query_window env window_days (scan_daily dpp_id) (bump db) = (Inr daily, bump (bump db))"
    and st: "pss_total_scans stats = totals ! 0" "pss_scans_html stats = totals ! 1" "pss_scans_json stats = totals ! 2"
      "pss_daily stats = map (\<lambda>(d, c). \<lparr>dsc_day = d, dsc_count = c\<rparr>) (zip (scan_days dpp_id (?from (tick db + 1)) (bump db)) daily)"
    using assms(1) query_window_bump [of env window_days]
    by (auto simp: passport_stats_def split: prod.splits sum.splits) (metis bump_simps(1) snd_conv)
  have totals: "totals = scan_totals dpp_id (?from (tick db)) db" using query_window_InrD [OF q(1)] by simp
  have daily: "daily = scan_daily dpp_id (?from (tick db + 1)) (bump db)" using query_window_InrD [OF q(2)] by simp
  let ?p = "\<lambda>(u, d, _ :: string). u = dpp_id \<and> ?from (tick db) \<le> d"
  have "sum_where (\<lambda>k. ?p k \<and> \<not> snd (snd k) = ''html'') (scan_telemetry db) =
      sum_where (\<lambda>(u, d, v). u = dpp_id \<and> ?from (tick db) \<le> d \<and> v = ''json'') (scan_telemetry db)"
    using assms(2) by (intro sum_where_cong) (auto simp: telemetry_variants_def)
  moreover have "sum_where (\<lambda>k. ?p k \<and> snd (snd k) = ''html'') (scan_telemetry db) =
      sum_where (\<lambda>(u, d, v). u = dpp_id \<and> ?from (tick db) \<le> d \<and> v = ''html'') (scan_telemetry db)"
    by (intro sum_where_cong) auto
  ultimately have "pss_total_scans stats = pss_scans_html stats + pss_scans_json stats"
    using sum_where_disjoint [of ?p "\<lambda>k. snd (snd k) = ''html''" "scan_telemetry db"]
    by (simp add: st totals scan_totals_def)
  moreover have "length daily = length (scan_days dpp_id (?from (tick db + 1)) (bump db))"
    by (simp add: daily scan_daily_def)
  then have "map dsc_count (pss_daily stats) = daily"
    and days: "map dsc_day (pss_daily stats) = scan_days dpp_id (?from (tick db + 1)) (bump db)"
    by (simp_all add: st(4) o_def split_def)
  moreover have "sum_list daily = totals ! 0" if "current_date env (tick db) = current_date env (tick db + 1)"
    using that by (simp add: daily totals scan_daily_total scan_totals_def)
  moreover have "sorted_wrt (<) (scan_days dpp_id (?from (tick db + 1)) (bump db))"
    by (simp add: scan_days_def strict_sorted_iff)
  moreover have "\<forall>d \<in> set (map dsc_day (pss_daily stats)). current_date env (tick db + 1) - window_days < d"
    unfolding days using scan_days_range by fastforce
  ultimately show ?thesis using st(1) by simp
qed

lemma clamp_window_range: "1 \<le> clamp_window days \<and> clamp_window days \<le> 730"
  by (simp add: clamp_window_def MAX_WINDOW_DAYS_def)

lemma current_date_mono: "mono (now_at env) \<Longrightarrow> m \<le> n \<Longrightarrow> current_date env m \<le> current_date env n"
  by (auto simp: current_date_def mono_def intro!: floor_mono divide_right_mono)

definition young :: "('r \<Rightarrow> day) \<Rightarrow> day \<Rightarrow> ('r \<times> int) list \<Rightarrow> ('r \<times> int) list" where
  "young day_of d tbl = filter (\<lambda>e. \<not> day_of (fst e) < d) tbl"

lemma delete_before_InrD:
  "delete_before env h day_of tbl n = Inr (m, tbl') \<Longrightarrow> tbl' = young day_of (current_date env n - h) tbl"
  by (auto simp: delete_before_def days_before_def young_def split: option.splits if_splits)

lemma commit_telemetry_tables:
  assumes "commit_telemetry env st qt db = (res, db')"
  shows "isl res \<and> telemetry_same db db' \<or> scan_telemetry db' = st \<and> qr_render db' = qt"
  using assms by (auto simp: commit_telemetry_def telemetry_same_def split: option.splits)

lemma prune_tables:
  assumes "prune env h db = (res, db')"
  shows "isl res \<and> telemetry_same db db' \<or>
    scan_telemetry db' = young (\<lambda>(_, d, _). d) (current_date env (tick db + 1) - h) (scan_telemetry db) \<and>
    qr_render db' = young (\<lambda>(_, d). d) (current_date env (tick db + 2) - h) (qr_render db)"
proof -
  let ?del1 = "delete_before env h (\<lambda>(_, d, _). d) (scan_telemetry db) (tick db + 1)"
  let ?del2 = "delete_before env h (\<lambda>(_, d). d) (qr_render db) (tick db + 2)"
  show ?thesis
  proof (cases "fault_at env (tick db)")
    case (Some e)
    then show ?thesis using assms by (auto simp: prune_def telemetry_same_def)
  next
    case None
    note step = assms [unfolded prune_def Let_def None option.case bump_simps]
    show ?thesis
    proof (cases ?del1)
      case (Inl e)
      then show ?thesis using step by (auto simp: telemetry_same_def)
    next
      case del1: (Inr x)
      obtain m st where x: "x = (m, st)" by (cases x)
      show ?thesis
      proof (cases ?del2)
        case (Inl e)
        then show ?thesis using step del1 by (auto simp: x telemetry_same_def)
      next
        case del2: (Inr y)
        obtain k qt where y: "y = (k, qt)" by (cases y)
        obtain r db3 where c: "commit_telemetry env st qt (bump (bump (bump db))) = (r, db3)" by fastforce
        have two: "tick db + 1 + 1 = tick db + 2" by simp
        have "(case (r, db3) of (Inl e, db3) \<Rightarrow> (Inl e, db3)
            | (Inr _, db3) \<Rightarrow> (Inr \<lparr>spc_scans = m, spc_qr_renders = k\<rparr>, db3)) = (res, db')"
          using step by (simp only: two del1 del2 x y c sum.case prod.case)
        then have "isl r = isl res \<and> db' = db3"
          by (auto split: sum.splits)
        with commit_telemetry_tables [OF c] delete_before_InrD [OF del1 [unfolded x]] delete_before_InrD [OF del2 [unfolded y]]
        show ?thesis by (simp only: telemetry_same_def bump_simps)
      qed
    qed
  qed
qed

lemma sum_where_young:
  assumes "\<And>k. p k \<Longrightarrow> d \<le> day_of k"
  shows "sum_where p (young day_of d tbl) = sum_where p tbl"
proof -
  have "filter (\<lambda>e. p (fst e)) (young day_of d tbl) = filter (\<lambda>e. p (fst e)) tbl"
    using assms unfolding young_def filter_filter by (intro filter_cong) force+
  then show ?thesis by (simp add: sum_where_def)
qed

text \<open>
  The retention prune never takes a row that a statistics window can
  show: at the time of the prune or later, every count of every window the handlers accept is
  the same after the prune as before it. A prune that reports success leaves no row older
  than the horizon.
\<close>

theorem prune_keeps_every_window:
  assumes "prune env SCAN_RETENTION_DAYS db = (res, db')" and "mono (now_at env)" and "tick db + 2 \<le> n"
    and "from_day = current_date env n - (clamp_window days - 1)"
  shows "scan_totals u from_day db' = scan_totals u from_day db \<and> qr_total u from_day db' = qr_total u from_day db \<and>
    hd (operator_totals from_day db') = hd (operator_totals from_day db) \<and>
    (\<not> isl res \<longrightarrow> (\<forall>((_, d, _), _) \<in> set (scan_telemetry db'). current_date env (tick db + 1) - 730 \<le> d) \<and>
       (\<forall>((_, d), _) \<in> set (qr_render db'). current_date env (tick db + 2) - 730 \<le> d))"
  using prune_tables [OF assms(1)]
proof (elim disjE conjE)
  let ?d = "\<lambda>i. current_date env (tick db + i) - SCAN_RETENTION_DAYS"
  have d: "?d 1 < from_day" "?d 2 < from_day"
    using current_date_mono [OF assms(2), of "tick db + 1" n] current_date_mono [OF assms(2), of "tick db + 2" n]
      clamp_window_range [of days] assms(3) by (simp_all add: assms(4) SCAN_RETENTION_DAYS_def)
  assume st: "scan_telemetry db' = young (\<lambda>(_, d, _). d) (?d 1) (scan_telemetry db)"
    "qr_render db' = young (\<lambda>(_, d). d) (?d 2) (qr_render db)"
  have "scan_totals u from_day db' = scan_totals u from_day db"
    unfolding scan_totals_def st using d by (intro arg_cong2 [of _ _ _ _ Cons] sum_where_young refl) auto
  moreover have "qr_total u from_day db' = qr_total u from_day db"
    unfolding qr_total_def st using d by (intro arg_cong2 [of _ _ _ _ Cons] sum_where_young refl) auto
  moreover have "hd (operator_totals from_day db') = hd (operator_totals from_day db)"
    unfolding operator_totals_def st list.sel using d by (intro sum_where_young) auto
  ultimately show ?thesis
    by (auto simp: st young_def SCAN_RETENTION_DAYS_def)
qed (auto simp: telemetry_same_def scan_totals_def qr_total_def operator_totals_def)

text \<open>
  The freshness rule, for every cadence a sender can declare. Without a
  cadence, or with one beyond 63 bits, a flush that was ever seen counts as fresh. A cadence
  of up to 3074457345618258 seconds is fresh for strictly less than three intervals. Between
  the two the rule panics: three intervals are no duration.
\<close>

theorem is_fresh_rule:
  assumes "li_interval_secs li = Some secs"
  shows "is_fresh li now =
    (if secs \<le> 3074457345618258 then Some (now - li_at li < 3 * of_nat secs)
     else if secs < 2 ^ 63 then None else Some True)"
proof -
  have d: "(2 ^ 63 - 1) div 1000 = (9223372036854775 :: int)" by simp
  consider "secs \<le> 3074457345618258" | "3074457345618258 < secs" "secs < 2 ^ 63" | "2 ^ 63 \<le> secs" by linarith
  then show ?thesis
  proof cases
    case 1
    then have "saturating_mul (int secs) STALE_AFTER_INTERVALS = 3 * int secs"
      by (simp add: saturating_mul_def STALE_AFTER_INTERVALS_def)
    then show ?thesis using 1 assms by (simp add: is_fresh_def duration_seconds_def d)
  next
    case 2
    then have "9223372036854775 < saturating_mul (int secs) STALE_AFTER_INTERVALS"
      by (simp add: saturating_mul_def STALE_AFTER_INTERVALS_def min_def)
    then show ?thesis using 2 assms by (simp add: is_fresh_def duration_seconds_def d)
  next
    case 3
    then show ?thesis using assms by (simp add: is_fresh_def)
  qed
qed

theorem is_fresh_rule_witness:
  "is_fresh \<lparr>li_at = 0, li_interval_secs = Some 300\<rparr> 899 = Some True \<and>
   is_fresh \<lparr>li_at = 0, li_interval_secs = Some 300\<rparr> 900 = Some False \<and>
   is_fresh \<lparr>li_at = 0, li_interval_secs = Some 3074457345618259\<rparr> 1 = None"
  by (simp add: is_fresh_rule)

definition sample_stats_db :: odal where
  "sample_stats_db = empty_db\<lparr>scan_telemetry := [((5, 0, ''html''), 40), ((5, - 1, ''json''), 2), ((5, - 800, ''html''), 9)]\<rparr>"

lemma sample_current_date: "current_date sample_env 0 = 0" "current_date sample_env 1 = 0" "current_date sample_env 2 = 0"
  "current_date sample_env (Suc 0) = 0" "current_date sample_env (Suc (Suc 0)) = 0"
  by (simp_all add: current_date_def floor_eq_iff)

lemma sample_stats_tick: "tick sample_stats_db = 0"
  by (simp add: sample_stats_db_def empty_db_def)

lemma sample_stats:
  "passport_stats sample_env 5 30 sample_stats_db =
     (Inr \<lparr>pss_window_days = 30, pss_total_scans = 42, pss_scans_html = 40, pss_scans_json = 2,
        pss_daily = [\<lparr>dsc_day = - 1, dsc_count = 2\<rparr>, \<lparr>dsc_day = 0, dsc_count = 40\<rparr>],
        pss_qr_renders = 0, pss_ingesting = False, pss_last_ingest_at = None\<rparr>, bump (bump (bump sample_stats_db)))"
  by (simp add: passport_stats_def query_window_def days_before_def int4_range_def date_ok_def scan_totals_def scan_daily_def
      scan_days_def qr_total_def sum_where_def bigint_ok_def sample_stats_db_def empty_db_def sample_current_date)

theorem passport_stats_consistent_witness:
  "(42::int) = 40 + 2 \<and> sum_list (map dsc_count [\<lparr>dsc_day = - 1, dsc_count = 2\<rparr>, \<lparr>dsc_day = 0, dsc_count = 40\<rparr>]) = 42 \<and>
   sorted_wrt (<) (map dsc_day [\<lparr>dsc_day = - 1, dsc_count = 2\<rparr>, \<lparr>dsc_day = 0, dsc_count = 40\<rparr>])"
  using passport_stats_consistent [OF sample_stats]
  by (simp add: telemetry_variants_def sample_stats_db_def empty_db_def sample_current_date)

lemma sample_prune:
  "scan_telemetry (snd (prune sample_env SCAN_RETENTION_DAYS sample_stats_db)) = [((5, 0, ''html''), 40), ((5, - 1, ''json''), 2)]"
  "\<not> isl (fst (prune sample_env SCAN_RETENTION_DAYS sample_stats_db))"
  by (simp_all add: prune_def delete_before_def days_before_def int4_range_def date_ok_def commit_telemetry_def
      SCAN_RETENTION_DAYS_def sample_stats_db_def empty_db_def sample_current_date Let_def)

theorem prune_keeps_every_window_witness:
  "scan_telemetry (snd (prune sample_env SCAN_RETENTION_DAYS sample_stats_db)) = [((5, 0, ''html''), 40), ((5, - 1, ''json''), 2)] \<and>
   scan_totals 5 (- 729) (snd (prune sample_env SCAN_RETENTION_DAYS sample_stats_db)) = scan_totals 5 (- 729) sample_stats_db"
proof -
  have "scan_totals 5 (- 729) (snd (prune sample_env SCAN_RETENTION_DAYS sample_stats_db)) = scan_totals 5 (- 729) sample_stats_db"
    using prune_keeps_every_window [of sample_env sample_stats_db, OF surjective_pairing,
        where n = 2 and days = "Some 9000" and from_day = "- 729" and u = 5]
    by (simp add: sample_stats_tick sample_current_date clamp_window_def MAX_WINDOW_DAYS_def mono_def)
  then show ?thesis by (simp add: sample_prune)
qed

definition sample_ingest_libs :: ingest_libs where
  "sample_ingest_libs = \<lparr>parse_uuid = (\<lambda>s. if s = ''p1'' then Some 5 else if s = ''gone'' then Some 6 else None),
     json_extract = (\<lambda>_. Inr (kb_batch sample_scan_batch)), canonical_reason = (\<lambda>_. None),
     encode_batch = (\<lambda>_. ''{}''), uuid_to_string = (\<lambda>_. ''k1'')\<rparr>"

theorem scan_unknown_passport_holds_window_witness:
  "rp_status (fst (scan_ingest_handler sample_libs sample_ingest_libs sample_env of_nat (sample_request ''/vault/internal/scan-batch'') (None, empty_db))) = 500 \<and>
   fst (next_flush 9 (settle_flush sample_scan_batch (Answered 500) (with_flush_interval 300))) = sample_scan_batch"
proof -
  let ?h = "scan_ingest_handler sample_libs sample_ingest_libs sample_env of_nat (sample_request ''/vault/internal/scan-batch'') (None, empty_db)"
  have "rp_status (fst ?h) = 500 \<and> telemetry_same empty_db (snd (snd ?h)) \<and>
      fst (next_flush 9 (settle_flush sample_scan_batch (Answered (rp_status (fst ?h))) (with_flush_interval 300))) = sample_scan_batch"
    by (rule scan_unknown_passport_holds_window [OF _ _ _ _ _ trans [OF surjective_pairing
          arg_cong2 [where f = Pair, OF refl surjective_pairing]],
          where s = "hd (sb_scans (kb_batch sample_scan_batch))" and u = 5])
      (simp_all add: sample_ingest_libs_def sample_scan_batch_def known_passport_def telemetry_fk_def empty_db_def)
  then show ?thesis by metis
qed

end
