(* ===== verification/Mtls.thy ===== *)
theory Mtls
  imports Idempotency_Middleware "HOL-Library.Word"
begin

unbundle bit_operations_syntax

text \<open>
  The client-certificate gate of the internal endpoints, \<^verbatim>\<open>dpp-common/src/mtls.rs\<close>: the proxy
  binding with its constant-time comparison, the scan of a distinguished name for its common
  name, and \<^verbatim>\<open>enforce\<close>. Strings are bytes. The process environment is a record of the three
  variables the code reads, \<open>None\<close> where one is not set.
\<close>

record mtls_env =
  MTLS_ALLOW_INSECURE :: "string option"
  MTLS_PROXY_SHARED_SECRET :: "string option"
  MTLS_REQUIRED_ISSUER_CN :: "string option"

text \<open>Header names, in the lower case a header map keeps them in.\<close>

definition CLIENT_CERT_SUBJECT_HEADER :: string where
  "CLIENT_CERT_SUBJECT_HEADER = ''x-client-cert-subject''"

definition CLIENT_CERT_ISSUER_HEADER :: string where
  "CLIENT_CERT_ISSUER_HEADER = ''x-client-cert-issuer''"

definition PROXY_AUTH_HEADER :: string where
  "PROXY_AUTH_HEADER = ''x-proxy-auth''"

definition required_issuer_cn :: "mtls_env \<Rightarrow> string" where
  "required_issuer_cn cfg = (case MTLS_REQUIRED_ISSUER_CN cfg of Some cn \<Rightarrow> cn | None \<Rightarrow> ''Odal Internal CA'')"

definition byte_of :: "char \<Rightarrow> 8 word" where
  "byte_of c = word_of_nat (of_char c)"

definition ct_eq :: "string \<Rightarrow> string \<Rightarrow> bool" where
  "ct_eq a b \<longleftrightarrow>
     (if length a \<noteq> length b then False
      else foldl (\<lambda>diff (x, y). diff OR (byte_of x XOR byte_of y)) 0 (zip a b) = 0)"

definition proxy_binding_ok :: "mtls_env \<Rightarrow> AxumRequest \<Rightarrow> bool" where
  "proxy_binding_ok cfg request =
     (case MTLS_PROXY_SHARED_SECRET cfg of
        None \<Rightarrow> False
      | Some secret \<Rightarrow>
          if secret = [] then False
          else case Option.bind (header_get PROXY_AUTH_HEADER (rq_headers request)) header_to_str of
              None \<Rightarrow> False
            | Some presented \<Rightarrow> ct_eq presented secret)"

text \<open>The loop over the bytes, with the index, the start of the current part and the parts so far.\<close>

function split_dn_loop :: "string \<Rightarrow> nat \<Rightarrow> nat \<Rightarrow> string list \<Rightarrow> string list" where
  "split_dn_loop dn i start parts =
     (if i < length dn then
        (if dn ! i = CHR 0x5C then split_dn_loop dn (i + 2) start parts
         else if dn ! i = CHR '','' then split_dn_loop dn (i + 1) (i + 1) (parts @ [take (i - start) (drop start dn)])
         else split_dn_loop dn (i + 1) start parts)
      else parts @ [drop start dn])"
  by pat_completeness auto

termination
  by (relation "measure (\<lambda>(dn, i, _, _). length dn - i)") auto

definition split_dn :: "string \<Rightarrow> string list" where
  "split_dn subject_dn = split_dn_loop subject_dn 0 0 []"

fun first_cn :: "string list \<Rightarrow> string option" where
  "first_cn [] = None"
| "first_cn (part # parts) =
     (let part = str_trim part in
      case (case strip_prefix ''CN='' part of Some v \<Rightarrow> Some v | None \<Rightarrow> strip_prefix ''cn='' part) of
        Some v \<Rightarrow> Some (str_trim v)
      | None \<Rightarrow> first_cn parts)"

definition extract_cn :: "string \<Rightarrow> string option" where
  "extract_cn subject_dn = first_cn (split_dn subject_dn)"

definition allow_insecure :: "mtls_env \<Rightarrow> bool" where
  "allow_insecure cfg = (case MTLS_ALLOW_INSECURE cfg of Some v \<Rightarrow> to_lowercase v = ''true'' | None \<Rightarrow> False)"

definition enforce ::
  "'s http_libs \<Rightarrow> mtls_env \<Rightarrow> string \<Rightarrow> (AxumRequest \<Rightarrow> 'w \<Rightarrow> AxumResponse \<times> 'w) \<Rightarrow>
   AxumRequest \<Rightarrow> 'w \<Rightarrow> AxumResponse \<times> 'w" where
  "enforce libs cfg allowed_cn run_next request w =
     (let enforcing = \<not> allow_insecure cfg in
      if enforcing \<and> \<not> proxy_binding_ok cfg request then
        (problem libs 401 ''Unauthorized'' ''Request did not arrive through the trusted terminating proxy.'', w)
      else case header_get CLIENT_CERT_SUBJECT_HEADER (rq_headers request) of
          Some subject \<Rightarrow>
            let subject_str = (case header_to_str subject of Some s \<Rightarrow> s | None \<Rightarrow> ''<non-utf8>'');
                cn = extract_cn subject_str
            in if \<not> enforcing then run_next request w
               else (case cn of
                  Some cn \<Rightarrow>
                    if cn = allowed_cn then
                      (if (case Option.bind (Option.bind (header_get CLIENT_CERT_ISSUER_HEADER (rq_headers request))
                             header_to_str) extract_cn of
                            Some issuer_cn \<Rightarrow> issuer_cn = required_issuer_cn cfg
                          | None \<Rightarrow> False)
                       then run_next request w
                       else (problem libs 403 ''Forbidden'' ''Client certificate issuer is not the Odal internal CA.'', w))
                    else (problem libs 403 ''Forbidden'' ''Client certificate CN is not authorised.'', w)
                | None \<Rightarrow> (problem libs 403 ''Forbidden'' ''Client certificate subject does not contain a CN.'', w))
        | None \<Rightarrow>
            if enforcing then (problem libs 401 ''Unauthorized'' ''A valid client certificate is required.'', w)
            else run_next request w)"

subsection \<open>The comparison\<close>

lemma or_eq_0_word: "(x :: 8 word) OR y = 0 \<longleftrightarrow> x = 0 \<and> y = 0"
  by (auto simp: bit_eq_iff bit_or_iff)

lemma xor_eq_0_word: "(x :: 8 word) XOR y = 0 \<longleftrightarrow> x = y"
  by (metis xor.assoc xor.left_neutral xor_self_eq)

lemma byte_of_inj: "byte_of c = byte_of d \<longleftrightarrow> c = d"
proof
  assume "byte_of c = byte_of d"
  then have "unat (byte_of c) = unat (byte_of d)" by simp
  moreover have "unat (byte_of c) = of_char c" for c
    unfolding byte_of_def by (simp add: unat_of_nat take_bit_eq_mod of_char_mod_256)
  ultimately show "c = d" by (metis of_char_eq_iff)
qed simp

lemma ct_eq_iff: "ct_eq a b \<longleftrightarrow> a = b"
proof (cases "length a = length b")
  case True
  have "foldl (\<lambda>diff (x, y). diff OR (byte_of x XOR byte_of y)) d (zip a b) = 0 \<longleftrightarrow> d = 0 \<and> a = b" for d
    using True
    by (induction a b arbitrary: d rule: list_induct2)
      (auto simp: or_eq_0_word xor_eq_0_word byte_of_inj)
  then show ?thesis using True by (simp add: ct_eq_def)
qed (auto simp: ct_eq_def)

declare split_dn_loop.simps [simp del]

subsection \<open>Distinguished names\<close>

text \<open>
  The parts between unescaped commas, by recursion on the text: the reference for the index
  loop.
\<close>

fun rdns :: "string \<Rightarrow> string \<Rightarrow> string list" where
  "rdns cur [] = [cur]"
| "rdns cur (c # cs) =
     (if c = CHR 0x5C then (case cs of [] \<Rightarrow> [cur @ [c]] | d # ds \<Rightarrow> rdns (cur @ [c, d]) ds)
      else if c = CHR '','' then cur # rdns [] cs
      else rdns (cur @ [c]) cs)"

lemma take_grow:
  assumes "start \<le> j"
  shows "take (j + k - start) (drop start dn) = take (j - start) (drop start dn) @ take k (drop j dn)"
proof -
  have eq: "j + k - start = (j - start) + k" "j - start + start = j" using assms by simp_all
  show ?thesis unfolding eq(1) by (simp only: take_add drop_drop eq(2))
qed

lemma split_dn_loop_rdns:
  assumes "start \<le> i" and "i \<le> length dn"
  shows "split_dn_loop dn i start parts = parts @ rdns (take (i - start) (drop start dn)) (drop i dn)"
  using assms
proof (induction dn i start parts rule: split_dn_loop.induct)
  case (1 dn i start parts)
  show ?case
  proof (cases "i < length dn")
    case False
    then show ?thesis using 1(4,5) by (subst split_dn_loop.simps) simp
  next
    case True
    then have d: "drop i dn = dn ! i # drop (i + 1) dn" by (simp add: Cons_nth_drop_Suc)
    show ?thesis
    proof (cases "dn ! i = CHR 0x5C")
      case esc: True
      show ?thesis
      proof (cases "i + 1 < length dn")
        case more: True
        then have d2: "drop (i + 1) dn = dn ! (i + 1) # drop (i + 2) dn" by (simp add: Cons_nth_drop_Suc)
        have "take 2 (drop i dn) = [dn ! i, dn ! (i + 1)]" using d d2 by (simp add: numeral_2_eq_2)
        then show ?thesis
          using 1(1) [OF True esc] 1(4) more True esc take_grow [OF 1(4), of 2 dn]
          by (subst split_dn_loop.simps) (simp add: d d2 [simplified])
      next
        case False
        then have "drop (i + 1) dn = []" "split_dn_loop dn (i + 2) start parts = parts @ [drop start dn]"
          by (simp_all add: split_dn_loop.simps)
        moreover have "drop start dn = take (i - start) (drop start dn) @ drop i dn"
          using 1(4) by (metis append_take_drop_id drop_drop le_add_diff_inverse2)
        ultimately show ?thesis using True esc d by (subst split_dn_loop.simps) simp
      qed
    next
      case plain: False
      then show ?thesis
      proof (cases "dn ! i = CHR '',''")
        case comma: True
        then show ?thesis
          using 1(2) [OF True plain comma] plain True by (subst split_dn_loop.simps) (simp add: d)
      next
        case False
        have "take 1 (drop i dn) = [dn ! i]" using d by simp
        then show ?thesis
          using 1(3) [OF True plain False] 1(4) plain False True take_grow [OF 1(4), of 1 dn]
          by (subst split_dn_loop.simps) (simp add: d)
      qed
    qed
  qed
qed

lemma split_dn_rdns: "split_dn dn = rdns [] dn"
  using split_dn_loop_rdns [of 0 0 dn "[]"] by (simp add: split_dn_def)

text \<open>A value written into a name with its commas and backslashes escaped.\<close>

definition escape_value :: "string \<Rightarrow> string" where
  "escape_value v = concat (map (\<lambda>c. if c = CHR 0x5C \<or> c = CHR '','' then [CHR 0x5C, c] else [c]) v)"

lemma rdns_escaped: "rdns cur (escape_value v @ rest) = rdns (cur @ escape_value v) rest"
proof (induction v arbitrary: cur)
  case (Cons c v)
  show ?case using Cons.IH [of "cur @ (if c = CHR 0x5C \<or> c = CHR '','' then [CHR 0x5C, c] else [c])"]
    by (auto simp: escape_value_def)
qed (simp add: escape_value_def)

lemma first_cn_organisation: "first_cn ((''O='' @ v) # parts) = first_cn parts"
proof -
  have "str_trim (''O='' @ v) = ''O='' @ rev (dropWhile is_ws (rev v))"
    by (simp add: str_trim_def is_ws_def dropWhile_append3)
  then show ?thesis by (simp add: strip_prefix_def)
qed

text \<open>
  A value in an earlier part of the name cannot pass for the common
  name: whatever text a certificate carries as its organisation, once its commas and
  backslashes are escaped as a proxy writes them, the common name read from the subject is
  the one of the \<^verbatim>\<open>CN\<close> part.
\<close>

theorem organisation_cannot_forge_cn:
  assumes "cn \<noteq> []" and "\<not> is_ws (hd cn)" and "\<not> is_ws (last cn)" and "CHR 0x5C \<notin> set cn" and "CHR '','' \<notin> set cn"
  shows "extract_cn (''O='' @ escape_value v @ '',CN='' @ cn) = Some cn"
proof -
  have plain: "rdns cur xs = [cur @ xs]" if "CHR 0x5C \<notin> set xs" "CHR '','' \<notin> set xs" for cur xs
    using that by (induction xs arbitrary: cur) auto
  have split: "split_dn (''O='' @ escape_value v @ '',CN='' @ cn) = [''O='' @ escape_value v, ''CN='' @ cn]"
    using plain [of "''CN='' @ cn" "[]"] assms(4,5) rdns_escaped [of "''O=''" v "'',CN='' @ cn"]
    by (simp add: split_dn_rdns)
  have "str_trim (''CN='' @ cn) = ''CN='' @ cn"
    using assms(1,3) by (intro str_trim_plain) (simp_all add: is_ws_def)
  moreover have "str_trim cn = cn" by (rule str_trim_plain [OF assms(1-3)])
  ultimately have "first_cn [''CN='' @ cn] = Some cn" by (simp add: strip_prefix_def)
  then show ?thesis unfolding extract_cn_def split by (simp only: first_cn_organisation)
qed

theorem organisation_cannot_forge_cn_witness:
  "extract_cn (''O='' @ escape_value ''x,CN=odal-vault'' @ '',CN='' @ ''odal-resolver'') = Some ''odal-resolver''"
  by (rule organisation_cannot_forge_cn) (simp_all add: is_ws_def)

subsection \<open>The gate\<close>

text \<open>What a request that passes the gate carries.\<close>

definition presents :: "mtls_env \<Rightarrow> string \<Rightarrow> AxumRequest \<Rightarrow> bool" where
  "presents cfg allowed_cn request \<longleftrightarrow>
     (\<exists>secret subject issuer. MTLS_PROXY_SHARED_SECRET cfg = Some secret \<and> secret \<noteq> [] \<and>
        header_get PROXY_AUTH_HEADER (rq_headers request) = Some secret \<and> header_to_str secret = Some secret \<and>
        header_get CLIENT_CERT_SUBJECT_HEADER (rq_headers request) = Some subject \<and>
        first_cn (rdns [] (case header_to_str subject of Some s \<Rightarrow> s | None \<Rightarrow> ''<non-utf8>'')) = Some allowed_cn \<and>
        header_get CLIENT_CERT_ISSUER_HEADER (rq_headers request) = Some issuer \<and> header_to_str issuer = Some issuer \<and>
        first_cn (rdns [] issuer) = Some (required_issuer_cn cfg))"

lemma header_to_str_same: "header_to_str v = Some w \<Longrightarrow> w = v"
  by (auto simp: header_to_str_def split: if_splits)

lemma proxy_binding_iff:
  "proxy_binding_ok cfg request \<longleftrightarrow>
     (\<exists>secret. MTLS_PROXY_SHARED_SECRET cfg = Some secret \<and> secret \<noteq> [] \<and>
        header_get PROXY_AUTH_HEADER (rq_headers request) = Some secret \<and> header_to_str secret = Some secret)"
proof -
  have "Option.bind (header_get PROXY_AUTH_HEADER (rq_headers request)) header_to_str = Some p \<and> p = q \<longleftrightarrow>
      header_get PROXY_AUTH_HEADER (rq_headers request) = Some q \<and> header_to_str q = Some q \<and> p = q" for p q
    by (cases "header_get PROXY_AUTH_HEADER (rq_headers request)") (auto dest: header_to_str_same)
  moreover have "ct_eq a b \<longleftrightarrow> a = b" for a b by (rule ct_eq_iff)
  ultimately show ?thesis by (auto simp: proxy_binding_ok_def split: option.splits)
qed

lemma issuer_iff:
  "(case Option.bind (Option.bind h header_to_str) extract_cn of Some c \<Rightarrow> c = expected | None \<Rightarrow> False) \<longleftrightarrow>
     (\<exists>issuer. h = Some issuer \<and> header_to_str issuer = Some issuer \<and> first_cn (rdns [] issuer) = Some expected)"
  by (cases h; cases "header_to_str (the h)")
    (auto simp: extract_cn_def split_dn_rdns dest: header_to_str_same split: option.splits)

lemma enforce_gate:
  assumes "\<not> allow_insecure cfg"
  shows "(presents cfg allowed_cn request \<longrightarrow> enforce libs cfg allowed_cn run_next request w = run_next request w) \<and>
    (\<not> presents cfg allowed_cn request \<longrightarrow> (\<exists>refusal. enforce libs cfg allowed_cn run_next request w = (refusal, w) \<and>
       rp_status refusal \<in> {401, 403}))"
proof (cases "proxy_binding_ok cfg request")
  case False
  then have "\<not> presents cfg allowed_cn request" unfolding proxy_binding_iff presents_def by blast
  with False assms show ?thesis by (simp add: enforce_def problem_def)
next
  case True
  then have "presents cfg allowed_cn request \<longleftrightarrow> (\<exists>subject. header_get CLIENT_CERT_SUBJECT_HEADER (rq_headers request) = Some subject \<and>
      extract_cn (case header_to_str subject of Some s \<Rightarrow> s | None \<Rightarrow> ''<non-utf8>'') = Some allowed_cn) \<and>
      (case Option.bind (Option.bind (header_get CLIENT_CERT_ISSUER_HEADER (rq_headers request)) header_to_str) extract_cn of
         Some c \<Rightarrow> c = required_issuer_cn cfg | None \<Rightarrow> False)"
    unfolding proxy_binding_iff presents_def issuer_iff extract_cn_def split_dn_rdns by blast
  with True assms show ?thesis
    by (auto simp: enforce_def problem_def Let_def split: option.splits)
qed

lemmas enforce_presents = enforce_gate [THEN conjunct1, rule_format]

text \<open>
  Property C29 (safety). The gate. Unless enforcement is switched off, the endpoint behind it
  runs exactly when the request carries the configured, non-empty proxy secret, a client
  certificate subject whose common name is the allowed one, and an issuer whose common name
  is the internal authority's. Every other request is refused with 401 or 403 and changes
  nothing; without a configured secret that is every request.
\<close>

theorem mtls_gate:
  assumes "\<not> allow_insecure cfg"
  shows "(presents cfg allowed_cn request \<longrightarrow> enforce libs cfg allowed_cn run_next request w = run_next request w) \<and>
    (\<not> presents cfg allowed_cn request \<longrightarrow> (\<exists>refusal. enforce libs cfg allowed_cn run_next request w = (refusal, w) \<and>
       rp_status refusal \<in> {401, 403}))"
  by (rule enforce_gate [OF assms])

definition sample_mtls :: mtls_env where
  "sample_mtls = \<lparr>MTLS_ALLOW_INSECURE = None, MTLS_PROXY_SHARED_SECRET = Some ''s3'', MTLS_REQUIRED_ISSUER_CN = None\<rparr>"

definition sample_peer :: "string \<Rightarrow> AxumRequest" where
  "sample_peer cn = \<lparr>rq_method = ''POST'', rq_headers = [(''x-proxy-auth'', ''s3''), (''x-client-cert-subject'', ''O=Odal,CN='' @ cn),
     (''x-client-cert-issuer'', ''CN=Odal Internal CA'')], rq_template = None, rq_user_id = None, rq_body = Some []\<rparr>"

theorem mtls_gate_witness:
  "enforce sample_libs sample_mtls ''odal-resolver'' sample_handler (sample_peer ''odal-resolver'') (5, empty_db) =
     sample_handler (sample_peer ''odal-resolver'') (5, empty_db) \<and>
   (\<exists>refusal. enforce sample_libs sample_mtls ''odal-resolver'' sample_handler (sample_peer ''odal-vault'') (5, empty_db) =
     (refusal, 5, empty_db) \<and> rp_status refusal \<in> {401, 403})"
proof -
  have secure: "\<not> allow_insecure sample_mtls" by (simp add: allow_insecure_def sample_mtls_def)
  have "presents sample_mtls ''odal-resolver'' (sample_peer ''odal-resolver'')"
    by (simp add: presents_def sample_mtls_def sample_peer_def header_get_def PROXY_AUTH_HEADER_def header_to_str_def
        CLIENT_CERT_SUBJECT_HEADER_def CLIENT_CERT_ISSUER_HEADER_def required_issuer_cn_def str_trim_def is_ws_def strip_prefix_def)
  moreover have "\<not> presents sample_mtls ''odal-resolver'' (sample_peer ''odal-vault'')"
    by (simp add: presents_def sample_mtls_def sample_peer_def header_get_def PROXY_AUTH_HEADER_def header_to_str_def
        CLIENT_CERT_SUBJECT_HEADER_def CLIENT_CERT_ISSUER_HEADER_def required_issuer_cn_def str_trim_def is_ws_def strip_prefix_def)
  ultimately show ?thesis
    using mtls_gate [OF secure, of "''odal-resolver''" "sample_peer ''odal-resolver''" sample_libs sample_handler "(5, empty_db)"]
      mtls_gate [OF secure, of "''odal-resolver''" "sample_peer ''odal-vault''" sample_libs sample_handler "(5, empty_db)"]
    by simp
qed

end
