(* ===== verification/Scan_Pipeline.thy ===== *)
theory Scan_Pipeline
  imports Scan_Telemetry Mtls
begin

text \<open>
  Scan telemetry from end to end: the resolver's flush, the route it posts to (the vault's
  router puts the certificate gate in front of the idempotency middleware, and that in front
  of the ingest handler) and the counters. The network may lose an answer; the proxy adds
  the headers of the verified certificate to the request.
\<close>

definition RESOLVER_CN :: string where
  "RESOLVER_CN = ''odal-resolver''"

definition scan_ingest_mtls ::
  "'s http_libs \<Rightarrow> mtls_env \<Rightarrow> (AxumRequest \<Rightarrow> 'w \<Rightarrow> AxumResponse \<times> 'w) \<Rightarrow> AxumRequest \<Rightarrow> 'w \<Rightarrow> AxumResponse \<times> 'w" where
  "scan_ingest_mtls http cfg run_next request w = enforce http cfg RESOLVER_CN run_next request w"

text \<open>The internal route as the router assembles it.\<close>

definition scan_route ::
  "odal http_libs \<Rightarrow> mtls_env \<Rightarrow> ingest_libs \<Rightarrow> pg_env \<Rightarrow> (nat \<Rightarrow> time) \<Rightarrow>
   AxumRequest \<Rightarrow> LastIngest option \<times> odal \<Rightarrow> AxumResponse \<times> LastIngest option \<times> odal" where
  "scan_route http cfg libs env utc_now =
     scan_ingest_mtls http cfg
       (idempotency_middleware http (resolver_idempotency_state (pg_store env))
         (scan_ingest_handler http libs env utc_now))"

text \<open>The request of a flush, as it reaches the node behind the proxy.\<close>

definition flush_request :: "ingest_libs \<Rightarrow> (string \<times> string) list \<Rightarrow> KeyedBatch \<Rightarrow> AxumRequest" where
  "flush_request libs proxy_headers keyed =
     \<lparr>rq_method = ''POST'',
      rq_headers = [(IDEMPOTENCY_KEY_HEADER, uuid_to_string libs (kb_id keyed)),
                    (''content-type'', ''application/json'')] @ proxy_headers,
      rq_template = Some ''/vault/internal/scan-batch'', rq_user_id = None,
      rq_body = Some (encode_batch libs (kb_batch keyed))\<rparr>"

definition node_send ::
  "odal http_libs \<Rightarrow> mtls_env \<Rightarrow> ingest_libs \<Rightarrow> pg_env \<Rightarrow> (nat \<Rightarrow> time) \<Rightarrow> (string \<times> string) list \<Rightarrow> bool \<Rightarrow>
   KeyedBatch \<Rightarrow> LastIngest option \<times> odal \<Rightarrow> send_result \<times> LastIngest option \<times> odal" where
  "node_send http cfg libs env utc_now proxy_headers answer_lost keyed st =
     (case scan_route http cfg libs env utc_now (flush_request libs proxy_headers keyed) st of
        (response, st') \<Rightarrow> (if answer_lost then SendFailed else Answered (rp_status response), st'))"

definition flush_key :: "ingest_libs \<Rightarrow> KeyedBatch \<Rightarrow> RequestKey" where
  "flush_key libs keyed = \<lparr>rk_principal = RESOLVER_PRINCIPAL, rk_method = ''POST'',
     rk_path = ''/vault/internal/scan-batch'', rk_key = uuid_to_string libs (kb_id keyed)\<rparr>"

text \<open>The hyphenated form of a UUID: 36 hexadecimal digits and hyphens.\<close>

definition uuid_text :: "string \<Rightarrow> bool" where
  "uuid_text s \<longleftrightarrow> length s = 36 \<and> set s \<subseteq> set ''0123456789abcdef-''"

lemma uuid_text_header:
  assumes "uuid_text s"
  shows "header_to_str s = Some s" and "str_trim s = s" and "s \<noteq> []" and "length s \<le> MAX_KEY_LEN"
proof -
  have c: "(32 \<le> (of_char c :: nat) \<and> of_char c < (127 :: nat)) \<and> \<not> is_ws c" if "c \<in> set s" for c
    using that assms unfolding uuid_text_def by (auto simp: is_ws_def)
  then show "header_to_str s = Some s" by (auto simp: header_to_str_def list_all_iff Let_def)
  show ne: "s \<noteq> []" using assms by (auto simp: uuid_text_def)
  show "str_trim s = s" using c ne by (intro str_trim_plain) auto
  show "length s \<le> MAX_KEY_LEN" using assms by (simp add: uuid_text_def MAX_KEY_LEN_def)
qed

lemma flush_admitted:
  assumes "uuid_text (uuid_to_string libs (kb_id keyed))" and "length (encode_batch libs (kb_batch keyed)) \<le> MAX_BUFFER"
  shows "header_get IDEMPOTENCY_KEY_HEADER (rq_headers (flush_request libs ph keyed)) = Some (uuid_to_string libs (kb_id keyed))"
    and "admit http (resolver_idempotency_state store) (flush_request libs ph keyed) (uuid_to_string libs (kb_id keyed)) =
      Inr (flush_key libs keyed, verbatim, encode_batch libs (kb_batch keyed))"
  using assms(2) uuid_text_header [OF assms(1)]
  by (simp_all add: header_get_def flush_request_def admit_def policy_for_def KEYED_def resolver_idempotency_state_def
      to_bytes_def flush_key_def Let_def)

text \<open>The store's statements leave the counters alone.\<close>

lemma store_telemetry:
  "telemetry_same db (snd (claim env key fp lease retention db))"
  "telemetry_same db (snd (complete env key tok response db))"
  by (auto simp: telemetry_same_def claim_def claim_insert_def claim_read_def complete_def pg_lookup_def Let_def
      split: option.splits)

lemma scan_route_presents:
  assumes "\<not> allow_insecure cfg" and "presents cfg RESOLVER_CN request"
  shows "scan_route http cfg libs env utc_now request st =
    idempotency_middleware http (resolver_idempotency_state (pg_store env)) (scan_ingest_handler http libs env utc_now) request st"
  using enforce_presents [OF assms] by (simp add: scan_route_def scan_ingest_mtls_def)

text \<open>
  A first attempt that the node applied, its answer, and the second attempt under the same
  key, at any later time before the record expires.
\<close>

lemma scan_resend_route:
  fixes env :: pg_env
  assumes "fault_free env" and "mono (now_at env)" and "\<And>db. wait_for http db = InTime" and "\<And>b. is_digest (sha256_hex http b)"
    and "\<not> allow_insecure cfg" and "presents cfg RESOLVER_CN (flush_request libs ph keyed)"
    and "uuid_text (uuid_to_string libs (kb_id keyed))" and "length (encode_batch libs (kb_batch keyed)) \<le> MAX_BUFFER"
    and "json_extract libs (flush_request libs ph keyed) = Inr (kb_batch keyed)"
    and "idem_keys_ok db" and "telemetry_ok db"
    and "claim env (flush_key libs keyed) (fingerprint http (encode_batch libs (kb_batch keyed))) DEFAULT_LEASE DEFAULT_RETENTION db =
      (Inr (Claimed tok), db1)"
    and "ingest_batch libs env (kb_batch keyed) db1 = (Inr (), db2)"
    and "now_at env (tick db2) < now_at env (tick db) + as_interval DEFAULT_LEASE"
    and "scan_route http cfg libs env utc_now (flush_request libs ph keyed) (slot, db) = (answer, slot', db3)"
    and "(others env tok')\<^sup>*\<^sup>* db3 db4"
    and "now_at env (tick db4) < now_at env (tick db) + as_interval DEFAULT_RETENTION"
    and "scan_route http cfg libs env utc_now (flush_request libs ph keyed) (slot4, db4) = (answer', slot5, db5)"
  shows "rp_status answer = 204 \<and> telemetry_added (scan_increments libs (kb_batch keyed)) (qr_increments libs (kb_batch keyed)) db db3 \<and>
    rp_status answer' = 204 \<and> telemetry_same db4 db5 \<and> slot5 = slot4"
proof -
  let ?req = "flush_request libs ph keyed"
  let ?state = "resolver_idempotency_state (pg_store env)"
  let ?h = "scan_ingest_handler http libs env utc_now"
  let ?slot = "record_ingest (utc_now (tick db1)) (sb_flush_interval_secs (kb_batch keyed)) slot"
  note adm = flush_admitted [OF assms(7,8)]
  have run: "?h ?req (slot, db1) = (no_content, ?slot, db2)"
    by (simp add: scan_ingest_handler_def assms(9,13) Let_def)
  have "(others env tok)\<^sup>*\<^sup>* db1 db2"
    using record_batch_frame [where env = env and scans = "scan_increments libs (kb_batch keyed)"
        and qr = "qr_increments libs (kb_batch keyed)" and db = db1] assms(13)
    by (intro r_into_rtranclp others.elsewhere) (simp_all add: ingest_batch_def)
  moreover have route: "scan_route http cfg libs env utc_now ?req st = idempotency_middleware http ?state ?h ?req st" for st
    by (rule scan_route_presents [OF assms(5,6)])
  moreover have mw: "idempotency_middleware http ?state ?h ?req (slot, db) = (answer, slot', db3)"
    using assms(15) route by simp
  ultimately have r: "answer = no_content \<and> slot' = ?slot \<and>
      fst (idempotency_middleware http ?state ?h ?req (slot4, db4)) = replay (stored_response http verbatim no_content []) \<and>
      fst (snd (idempotency_middleware http ?state ?h ?req (slot4, db4))) = slot4 \<and>
      db3 = snd (complete env (flush_key libs keyed) tok (stored_response http verbatim no_content []) db2) \<and>
      snd (snd (idempotency_middleware http ?state ?h ?req (slot4, db4))) = snd (claim env (flush_key libs keyed)
        (fingerprint http (encode_batch libs (kb_batch keyed))) DEFAULT_LEASE DEFAULT_RETENTION db4)"
    by (intro retry_runs_once [where state = ?state, OF _ assms(10,2,1,3,4) adm assms(12) run _ assms(14) _ _ _ _ _ mw assms(16,17)])
      (simp_all add: resolver_idempotency_state_def no_content_def)
  have "telemetry_same db db1" using store_telemetry(1) [of db] assms(12) by (metis snd_conv)
  moreover from this have "telemetry_ok db1" using assms(11) by (simp add: telemetry_same_def telemetry_ok_def)
  then have "telemetry_added (scan_increments libs (kb_batch keyed)) (qr_increments libs (kb_batch keyed)) db1 db2"
    using record_batch_outcome assms(13) unfolding ingest_batch_def by blast
  ultimately have "telemetry_added (scan_increments libs (kb_batch keyed)) (qr_increments libs (kb_batch keyed)) db db3"
    using store_telemetry(2) [of db2] by (simp add: r telemetry_added_def telemetry_same_def)
  moreover have "rp_status (replay (stored_response http verbatim no_content [])) = 204"
    by (simp add: replay_def stored_response_def no_content_def tap_header_def header_get_def Let_def)
  ultimately show ?thesis
    using r assms(18) store_telemetry(1) [of db4 env "flush_key libs keyed"
        "fingerprint http (encode_batch libs (kb_batch keyed))" DEFAULT_LEASE DEFAULT_RETENTION]
    by (auto simp: route no_content_def prod_eq_iff)
qed

text \<open>
  Property C9 (roundtrip). A window whose acknowledgement was lost is counted once. The
  resolver flushes a window; the node applies it, and the answer never arrives. The resolver
  holds exactly that batch. Whatever happens in the node's store meanwhile, and whatever scans
  arrive at the resolver, its next flush within the retention of the record sends the same
  batch under the same key. That flush is answered as a success from the record, adds
  nothing to any counter and clears the hold, so that over both attempts every counter was
  raised by exactly the counts of the window.
\<close>

theorem scan_window_counted_once:
  fixes env :: pg_env
  assumes "fault_free env" and "mono (now_at env)" and "\<And>db. wait_for http db = InTime" and "\<And>b. is_digest (sha256_hex http b)"
    and "\<not> allow_insecure cfg" and "presents cfg RESOLVER_CN (flush_request libs ph keyed)"
    and "uuid_text (uuid_to_string libs (kb_id keyed))" and "length (encode_batch libs (kb_batch keyed)) \<le> MAX_BUFFER"
    and "json_extract libs (flush_request libs ph keyed) = Inr (kb_batch keyed)"
    and "idem_keys_ok db" and "telemetry_ok db"
    and "claim env (flush_key libs keyed) (fingerprint http (encode_batch libs (kb_batch keyed))) DEFAULT_LEASE DEFAULT_RETENTION db =
      (Inr (Claimed tok), db1)"
    and "ingest_batch libs env (kb_batch keyed) db1 = (Inr (), db2)"
    and "now_at env (tick db2) < now_at env (tick db) + as_interval DEFAULT_LEASE"
    and "next_flush new_id sc = (keyed, sc0)" and "\<not> batch_is_empty (kb_batch keyed)"
    and "flush_once (node_send http cfg libs env utc_now ph True) new_id (sc, slot, db) = (sc3, slot3, db3)"
    and "sc_pending sc4 = sc_pending sc3" and "(others env tok')\<^sup>*\<^sup>* db3 db4"
    and "now_at env (tick db4) < now_at env (tick db) + as_interval DEFAULT_RETENTION"
    and "flush_once (node_send http cfg libs env utc_now ph False) new_id' (sc4, slot4, db4) = (sc5, slot5, db5)"
  shows "telemetry_added (scan_increments libs (kb_batch keyed)) (qr_increments libs (kb_batch keyed)) db db3 \<and>
    sc_pending sc3 = Some keyed \<and> telemetry_same db4 db5 \<and> sc_pending sc5 = None"
proof -
  let ?route = "scan_route http cfg libs env utc_now (flush_request libs ph keyed)"
  obtain answer where a: "?route (slot, db) = (answer, slot3, db3)" and sc3: "sc3 = settle_flush keyed SendFailed sc0"
    using assms(15,17) by (auto simp: flush_once_def node_send_def split: prod.splits)
  have held: "sc_pending sc3 = Some keyed"
    using assms(16) by (simp add: sc3 settle_flush_def hold_def)
  then have "next_flush new_id' sc4 = (keyed, sc4)" using assms(18) by (simp add: next_flush_def)
  then obtain answer' where a': "?route (slot4, db4) = (answer', slot5, db5)"
    and sc5: "sc5 = settle_flush keyed (Answered (rp_status answer')) sc4"
    using assms(21) by (auto simp: flush_once_def node_send_def split: prod.splits)
  from scan_resend_route [OF assms(1-14) a assms(19,20) a'] held show ?thesis
    by (simp add: sc5 settle_flush_def clear_pending_def)
qed

subsection \<open>A window whose answer is lost\<close>

definition sample_flush_libs :: ingest_libs where
  "sample_flush_libs = sample_ingest_libs\<lparr>uuid_to_string := (\<lambda>_. ''0190a1b2-0000-7000-8000-000000000007'')\<rparr>"

definition sample_proxy :: "(string \<times> string) list" where
  "sample_proxy = [(''x-proxy-auth'', ''s3''), (''x-client-cert-subject'', ''CN=odal-resolver''),
     (''x-client-cert-issuer'', ''CN=Odal Internal CA'')]"

definition sample_counter :: ScanCounter where
  "sample_counter = (with_flush_interval 300)\<lparr>sc_scans := [((''p1'', 20000, Html), 2)]\<rparr>"

abbreviation sample_send :: "bool \<Rightarrow> KeyedBatch \<Rightarrow> LastIngest option \<times> odal \<Rightarrow> send_result \<times> LastIngest option \<times> odal" where
  "sample_send \<equiv> node_send sample_libs sample_mtls sample_flush_libs sample_env of_nat sample_proxy"

definition sample_lost :: "ScanCounter \<times> LastIngest option \<times> odal" where
  "sample_lost = flush_once (sample_send True) 7 (sample_counter, None, sample_scan_db)"

definition sample_resent :: "ScanCounter \<times> LastIngest option \<times> odal" where
  "sample_resent = flush_once (sample_send False) 8 sample_lost"

definition sample_flush_claimed :: odal where
  "sample_flush_claimed = bump (sample_scan_db\<lparr>idempotency_key :=
     [fresh_claim (flush_key sample_flush_libs sample_scan_batch) sample_digest DEFAULT_LEASE DEFAULT_RETENTION (ClaimToken 0) 0]\<rparr>)"

lemma sample_flush_claim:
  "claim sample_env (flush_key sample_flush_libs sample_scan_batch) sample_digest DEFAULT_LEASE DEFAULT_RETENTION sample_scan_db =
     (Inr (Claimed (ClaimToken 0)), sample_flush_claimed)"
  by (simp add: claim_def claim_insert_def mint_token_def sample_digest_ok sample_scan_db_def empty_db_def
      sample_flush_claimed_def Let_def)

lemma sample_flush_ingest:
  "ingest_batch sample_flush_libs sample_env (kb_batch sample_scan_batch) sample_flush_claimed =
     (Inr (), bump (bump (bump (sample_flush_claimed\<lparr>scan_telemetry := [((5, 100, ''html''), 40), ((5, 20000, ''html''), 2)]\<rparr>))))"
  by (simp add: ingest_batch_def scan_increments_def qr_increments_def map_filter_def sample_flush_libs_def sample_ingest_libs_def
      sample_scan_batch_def i64_or_max_def record_batch_def insert_scans_def unzip_scans_def group_sums_def upsert_counts_def
      commit_telemetry_def bigint_ok_def count_of_def known_passport_def sample_flush_claimed_def sample_scan_db_def
      empty_db_def Let_def)

lemma sample_flush_presents: "presents sample_mtls RESOLVER_CN (flush_request sample_flush_libs sample_proxy sample_scan_batch)"
  by (simp add: presents_def sample_mtls_def flush_request_def sample_proxy_def header_get_def PROXY_AUTH_HEADER_def
      IDEMPOTENCY_KEY_HEADER_def CLIENT_CERT_SUBJECT_HEADER_def CLIENT_CERT_ISSUER_HEADER_def RESOLVER_CN_def
      header_to_str_def required_issuer_cn_def str_trim_def is_ws_def strip_prefix_def)

lemma sample_flush_libs_simps [simp]:
  "uuid_to_string sample_flush_libs u = ''0190a1b2-0000-7000-8000-000000000007''" "encode_batch sample_flush_libs b = ''{}''"
  "json_extract sample_flush_libs req = Inr (kb_batch sample_scan_batch)"
  by (simp_all add: sample_flush_libs_def sample_ingest_libs_def)

lemma sample_flush_text:
  "uuid_text ''0190a1b2-0000-7000-8000-000000000007''" "Suc (Suc 0) \<le> MAX_BUFFER" "\<not> allow_insecure sample_mtls"
  by (simp_all add: uuid_text_def MAX_BUFFER_def allow_insecure_def sample_mtls_def)

lemma sample_flush_next:
  "next_flush 7 sample_counter = (sample_scan_batch, with_flush_interval 300)" "\<not> batch_is_empty (kb_batch sample_scan_batch)"
  by (simp_all add: next_flush_def counter_drain_def sample_counter_def with_flush_interval_def sample_scan_batch_def batch_is_empty_def)

lemma sample_flush_claimed_tick:
  "tick sample_flush_claimed = Suc 0" "sb_flush_interval_secs (kb_batch sample_scan_batch) = Some 300"
  by (simp_all add: sample_flush_claimed_def sample_scan_db_def empty_db_def sample_scan_batch_def)

lemma sample_lost_tick: "tick (snd (snd sample_lost)) = 5"
proof -
  let ?req = "flush_request sample_flush_libs sample_proxy sample_scan_batch"
  let ?h = "scan_ingest_handler sample_libs sample_flush_libs sample_env of_nat"
  have "tick (snd (snd (idempotency_middleware sample_libs (resolver_idempotency_state (pg_store sample_env)) ?h ?req
      (None, sample_scan_db)))) = 5"
    by (subst middleware_claimed [OF flush_admitted, where token = "ClaimToken 0" and ?s1.0 = sample_flush_claimed
          and response = no_content and ?w2.0 = "Some \<lparr>li_at = 1, li_interval_secs = Some 300\<rparr>"
          and ?s2.0 = "bump (bump (bump (sample_flush_claimed\<lparr>scan_telemetry := [((5, 100, ''html''), 40), ((5, 20000, ''html''), 2)]\<rparr>)))"])
      (simp_all add: sample_flush_text bounded_def resolver_idempotency_state_def pg_store_def sample_flush_claim
        scan_ingest_handler_def sample_flush_ingest record_ingest_def record_outcome_def is_server_error_def to_bytes_def
        no_content_def complete_def sample_flush_claimed_tick Let_def)
  then show ?thesis
    by (simp add: sample_lost_def flush_once_def sample_flush_next(1) node_send_def split_def
        scan_route_presents [OF sample_flush_text(3) sample_flush_presents])
qed

theorem scan_window_counted_once_witness:
  "telemetry_added (scan_increments sample_flush_libs (kb_batch sample_scan_batch))
      (qr_increments sample_flush_libs (kb_batch sample_scan_batch)) sample_scan_db (snd (snd sample_lost)) \<and>
   sc_pending (fst sample_lost) = Some sample_scan_batch \<and> telemetry_same (snd (snd sample_lost)) (snd (snd sample_resent)) \<and>
   sc_pending (fst sample_resent) = None"
proof (rule scan_window_counted_once [where env = sample_env and http = sample_libs and cfg = sample_mtls and ph = sample_proxy
      and tok = "ClaimToken 0" and ?db1.0 = sample_flush_claimed and utc_now = of_nat, OF sample_env_ok(1) sample_mono])
  show "presents sample_mtls RESOLVER_CN (flush_request sample_flush_libs sample_proxy sample_scan_batch)"
    by (rule sample_flush_presents)
  show "flush_once (sample_send True) 7 (sample_counter, None, sample_scan_db) = (fst sample_lost, fst (snd sample_lost), snd (snd sample_lost))"
    by (simp add: sample_lost_def)
  show "flush_once (sample_send False) 8 (fst sample_lost, fst (snd sample_lost), snd (snd sample_lost)) =
      (fst sample_resent, fst (snd sample_resent), snd (snd sample_resent))"
    by (simp add: sample_resent_def)
  show "ingest_batch sample_flush_libs sample_env (kb_batch sample_scan_batch) sample_flush_claimed =
     (Inr (), bump (bump (bump (sample_flush_claimed\<lparr>scan_telemetry := [((5, 100, ''html''), 40), ((5, 20000, ''html''), 2)]\<rparr>))))"
    by (rule sample_flush_ingest)
  show "next_flush 7 sample_counter = (sample_scan_batch, with_flush_interval 300)" by (rule sample_flush_next)
  show "(others sample_env (ClaimToken 0))\<^sup>*\<^sup>* (snd (snd sample_lost)) (snd (snd sample_lost))" by simp
qed (simp_all add: sample_digest_ok sample_flush_text sample_flush_next(2) sample_scan_db_ok sample_flush_claim sample_lost_tick
    sample_intervals, simp_all add: sample_scan_db_def sample_flush_claimed_def empty_db_def idem_keys_ok_def sample_intervals)

text \<open>An environment in which the commit of the first attempt takes effect and its answer is lost.\<close>

definition sample_commit_env :: pg_env where
  "sample_commit_env = sample_env\<lparr>fault_at := (\<lambda>n. if n = 3 then Some (OtherSqlx ''connection lost'') else None),
     commit_lost := (\<lambda>n. n = 3)\<rparr>"

definition sample_twice :: "ScanCounter \<times> LastIngest option \<times> odal" where
  "sample_twice =
     (let send = node_send sample_libs sample_mtls sample_flush_libs sample_commit_env of_nat sample_proxy False
      in flush_once send 8 (flush_once send 7 (sample_counter, None, sample_scan_db)))"

text \<open>The node after \<open>n\<close> statements, with a window counted \<open>m\<close> times and no record, or one in flight.\<close>

definition sample_commit_db :: "nat \<Rightarrow> int \<Rightarrow> idempotency_rec list \<Rightarrow> odal" where
  "sample_commit_db n c rows = sample_scan_db\<lparr>tick := n, idempotency_key := rows,
     scan_telemetry := (if c = 0 then [((5, 100, ''html''), 40)] else [((5, 100, ''html''), 40), ((5, 20000, ''html''), c)])\<rparr>"

lemma sample_commit_tick [simp]: "tick (sample_commit_db n c rows) = n"
  by (simp add: sample_commit_db_def)

abbreviation sample_commit_row :: "nat \<Rightarrow> idempotency_rec" where
  "sample_commit_row n \<equiv> fresh_claim (flush_key sample_flush_libs sample_scan_batch) sample_digest DEFAULT_LEASE DEFAULT_RETENTION
     (ClaimToken (1000 * n)) (of_nat n)"

lemma sample_commit_claim:
  "n \<noteq> 3 \<Longrightarrow> claim sample_commit_env (flush_key sample_flush_libs sample_scan_batch) sample_digest DEFAULT_LEASE DEFAULT_RETENTION
     (sample_commit_db n c []) = (Inr (Claimed (ClaimToken (1000 * n))), sample_commit_db (n + 1) c [sample_commit_row n])"
  by (simp add: claim_def claim_insert_def mint_token_def sample_digest_ok sample_commit_db_def sample_commit_env_def
      sample_scan_db_def empty_db_def bump_def Let_def)

lemma sample_commit_ingest:
  "ingest_batch sample_flush_libs sample_commit_env (kb_batch sample_scan_batch) (sample_commit_db 1 0 rows) =
     (Inl (db_err sample_commit_env (OtherSqlx ''connection lost'')), sample_commit_db 4 2 rows)"
  "ingest_batch sample_flush_libs sample_commit_env (kb_batch sample_scan_batch) (sample_commit_db 6 2 rows) =
     (Inr (), sample_commit_db 9 4 rows)"
  by (simp_all add: ingest_batch_def scan_increments_def qr_increments_def map_filter_def sample_flush_libs_def sample_ingest_libs_def
      sample_scan_batch_def i64_or_max_def record_batch_def insert_scans_def unzip_scans_def group_sums_def upsert_counts_def
      commit_telemetry_def bigint_ok_def count_of_def known_passport_def sample_commit_db_def sample_commit_env_def sample_scan_db_def
      empty_db_def bump_def Let_def)

lemma sample_commit_route:
  assumes "n \<noteq> 3 \<and> m = n + 1"
    and "ingest_batch sample_flush_libs sample_commit_env (kb_batch sample_scan_batch) (sample_commit_db m c [sample_commit_row n]) = (res, db2)"
  defines "response \<equiv> (case res of Inl _ \<Rightarrow> internal_error sample_libs | Inr _ \<Rightarrow> no_content)"
  shows "\<exists>slot'. scan_route sample_libs sample_mtls sample_flush_libs sample_commit_env of_nat
      (flush_request sample_flush_libs sample_proxy sample_scan_batch) (slot, sample_commit_db n c []) =
    (fst (record_outcome sample_libs (resolver_idempotency_state (pg_store sample_commit_env)) (flush_key sample_flush_libs sample_scan_batch)
        (ClaimToken (1000 * n)) verbatim response db2), slot',
     snd (record_outcome sample_libs (resolver_idempotency_state (pg_store sample_commit_env)) (flush_key sample_flush_libs sample_scan_batch)
        (ClaimToken (1000 * n)) verbatim response db2))"
proof -
  let ?slot = "record_ingest (of_nat m) (Some 300) slot"
  let ?h = "scan_ingest_handler sample_libs sample_flush_libs sample_commit_env of_nat"
  have run: "?h req (slot, sample_commit_db m c [sample_commit_row n]) = (response, ?slot, db2)" for req
    using assms(2) by (cases res) (simp_all add: scan_ingest_handler_def assms(3) record_ingest_def sample_flush_claimed_tick Let_def)
  have claimed: "bounded sample_libs (st_claim (ils_store (resolver_idempotency_state (pg_store sample_commit_env)))
      (flush_key sample_flush_libs sample_scan_batch) (fingerprint sample_libs (encode_batch sample_flush_libs (kb_batch sample_scan_batch)))
      DEFAULT_LEASE DEFAULT_RETENTION) (sample_commit_db n c []) =
    (Inr (Claimed (ClaimToken (1000 * n))), sample_commit_db m c [sample_commit_row n])"
    by (simp add: bounded_def resolver_idempotency_state_def pg_store_def sample_commit_claim assms(1))
  have adm: "uuid_text (uuid_to_string sample_flush_libs (kb_id sample_scan_batch))"
    "length (encode_batch sample_flush_libs (kb_batch sample_scan_batch)) \<le> MAX_BUFFER"
    by (simp_all add: sample_flush_text)
  show ?thesis
    unfolding scan_route_presents [OF sample_flush_text(3) sample_flush_presents]
    by (rule exI, rule middleware_claimed [OF flush_admitted(1) [OF adm] flush_admitted(2) [OF adm] claimed])
      (rule run)
qed

lemma sample_commit_release:
  "snd (release sample_commit_env (flush_key sample_flush_libs sample_scan_batch) (ClaimToken 0) (sample_commit_db 4 2 [sample_commit_row 0])) =
     sample_commit_db 5 2 []"
proof -
  have "held_by (flush_key sample_flush_libs sample_scan_batch) (ClaimToken 0) (sample_commit_row 0)"
    using fresh_claim_held [of "flush_key sample_flush_libs sample_scan_batch" "ClaimToken 0"] by simp
  then show ?thesis
    by (simp add: release_def pg_delete_def sample_commit_env_def) (simp add: sample_commit_db_def sample_scan_db_def empty_db_def bump_def)
qed

lemma sample_commit_complete:
  "\<exists>rows. snd (complete sample_commit_env key tok x (sample_commit_db 9 4 rs)) = sample_commit_db 10 4 rows"
  by (simp add: complete_def sample_commit_env_def Let_def)
    (auto simp: sample_commit_db_def sample_scan_db_def empty_db_def bump_def)

lemma sample_commit_first:
  "\<exists>answer slot'. scan_route sample_libs sample_mtls sample_flush_libs sample_commit_env of_nat
      (flush_request sample_flush_libs sample_proxy sample_scan_batch) (slot, sample_scan_db) =
    (answer, slot', sample_commit_db 5 2 []) \<and> rp_status answer = 500"
proof -
  have db: "sample_scan_db = sample_commit_db 0 0 []" by (simp add: sample_commit_db_def sample_scan_db_def empty_db_def)
  show ?thesis
    using sample_commit_route [OF _ sample_commit_ingest(1) [of "[sample_commit_row 0]"], of slot]
    unfolding db
    by (simp add: record_outcome_def internal_error_def problem_def is_server_error_def bounded_def resolver_idempotency_state_def
        pg_store_def sample_commit_release [simplified]) (metis AxumResponse.select_convs(1))
qed

lemma sample_commit_second:
  "\<exists>answer slot' rows. scan_route sample_libs sample_mtls sample_flush_libs sample_commit_env of_nat
      (flush_request sample_flush_libs sample_proxy sample_scan_batch) (slot, sample_commit_db 5 2 []) =
    (answer, slot', sample_commit_db 10 4 rows) \<and> rp_status answer = 204"
proof -
  let ?x = "stored_response sample_libs verbatim no_content []"
  obtain rows where rows: "snd (complete sample_commit_env (flush_key sample_flush_libs sample_scan_batch) (ClaimToken 5000) ?x
      (sample_commit_db 9 4 [sample_commit_row 5])) = sample_commit_db 10 4 rows"
    using sample_commit_complete by metis
  have "record_outcome sample_libs (resolver_idempotency_state (pg_store sample_commit_env)) (flush_key sample_flush_libs sample_scan_batch)
      (ClaimToken 5000) verbatim no_content (sample_commit_db 9 4 [sample_commit_row 5]) = (no_content, sample_commit_db 10 4 rows)"
    by (subst record_outcome_complete [of _ "[]"])
      (simp_all add: no_content_def [THEN arg_cong [of _ _ rp_status]] no_content_def [THEN arg_cong [of _ _ rp_body]]
        is_server_error_def MAX_BUFFER_def bounded_def resolver_idempotency_state_def pg_store_def rows [simplified])
  then show ?thesis
    using sample_commit_route [OF _ sample_commit_ingest(2) [of "[sample_commit_row 5]"], of slot]
    by (simp, intro exI [of _ no_content]) (auto simp: no_content_def [THEN arg_cong [of _ _ rp_status]])
qed


end
