(* ===== verification/Seal_Outbox.thy ===== *)
theory Seal_Outbox
  imports Statements
begin

text \<open>
  The sealing queue of \<^verbatim>\<open>dpp-dal/src/pg/repo_seal.rs\<close> on the tables \<^verbatim>\<open>odal.seal_outbox\<close> and
  \<^verbatim>\<open>odal.passport\<close>, and the store of the seal audit on \<^verbatim>\<open>odal.seal_audit_state\<close>. The digest
  function of \<^verbatim>\<open>digest_for_jws\<close> is the argument \<open>sha\<close>. The abstract queue is a ledger from
  passport and digest to the state of the attestation, and the statements are shown to
  implement its operations.
\<close>

subsection \<open>Rows\<close>

text \<open>The column check \<^verbatim>\<open>payload_hash ~ '^[0-9a-f]{64}$'\<close>.\<close>

definition is_digest :: "string \<Rightarrow> bool" where
  "is_digest h \<longleftrightarrow> length h = 64 \<and> list_all (\<lambda>c. c \<in> set ''0123456789abcdef'') h"

definition new_seal_row :: "time \<Rightarrow> uuid \<Rightarrow> uuid \<Rightarrow> string \<Rightarrow> seal_outbox_rec" where
  "new_seal_row now ident pid h =
     \<lparr>sl_id = ident, sl_passport_id = pid, sl_payload_hash = h, sl_status = ''pending'', sl_attempts = 0,
      sl_next_attempt_at = now, sl_last_attempt_at = None, sl_message = None, sl_sealed_at = None,
      sl_updated_at = now\<rparr>"

definition seal_rearmed_row :: "string option \<Rightarrow> time \<Rightarrow> seal_outbox_rec \<Rightarrow> seal_outbox_rec" where
  "seal_rearmed_row message now s = s\<lparr>sl_status := ''pending'', sl_attempts := 0, sl_next_attempt_at := now,
     sl_message := message, sl_updated_at := now\<rparr>"

definition sealed_row :: "time \<Rightarrow> seal_outbox_rec \<Rightarrow> seal_outbox_rec" where
  "sealed_row now s = s\<lparr>sl_status := ''sealed'', sl_sealed_at := Some now, sl_last_attempt_at := Some now,
     sl_attempts := sl_attempts s + 1, sl_message := None, sl_updated_at := now\<rparr>"

definition seal_failed_row :: "string \<Rightarrow> time \<Rightarrow> rat \<Rightarrow> seal_outbox_rec \<Rightarrow> seal_outbox_rec" where
  "seal_failed_row message now rnd s = s\<lparr>sl_attempts := sl_attempts s + 1, sl_message := Some message,
     sl_last_attempt_at := Some now, sl_next_attempt_at := now + backoff (sl_attempts s) rnd, sl_updated_at := now\<rparr>"

definition seal_exhausted_row :: "string \<Rightarrow> time \<Rightarrow> rat \<Rightarrow> seal_outbox_rec \<Rightarrow> seal_outbox_rec" where
  "seal_exhausted_row message now rnd s = s\<lparr>sl_status := ''exhausted'', sl_message := Some message,
     sl_last_attempt_at := Some now, sl_attempts := sl_attempts s + 1, sl_updated_at := now\<rparr>"

lemmas seal_row_defs = seal_rearmed_row_def sealed_row_def seal_failed_row_def seal_exhausted_row_def

lemma seal_row_keys [simp]:
  "sl_id (seal_rearmed_row m now s) = sl_id s" "sl_id (sealed_row now s) = sl_id s"
  "sl_id (seal_failed_row t now rnd s) = sl_id s" "sl_id (seal_exhausted_row t now rnd s) = sl_id s"
  "sl_passport_id (seal_rearmed_row m now s) = sl_passport_id s" "sl_passport_id (sealed_row now s) = sl_passport_id s"
  "sl_passport_id (seal_failed_row t now rnd s) = sl_passport_id s"
  "sl_passport_id (seal_exhausted_row t now rnd s) = sl_passport_id s"
  "sl_payload_hash (seal_rearmed_row m now s) = sl_payload_hash s" "sl_payload_hash (sealed_row now s) = sl_payload_hash s"
  "sl_payload_hash (seal_failed_row t now rnd s) = sl_payload_hash s"
  "sl_payload_hash (seal_exhausted_row t now rnd s) = sl_payload_hash s"
  "seal_key (seal_rearmed_row m now s) = seal_key s" "seal_key (sealed_row now s) = seal_key s"
  "seal_key (seal_failed_row t now rnd s) = seal_key s" "seal_key (seal_exhausted_row t now rnd s) = seal_key s"
  "seal_key (new_seal_row now ident pid h) = (pid, h)"
  by (simp_all add: seal_row_defs seal_key_def new_seal_row_def)

subsection \<open>Queueing\<close>

definition seal_enqueue :: "pg_env \<Rightarrow> uuid \<Rightarrow> string \<Rightarrow> odal \<Rightarrow> (dpp_error + unit) \<times> odal" where
  "seal_enqueue env pid h db =
     (let n = tick db; now = now_at env n
      in case fault_at env n of
           Some e \<Rightarrow> (Inl (db_err env e), bump db)
         | None \<Rightarrow>
             if \<not> is_digest h then (Inl (db_err env check_violation), bump db)
             else if (pid, h) \<in> seal_key ` set (seal_outbox db)
             then (Inr (), bump (db\<lparr>seal_outbox :=
                     upd_where (\<lambda>s. seal_key s = (pid, h) \<and> sl_status s = ''exhausted'')
                       (seal_rearmed_row None now) (seal_outbox db)\<rparr>))
             else if uuid_at env n 0 \<in> sl_id ` set (seal_outbox db) then (Inl (db_err env unique_violation), bump db)
             else if pid \<notin> pp_id ` set (passport db) then (Inl (db_err env fk_violation), bump db)
             else (Inr (), bump (db\<lparr>seal_outbox :=
                     seal_outbox db @ [new_seal_row now (uuid_at env n 0) pid h]\<rparr>)))"

text \<open>
  A passport the repair sweep takes: published, signed, without any seal, not queued, and
  with no attempt that gave up within the cooldown.
\<close>

definition unsealed_published :: "passport_rec \<Rightarrow> bool" where
  "unsealed_published p \<longleftrightarrow> pp_published_at p \<noteq> None \<and> pp_seal p = None \<and> pp_jws p \<noteq> None"

definition sweep_candidate :: "time \<Rightarrow> int \<Rightarrow> seal_outbox_rec list \<Rightarrow> passport_rec \<Rightarrow> bool" where
  "sweep_candidate now cooldown_secs q p \<longleftrightarrow>
     unsealed_published p \<and>
     \<not> list_ex (\<lambda>s. sl_passport_id s = pp_id p \<and> sl_status s = ''pending'') q \<and>
     \<not> list_ex (\<lambda>s. sl_passport_id s = pp_id p \<and> sl_status s = ''exhausted'' \<and>
          opt_holds (\<lambda>t. now - of_int cooldown_secs < t) (sl_last_attempt_at s)) q"

fun enqueue_each ::
  "pg_env \<Rightarrow> (string \<Rightarrow> string) \<Rightarrow> (uuid \<times> string) list \<Rightarrow> nat \<Rightarrow> odal \<Rightarrow> (dpp_error + nat) \<times> odal" where
  "enqueue_each env sha [] queued db = (Inr queued, db)"
| "enqueue_each env sha ((pid, jws) # rows) queued db =
     (case seal_enqueue env pid (sha jws) db of
        (Inl e, db') \<Rightarrow> (Inl e, db')
      | (Inr _, db') \<Rightarrow> enqueue_each env sha rows (queued + 1) db')"

definition seal_enqueue_unsealed ::
  "pg_env \<Rightarrow> (string \<Rightarrow> string) \<Rightarrow> nat \<Rightarrow> int \<Rightarrow> odal \<Rightarrow> (dpp_error + nat) \<times> odal" where
  "seal_enqueue_unsealed env sha limit cooldown_secs db =
     (case exec_select passport env (\<lambda>now. sweep_candidate now cooldown_secs (seal_outbox db))
             (\<lambda>p. case pp_published_at p of Some t \<Rightarrow> t | None \<Rightarrow> 0) limit db of
        (Inl e, db') \<Rightarrow> (Inl e, db')
      | (Inr ps, db') \<Rightarrow>
          enqueue_each env sha (map (\<lambda>p. (pp_id p, case pp_jws p of Some j \<Rightarrow> j | None \<Rightarrow> [])) ps) 0 db')"

subsection \<open>Draining\<close>

definition to_seal_row :: "seal_outbox_rec \<Rightarrow> SealRow" where
  "to_seal_row s = \<lparr>sr_id = sl_id s, sr_passport_id = sl_passport_id s, sr_payload_hash = sl_payload_hash s,
     sr_attempts = sl_attempts s\<rparr>"

definition seal_due :: "pg_env \<Rightarrow> nat \<Rightarrow> odal \<Rightarrow> (dpp_error + SealRow list) \<times> odal" where
  "seal_due env limit db =
     (case exec_select seal_outbox env
        (\<lambda>now s. sl_status s = ''pending'' \<and> sl_next_attempt_at s \<le> now) sl_next_attempt_at limit db of
        (Inl e, db') \<Rightarrow> (Inl e, db')
      | (Inr rs, db') \<Rightarrow> (Inr (map to_seal_row rs), db'))"

text \<open>
  The seal is set on the document and the row is closed in one transaction, whose \<^verbatim>\<open>now()\<close> is
  its start.
\<close>

definition with_seal :: "time \<Rightarrow> SealedEnvelope \<Rightarrow> passport_rec \<Rightarrow> passport_rec" where
  "with_seal now envelope p = p\<lparr>pp_seal := Some (SealDoc envelope), pp_updated_at := now\<rparr>"

definition commit_seal :: "time \<Rightarrow> uuid \<Rightarrow> uuid \<Rightarrow> SealedEnvelope \<Rightarrow> odal \<Rightarrow> odal" where
  "commit_seal now ident pid envelope db =
     db\<lparr>passport := upd_where (\<lambda>p. pp_id p = pid) (with_seal now envelope) (passport db),
        seal_outbox := upd_where (\<lambda>s. sl_id s = ident) (sealed_row now) (seal_outbox db)\<rparr>"

definition seal_mark_sealed :: "pg_env \<Rightarrow> uuid \<Rightarrow> SealedEnvelope \<Rightarrow> odal \<Rightarrow> (dpp_error + unit) \<times> odal" where
  "seal_mark_sealed env ident envelope db =
     (let n = tick db; now = now_at env n;
          target = Option.bind (row_at sl_id ident (seal_outbox db)) (\<lambda>s. row_at pp_id (sl_passport_id s) (passport db))
      in case fault_at env n of
           Some e \<Rightarrow> (Inl (db_err env e), bump db)
         | None \<Rightarrow>
             (case fault_at env (n + 1) of
                Some e \<Rightarrow> (Inl (db_err env e), bump (bump db))
              | None \<Rightarrow>
                  (case target of
                     None \<Rightarrow> (Inl (NotFound (''seal_outbox row '' @ fmt_uuid env ident @ '' has no passport to seal'')),
                              bump (bump db))
                   | Some p \<Rightarrow>
                       (case fault_at env (n + 2) of
                          Some e \<Rightarrow> (Inl (db_err env e), bump (bump (bump db)))
                        | None \<Rightarrow>
                            (case fault_at env (n + 3) of
                               Some e \<Rightarrow> (Inl (db_err env e),
                                 bump (bump (bump (bump (if commit_lost env (n + 3)
                                   then commit_seal now ident (pp_id p) envelope db else db)))))
                             | None \<Rightarrow> (Inr (), bump (bump (bump (bump
                                   (commit_seal now ident (pp_id p) envelope db))))))))))"

abbreviation seal_mark ::
  "pg_env \<Rightarrow> uuid \<Rightarrow> (seal_outbox_rec \<Rightarrow> bool) \<Rightarrow>
   (time \<Rightarrow> rat \<Rightarrow> seal_outbox_rec \<Rightarrow> seal_outbox_rec) \<Rightarrow> odal \<Rightarrow> (dpp_error + unit) \<times> odal"
where
  "seal_mark env ident ok f db \<equiv>
     exec_mark seal_outbox seal_outbox_update sl_id env ''seal_outbox row'' ident (\<lambda>_ _. True) ok f db"

definition seal_mark_attempt_failed :: "pg_env \<Rightarrow> uuid \<Rightarrow> string \<Rightarrow> odal \<Rightarrow> (dpp_error + unit) \<times> odal" where
  "seal_mark_attempt_failed env ident message =
     seal_mark env ident (\<lambda>s. backoff_ok (sl_attempts s)) (seal_failed_row message)"

definition seal_mark_exhausted :: "pg_env \<Rightarrow> uuid \<Rightarrow> string \<Rightarrow> odal \<Rightarrow> (dpp_error + unit) \<times> odal" where
  "seal_mark_exhausted env ident message = seal_mark env ident (\<lambda>_. True) (seal_exhausted_row message)"

subsection \<open>Replacing, re-arming, reading\<close>

definition seal_replace_seal ::
  "pg_env \<Rightarrow> uuid \<Rightarrow> SealedEnvelope \<Rightarrow> SealedEnvelope \<Rightarrow> odal \<Rightarrow> (dpp_error + bool) \<times> odal" where
  "seal_replace_seal env pid current renewed db =
     (case exec_update passport passport_update pp_id env pid
             (\<lambda>_ p. Option.bind (pp_seal p) stored_seal_value = Some (se_seal_value current)) (\<lambda>_. True)
             (\<lambda>now _. with_seal now renewed) db of
        (Inl e, db') \<Rightarrow> (Inl e, db')
      | (Inr m, db') \<Rightarrow> (Inr (m = 1), db'))"

text \<open>Newest first; PostgreSQL sorts a missing \<^verbatim>\<open>sealed_at\<close> before every other in descending order.\<close>

definition newest_sealed :: "uuid \<Rightarrow> seal_outbox_rec list \<Rightarrow> seal_outbox_rec option" where
  "newest_sealed pid q =
     (case rev (sort_key (\<lambda>s. (sl_sealed_at s = None, case sl_sealed_at s of Some t \<Rightarrow> t | None \<Rightarrow> 0, sl_id s))
        (filter (\<lambda>s. sl_passport_id s = pid \<and> sl_status s = ''sealed'') q)) of
        [] \<Rightarrow> None
      | s # _ \<Rightarrow> Some s)"

definition seal_sealed_digest :: "pg_env \<Rightarrow> uuid \<Rightarrow> odal \<Rightarrow> (dpp_error + string option) \<times> odal" where
  "seal_sealed_digest env pid db =
     (case fault_at env (tick db) of
        Some e \<Rightarrow> (Inl (db_err env e), bump db)
      | None \<Rightarrow> (Inr (map_option sl_payload_hash (newest_sealed pid (seal_outbox db))), bump db))"

definition seal_rearm_sealed ::
  "pg_env \<Rightarrow> uuid \<Rightarrow> string \<Rightarrow> string \<Rightarrow> odal \<Rightarrow> (dpp_error + bool) \<times> odal" where
  "seal_rearm_sealed env pid h reason db =
     (case exec_update seal_outbox seal_outbox_update seal_key env (pid, h)
             (\<lambda>_ s. sl_status s = ''sealed'') (\<lambda>_. True) (\<lambda>now _. seal_rearmed_row (Some reason) now) db of
        (Inl e, db') \<Rightarrow> (Inl e, db')
      | (Inr m, db') \<Rightarrow> (Inr (0 < m), db'))"

definition seal_count :: "string \<Rightarrow> odal \<Rightarrow> nat" where
  "seal_count status db = length (filter (\<lambda>s. sl_status s = status) (seal_outbox db))"

definition seal_status_counts :: "pg_env \<Rightarrow> odal \<Rightarrow> (dpp_error + SealOutboxCounts) \<times> odal" where
  "seal_status_counts env db =
     (case fault_at env (tick db) of
        Some e \<Rightarrow> (Inl (db_err env e), bump db)
      | None \<Rightarrow> (Inr \<lparr>slc_pending = seal_count ''pending'' db, slc_sealed = seal_count ''sealed'' db,
                       slc_exhausted = seal_count ''exhausted'' db\<rparr>, bump db))"

text \<open>
  The statuses of the core library and its transition table are arguments: a status is
  terminal when nothing leaves it.
\<close>

definition terminal_statuses :: "'s list \<Rightarrow> ('s \<Rightarrow> 's \<Rightarrow> bool) \<Rightarrow> 's list" where
  "terminal_statuses all_statuses can_transition_to =
     filter (\<lambda>from. \<not> list_ex (can_transition_to from) all_statuses) all_statuses"

definition seal_unsealed_published_counts ::
  "pg_env \<Rightarrow> 's list \<Rightarrow> ('s \<Rightarrow> 's \<Rightarrow> bool) \<Rightarrow> ('s \<Rightarrow> string) \<Rightarrow> odal \<Rightarrow> (dpp_error + UnsealedCounts) \<times> odal" where
  "seal_unsealed_published_counts env all_statuses can_transition_to to_string db =
     (let terminal = map to_string (terminal_statuses all_statuses can_transition_to)
      in case fault_at env (tick db) of
           Some e \<Rightarrow> (Inl (db_err env e), bump db)
         | None \<Rightarrow>
             (Inr \<lparr>uc_live = length (filter (\<lambda>p. unsealed_published p \<and> pp_status p \<notin> set terminal) (passport db)),
                   uc_terminal = length (filter (\<lambda>p. unsealed_published p \<and> pp_status p \<in> set terminal) (passport db))\<rparr>,
              bump db))"

text \<open>One page of the sealed passports, by identifier; a member that does not read is skipped.\<close>

definition auditable :: "uuid option \<Rightarrow> time option \<Rightarrow> seal_outbox_rec list \<Rightarrow> passport_rec \<Rightarrow> bool" where
  "auditable after sealed_before q p \<longleftrightarrow>
     pp_published_at p \<noteq> None \<and> pp_seal p \<noteq> None \<and> pp_jws p \<noteq> None \<and>
     (case after of None \<Rightarrow> True | Some a \<Rightarrow> a < pp_id p) \<and>
     (case sealed_before of None \<Rightarrow> True
      | Some t \<Rightarrow> \<not> list_ex (\<lambda>s. sl_passport_id s = pp_id p \<and> sl_status s = ''sealed'' \<and>
                     opt_holds (\<lambda>u. t \<le> u) (sl_sealed_at s)) q)"

definition read_sealed :: "(string \<Rightarrow> string) \<Rightarrow> passport_rec \<Rightarrow> SealedPassport option" where
  "read_sealed sha p =
     (case (pp_jws p, Option.bind (pp_seal p) stored_envelope) of
        (Some jws, Some e) \<Rightarrow> Some \<lparr>sp_passport_id = pp_id p, sp_seal = e, sp_payload_hash = sha jws\<rparr>
      | _ \<Rightarrow> None)"

definition seal_sealed_passports ::
  "pg_env \<Rightarrow> (string \<Rightarrow> string) \<Rightarrow> nat \<Rightarrow> uuid option \<Rightarrow> time option \<Rightarrow> odal \<Rightarrow>
   (dpp_error + SealedPassport list) \<times> odal" where
  "seal_sealed_passports env sha limit after sealed_before db =
     (case exec_select passport env (\<lambda>_. auditable after sealed_before (seal_outbox db)) pp_id limit db of
        (Inl e, db') \<Rightarrow> (Inl e, db')
      | (Inr ps, db') \<Rightarrow> (Inr (List.map_filter (read_sealed sha) ps), db'))"

subsection \<open>The audit's store\<close>

definition audit_load ::
  "pg_env \<Rightarrow> odal \<Rightarrow> (dpp_error + SealAuditProgress option \<times> SealAuditReport option) \<times> odal" where
  "audit_load env db =
     (case fault_at env (tick db) of
        Some e \<Rightarrow> (Inl (db_err env e), bump db)
      | None \<Rightarrow>
          (Inr (case seal_audit_state db of
                  None \<Rightarrow> (None, None)
                | Some r \<Rightarrow> (from_stored (sa_progress r), from_stored (sa_report r))), bump db))"

definition audit_save_progress :: "pg_env \<Rightarrow> SealAuditProgress \<Rightarrow> odal \<Rightarrow> (dpp_error + unit) \<times> odal" where
  "audit_save_progress env progress db =
     (let now = now_at env (tick db)
      in case fault_at env (tick db) of
           Some e \<Rightarrow> (Inl (db_err env e), bump db)
         | None \<Rightarrow>
             (Inr (), bump (db\<lparr>seal_audit_state := Some
                (case seal_audit_state db of
                   None \<Rightarrow> \<lparr>sa_progress = Some (Readable progress), sa_report = None, sa_updated_at = now\<rparr>
                 | Some r \<Rightarrow> r\<lparr>sa_progress := Some (Readable progress), sa_updated_at := now\<rparr>)\<rparr>)))"

definition audit_complete :: "pg_env \<Rightarrow> SealAuditReport \<Rightarrow> odal \<Rightarrow> (dpp_error + unit) \<times> odal" where
  "audit_complete env report db =
     (let now = now_at env (tick db)
      in case fault_at env (tick db) of
           Some e \<Rightarrow> (Inl (db_err env e), bump db)
         | None \<Rightarrow>
             (Inr (), bump (db\<lparr>seal_audit_state := Some
                (case seal_audit_state db of
                   None \<Rightarrow> \<lparr>sa_progress = None, sa_report = Some (Readable report), sa_updated_at = now\<rparr>
                 | Some r \<Rightarrow> r\<lparr>sa_progress := None, sa_report := Some (Readable report), sa_updated_at := now\<rparr>)\<rparr>)))"

subsection \<open>The abstract queue\<close>

text \<open>
  What the queue promises, over attestations: a request queues what is new or was given up
  and nothing else; an attestation bought is bought; one that is bought is queued again only
  by an explicit order.
\<close>

datatype attestation = Queued | Attested | GaveUp

type_synonym seal_ledger = "uuid \<times> string \<Rightarrow> attestation option"

definition spec_request :: "uuid \<times> string \<Rightarrow> seal_ledger \<Rightarrow> seal_ledger" where
  "spec_request k L = (if L k = None \<or> L k = Some GaveUp then L(k \<mapsto> Queued) else L)"

definition spec_settle :: "uuid \<times> string \<Rightarrow> attestation \<Rightarrow> seal_ledger \<Rightarrow> seal_ledger" where
  "spec_settle k a L = (if L k = None then L else L(k \<mapsto> a))"

definition spec_reorder :: "uuid \<times> string \<Rightarrow> seal_ledger \<Rightarrow> seal_ledger" where
  "spec_reorder k L = (if L k = Some Attested then L(k \<mapsto> Queued) else L)"

definition attestation_of :: "string \<Rightarrow> attestation" where
  "attestation_of st = (if st = ''pending'' then Queued else if st = ''sealed'' then Attested else GaveUp)"

definition ledger :: "odal \<Rightarrow> seal_ledger" where
  "ledger db k = map_option (\<lambda>s. attestation_of (sl_status s)) (row_at seal_key k (seal_outbox db))"

text \<open>Every row's status is one the table's check admits.\<close>

definition seal_statuses_ok :: "odal \<Rightarrow> bool" where
  "seal_statuses_ok db \<longleftrightarrow> list_all (\<lambda>s. sl_status s \<in> {''pending'', ''sealed'', ''exhausted''}) (seal_outbox db)"

lemma ledger_bump [simp]: "ledger (bump db) = ledger db"
  by (rule ext) (simp add: ledger_def)

lemma ledger_cong: "seal_outbox db' = seal_outbox db \<Longrightarrow> ledger db' = ledger db"
  by (rule ext) (simp add: ledger_def)

lemma seal_statuses_cong: "seal_outbox db' = seal_outbox db \<Longrightarrow> seal_statuses_ok db' = seal_statuses_ok db"
  by (simp add: seal_statuses_ok_def)

text \<open>A statement on one row, named by its identifier, changes the ledger at that row's key.\<close>

lemma row_at_other_key:
  assumes "distinct (map sl_id q)" and "distinct (map seal_key q)" and "row_at sl_id ident q = Some r"
    and "\<And>s. seal_key (f s) = seal_key s"
  shows "row_at seal_key k (upd_where (\<lambda>s. sl_id s = ident) f q) =
    (if k = seal_key r then Some (f r) else row_at seal_key k q)"
proof -
  have r: "r \<in> set q" "sl_id r = ident" using row_at_SomeD [OF assms(3)] by auto
  have at_r: "row_at seal_key (seal_key r) q = Some r" by (rule row_at_in_set [OF assms(2) r(1)])
  have "row_at seal_key k (upd_where (\<lambda>s. sl_id s = ident) f q) =
      map_option (\<lambda>s. if sl_id s = ident then f s else s) (row_at seal_key k q)"
    by (rule row_at_upd_where, rule assms(4))
  also have "\<dots> = (if k = seal_key r then Some (f r) else row_at seal_key k q)"
  proof (cases "k = seal_key r")
    case True
    show ?thesis unfolding True at_r using r(2) by simp
  next
    case False
    have "sl_id s \<noteq> ident" if "row_at seal_key k q = Some s" for s
    proof
      assume "sl_id s = ident"
      moreover have "s \<in> set q" "seal_key s = k" using row_at_SomeD [OF that] by auto
      ultimately have "s = r" using assms(1) r by (auto simp: distinct_map dest: inj_onD)
      with False \<open>seal_key s = k\<close> show False by blast
    qed
    with False show ?thesis by (cases "row_at seal_key k q") auto
  qed
  finally show ?thesis .
qed

lemma ledger_upd:
  assumes "keys_ok db" and "row_at sl_id ident (seal_outbox db) = Some r"
    and "\<And>s. seal_key (f s) = seal_key s" and "sl_status (f r) = st"
    and "seal_outbox db' = upd_where (\<lambda>s. sl_id s = ident) f (seal_outbox db)"
  shows "ledger db' = spec_settle (seal_key r) (attestation_of st) (ledger db)"
proof
  fix k
  have d: "distinct (map sl_id (seal_outbox db))" "distinct (map seal_key (seal_outbox db))"
    using assms(1) by (simp_all add: keys_ok_def)
  have "row_at seal_key (seal_key r) (seal_outbox db) = Some r"
    by (rule row_at_in_set [OF d(2)]) (use row_at_SomeD [OF assms(2)] in blast)
  then have "ledger db (seal_key r) \<noteq> None" by (simp add: ledger_def)
  then show "ledger db' k = spec_settle (seal_key r) (attestation_of st) (ledger db) k"
    unfolding ledger_def [of db'] assms(5) row_at_other_key [where f = f, OF d assms(2,3)]
    by (simp add: spec_settle_def ledger_def assms(4))
qed

lemma ledger_upd_key:
  assumes "keys_ok db" and "\<And>s. seal_key (f s) = seal_key s"
    and "seal_outbox db' = upd_where (\<lambda>s. seal_key s = k \<and> p s) f (seal_outbox db)"
  shows "ledger db' k' = (if k' = k then map_option (\<lambda>s. attestation_of (sl_status (if p s then f s else s)))
      (row_at seal_key k (seal_outbox db)) else ledger db k')"
proof -
  have "row_at seal_key k' (seal_outbox db') =
      map_option (\<lambda>s. if seal_key s = k \<and> p s then f s else s) (row_at seal_key k' (seal_outbox db))"
    unfolding assms(3) by (rule row_at_upd_where, rule assms(2))
  moreover have "seal_key s = k'" if "row_at seal_key k' (seal_outbox db) = Some s" for s
    using row_at_SomeD [OF that] by blast
  ultimately show ?thesis
    unfolding ledger_def by (cases "row_at seal_key k' (seal_outbox db)") auto
qed

lemma ledger_append:
  assumes "(pid, h) \<notin> seal_key ` set (seal_outbox db)"
    and "seal_outbox db' = seal_outbox db @ [new_seal_row now ident pid h]"
  shows "ledger db' = (ledger db)((pid, h) \<mapsto> Queued)"
proof
  fix k
  have none: "row_at seal_key (pid, h) (seal_outbox db) = None" using assms(1) by (simp add: row_at_None)
  have "row_at seal_key k [new_seal_row now ident pid h] = (if (pid, h) = k then Some (new_seal_row now ident pid h) else None)"
    unfolding row_at_simps by simp
  then show "ledger db' k = ((ledger db)((pid, h) \<mapsto> Queued)) k"
    unfolding ledger_def assms(2) row_at_append using none
    by (cases "k = (pid, h)") (auto simp: new_seal_row_def attestation_of_def split: option.splits)
qed

text \<open>Queueing, in every environment.\<close>

lemma attestation_of_simps:
  "attestation_of ''pending'' = Queued" "attestation_of ''sealed'' = Attested" "attestation_of ''exhausted'' = GaveUp"
  "attestation_of st = Queued \<longleftrightarrow> st = ''pending''" "attestation_of st = Attested \<longleftrightarrow> st = ''sealed''"
  by (simp_all add: attestation_of_def)

lemma status_cases:
  assumes "seal_statuses_ok db" and "row_at seal_key k (seal_outbox db) = Some s"
  shows "sl_status s = ''pending'' \<or> sl_status s = ''sealed'' \<or> sl_status s = ''exhausted''"
  using assms(1) row_at_SomeD [OF assms(2)] by (auto simp: seal_statuses_ok_def list_all_iff)

lemma enqueue_refines:
  assumes "keys_ok db" and "seal_statuses_ok db" and "seal_enqueue env pid h db = (res, db')"
  shows "ledger db' = (if isl res then ledger db else spec_request (pid, h) (ledger db))"
proof (cases "isl res")
  case True
  with assms(3) have "db' = bump db"
    by (auto simp: seal_enqueue_def Let_def split: option.splits if_splits)
  with True show ?thesis by simp
next
  case False
  show ?thesis
  proof (cases "(pid, h) \<in> seal_key ` set (seal_outbox db)")
    case old: True
    then obtain s where s: "row_at seal_key (pid, h) (seal_outbox db) = Some s"
      by (cases "row_at seal_key (pid, h) (seal_outbox db)") (auto simp: row_at_None)
    from False old assms(3) have q: "seal_outbox db' = upd_where (\<lambda>s. seal_key s = (pid, h) \<and> sl_status s = ''exhausted'')
        (seal_rearmed_row None (now_at env (tick db))) (seal_outbox db)"
      by (auto simp: seal_enqueue_def Let_def split: option.splits if_splits)
    have "ledger db' k = spec_request (pid, h) (ledger db) k" for k
      unfolding ledger_upd_key [where f = "seal_rearmed_row None (now_at env (tick db))", OF assms(1) seal_row_keys(13) q]
      using s status_cases [OF assms(2) s]
      by (auto simp: spec_request_def ledger_def attestation_of_simps seal_rearmed_row_def)
    with False show ?thesis by auto
  next
    case new: False
    with False assms(3) have "seal_outbox db' = seal_outbox db @ [new_seal_row (now_at env (tick db)) (uuid_at env (tick db) 0) pid h]"
      by (auto simp: seal_enqueue_def Let_def split: option.splits if_splits)
    from ledger_append [OF new this] show ?thesis using False new
      by (auto simp: spec_request_def ledger_def row_at_None [THEN iffD2])
  qed
qed

lemma mark_sealed_refines:
  assumes "keys_ok db" and "row_at sl_id ident (seal_outbox db) = Some r"
    and "seal_mark_sealed env ident envelope db = (res, db')"
  shows "ledger db' = spec_settle (seal_key r) Attested (ledger db) \<or> (isl res \<and> ledger db' = ledger db)"
    and "isl res \<Longrightarrow> (\<And>n. \<not> commit_lost env n) \<Longrightarrow> ledger db' = ledger db"
proof -
  have commit: "ledger (commit_seal now ident pid envelope db) = spec_settle (seal_key r) Attested (ledger db)" for now pid
    by (subst ledger_upd [OF assms(1,2), of "sealed_row now" "''sealed''"])
      (auto simp: sealed_row_def commit_seal_def attestation_of_def seal_key_def)
  show "ledger db' = spec_settle (seal_key r) Attested (ledger db) \<or> (isl res \<and> ledger db' = ledger db)"
    using assms(3) commit
    by (auto simp: seal_mark_sealed_def Let_def split: option.splits if_splits)
  show "ledger db' = ledger db" if "isl res" "\<And>n. \<not> commit_lost env n"
    using assms(3) that by (auto simp: seal_mark_sealed_def Let_def split: option.splits if_splits)
qed

lemma seal_mark_refines:
  assumes "keys_ok db" and "row_at sl_id ident (seal_outbox db) = Some r"
    and "\<And>now rnd s. seal_key (f now rnd s) = seal_key s" and "\<And>now rnd. sl_status (f now rnd r) = st"
    and "seal_mark env ident ok f db = (res, db')"
  shows "ledger db' = (if isl res then ledger db else spec_settle (seal_key r) (attestation_of st) (ledger db))"
proof (cases "fault_at env (tick db) = None \<and> ok r")
  case True
  have d: "distinct (map sl_id (seal_outbox db))" using assms(1) by (simp add: keys_ok_def)
  have hit: "exec_update seal_outbox seal_outbox_update sl_id env ident (\<lambda>_ _. True) ok f db =
     (Inr 1, bump (seal_outbox_update (\<lambda>_. upd_where (\<lambda>r. sl_id r = ident \<and> True)
       (f (now_at env (tick db)) (random_at env (tick db))) (seal_outbox db)) db))"
    using True by (intro seal_t.exec_update_hit [OF _ d assms(2)]) auto
  have "ledger db' = spec_settle (seal_key r) (attestation_of st) (ledger db)"
    by (rule ledger_upd [OF assms(1,2), of "f (now_at env (tick db)) (random_at env (tick db))"])
      (use assms(3-5) hit in \<open>auto simp: exec_mark_def require_updated_def\<close>)
  moreover have "\<not> isl res" using assms(5) hit by (auto simp: exec_mark_def require_updated_def)
  ultimately show ?thesis by simp
next
  case False
  then have "isl res \<and> db' = bump db"
  proof (cases "fault_at env (tick db)")
    case None
    with False have "\<not> ok r" by simp
    with None assms(5) seal_t.exec_mark_out_of_range [OF None assms(2), of "\<lambda>_ _. True" ok] show ?thesis by auto
  next
    case (Some e)
    with assms(5) seal_t.exec_mark_fault [OF Some] show ?thesis by auto
  qed
  then show ?thesis by simp
qed

lemma exhausted_refines:
  assumes "keys_ok db" and "row_at sl_id ident (seal_outbox db) = Some r"
    and "seal_mark_exhausted env ident message db = (res, db')"
  shows "ledger db' = (if isl res then ledger db else spec_settle (seal_key r) GaveUp (ledger db))"
  using seal_mark_refines [OF assms(1,2), of "seal_exhausted_row message" "''exhausted''" env "\<lambda>_. True"] assms(3)
  by (auto simp: seal_mark_exhausted_def seal_exhausted_row_def seal_key_def attestation_of_simps)

lemma attempt_failed_refines:
  assumes "keys_ok db" and "row_at sl_id ident (seal_outbox db) = Some r"
  shows "ledger (snd (seal_mark_attempt_failed env ident message db)) = ledger db"
proof -
  have d: "distinct (map seal_key (seal_outbox db))" using assms(1) by (simp add: keys_ok_def)
  have "row_at seal_key (seal_key r) (seal_outbox db) = Some r"
    by (rule row_at_in_set [OF d]) (use row_at_SomeD [OF assms(2)] in blast)
  then have "spec_settle (seal_key r) (attestation_of (sl_status r)) (ledger db) = ledger db"
    by (auto simp: spec_settle_def ledger_def)
  moreover obtain res db' where "seal_mark_attempt_failed env ident message db = (res, db')" by fastforce
  ultimately show ?thesis
    using seal_mark_refines [OF assms, of "seal_failed_row message" "sl_status r" env "\<lambda>s. backoff_ok (sl_attempts s)" res db']
    by (auto simp: seal_mark_attempt_failed_def seal_failed_row_def seal_key_def)
qed

lemma rearm_refines:
  assumes "keys_ok db" and "seal_rearm_sealed env pid h reason db = (res, db')"
  shows "(res = Inr (ledger db (pid, h) = Some Attested) \<and> ledger db' = spec_reorder (pid, h) (ledger db)) \<or>
    (isl res \<and> ledger db' = ledger db)"
proof (cases "fault_at env (tick db)")
  case (Some e)
  with assms(2) show ?thesis by (auto simp: seal_rearm_sealed_def exec_update_def pg_update_def Let_def)
next
  case None
  have d: "distinct (map seal_key (seal_outbox db))" using assms(1) by (simp add: keys_ok_def)
  let ?f = "\<lambda>s. seal_key s = (pid, h) \<and> sl_status s = ''sealed''"
  from None assms(2) have q: "res = Inr (0 < length (filter ?f (seal_outbox db)))"
      "seal_outbox db' = upd_where ?f (seal_rearmed_row (Some reason) (now_at env (tick db))) (seal_outbox db)"
    by (auto simp: seal_rearm_sealed_def exec_update_def pg_update_def Let_def)
  have r: "res = Inr (ledger db (pid, h) = Some Attested)"
    unfolding q(1) filter_key_distinct [OF d]
    by (cases "row_at seal_key (pid, h) (seal_outbox db)") (auto simp: ledger_def attestation_of_simps)
  moreover have "ledger db' k = spec_reorder (pid, h) (ledger db) k" for k
    unfolding ledger_upd_key [where f = "seal_rearmed_row (Some reason) (now_at env (tick db))", OF assms(1) seal_row_keys(13) q(2)]
    by (cases "row_at seal_key (pid, h) (seal_outbox db)")
      (auto simp: spec_reorder_def ledger_def attestation_of_simps seal_rearmed_row_def)
  ultimately show ?thesis by auto
qed

subsection \<open>Properties\<close>


definition sample_digest :: string where
  "sample_digest = replicate 64 (CHR ''a'')"

definition sample_seal_db :: odal where
  "sample_seal_db = empty_db\<lparr>
     passport := [\<lparr>pp_id = 7, pp_status = ''active'', pp_doc_status = ''active'', pp_published_at = Some 0,
       pp_updated_at = 0, pp_jws = Some ''jws'', pp_seal = None\<rparr>],
     seal_outbox := [new_seal_row 0 51 7 sample_digest]\<rparr>"

lemma sample_seal_db_simps:
  "tick sample_seal_db = 0" "seal_outbox sample_seal_db = [new_seal_row 0 51 7 sample_digest]"
  "passport sample_seal_db = [\<lparr>pp_id = 7, pp_status = ''active'', pp_doc_status = ''active'', pp_published_at = Some 0,
       pp_updated_at = 0, pp_jws = Some ''jws'', pp_seal = None\<rparr>]"
  "keys_ok sample_seal_db" "seal_statuses_ok sample_seal_db" "seal_audit_state sample_seal_db = None"
  by (simp_all add: sample_seal_db_def empty_db_def keys_ok_def seal_statuses_ok_def new_seal_row_def)


end
