(* ===== verification/Seal_Drain.thy ===== *)
theory Seal_Drain
  imports Seal_Outbox
begin

text \<open>
  The drain of the sealing queue (\<^verbatim>\<open>dpp-node/src/infra/seal_drain.rs\<close>, first half), the step of
  publish that queues a seal (\<^verbatim>\<open>dpp-vault/src/domain/service/seal.rs\<close>) and the repair sweep's
  cadence (\<^verbatim>\<open>dpp-node/src/boot/tasks.rs\<close>). The provider of seals and the cryptographic check of
  what a seal covers are fields of \<open>seal_port\<close>; the provider's answer may differ at every call.
\<close>

subsection \<open>The drain\<close>

record seal_port =
  qtsp_seal :: "nat \<Rightarrow> SealRequest \<Rightarrow> string + SealedEnvelope"
  cades_binding :: "SealedEnvelope \<Rightarrow> string \<Rightarrow> SealBinding"

record SealDrainStats =
  sld_sealed :: nat
  sld_retried :: nat
  sld_exhausted :: nat

definition seal_stats_default :: SealDrainStats where
  "seal_stats_default = \<lparr>sld_sealed = 0, sld_retried = 0, sld_exhausted = 0\<rparr>"

definition SEAL_MAX_ATTEMPTS :: nat where
  "SEAL_MAX_ATTEMPTS = 8"

definition SEAL_EXHAUSTED_COOLDOWN_SECS :: int where
  "SEAL_EXHAUSTED_COOLDOWN_SECS = 6 * 3600"

definition seal_back_off_or_exhaust ::
  "pg_env \<Rightarrow> uuid \<Rightarrow> nat \<Rightarrow> string \<Rightarrow> SealDrainStats \<times> odal \<Rightarrow> SealDrainStats \<times> odal" where
  "seal_back_off_or_exhaust env ident attempts reason st =
     (case st of (stats, db) \<Rightarrow>
        if SEAL_MAX_ATTEMPTS \<le> attempts + 1
        then (stats\<lparr>sld_exhausted := sld_exhausted stats + 1\<rparr>,
              snd (seal_mark_exhausted env ident (''max attempts reached: '' @ reason) db))
        else (stats\<lparr>sld_retried := sld_retried stats + 1\<rparr>,
              snd (seal_mark_attempt_failed env ident reason db)))"

definition covers_something_else :: "seal_port \<Rightarrow> SealedEnvelope \<Rightarrow> string \<Rightarrow> string option" where
  "covers_something_else port envelope requested =
     (case cades_binding port envelope requested of
        CoversThisSignature \<Rightarrow> None
      | UnknownBinding \<Rightarrow> None
      | CoversAnotherDigest covered \<Rightarrow> Some (''it covers '' @ covered)
      | NotIntact \<Rightarrow> Some ''its signature does not verify'')"

definition seal_request_for :: "string \<Rightarrow> SealMode \<Rightarrow> SealConformanceLevel \<Rightarrow> SealRow \<Rightarrow> SealRequest" where
  "seal_request_for key_ref mode level row =
     \<lparr>sq_payload_hash = sr_payload_hash row, sq_mode = mode, sq_key_ref = key_ref, sq_sig_format = Cades,
      sq_conformance_level = level, sq_envelope = Detached\<rparr>"

definition seal_drain_row ::
  "pg_env \<Rightarrow> seal_port \<Rightarrow> string \<Rightarrow> SealMode \<Rightarrow> SealConformanceLevel \<Rightarrow> SealRow \<Rightarrow>
   SealDrainStats \<times> odal \<Rightarrow> SealDrainStats \<times> odal" where
  "seal_drain_row env port key_ref mode level row st =
     (case st of (stats, db) \<Rightarrow>
        (case qtsp_seal port (tick db) (seal_request_for key_ref mode level row) of
           Inl e \<Rightarrow> seal_back_off_or_exhaust env (sr_id row) (sr_attempts row) e (stats, db)
         | Inr envelope \<Rightarrow>
             (case covers_something_else port envelope (sr_payload_hash row) of
                Some why \<Rightarrow> seal_back_off_or_exhaust env (sr_id row) (sr_attempts row)
                  (''seal does not cover the requested digest: '' @ why) (stats, db)
              | None \<Rightarrow>
                  (case seal_mark_sealed env (sr_id row) envelope db of
                     (Inr _, db') \<Rightarrow> (stats\<lparr>sld_sealed := sld_sealed stats + 1\<rparr>, db')
                   | (Inl e, db') \<Rightarrow> seal_back_off_or_exhaust env (sr_id row) (sr_attempts row)
                       (''seal recorded failed: '' @ fmt_dpp env e) (stats, db')))))"

definition seal_drain_once ::
  "pg_env \<Rightarrow> seal_port \<Rightarrow> string \<Rightarrow> SealMode \<Rightarrow> SealConformanceLevel \<Rightarrow> nat \<Rightarrow> odal \<Rightarrow> SealDrainStats \<times> odal" where
  "seal_drain_once env port key_ref mode level batch db =
     (case seal_due env batch db of
        (Inl _, db') \<Rightarrow> (seal_stats_default, db')
      | (Inr due, db') \<Rightarrow> fold (seal_drain_row env port key_ref mode level) due (seal_stats_default, db'))"

subsection \<open>Queueing at publish\<close>

definition seal_digest :: "(string \<Rightarrow> string) \<Rightarrow> passport_rec \<Rightarrow> string option" where
  "seal_digest sha p = map_option sha (pp_jws p)"

text \<open>The outbox is absent on a node that does not seal.\<close>

definition service_enqueue_seal :: "pg_env \<Rightarrow> (string \<Rightarrow> string) \<Rightarrow> bool \<Rightarrow> passport_rec \<Rightarrow> odal \<Rightarrow> odal" where
  "service_enqueue_seal env sha sealing p db =
     (if \<not> sealing then db
      else case seal_digest sha p of
          None \<Rightarrow> db
        | Some digest \<Rightarrow> snd (seal_enqueue env (pp_id p) digest db))"

subsection \<open>What a drain does to the queue and to the passports\<close>

definition seal_step :: "pg_env \<Rightarrow> uuid \<Rightarrow> odal \<Rightarrow> odal \<Rightarrow> bool" where
  "seal_step env k s t \<longleftrightarrow>
     (\<exists>e. t = snd (seal_mark_sealed env k e s)) \<or>
     (\<exists>m. t = snd (seal_mark_attempt_failed env k m s)) \<or>
     (\<exists>m. t = snd (seal_mark_exhausted env k m s))"

text \<open>The transaction is all or nothing; an error may hide a commit.\<close>

lemma mark_sealed_atomic:
  assumes "seal_mark_sealed env ident e db = (res, db')"
  shows "(isl res \<and> passport db' = passport db \<and> seal_outbox db' = seal_outbox db) \<or>
    (\<exists>s p. row_at sl_id ident (seal_outbox db) = Some s \<and> row_at pp_id (sl_passport_id s) (passport db) = Some p \<and>
       passport db' = upd_where (\<lambda>p. pp_id p = sl_passport_id s) (with_seal (now_at env (tick db)) e) (passport db) \<and>
       seal_outbox db' = upd_where (\<lambda>s. sl_id s = ident) (sealed_row (now_at env (tick db))) (seal_outbox db))"
  using assms
  by (auto simp: seal_mark_sealed_def Let_def commit_seal_def bind_eq_Some_conv
      split: option.splits if_splits dest: row_at_SomeD)

lemma seal_step_rows:
  assumes "seal_step env k s t"
  obtains p f where "seal_outbox t = upd_where (\<lambda>r. sl_id r = k \<and> p r) f (seal_outbox s)"
    and "\<And>r. sl_id (f r) = sl_id r" and "\<And>r. seal_key (f r) = seal_key r"
    and "\<And>r. sl_status (f r) = ''pending'' \<Longrightarrow> sl_status r = ''pending''"
proof -
  have none: "seal_outbox s = upd_where (\<lambda>r. sl_id r = k \<and> False) (\<lambda>r. r) (seal_outbox s)" by (simp add: upd_where_def)
  from assms consider e where "t = snd (seal_mark_sealed env k e s)"
    | m where "t = snd (seal_mark_attempt_failed env k m s)" | m where "t = snd (seal_mark_exhausted env k m s)"
    by (auto simp: seal_step_def)
  then show ?thesis
  proof cases
    case 1
    have "seal_outbox t = seal_outbox s \<or>
        seal_outbox t = upd_where (\<lambda>r. sl_id r = k \<and> True) (sealed_row (now_at env (tick s))) (seal_outbox s)"
      using mark_sealed_atomic [of env k e s "fst (seal_mark_sealed env k e s)" t] 1 by auto
    with none that [of "\<lambda>_. False" "\<lambda>r. r"] that [of "\<lambda>_. True" "sealed_row (now_at env (tick s))"] show ?thesis
      by (auto simp: sealed_row_def seal_key_def)
  next
    case 2
    with seal_t.exec_update_rows [of env k "\<lambda>_ _. True" "\<lambda>s. backoff_ok (sl_attempts s)" "seal_failed_row m" s]
      none that [of "\<lambda>_. False" "\<lambda>r. r"] that [of "\<lambda>_. True" "seal_failed_row m (now_at env (tick s)) (random_at env (tick s))"]
    show ?thesis by (auto simp: seal_mark_attempt_failed_def seal_t.exec_mark_snd seal_failed_row_def seal_key_def)
  next
    case 3
    with seal_t.exec_update_rows [of env k "\<lambda>_ _. True" "\<lambda>_. True" "seal_exhausted_row m" s]
      none that [of "\<lambda>_. False" "\<lambda>r. r"] that [of "\<lambda>_. True" "seal_exhausted_row m (now_at env (tick s)) (random_at env (tick s))"]
    show ?thesis by (auto simp: seal_mark_exhausted_def seal_t.exec_mark_snd seal_exhausted_row_def seal_key_def)
  qed
qed

text \<open>A row keeps its passport and digest, and once closed no drain opens it again.\<close>

definition seal_row_rel :: "seal_outbox_rec \<Rightarrow> seal_outbox_rec \<Rightarrow> bool" where
  "seal_row_rel r r' \<longleftrightarrow> seal_key r' = seal_key r \<and> (sl_status r' = ''pending'' \<longrightarrow> sl_status r = ''pending'')"

interpretation seal_ob: tracked_outbox seal_outbox sl_id "seal_step env" seal_row_rel
proof
  fix k k' s t r r' r''
  show "map sl_id (seal_outbox t) = map sl_id (seal_outbox s)" if "seal_step env k s t"
    using that by (elim seal_step_rows) (simp add: upd_where_keys)
  show "row_at sl_id k' (seal_outbox t) = row_at sl_id k' (seal_outbox s)" if "seal_step env k s t" "k' \<noteq> k"
    using that(1)
  proof (rule seal_step_rows)
    fix p f
    assume "seal_outbox t = upd_where (\<lambda>r. sl_id r = k \<and> p r) f (seal_outbox s)" "\<And>r. sl_id (f r) = sl_id r"
    with that(2) show ?thesis
      by (cases "row_at sl_id k' (seal_outbox s)") (auto simp: row_at_upd_where dest: row_at_SomeD)
  qed
  show "seal_row_rel r r" by (simp add: seal_row_rel_def)
  show "seal_row_rel r r' \<Longrightarrow> seal_row_rel r' r'' \<Longrightarrow> seal_row_rel r r''" by (simp add: seal_row_rel_def)
  show "opt_holds (seal_row_rel r) (row_at sl_id k (seal_outbox t))"
    if "seal_step env k s t" "row_at sl_id k (seal_outbox s) = Some r"
    using that(1)
  proof (rule seal_step_rows)
    fix p f
    assume "seal_outbox t = upd_where (\<lambda>r. sl_id r = k \<and> p r) f (seal_outbox s)" "\<And>r. sl_id (f r) = sl_id r"
      "\<And>r. seal_key (f r) = seal_key r" "\<And>r. sl_status (f r) = ''pending'' \<Longrightarrow> sl_status r = ''pending''"
    with that(2) show ?thesis by (auto simp: row_at_upd_where seal_row_rel_def)
  qed
qed

lemma back_off_steps:
  "seal_step env ident db (snd (seal_back_off_or_exhaust env ident attempts reason (stats, db)))"
  by (auto simp: seal_back_off_or_exhaust_def seal_step_def)

lemma back_off_passport [simp]:
  "passport (snd (seal_back_off_or_exhaust env ident attempts reason (stats, db))) = passport db"
proof -
  have "passport (snd (seal_mark env ident ok f db)) = passport db" for ok f
    using seal_t.exec_update_only [of env ident "\<lambda>_ _. True" ok f db] by (auto simp: seal_t.exec_mark_snd)
  then show ?thesis
    by (simp add: seal_back_off_or_exhaust_def seal_mark_attempt_failed_def seal_mark_exhausted_def)
qed

lemma seal_drain_row_runs:
  "runs (seal_step env) {sr_id row} (snd st) (snd (seal_drain_row env port key_ref mode level row st))"
proof -
  obtain stats db where st: "st = (stats, db)" by fastforce
  have bo: "runs (seal_step env) {sr_id row} db' (snd (seal_back_off_or_exhaust env (sr_id row) a m (stats, db')))" for a m db'
    by (rule runs_single [of "seal_step env" "sr_id row"], rule back_off_steps) simp
  have ms: "runs (seal_step env) {sr_id row} db (snd (seal_mark_sealed env (sr_id row) e db))" for e
    by (rule runs_single [of _ "sr_id row"]) (auto simp: seal_step_def)
  show ?thesis
    using bo ms runs_trans [OF ms bo]
    by (auto simp: st seal_drain_row_def split: sum.splits option.splits prod.splits) (metis snd_conv)+
qed

text \<open>One row: the passports are untouched, or the seal bought for it is stored and the row is closed.\<close>

definition seal_stored ::
  "pg_env \<Rightarrow> seal_port \<Rightarrow> string \<Rightarrow> SealMode \<Rightarrow> SealConformanceLevel \<Rightarrow> SealRow \<Rightarrow> uuid \<Rightarrow> odal \<Rightarrow> odal \<Rightarrow> bool" where
  "seal_stored env port key_ref mode level row pid db db' \<longleftrightarrow>
     (\<exists>n e t. qtsp_seal port n (seal_request_for key_ref mode level row) = Inr e \<and>
        covers_something_else port e (sr_payload_hash row) = None \<and>
        passport db' = upd_where (\<lambda>p. pp_id p = pid) (with_seal t e) (passport db) \<and>
        opt_holds (\<lambda>s. sl_status s \<noteq> ''pending'') (row_at sl_id (sr_id row) (seal_outbox db')))"

lemma closed_stays:
  assumes "runs (seal_step env) K db db'" and "opt_holds (\<lambda>s. sl_status s \<noteq> ''pending'') (row_at sl_id k (seal_outbox db))"
  shows "opt_holds (\<lambda>s. sl_status s \<noteq> ''pending'') (row_at sl_id k (seal_outbox db'))"
proof -
  from assms(2) obtain r where r: "row_at sl_id k (seal_outbox db) = Some r" "sl_status r \<noteq> ''pending''"
    by (auto simp: opt_holds_def split: option.splits)
  from seal_ob.runs_rel [OF assms(1) r(1)] r(2) show ?thesis
    by (auto simp: opt_holds_def seal_row_rel_def split: option.splits)
qed

lemma seal_drain_row_passports:
  assumes "row_at sl_id (sr_id row) (seal_outbox db) = Some s"
    and "seal_drain_row env port key_ref mode level row (stats, db) = (stats', db')"
  shows "passport db' = passport db \<or> seal_stored env port key_ref mode level row (sl_passport_id s) db db'"
proof (cases "qtsp_seal port (tick db) (seal_request_for key_ref mode level row)")
  case (Inl e)
  with assms(2) have "db' = snd (seal_back_off_or_exhaust env (sr_id row) (sr_attempts row) e (stats, db))"
    by (simp add: seal_drain_row_def)
  then show ?thesis by simp
next
  case (Inr e)
  note bought = this
  show ?thesis
  proof (cases "covers_something_else port e (sr_payload_hash row)")
    case (Some why)
    with assms(2) Inr have "db' = snd (seal_back_off_or_exhaust env (sr_id row) (sr_attempts row)
        (''seal does not cover the requested digest: '' @ why) (stats, db))"
      by (simp add: seal_drain_row_def)
    then show ?thesis by simp
  next
    case None
    obtain res db1 where m: "seal_mark_sealed env (sr_id row) e db = (res, db1)" by fastforce
    have after: "db' = db1 \<or> (\<exists>a t. db' = snd (seal_back_off_or_exhaust env (sr_id row) a t (stats, db1)))"
    proof (cases res)
      case (Inl err)
      with assms(2) Inr None m have "db' = snd (seal_back_off_or_exhaust env (sr_id row) (sr_attempts row)
          (''seal recorded failed: '' @ fmt_dpp env err) (stats, db1))" by (simp add: seal_drain_row_def)
      then show ?thesis by blast
    qed (use assms(2) Inr None m in \<open>simp add: seal_drain_row_def\<close>)
    then have same: "passport db' = passport db1" and run: "runs (seal_step env) {sr_id row} db1 db'"
      by (auto intro: runs_single back_off_steps)
    from mark_sealed_atomic [OF m] show ?thesis
    proof (elim disjE exE conjE)
      assume "passport db1 = passport db"
      with same show ?thesis by simp
    next
      fix s' p
      assume "row_at sl_id (sr_id row) (seal_outbox db) = Some s'"
        and p: "passport db1 = upd_where (\<lambda>p. pp_id p = sl_passport_id s') (with_seal (now_at env (tick db)) e) (passport db)"
        and q: "seal_outbox db1 = upd_where (\<lambda>s. sl_id s = sr_id row) (sealed_row (now_at env (tick db))) (seal_outbox db)"
      with assms(1) have "s' = s" by simp
      have "opt_holds (\<lambda>s. sl_status s \<noteq> ''pending'') (row_at sl_id (sr_id row) (seal_outbox db1))"
        unfolding q using assms(1) row_at_SomeD [OF assms(1)]
        by (simp add: row_at_upd_where sealed_row_def)
      from closed_stays [OF run this] bought None p same \<open>s' = s\<close> show ?thesis
        unfolding seal_stored_def by auto
    qed
  qed
qed

text \<open>The whole pass, passport by passport.\<close>

definition same_but_seal :: "passport_rec \<Rightarrow> passport_rec \<Rightarrow> bool" where
  "same_but_seal p p' \<longleftrightarrow> pp_id p' = pp_id p \<and> pp_status p' = pp_status p \<and> pp_doc_status p' = pp_doc_status p \<and>
     pp_published_at p' = pp_published_at p \<and> pp_jws p' = pp_jws p"

lemma same_but_seal_simps [simp]:
  "same_but_seal p p" "same_but_seal p (with_seal t e q) = same_but_seal p q"
  by (simp_all add: same_but_seal_def with_seal_def)

definition seal_provenance ::
  "seal_port \<Rightarrow> string \<Rightarrow> SealMode \<Rightarrow> SealConformanceLevel \<Rightarrow> SealRow list \<Rightarrow> odal \<Rightarrow> passport_rec \<Rightarrow> passport_rec \<Rightarrow> bool" where
  "seal_provenance port key_ref mode level rows db p p' \<longleftrightarrow>
     same_but_seal p p' \<and>
     (pp_seal p' = pp_seal p \<or>
      (\<exists>row \<in> set rows. \<exists>n e. sr_passport_id row = pp_id p \<and> pp_seal p' = Some (SealDoc e) \<and>
         qtsp_seal port n (seal_request_for key_ref mode level row) = Inr e \<and>
         covers_something_else port e (sr_payload_hash row) = None \<and>
         opt_holds (\<lambda>s. sl_status s \<noteq> ''pending'') (row_at sl_id (sr_id row) (seal_outbox db))))"

lemma seal_provenance_later:
  assumes "seal_provenance port key_ref mode level rows db p p'" and "runs (seal_step env) K db db'" and "set rows \<subseteq> set rows'"
  shows "seal_provenance port key_ref mode level rows' db' p p'"
  using assms(1) closed_stays [OF assms(2)] assms(3) unfolding seal_provenance_def by blast

lemma seal_drain_rows_provenance:
  assumes "\<And>row. row \<in> set rows \<Longrightarrow> opt_holds (\<lambda>s. sl_passport_id s = sr_passport_id row) (row_at sl_id (sr_id row) (seal_outbox db))"
    and "row_at pp_id pid (passport db) = Some p"
  shows "opt_holds (seal_provenance port key_ref mode level rows
      (snd (fold (seal_drain_row env port key_ref mode level) rows (stats, db))) p)
    (row_at pp_id pid (passport (snd (fold (seal_drain_row env port key_ref mode level) rows (stats, db)))))"
  using assms
proof (induction rows rule: rev_induct)
  case Nil
  then show ?case by (simp add: seal_provenance_def)
next
  case (snoc row rows)
  let ?f = "seal_drain_row env port key_ref mode level"
  obtain stats1 db1 where f1: "fold ?f rows (stats, db) = (stats1, db1)" by fastforce
  obtain stats2 db2 where f2: "?f row (stats1, db1) = (stats2, db2)" by fastforce
  have run1: "runs (seal_step env) (sr_id ` set rows) db db1"
    using runs_fold [of rows "seal_step env" sr_id snd ?f "(stats, db)"] seal_drain_row_runs by (simp add: f1)
  have run2: "runs (seal_step env) {sr_id row} db1 db2"
    using seal_drain_row_runs [of env row "(stats1, db1)" port key_ref mode level] by (simp add: f2)
  from snoc.IH snoc.prems f1 obtain q where q: "row_at pp_id pid (passport db1) = Some q"
      "seal_provenance port key_ref mode level rows db1 p q"
    by (auto simp: opt_holds_def split: option.splits)
  have before: "seal_provenance port key_ref mode level (rows @ [row]) db2 p q"
    by (rule seal_provenance_later [OF q(2) run2]) auto
  from snoc.prems(1) [of row] obtain s0 where s0: "row_at sl_id (sr_id row) (seal_outbox db) = Some s0"
      "sl_passport_id s0 = sr_passport_id row" by (auto simp: opt_holds_def split: option.splits)
  from seal_ob.runs_rel [OF run1 s0(1)] obtain s where s: "row_at sl_id (sr_id row) (seal_outbox db1) = Some s"
      "sl_passport_id s = sr_passport_id row"
    using s0(2) by (auto simp: opt_holds_def seal_row_rel_def seal_key_def split: option.splits)
  have pid: "pp_id q = pid" "pp_id p = pid" using row_at_SomeD [OF q(1)] row_at_SomeD [OF snoc.prems(2)] by auto
  from seal_drain_row_passports [OF s(1) f2] show ?case
  proof
    assume "passport db2 = passport db1"
    with before q show ?thesis by (simp add: f1 f2)
  next
    assume "seal_stored env port key_ref mode level row (sl_passport_id s) db1 db2"
    then obtain n e t where st: "qtsp_seal port n (seal_request_for key_ref mode level row) = Inr e"
        "covers_something_else port e (sr_payload_hash row) = None"
        "passport db2 = upd_where (\<lambda>p. pp_id p = sr_passport_id row) (with_seal t e) (passport db1)"
        "opt_holds (\<lambda>s. sl_status s \<noteq> ''pending'') (row_at sl_id (sr_id row) (seal_outbox db2))"
      unfolding seal_stored_def s(2) by blast
    have look: "row_at pp_id pid (passport db2) = Some (if pid = sr_passport_id row then with_seal t e q else q)"
      unfolding st(3) using q(1) pid by (subst row_at_upd_where) (auto simp: with_seal_def)
    show ?thesis
    proof (cases "pid = sr_passport_id row")
      case True
      have "same_but_seal p q" using q(2) by (simp add: seal_provenance_def)
      moreover have "pp_seal (with_seal t e q) = Some (SealDoc e)" by (simp add: with_seal_def)
      ultimately show ?thesis using st look True pid by (auto simp: f1 f2 seal_provenance_def)
    next
      case False
      with before look show ?thesis by (simp add: f1 f2)
    qed
  qed
qed

lemma to_seal_row_simps:
  "sr_id (to_seal_row s) = sl_id s" "sr_passport_id (to_seal_row s) = sl_passport_id s"
  "sr_payload_hash (to_seal_row s) = sl_payload_hash s" "sr_attempts (to_seal_row s) = sl_attempts s"
  by (simp_all add: to_seal_row_def)

lemma seal_due_rows:
  assumes "keys_ok db" and "seal_due env batch db = (Inr due, db1)"
  shows "db1 = bump db" and "distinct (map sr_id due)" and "length due \<le> batch"
    and "row \<in> set due \<Longrightarrow> \<exists>s. row_at sl_id (sr_id row) (seal_outbox db) = Some s \<and> row = to_seal_row s \<and>
      sl_status s = ''pending'' \<and> sl_next_attempt_at s \<le> now_at env (tick db)"
proof -
  have d: "distinct (map sl_id (seal_outbox db))" using assms(1) by (simp add: keys_ok_def)
  obtain rs where rs: "exec_select seal_outbox env (\<lambda>now s. sl_status s = ''pending'' \<and> sl_next_attempt_at s \<le> now)
      sl_next_attempt_at batch db = (Inr rs, db1)" and due: "due = map to_seal_row rs"
    using assms(2) by (auto simp: seal_due_def split: prod.splits sum.splits)
  note sel = exec_select_InrD [OF rs]
  have ids: "map sr_id due = map sl_id rs" by (simp add: due to_seal_row_def)
  show "db1 = bump db" by (rule sel(1))
  show "distinct (map sr_id due)" unfolding ids by (rule sel(5) [OF d])
  show "length due \<le> batch" using sel(3) by (simp add: due)
  show "\<exists>s. row_at sl_id (sr_id row) (seal_outbox db) = Some s \<and> row = to_seal_row s \<and>
      sl_status s = ''pending'' \<and> sl_next_attempt_at s \<le> now_at env (tick db)" if "row \<in> set due"
    using that sel(2) row_at_in_set [OF d] by (auto simp: due to_seal_row_def)
qed

subsection \<open>Well-formed queues\<close>

definition seal_row_ok :: "seal_outbox_rec \<Rightarrow> bool" where
  "seal_row_ok s \<longleftrightarrow> is_digest (sl_payload_hash s) \<and> sl_status s \<in> {''pending'', ''sealed'', ''exhausted''} \<and>
     (sl_status s = ''sealed'' \<longrightarrow> sl_sealed_at s \<noteq> None) \<and>
     sl_attempts s \<le> SEAL_MAX_ATTEMPTS + 1 \<and> (sl_status s = ''pending'' \<longrightarrow> sl_attempts s < SEAL_MAX_ATTEMPTS)"

definition seal_wf :: "odal \<Rightarrow> bool" where
  "seal_wf db \<longleftrightarrow> keys_ok db \<and> list_all seal_row_ok (seal_outbox db) \<and>
     sl_passport_id ` set (seal_outbox db) \<subseteq> pp_id ` set (passport db)"

lemma seal_row_ok_effects:
  assumes "seal_row_ok s" and "sl_status s = ''pending''"
  shows "seal_row_ok (sealed_row now s)"
    and "sl_attempts s + 1 < SEAL_MAX_ATTEMPTS \<Longrightarrow> seal_row_ok (seal_failed_row m now rnd s)"
    and "seal_row_ok (seal_exhausted_row m now rnd s)"
    and "seal_row_ok (seal_failed_row m now rnd (sealed_row now' s))"
    and "seal_row_ok (seal_exhausted_row m now rnd (sealed_row now' s))"
  using assms by (auto simp: seal_row_ok_def seal_row_defs SEAL_MAX_ATTEMPTS_def)

lemma back_off_row:
  assumes "row_at sl_id ident (seal_outbox db) = Some s"
  shows "\<exists>r. row_at sl_id ident (seal_outbox (snd (seal_back_off_or_exhaust env ident a m (stats, db)))) = Some r \<and>
    (r = s \<or> (\<exists>m now rnd. a + 1 < SEAL_MAX_ATTEMPTS \<and> r = seal_failed_row m now rnd s) \<or>
     (\<exists>m now rnd. r = seal_exhausted_row m now rnd s))"
proof -
  have id: "sl_id s = ident" using row_at_SomeD [OF assms] by blast
  have one: "row_at sl_id ident (seal_outbox (snd (seal_mark env ident ok f db))) \<in>
      {Some s, Some (f (now_at env (tick db)) (random_at env (tick db)) s)}"
    if "\<And>now rnd s. sl_id (f now rnd s) = sl_id s" for ok f
    using seal_t.exec_update_row_at [of f ident env ident "\<lambda>_ _. True" ok db, OF that] assms id
    by (auto simp: seal_t.exec_mark_snd)
  show ?thesis
    using one [of "seal_failed_row m"] one [of "seal_exhausted_row (''max attempts reached: '' @ m)"]
    by (auto simp: seal_back_off_or_exhaust_def seal_mark_attempt_failed_def seal_mark_exhausted_def)
qed

lemma seal_drain_row_ok:
  assumes "row_at sl_id (sr_id row) (seal_outbox db) = Some s" and "row = to_seal_row s"
    and "sl_status s = ''pending''" and "seal_row_ok s"
  shows "opt_holds seal_row_ok (row_at sl_id (sr_id row)
    (seal_outbox (snd (seal_drain_row env port key_ref mode level row (stats, db)))))"
proof -
  note ok = seal_row_ok_effects [OF assms(4,3)]
  have att: "sr_attempts row = sl_attempts s" by (simp add: assms(2) to_seal_row_def)
  have bo: "opt_holds seal_row_ok (row_at sl_id (sr_id row)
      (seal_outbox (snd (seal_back_off_or_exhaust env (sr_id row) (sr_attempts row) m (stats, db')))))"
    if "row_at sl_id (sr_id row) (seal_outbox db') = Some s \<or>
      (\<exists>now. row_at sl_id (sr_id row) (seal_outbox db') = Some (sealed_row now s))" for m db'
    using that
  proof (elim disjE exE)
    assume "row_at sl_id (sr_id row) (seal_outbox db') = Some s"
    from back_off_row [OF this, of env "sr_attempts row" m stats] ok assms(4) show ?thesis by (auto simp: att)
  next
    fix now
    assume "row_at sl_id (sr_id row) (seal_outbox db') = Some (sealed_row now s)"
    from back_off_row [OF this, of env "sr_attempts row" m stats] ok show ?thesis by auto
  qed
  show ?thesis
  proof (cases "qtsp_seal port (tick db) (seal_request_for key_ref mode level row)")
    case (Inl e)
    with bo assms(1) show ?thesis by (simp add: seal_drain_row_def)
  next
    case (Inr e)
    show ?thesis
    proof (cases "covers_something_else port e (sr_payload_hash row)")
      case (Some why)
      with bo assms(1) Inr show ?thesis by (simp add: seal_drain_row_def)
    next
      case None
      obtain res db1 where m: "seal_mark_sealed env (sr_id row) e db = (res, db1)" by fastforce
      have at1: "(isl res \<and> row_at sl_id (sr_id row) (seal_outbox db1) = Some s) \<or>
          (\<exists>now. row_at sl_id (sr_id row) (seal_outbox db1) = Some (sealed_row now s))"
        using mark_sealed_atomic [OF m] assms(1) row_at_SomeD [OF assms(1)] by (auto simp: row_at_upd_where)
      show ?thesis
      proof (cases res)
        case (Inl err)
        with Inr None m bo [of db1] at1 show ?thesis by (auto simp: seal_drain_row_def)
      next
        case (Inr u)
        with \<open>qtsp_seal port _ _ = Inr e\<close> None m at1 ok(1) show ?thesis by (auto simp: seal_drain_row_def)
      qed
    qed
  qed
qed

text \<open>The tables a sealing statement never touches.\<close>

definition other_tables where
  "other_tables db = (registry_sync db, registry_transfer db, webhook_subscription db, webhook_delivery db,
     snapshot_outbox db, seal_audit_state db, passport_audit db, idempotency_key db, scan_telemetry db, qr_render db,
     api_key db, import_job db)"

lemma keys_ok_cong:
  assumes "other_tables t = other_tables s" and "map sl_id (seal_outbox t) = map sl_id (seal_outbox s)"
    and "map seal_key (seal_outbox t) = map seal_key (seal_outbox s)" and "map pp_id (passport t) = map pp_id (passport s)"
  shows "keys_ok t = keys_ok s"
  using assms by (simp add: other_tables_def keys_ok_def)

lemma seal_step_rest:
  assumes "seal_step env k s t"
  shows "map seal_key (seal_outbox t) = map seal_key (seal_outbox s)"
    and "map pp_id (passport t) = map pp_id (passport s)"
    and "other_tables t = other_tables s"
proof -
  show "map seal_key (seal_outbox t) = map seal_key (seal_outbox s)"
    using assms by (elim seal_step_rows) (simp add: upd_where_keys)
  have mark: "passport (snd (seal_mark env k ok f s)) = passport s \<and>
      other_tables (snd (seal_mark env k ok f s)) = other_tables s" for ok f
    using seal_t.exec_update_only [of env k "\<lambda>_ _. True" ok f s]
    by (auto simp: seal_t.exec_mark_snd other_tables_def)
  have sealed: "map pp_id (passport (snd (seal_mark_sealed env k e s))) = map pp_id (passport s) \<and>
      other_tables (snd (seal_mark_sealed env k e s)) = other_tables s" for e
    by (simp add: seal_mark_sealed_def Let_def commit_seal_def with_seal_def upd_where_keys other_tables_def
        split: option.split)
  show "map pp_id (passport t) = map pp_id (passport s)" "other_tables t = other_tables s"
    using assms mark sealed
    by (auto simp: seal_step_def seal_mark_attempt_failed_def seal_mark_exhausted_def)
qed

lemma seal_runs_rest:
  "runs (seal_step env) K s t \<Longrightarrow> map seal_key (seal_outbox t) = map seal_key (seal_outbox s) \<and>
     map pp_id (passport t) = map pp_id (passport s) \<and> other_tables t = other_tables s"
  by (induction rule: runs.induct) (auto dest: seal_step_rest)

lemma seal_drain_once_runs:
  assumes "seal_drain_once env port key_ref mode level batch db = (stats, db')"
  shows "\<exists>K. runs (seal_step env) K (bump db) db'"
proof (cases "seal_due env batch db")
  case (Pair res db1)
  have db1: "db1 = bump db"
    using Pair exec_select_db [of seal_outbox env _ sl_next_attempt_at batch db]
    by (auto simp: seal_due_def split: prod.splits sum.splits dest: arg_cong [where f = snd])
  show ?thesis
  proof (cases res)
    case (Inl e)
    with Pair assms db1 show ?thesis by (auto simp: seal_drain_once_def)
  next
    case (Inr due)
    with Pair assms db1 show ?thesis
      using runs_fold [of due "seal_step env" sr_id snd "seal_drain_row env port key_ref mode level" "(seal_stats_default, bump db)"]
        seal_drain_row_runs [of env _ _ port key_ref mode level]
      by (auto simp: seal_drain_once_def)
  qed
qed

lemma seal_drain_once_rows:
  assumes "seal_wf db" and "seal_drain_once env port key_ref mode level batch db = (stats, db')"
    and "row_at sl_id k (seal_outbox db') = Some r'"
  shows "seal_row_ok r'"
proof -
  have keys: "keys_ok db" and ok: "list_all seal_row_ok (seal_outbox db)" using assms(1) by (auto simp: seal_wf_def)
  have same: "seal_row_ok r'" if "row_at sl_id k (seal_outbox db) = Some r'"
    using ok row_at_SomeD [OF that] by (auto simp: list_all_iff)
  let ?f = "seal_drain_row env port key_ref mode level"
  show ?thesis
  proof (cases "seal_due env batch db")
    case (Pair res db1)
    show ?thesis
    proof (cases res)
      case (Inl e)
      then have "db' = bump db" using Pair assms(2)
        by (auto simp: seal_drain_once_def seal_due_def exec_select_def split: prod.splits sum.splits)
      with same assms(3) show ?thesis by simp
    next
      case (Inr due)
      note due = seal_due_rows [OF keys Pair [unfolded Inr]]
      have db': "db' = snd (fold ?f due (seal_stats_default, bump db))"
        using Pair Inr assms(2) due(1) by (simp add: seal_drain_once_def)
      show ?thesis
      proof (cases "k \<in> sr_id ` set due")
        case True
        then obtain row where row: "row \<in> set due" "k = sr_id row" by blast
        from due(4) [OF row(1)] obtain s where s: "row_at sl_id (sr_id row) (seal_outbox db) = Some s"
          "row = to_seal_row s" "sl_status s = ''pending''" by blast
        have "seal_row_ok s" using ok row_at_SomeD [OF s(1)] by (auto simp: list_all_iff)
        have "opt_holds seal_row_ok (row_at sl_id (sr_id row) (seal_outbox (snd (fold ?f due (seal_stats_default, bump db)))))"
        proof (rule seal_ob.rows_once [where env = env and proj = snd and kx = sr_id])
          show "runs (seal_step env) {sr_id x} (snd st) (snd (?f x st))" for x st by (rule seal_drain_row_runs)
          show "opt_holds seal_row_ok (row_at sl_id (sr_id row) (seal_outbox (snd (?f row st))))"
            if "row_at sl_id (sr_id row) (seal_outbox (snd st)) =
              row_at sl_id (sr_id row) (seal_outbox (snd (seal_stats_default, bump db)))" for st
            using seal_drain_row_ok [OF _ s(2,3) \<open>seal_row_ok s\<close>, of "snd st" env port key_ref mode level "fst st"] that s(1) by simp
        qed (use due(2) row in auto)
        with assms(3) row(2) db' show ?thesis by simp
      next
        case False
        have "runs (seal_step env) (sr_id ` set due) (snd (seal_stats_default, bump db)) db'"
          unfolding db' by (rule runs_fold) (rule seal_drain_row_runs)
        from seal_ob.runs_frame [OF this False] assms(3) same show ?thesis by simp
      qed
    qed
  qed
qed

lemma seal_drain_once_wf:
  assumes "seal_wf db" and "seal_drain_once env port key_ref mode level batch db = (stats, db')"
  shows "seal_wf db'"
proof -
  from seal_drain_once_runs [OF assms(2)] obtain K where run: "runs (seal_step env) K (bump db) db'" ..
  note rest = seal_runs_rest [OF run] and ids = seal_ob.runs_keys [OF run]
  have keys: "keys_ok db" and ok: "list_all seal_row_ok (seal_outbox db)" using assms(1) by (auto simp: seal_wf_def)
  have d: "distinct (map sl_id (seal_outbox db))" using keys by (simp add: keys_ok_def)
  have keys': "keys_ok db'" using keys rest ids by (subst keys_ok_cong [of db' "bump db"]) (auto simp: keys_ok_def)
  have "map fst (map seal_key (seal_outbox db')) = map fst (map seal_key (seal_outbox db))" using rest by simp
  then have "sl_passport_id ` set (seal_outbox db') = sl_passport_id ` set (seal_outbox db)"
    by (simp add: seal_key_def comp_def) (metis list.set_map)
  moreover have "pp_id ` set (passport db') = pp_id ` set (passport db)" using rest by (metis bump_simps(7) list.set_map)
  ultimately have fk: "sl_passport_id ` set (seal_outbox db') \<subseteq> pp_id ` set (passport db')"
    using assms(1) by (simp add: seal_wf_def)
  have rows: "seal_row_ok r'" if "row_at sl_id k (seal_outbox db') = Some r'" for k r'
    by (rule seal_drain_once_rows [OF assms that])
  have "list_all seal_row_ok (seal_outbox db')"
    using rows row_at_in_set keys' by (fastforce simp: list_all_iff keys_ok_def)
  with keys' fk show ?thesis by (simp add: seal_wf_def)
qed

lemma seal_wf_cong:
  assumes "other_tables t = other_tables s" and "seal_outbox t = seal_outbox s" and "map pp_id (passport t) = map pp_id (passport s)"
  shows "seal_wf t = seal_wf s"
proof -
  have "pp_id ` set (passport t) = pp_id ` set (passport s)" using assms(3) by (metis list.set_map)
  with keys_ok_cong [of t s] assms show ?thesis by (simp add: seal_wf_def)
qed

lemma seal_wf_bump [simp]: "seal_wf (bump db) = seal_wf db"
  by (rule seal_wf_cong) (simp_all add: other_tables_def)

lemma seal_enqueue_wf:
  assumes "seal_wf db" and "seal_enqueue env pid h db = (res, db')"
  shows "seal_wf db'"
proof (cases "isl res")
  case True
  with assms(2) have "db' = bump db" by (auto simp: seal_enqueue_def Let_def split: option.splits if_splits)
  with assms(1) show ?thesis by (simp add: seal_wf_def keys_ok_def)
next
  case False
  show ?thesis
  proof (cases "(pid, h) \<in> seal_key ` set (seal_outbox db)")
    case True
    let ?f = "seal_rearmed_row None (now_at env (tick db))"
    from False True assms(2) have db': "db' = bump (db\<lparr>seal_outbox := upd_where (\<lambda>s. seal_key s = (pid, h) \<and> sl_status s = ''exhausted'')
        ?f (seal_outbox db)\<rparr>)"
      by (auto simp: seal_enqueue_def Let_def split: option.splits if_splits)
    have "seal_row_ok (?f s)" if "seal_row_ok s" for s
      using that by (auto simp: seal_row_ok_def seal_rearmed_row_def SEAL_MAX_ATTEMPTS_def)
    with assms(1) show ?thesis
      by (auto simp: db' seal_wf_def keys_ok_def upd_where_keys set_upd_where list_all_iff)
  next
    case new: False
    let ?r = "new_seal_row (now_at env (tick db)) (uuid_at env (tick db) 0) pid h"
    from False new assms(2) have db': "db' = bump (db\<lparr>seal_outbox := seal_outbox db @ [?r]\<rparr>)"
      and c: "is_digest h" "uuid_at env (tick db) 0 \<notin> sl_id ` set (seal_outbox db)" "pid \<in> pp_id ` set (passport db)"
      by (auto simp: seal_enqueue_def Let_def split: option.splits if_splits)
    have r: "seal_row_ok ?r" "sl_id ?r = uuid_at env (tick db) 0" "sl_passport_id ?r = pid"
      using c(1) by (simp_all add: seal_row_ok_def new_seal_row_def SEAL_MAX_ATTEMPTS_def)
    from assms(1) c(2,3) new r show ?thesis
      unfolding db' seal_wf_def keys_ok_def by simp
  qed
qed

lemma enqueue_each_wf:
  "seal_wf db \<Longrightarrow> enqueue_each env sha rows n db = (res, db') \<Longrightarrow> seal_wf db'"
proof (induction rows arbitrary: n db)
  case (Cons row rows)
  obtain pid jws where row: "row = (pid, jws)" by fastforce
  obtain res1 db1 where e: "seal_enqueue env pid (sha jws) db = (res1, db1)" by fastforce
  from seal_enqueue_wf [OF Cons.prems(1) e] Cons.IH [of db1 "n + 1"] Cons.prems(2) e show ?case
    by (cases res1) (auto simp: row)
qed simp

lemma seal_sweep_wf:
  assumes "seal_wf db" and "seal_enqueue_unsealed env sha limit cooldown db = (res, db')"
  shows "seal_wf db'"
proof -
  have "seal_wf (bump db)" using assms(1) by (simp add: seal_wf_def keys_ok_def)
  then show ?thesis
    using assms(2) enqueue_each_wf [of "bump db"]
    by (auto simp: seal_enqueue_unsealed_def exec_select_def split: sum.splits)
qed

lemma seal_rearm_wf:
  assumes "seal_wf db" and "seal_rearm_sealed env pid h reason db = (res, db')"
  shows "seal_wf db'"
proof (cases "fault_at env (tick db)")
  case (Some e)
  with assms show ?thesis
    by (auto simp: seal_rearm_sealed_def exec_update_def pg_update_def Let_def)
next
  case None
  let ?f = "seal_rearmed_row (Some reason) (now_at env (tick db))"
  from None assms(2) have db': "db' = bump (db\<lparr>seal_outbox := upd_where (\<lambda>s. seal_key s = (pid, h) \<and> sl_status s = ''sealed'')
      ?f (seal_outbox db)\<rparr>)"
    by (auto simp: seal_rearm_sealed_def exec_update_def pg_update_def Let_def)
  have "seal_row_ok (?f s)" if "seal_row_ok s" for s
    using that by (auto simp: seal_row_ok_def seal_rearmed_row_def SEAL_MAX_ATTEMPTS_def)
  with assms(1) show ?thesis
    by (auto simp: db' seal_wf_def keys_ok_def upd_where_keys set_upd_where list_all_iff)
qed

lemma seal_replace_only:
  assumes "seal_replace_seal env pid current renewed db = (res, db')"
  shows "other_tables db' = other_tables db" and "seal_outbox db' = seal_outbox db"
    and "map pp_id (passport db') = map pp_id (passport db)" and "tick db' = tick db + 1"
  using assms
  by (auto simp: seal_replace_seal_def exec_update_def pg_update_def Let_def other_tables_def upd_where_keys with_seal_def
      split: option.splits)

text \<open>
  Property C19 (type). The queue stays well formed under every operation, in every
  environment: its keys are unique, a row names a stored passport and a digest of 64
  hexadecimal digits, a closed row has its time, and an open row has attempts left; at most
  nine are ever counted, one more than the cap, when the commit of the last attempt is lost.
\<close>

theorem seal_queue_well_formed:
  assumes "seal_wf db"
  shows "seal_wf (snd (seal_drain_once env port key_ref mode level batch db)) \<and>
    seal_wf (snd (seal_enqueue env pid h db)) \<and>
    seal_wf (snd (seal_enqueue_unsealed env sha limit cooldown db)) \<and>
    seal_wf (snd (seal_rearm_sealed env pid h reason db)) \<and>
    seal_wf (snd (seal_replace_seal env pid current renewed db))"
  using seal_drain_once_wf [OF assms] seal_enqueue_wf [OF assms] seal_sweep_wf [OF assms] seal_rearm_wf [OF assms]
    seal_replace_only seal_wf_cong [of _ db] assms by (metis prod.collapse)

lemma sample_seal_digest_ok: "is_digest sample_digest"
  by (simp add: is_digest_def sample_digest_def list_all_iff)

lemma sample_seal_wf: "seal_wf sample_seal_db"
  using sample_seal_db_simps sample_seal_digest_ok
  by (simp add: seal_wf_def seal_row_ok_def new_seal_row_def SEAL_MAX_ATTEMPTS_def)

theorem seal_queue_well_formed_witness:
  "seal_wf (snd (seal_drain_once sample_env \<lparr>qtsp_seal = (\<lambda>_ _. Inl ''down''), cades_binding = (\<lambda>_ _. UnknownBinding)\<rparr>
     ''key'' ProviderSeal BaselineLt 10 sample_seal_db))"
  using seal_queue_well_formed [OF sample_seal_wf] by blast

text \<open>
  Property C10 (safety). A seal is stored for what it was bought for, whatever the provider
  answers and the database does. After a pass a passport differs at most in its seal; a new
  seal is the provider's answer to a request for a digest that was due for that very
  passport, and is not known to cover anything else; and its row is closed, so that no later
  pass buys it again, even when the answer to the commit was lost.
\<close>

theorem seal_drain_stores_what_was_bought:
  assumes "keys_ok db" and "seal_drain_once env port key_ref mode level batch db = (stats, db')"
    and "row_at pp_id pid (passport db) = Some p"
  shows "\<exists>p'. row_at pp_id pid (passport db') = Some p' \<and>
    same_but_seal p p' \<and>
    (pp_seal p' = pp_seal p \<or>
     (\<exists>s n e. s \<in> set (seal_outbox db) \<and> sl_passport_id s = pid \<and> sl_status s = ''pending'' \<and>
        sl_next_attempt_at s \<le> now_at env (tick db) \<and>
        qtsp_seal port n (seal_request_for key_ref mode level (to_seal_row s)) = Inr e \<and>
        covers_something_else port e (sl_payload_hash s) = None \<and> pp_seal p' = Some (SealDoc e) \<and>
        opt_holds (\<lambda>s. sl_status s \<noteq> ''pending'') (row_at sl_id (sl_id s) (seal_outbox db'))))"
proof (cases "seal_due env batch db")
  case (Pair res db1)
  show ?thesis
  proof (cases res)
    case (Inl e)
    then have "db' = bump db" using Pair assms(2)
      by (auto simp: seal_drain_once_def seal_due_def exec_select_def split: prod.splits sum.splits)
    with assms(3) show ?thesis by simp
  next
    case (Inr due)
    note due = seal_due_rows [OF assms(1) Pair [unfolded Inr]]
    have db': "db' = snd (fold (seal_drain_row env port key_ref mode level) due (seal_stats_default, bump db))"
      using Pair Inr assms(2) due(1) by (simp add: seal_drain_once_def)
    have pid: "pp_id p = pid" using row_at_SomeD [OF assms(3)] by blast
    have "opt_holds (seal_provenance port key_ref mode level due db' p) (row_at pp_id pid (passport db'))"
      unfolding db'
    proof (rule seal_drain_rows_provenance)
      fix row assume "row \<in> set due"
      from due(4) [OF this] show "opt_holds (\<lambda>s. sl_passport_id s = sr_passport_id row) (row_at sl_id (sr_id row) (seal_outbox (bump db)))"
        by (auto simp: to_seal_row_def)
    qed (simp add: assms(3))
    then obtain p' where p': "row_at pp_id pid (passport db') = Some p'" "seal_provenance port key_ref mode level due db' p p'"
      by (auto simp: opt_holds_def split: option.splits)
    have "\<exists>s n e. s \<in> set (seal_outbox db) \<and> sl_passport_id s = pid \<and> sl_status s = ''pending'' \<and>
        sl_next_attempt_at s \<le> now_at env (tick db) \<and>
        qtsp_seal port n (seal_request_for key_ref mode level (to_seal_row s)) = Inr e \<and>
        covers_something_else port e (sl_payload_hash s) = None \<and> pp_seal p' = Some (SealDoc e) \<and>
        opt_holds (\<lambda>s. sl_status s \<noteq> ''pending'') (row_at sl_id (sl_id s) (seal_outbox db'))"
      if "pp_seal p' \<noteq> pp_seal p"
    proof -
      from p'(2) that obtain row n e where row: "row \<in> set due" "sr_passport_id row = pid" "pp_seal p' = Some (SealDoc e)"
          "qtsp_seal port n (seal_request_for key_ref mode level row) = Inr e"
          "covers_something_else port e (sr_payload_hash row) = None"
          "opt_holds (\<lambda>s. sl_status s \<noteq> ''pending'') (row_at sl_id (sr_id row) (seal_outbox db'))"
        unfolding seal_provenance_def pid by blast
      from due(4) [OF row(1)] obtain s where s: "row_at sl_id (sr_id row) (seal_outbox db) = Some s" "row = to_seal_row s"
          "sl_status s = ''pending''" "sl_next_attempt_at s \<le> now_at env (tick db)" by blast
      have "s \<in> set (seal_outbox db)" using row_at_SomeD [OF s(1)] by blast
      with row(2-6) [unfolded s(2) to_seal_row_simps] s(3,4) show ?thesis by blast
    qed
    with p' show ?thesis unfolding seal_provenance_def by blast
  qed
qed

definition sample_envelope :: "string \<Rightarrow> SealedEnvelope" where
  "sample_envelope v = \<lparr>se_format = Cades, se_seal_value = v, se_signing_cert_ref = None, se_conformance_level = None,
     se_sealed_at = 0, se_placeholder = False\<rparr>"

text \<open>A provider that seals what it is asked to.\<close>

definition sample_seal_port :: seal_port where
  "sample_seal_port = \<lparr>qtsp_seal = (\<lambda>_ req. Inr (sample_envelope (sq_payload_hash req))),
     cades_binding = (\<lambda>e h. if se_seal_value e = h then CoversThisSignature else CoversAnotherDigest (se_seal_value e))\<rparr>"

lemma sample_seal_port_simps:
  "qtsp_seal sample_seal_port n req = Inr (sample_envelope (sq_payload_hash req))"
  "covers_something_else sample_seal_port (sample_envelope h) h = None"
  by (simp_all add: sample_seal_port_def covers_something_else_def sample_envelope_def)

lemma mark_sealed_success:
  assumes "fault_free env" and "row_at sl_id ident (seal_outbox db) = Some s"
    and "row_at pp_id (sl_passport_id s) (passport db) = Some p"
  shows "seal_mark_sealed env ident e db =
    (Inr (), bump (bump (bump (bump (commit_seal (now_at env (tick db)) ident (sl_passport_id s) e db)))))"
  using assms row_at_SomeD [OF assms(3)] by (simp add: seal_mark_sealed_def Let_def fault_free_def)

lemma drain_single:
  assumes "fault_free env" and "seal_due env batch db = (Inr [to_seal_row s], bump db)"
    and "row_at sl_id (sl_id s) (seal_outbox db) = Some s" and "row_at pp_id (sl_passport_id s) (passport db) = Some p"
    and "qtsp_seal port (tick db + 1) (seal_request_for key_ref mode level (to_seal_row s)) = Inr e"
    and "covers_something_else port e (sl_payload_hash s) = None"
  shows "seal_drain_once env port key_ref mode level batch db =
    (\<lparr>sld_sealed = 1, sld_retried = 0, sld_exhausted = 0\<rparr>, snd (seal_mark_sealed env (sl_id s) e (bump db)))"
  using mark_sealed_success [OF assms(1), of "sl_id s" "bump db" s p e] assms
  by (simp add: seal_drain_once_def seal_drain_row_def to_seal_row_simps seal_stats_default_def)

text \<open>
  Property C34 (error). A late seal displaces the current one. When a passport has been
  signed again and its new signature is already sealed, a row of the old signature that
  becomes due afterwards still writes its seal over the document: the passport then carries
  a seal of a signature it no longer has. Nothing repairs that: its digest counts as
  attested, so queueing it again does nothing, and the sweep does not consider it.
\<close>

theorem late_seal_displaces_current:
  assumes "fault_free env" and "keys_ok db" and "seal_statuses_ok db"
    and "seal_due env batch db = (Inr [to_seal_row s], bump db)" and "s \<in> set (seal_outbox db)"
    and "row_at pp_id (sl_passport_id s) (passport db) = Some p" and "pp_jws p = Some jws" and "sha jws \<noteq> sl_payload_hash s"
    and "ledger db (sl_passport_id s, sha jws) = Some Attested"
    and "qtsp_seal port (tick db + 1) (seal_request_for key_ref mode level (to_seal_row s)) = Inr e"
    and "covers_something_else port e (sl_payload_hash s) = None"
    and "seal_drain_once env port key_ref mode level batch db = (stats, db')"
  shows "\<exists>p'. row_at pp_id (sl_passport_id s) (passport db') = Some p' \<and> pp_jws p' = Some jws \<and>
    pp_seal p' = Some (SealDoc e) \<and> ledger db' (sl_passport_id s, sha jws) = Some Attested \<and>
    ledger (snd (seal_enqueue env (sl_passport_id s) (sha jws) db')) = ledger db' \<and>
    \<not> sweep_candidate now cooldown (seal_outbox db') p'"
proof -
  have s: "row_at sl_id (sl_id s) (seal_outbox db) = Some s"
    using assms(2,5) by (intro row_at_in_set) (auto simp: keys_ok_def)
  let ?t = "now_at env (tick (bump db))"
  let ?c = "commit_seal ?t (sl_id s) (sl_passport_id s) e (bump db)"
  have db': "db' = bump (bump (bump (bump ?c)))"
    using drain_single [OF assms(1,4) s assms(6,10,11)] assms(12) mark_sealed_success [OF assms(1), of "sl_id s" "bump db" s p e] s assms(6)
    by simp
  have p': "row_at pp_id (sl_passport_id s) (passport db') = Some (with_seal ?t e p)"
    using assms(6) row_at_SomeD [OF assms(6)] by (simp add: db' commit_seal_def row_at_upd_where with_seal_def)
  have led: "ledger db' = spec_settle (seal_key s) Attested (ledger db)"
    unfolding db' ledger_bump
    by (subst ledger_upd [of "bump db" "sl_id s" s "sealed_row ?t" "''sealed''"])
      (use assms(2) s in \<open>auto simp: commit_seal_def sealed_row_def seal_key_def attestation_of_simps keys_ok_def\<close>)
  have att: "ledger db' (sl_passport_id s, sha jws) = Some Attested"
    unfolding led using assms(9) by (simp add: spec_settle_def)
  have keys': "keys_ok db'" and sts: "seal_statuses_ok db'"
    using assms(2,3) by (auto simp: db' commit_seal_def keys_ok_def seal_statuses_ok_def upd_where_keys with_seal_def
        list_all_iff set_upd_where sealed_row_def seal_key_def)
  have "ledger (snd (seal_enqueue env (sl_passport_id s) (sha jws) db')) = ledger db'"
    using enqueue_refines [OF keys' sts, of env "sl_passport_id s" "sha jws"] att
    by (cases "seal_enqueue env (sl_passport_id s) (sha jws) db'") (auto simp: spec_request_def)
  moreover have "\<not> sweep_candidate now cooldown (seal_outbox db') (with_seal ?t e p)"
    by (simp add: sweep_candidate_def unsealed_published_def with_seal_def)
  ultimately show ?thesis using p' att assms(7) by (auto simp: with_seal_def)
qed

definition sample_late_db :: odal where
  "sample_late_db = sample_seal_db\<lparr>
     passport := [\<lparr>pp_id = 7, pp_status = ''active'', pp_doc_status = ''active'', pp_published_at = Some 0,
       pp_updated_at = 0, pp_jws = Some ''jws2'', pp_seal = Some (SealDoc (sample_envelope (replicate 64 (CHR ''b''))))\<rparr>],
     seal_outbox := [sealed_row 0 (new_seal_row 0 52 7 (replicate 64 (CHR ''b''))), new_seal_row 0 51 7 sample_digest]\<rparr>"

lemma sample_late_db_simps:
  "tick sample_late_db = 0"
  "seal_outbox sample_late_db = [sealed_row 0 (new_seal_row 0 52 7 (replicate 64 (CHR ''b''))), new_seal_row 0 51 7 sample_digest]"
  "passport sample_late_db = [\<lparr>pp_id = 7, pp_status = ''active'', pp_doc_status = ''active'', pp_published_at = Some 0,
       pp_updated_at = 0, pp_jws = Some ''jws2'', pp_seal = Some (SealDoc (sample_envelope (replicate 64 (CHR ''b''))))\<rparr>]"
  by (simp_all add: sample_late_db_def sample_seal_db_simps)

lemma sample_digests_differ: "replicate 64 (CHR ''b'') \<noteq> sample_digest"
proof
  assume "replicate 64 (CHR ''b'') = sample_digest"
  from arg_cong [OF this, of hd] show False by (simp add: sample_digest_def)
qed

lemma sample_late_db_ok: "keys_ok sample_late_db" "seal_statuses_ok sample_late_db"
  using sample_seal_db_simps(4) sample_digests_differ
  by (simp_all add: sample_late_db_def keys_ok_def seal_statuses_ok_def sealed_row_def new_seal_row_def seal_key_def)

lemma sample_late_due:
  "seal_due sample_env 10 sample_late_db = (Inr [to_seal_row (new_seal_row 0 51 7 sample_digest)], bump sample_late_db)"
  by (simp add: seal_due_def exec_select_fault_free sample_env_ok sample_late_db_simps sealed_row_def new_seal_row_def)

theorem late_seal_displaces_current_witness:
  "\<exists>p'. row_at pp_id 7 (passport (snd (seal_drain_once sample_env sample_seal_port ''key'' ProviderSeal BaselineLt 10 sample_late_db))) = Some p' \<and>
     pp_jws p' = Some ''jws2'' \<and> pp_seal p' = Some (SealDoc (sample_envelope sample_digest))"
proof -
  let ?s = "new_seal_row 0 51 7 sample_digest" and ?sha = "\<lambda>_::string. replicate 64 (CHR ''b'')"
  obtain stats db' where d: "seal_drain_once sample_env sample_seal_port ''key'' ProviderSeal BaselineLt 10 sample_late_db = (stats, db')"
    by fastforce
  have s: "?s \<in> set (seal_outbox sample_late_db)" by (simp add: sample_late_db_simps)
  have pid: "sl_passport_id ?s = 7" "sl_payload_hash ?s = sample_digest" by (simp_all add: new_seal_row_def)
  have p: "row_at pp_id (sl_passport_id ?s) (passport sample_late_db) = Some (hd (passport sample_late_db))"
    by (simp add: sample_late_db_simps pid)
  have l: "ledger sample_late_db (sl_passport_id ?s, ?sha ''jws2'') = Some Attested"
    by (simp add: ledger_def sample_late_db_simps pid sealed_row_def attestation_of_simps new_seal_row_def seal_key_def)
  have q: "qtsp_seal sample_seal_port (tick sample_late_db + 1) (seal_request_for ''key'' ProviderSeal BaselineLt (to_seal_row ?s)) =
      Inr (sample_envelope sample_digest)"
    by (simp add: sample_seal_port_simps seal_request_for_def to_seal_row_simps pid)
  have j: "pp_jws (hd (passport sample_late_db)) = Some ''jws2''" by (simp add: sample_late_db_simps)
  have c: "covers_something_else sample_seal_port (sample_envelope sample_digest) (sl_payload_hash ?s) = None"
    unfolding pid by (rule sample_seal_port_simps)
  have n: "?sha ''jws2'' \<noteq> sl_payload_hash ?s" unfolding pid by (rule sample_digests_differ)
  from late_seal_displaces_current [where sha = ?sha, OF sample_env_ok(1) sample_late_db_ok sample_late_due s p j n l q c d] show ?thesis
    unfolding d pid by auto
qed

theorem seal_drain_stores_what_was_bought_witness:
  "\<exists>p'. row_at pp_id 7 (passport (snd (seal_drain_once sample_env sample_seal_port ''key'' ProviderSeal BaselineLt 10 sample_seal_db))) = Some p' \<and>
     same_but_seal (hd (passport sample_seal_db)) p'"
proof -
  obtain stats db' where d: "seal_drain_once sample_env sample_seal_port ''key'' ProviderSeal BaselineLt 10 sample_seal_db = (stats, db')"
    by fastforce
  have p: "row_at pp_id 7 (passport sample_seal_db) = Some (hd (passport sample_seal_db))"
    by (simp add: sample_seal_db_simps)
  from seal_drain_stores_what_was_bought [OF sample_seal_db_simps(4) d p] show ?thesis unfolding d snd_conv by blast
qed

end
