(* ===== verification/Seal_Renewal.thy ===== *)
theory Seal_Renewal
  imports Seal_Drain
begin

text \<open>
  Reading and renewing a stored seal: the CAdES inspector of \<^verbatim>\<open>dpp-seal/src/inspect.rs\<close>, the
  renewal of an archive timestamp (\<^verbatim>\<open>dpp-seal/src/timestamp/renewal.rs\<close>), and the renewer that
  the audit uses, with its configuration (\<^verbatim>\<open>dpp-node/src/infra/seal_renewal.rs\<close>). The CMS and
  X.509 routines they call, base64 and the Trusted Lists are fields of \<open>cades_lib\<close>; a
  timestamp authority is a function of the number of requests it has had and the imprint,
  and the list of imprints sent to it is part of the state.
\<close>

subsection \<open>The inspector\<close>

record RenewalRequest =
  rr_imprint :: string
  rr_previous_expires :: time
  rr_previous_gen_time :: time

record AttachedStamp =
  at_seal_der :: string
  at_gen_time :: time
  at_expires :: time

record cades_lib =
  b64_decode :: "string \<Rightarrow> string option"
  b64_encode :: "string \<Rightarrow> string"
  verify_against_embedded_certificate :: "string \<Rightarrow> string + bool"
  covered_digest :: "string \<Rightarrow> string + string option"
  cades_archival_freshness :: "string \<Rightarrow> time \<Rightarrow> string + ArchivalFreshness"
  cades_certificate_standing :: "string \<Rightarrow> time \<Rightarrow> string + CertificateStanding"
  prepare_archive_renewal :: "string \<Rightarrow> string + RenewalRequest"
  attach_archive_timestamp :: "string \<Rightarrow> RenewalRequest \<Rightarrow> string \<Rightarrow> string + AttachedStamp"
  authority_qualified :: "AttachedStamp \<Rightarrow> bool"
  authority_standing :: "AttachedStamp \<Rightarrow> string"
  show_time :: "time \<Rightarrow> string"
  debug_freshness :: "string + ArchivalFreshness \<Rightarrow> string"

definition readable :: "cades_lib \<Rightarrow> SealedEnvelope \<Rightarrow> string option" where
  "readable lib envelope =
     (if se_placeholder envelope \<or> se_format envelope \<noteq> Cades then None
      else b64_decode lib (se_seal_value envelope))"

definition inspector_binding :: "cades_lib \<Rightarrow> SealedEnvelope \<Rightarrow> string \<Rightarrow> SealBinding" where
  "inspector_binding lib envelope payload_hash =
     (case readable lib envelope of
        None \<Rightarrow> UnknownBinding
      | Some der \<Rightarrow>
          (case verify_against_embedded_certificate lib der of
             Inr True \<Rightarrow>
               (case covered_digest lib der of
                  Inr (Some covered) \<Rightarrow>
                    if eq_ignore_ascii_case covered payload_hash then CoversThisSignature else CoversAnotherDigest covered
                | _ \<Rightarrow> UnknownBinding)
           | Inr False \<Rightarrow> NotIntact
           | Inl _ \<Rightarrow> UnknownBinding))"

definition inspector_archival_freshness :: "cades_lib \<Rightarrow> SealedEnvelope \<Rightarrow> time \<Rightarrow> ArchivalFreshness" where
  "inspector_archival_freshness lib envelope now =
     (case readable lib envelope of
        None \<Rightarrow> NotArchived
      | Some der \<Rightarrow>
          (case cades_archival_freshness lib der now of Inr f \<Rightarrow> f | Inl _ \<Rightarrow> UnknownFreshness))"

definition inspector_certificate_standing :: "cades_lib \<Rightarrow> SealedEnvelope \<Rightarrow> time \<Rightarrow> CertificateStanding option" where
  "inspector_certificate_standing lib envelope now =
     (case readable lib envelope of
        None \<Rightarrow> None
      | Some der \<Rightarrow>
          (case cades_certificate_standing lib der now of Inr cs \<Rightarrow> Some cs | Inl _ \<Rightarrow> None))"

definition cades_inspector :: "cades_lib \<Rightarrow> SealInspector" where
  "cades_inspector lib = \<lparr>binding_of = inspector_binding lib, archival_freshness = inspector_archival_freshness lib,
     certificate_standing = inspector_certificate_standing lib\<rparr>"

subsection \<open>Renewing an archive timestamp\<close>

definition MAX_STAMP_SKEW :: time where "MAX_STAMP_SKEW = 600"

datatype RenewalError =
    NotRenewable string
  | SourceFailed string
  | Unusable string
  | NoGain time time
  | AuthorityRefused string

definition renewal_error_text :: "cades_lib \<Rightarrow> RenewalError \<Rightarrow> string" where
  "renewal_error_text lib e =
     (case e of
        NotRenewable m \<Rightarrow> m
      | SourceFailed m \<Rightarrow> ''the timestamp source failed: '' @ m
      | Unusable m \<Rightarrow> ''the authority's token cannot be used: '' @ m
      | NoGain current offered \<Rightarrow> ''the authority's certificate ends '' @ show_time lib offered @
          '', which is no later than the protection it would renew ('' @ show_time lib current @
          '') -- a renewal would gain nothing and the seal would stay due''
      | AuthorityRefused m \<Rightarrow> ''the authority is not one this node accepts: '' @ m)"

text \<open>The signature must read exactly as it did: the same digest, verifying or not as it did.\<close>

definition read_signature :: "cades_lib \<Rightarrow> string \<Rightarrow> string + (string option \<times> bool)" where
  "read_signature lib der =
     (case covered_digest lib der of
        Inl e \<Rightarrow> Inl e
      | Inr d \<Rightarrow> (case verify_against_embedded_certificate lib der of Inl e \<Rightarrow> Inl e | Inr v \<Rightarrow> Inr (d, v)))"

definition signature_untouched :: "cades_lib \<Rightarrow> string \<Rightarrow> string \<Rightarrow> RenewalError + unit" where
  "signature_untouched lib original renewed =
     (case (read_signature lib original, read_signature lib renewed) of
        (Inr before, Inr after) \<Rightarrow>
          if before = after then Inr ()
          else Inl (Unusable (''the renewed seal's signature does not read as the original's did: it '' @
            (if fst before = fst after then ''covers'' else ''no longer covers'') @ '' the same digest and '' @
            (if snd before \<and> \<not> snd after then ''no longer verifies''
             else if \<not> snd before \<and> snd after then ''verifies only now'' else ''verifies as before'')))
      | (Inl e, _) \<Rightarrow> Inl (Unusable (''the renewed seal's signature cannot be compared with the original's: '' @ e))
      | (_, Inl e) \<Rightarrow> Inl (Unusable (''the renewed seal's signature cannot be compared with the original's: '' @ e)))"

record RenewedSeal =
  rs_seal_der :: string
  rs_previous_expires :: time
  rs_expires :: time

text \<open>What is checked of a stamp once the authority has answered, in the order of the code.\<close>

definition check_stamp ::
  "cades_lib \<Rightarrow> bool \<Rightarrow> string \<Rightarrow> time \<Rightarrow> RenewalRequest \<Rightarrow> AttachedStamp \<Rightarrow> RenewalError + RenewedSeal" where
  "check_stamp lib require_qualified der now request att =
     (if MAX_STAMP_SKEW < \<bar>at_gen_time att - now\<bar> then
        Inl (Unusable (''it says it was made '' @ show_time lib (at_gen_time att) @ '', which is '' @
          show_int \<lfloor>\<bar>at_gen_time att - now\<bar> / 60\<rfloor> @ '' minutes from this node's clock''))
      else if at_gen_time att < rr_previous_gen_time request then
        Inl (Unusable (''it says it stamped at '' @ show_time lib (at_gen_time att) @
          '', before the archive timestamp it renews ('' @ show_time lib (rr_previous_gen_time request) @
          '') -- the two clocks disagree, and a renewal that goes backwards in time is not a renewal''))
      else if at_expires att \<le> rr_previous_expires request then Inl (NoGain (rr_previous_expires request) (at_expires att))
      else if require_qualified \<and> \<not> authority_qualified lib att then Inl (AuthorityRefused (authority_standing lib att))
      else if cades_archival_freshness lib (at_seal_der att) now \<noteq> Inr (Current (at_expires att)) then
        Inl (Unusable (''the renewed seal does not read back as renewed: '' @
          debug_freshness lib (cades_archival_freshness lib (at_seal_der att) now)))
      else (case signature_untouched lib der (at_seal_der att) of
              Inl e \<Rightarrow> Inl e
            | Inr _ \<Rightarrow> Inr \<lparr>rs_seal_der = at_seal_der att, rs_previous_expires = rr_previous_expires request,
                             rs_expires = at_expires att\<rparr>))"

type_synonym timestamp_source = "nat \<Rightarrow> string \<Rightarrow> string + string"

definition renew_der ::
  "cades_lib \<Rightarrow> timestamp_source \<Rightarrow> bool \<Rightarrow> string \<Rightarrow> time \<Rightarrow> string list \<Rightarrow> (RenewalError + RenewedSeal) \<times> string list" where
  "renew_der lib source require_qualified der now asked =
     (case prepare_archive_renewal lib der of
        Inl e \<Rightarrow> (Inl (NotRenewable e), asked)
      | Inr request \<Rightarrow>
          (let asked' = asked @ [rr_imprint request] in
           case source (length asked) (rr_imprint request) of
             Inl e \<Rightarrow> (Inl (SourceFailed e), asked')
           | Inr token \<Rightarrow>
               (case attach_archive_timestamp lib der request token of
                  Inl e \<Rightarrow> (Inl (Unusable e), asked')
                | Inr att \<Rightarrow> (check_stamp lib require_qualified der now request att, asked'))))"

record RenewedEnvelope =
  re_envelope :: SealedEnvelope
  re_previous_expires :: time
  re_expires :: time

definition renew_archive_timestamp ::
  "cades_lib \<Rightarrow> timestamp_source \<Rightarrow> bool \<Rightarrow> SealedEnvelope \<Rightarrow> time \<Rightarrow> string list \<Rightarrow>
   (RenewalError + RenewedEnvelope) \<times> string list" where
  "renew_archive_timestamp lib source require_qualified envelope now asked =
     (case readable lib envelope of
        None \<Rightarrow> (Inl (NotRenewable ''the stored seal is not a CAdES this node can read''), asked)
      | Some der \<Rightarrow>
          (case renew_der lib source require_qualified der now asked of
             (Inl e, asked') \<Rightarrow> (Inl e, asked')
           | (Inr r, asked') \<Rightarrow>
               (Inr \<lparr>re_envelope = envelope\<lparr>se_seal_value := b64_encode lib (rs_seal_der r)\<rparr>,
                      re_previous_expires = rs_previous_expires r, re_expires = rs_expires r\<rparr>, asked')))"

subsection \<open>The renewer\<close>

definition MAX_RENEWALS_PER_BATCH :: nat where "MAX_RENEWALS_PER_BATCH = 20"
definition PAUSE_AFTER_SHARED_FAILURE :: time where "PAUSE_AFTER_SHARED_FAILURE = 3600"

datatype RenewalOutcome = Renewed time | Raced | Deferred string | RenewalFailed string

record ArchivalRenewer =
  rn_lib :: cades_lib
  rn_source :: timestamp_source
  rn_require_qualified :: bool

text \<open>What a renewal reads and changes: the budget of the batch, the pause, the authority's requests, the database.\<close>

record renewal_state =
  rn_budget :: nat
  rn_paused_until :: "time option"
  rn_asked :: "string list"
  rn_db :: odal

definition paused :: "time \<Rightarrow> renewal_state \<Rightarrow> bool" where
  "paused now st \<longleftrightarrow> opt_holds (\<lambda>until. now < until) (rn_paused_until st)"

definition shared_failure :: "RenewalError \<Rightarrow> bool" where
  "shared_failure e = (case e of NotRenewable _ \<Rightarrow> False | _ \<Rightarrow> True)"

definition renewer_renew ::
  "pg_env \<Rightarrow> ArchivalRenewer \<Rightarrow> SealedPassport \<Rightarrow> time \<Rightarrow> renewal_state \<Rightarrow> RenewalOutcome \<times> renewal_state" where
  "renewer_renew env rn row now st =
     (if paused now st then (Deferred ''paused after a failure every seal would share'', st)
      else if rn_budget st = 0 then (Deferred ''this batch has spent its renewals'', st)
      else
        (case renew_archive_timestamp (rn_lib rn) (rn_source rn) (rn_require_qualified rn) (sp_seal row) now (rn_asked st) of
           (Inl e, asked') \<Rightarrow>
             (RenewalFailed (renewal_error_text (rn_lib rn) e),
              st\<lparr>rn_budget := (if shared_failure e then rn_budget st - 1 else rn_budget st),
                 rn_paused_until := (if shared_failure e then Some (now + PAUSE_AFTER_SHARED_FAILURE) else rn_paused_until st),
                 rn_asked := asked'\<rparr>)
         | (Inr renewed, asked') \<Rightarrow>
             (case seal_replace_seal env (sp_passport_id row) (sp_seal row) (re_envelope renewed) (rn_db st) of
                (res, db') \<Rightarrow>
                  ((case res of
                      Inr True \<Rightarrow> Renewed (re_expires renewed)
                    | Inr False \<Rightarrow> Raced
                    | Inl e \<Rightarrow> RenewalFailed (''the renewed seal could not be stored: '' @ fmt_dpp env e)),
                   st\<lparr>rn_budget := rn_budget st - 1, rn_asked := asked', rn_db := db'\<rparr>))))"

subsection \<open>Configuration\<close>

datatype NodeProfile = Production | OtherProfile

datatype SourceChoice =
    SourceOff
  | SourceLocal string
  | SourceRfc3161 string nat

definition env_value :: "(string \<Rightarrow> string option) \<Rightarrow> string \<Rightarrow> string option" where
  "env_value get name = (case get name of None \<Rightarrow> None
     | Some v \<Rightarrow> let t = str_trim v in if t = [] then None else Some t)"

text \<open>Rust's \<^verbatim>\<open>parse::<u64>\<close>: an optional plus sign and decimal digits, below two to the 64.\<close>

definition digit_of :: "char \<Rightarrow> nat" where
  "digit_of c = of_char c - 48"

definition is_digit :: "char \<Rightarrow> bool" where
  "is_digit c \<longleftrightarrow> 48 \<le> (of_char c :: nat) \<and> (of_char c :: nat) \<le> 57"

definition parse_u64 :: "string \<Rightarrow> nat option" where
  "parse_u64 s =
     (let ds = (case s of c # cs \<Rightarrow> if c = CHR ''+'' then cs else s | [] \<Rightarrow> []);
          n = foldl (\<lambda>acc c. 10 * acc + digit_of c) 0 ds
      in if ds \<noteq> [] \<and> list_all is_digit ds \<and> n < 2 ^ 64 then Some n else None)"

definition quoted :: "string \<Rightarrow> string" where
  "quoted s = [CHR 0x27] @ s @ [CHR 0x27]"

definition local_key_path :: "(string \<Rightarrow> string option) \<Rightarrow> string" where
  "local_key_path get = (case env_value get ''SEAL_LOCAL_KEY_PATH'' of Some p \<Rightarrow> p | None \<Rightarrow> ''./.seal-local'')"

definition renewal_resolve ::
  "(string \<Rightarrow> string option) \<Rightarrow> NodeProfile \<Rightarrow> string + SourceChoice \<times> bool" where
  "renewal_resolve get profile =
     (let source = (case env_value get ''SEAL_TIMESTAMP_SOURCE'' of Some s \<Rightarrow> s | None \<Rightarrow> ''off'');
          kind = map ascii_lower source;
          url = env_value get ''SEAL_TIMESTAMP_URL'';
          timeout = env_value get ''SEAL_TIMESTAMP_TIMEOUT_SECS'';
          choice =
            (if kind = ''off'' then Inr SourceOff
             else if kind = ''local'' then
               (if profile = Production then Inl (''SEAL_TIMESTAMP_SOURCE=local under the production profile: the development authority is '' @
                 ''self-issued and can never be a qualified timestamp authority, so renewing from it would store '' @
                 ''protection that only looks like protection. Use `rfc3161` with a qualified authority, or `off`'')
                else Inr (SourceLocal (local_key_path get)))
             else if kind = ''rfc3161'' then
               (case url of
                  None \<Rightarrow> Inl ''SEAL_TIMESTAMP_SOURCE=rfc3161 needs SEAL_TIMESTAMP_URL''
                | Some u \<Rightarrow>
                    (case timeout of
                       None \<Rightarrow> Inr (SourceRfc3161 u 15)
                     | Some raw \<Rightarrow>
                         (case parse_u64 raw of
                            Some s \<Rightarrow> if 0 < s then Inr (SourceRfc3161 u s)
                              else Inl (''SEAL_TIMESTAMP_TIMEOUT_SECS '' @ quoted raw @ '' is not a positive number of seconds'')
                          | None \<Rightarrow> Inl (''SEAL_TIMESTAMP_TIMEOUT_SECS '' @ quoted raw @ '' is not a positive number of seconds''))))
             else Inl (''SEAL_TIMESTAMP_SOURCE '' @ quoted kind @ '' is not one of off, local, rfc3161''))
      in case choice of
           Inl e \<Rightarrow> Inl e
         | Inr c \<Rightarrow>
             if (case c of SourceRfc3161 _ _ \<Rightarrow> False | _ \<Rightarrow> True) \<and> (url \<noteq> None \<or> timeout \<noteq> None)
             then Inl (''SEAL_TIMESTAMP_URL / SEAL_TIMESTAMP_TIMEOUT_SECS are set but SEAL_TIMESTAMP_SOURCE is not '' @
                    ''`rfc3161`, so they would be ignored'')
             else Inr (c, profile = Production))"

subsection \<open>Properties\<close>

lemma renew_der_success:
  assumes "renew_der lib source q der now asked = (Inr r, asked')"
  shows "\<exists>request. prepare_archive_renewal lib der = Inr request \<and> rs_previous_expires r = rr_previous_expires request"
    and "rs_previous_expires r < rs_expires r"
    and "cades_archival_freshness lib (rs_seal_der r) now = Inr (Current (rs_expires r))"
    and "read_signature lib (rs_seal_der r) = read_signature lib der" and "\<not> isl (read_signature lib der)"
  using assms
  by (auto simp: renew_der_def Let_def check_stamp_def signature_untouched_def split: sum.splits if_splits)

lemma binding_reads_signature:
  assumes "read_signature lib der' = read_signature lib der" and "\<not> isl (read_signature lib der)"
  shows "covered_digest lib der' = covered_digest lib der"
    and "verify_against_embedded_certificate lib der' = verify_against_embedded_certificate lib der"
  using assms by (auto simp: read_signature_def split: sum.splits)

text \<open>
  A renewal only adds. Where base64 decodes what it encodes, a renewed
  seal has the format of the one it replaces and reads as current until a strictly later
  date, and whatever digest it is compared with, its binding is what it was: renewing never
  changes what a seal attests, nor repairs or breaks it.
\<close>

theorem renewal_keeps_binding:
  assumes "\<And>der. b64_decode lib (b64_encode lib der) = Some der"
    and "renew_archive_timestamp lib source require_qualified envelope now asked = (Inr renewed, asked')"
  shows "inspector_binding lib (re_envelope renewed) h = inspector_binding lib envelope h \<and>
    inspector_archival_freshness lib (re_envelope renewed) now = Current (re_expires renewed) \<and>
    re_previous_expires renewed < re_expires renewed \<and>
    re_envelope renewed = envelope\<lparr>se_seal_value := se_seal_value (re_envelope renewed)\<rparr>"
proof -
  from assms(2) obtain der r where d: "readable lib envelope = Some der"
      "renew_der lib source require_qualified der now asked = (Inr r, asked')"
      "renewed = \<lparr>re_envelope = envelope\<lparr>se_seal_value := b64_encode lib (rs_seal_der r)\<rparr>,
                  re_previous_expires = rs_previous_expires r, re_expires = rs_expires r\<rparr>"
    by (auto simp: renew_archive_timestamp_def split: option.splits prod.splits sum.splits)
  note ok = renew_der_success [OF d(2)]
  have "readable lib (re_envelope renewed) = Some (rs_seal_der r)"
    using d(1) assms(1) by (auto simp: d(3) readable_def split: if_splits)
  then show ?thesis
    using ok(2,3) binding_reads_signature [OF ok(4,5)] d(1)
    by (simp add: inspector_binding_def inspector_archival_freshness_def d(3) split: sum.split)
qed

text \<open>A library in which a seal's bytes are its text and every stamp adds one year.\<close>

definition sample_lib :: cades_lib where
  "sample_lib = \<lparr>b64_decode = Some, b64_encode = id, verify_against_embedded_certificate = (\<lambda>_. Inr True),
     covered_digest = (\<lambda>_. Inr (Some sample_digest)),
     cades_archival_freshness = (\<lambda>der now. Inr (Current (of_nat (length der)))),
     cades_certificate_standing = (\<lambda>_ _. Inl ''none''),
     prepare_archive_renewal = (\<lambda>der. Inr \<lparr>rr_imprint = der, rr_previous_expires = of_nat (length der), rr_previous_gen_time = 0\<rparr>),
     attach_archive_timestamp = (\<lambda>der request token. Inr \<lparr>at_seal_der = der @ token, at_gen_time = 0,
       at_expires = of_nat (length (der @ token))\<rparr>),
     authority_qualified = (\<lambda>_. True), authority_standing = (\<lambda>_. ''qualified''), show_time = (\<lambda>_. ''time''),
     debug_freshness = (\<lambda>_. ''freshness'')\<rparr>"

theorem renewal_keeps_binding_witness:
  "inspector_binding sample_lib (sample_envelope ''seal+'') sample_digest =
   inspector_binding sample_lib (sample_envelope ''seal'') sample_digest"
proof -
  have r: "renew_archive_timestamp sample_lib (\<lambda>_ _. Inr ''+'') True (sample_envelope ''seal'') 0 [] =
      (Inr \<lparr>re_envelope = sample_envelope ''seal+'', re_previous_expires = 4, re_expires = 5\<rparr>, [''seal''])"
    by (simp add: renew_archive_timestamp_def readable_def sample_lib_def sample_envelope_def renew_der_def Let_def
        check_stamp_def MAX_STAMP_SKEW_def signature_untouched_def read_signature_def)
  have b: "\<And>der. b64_decode sample_lib (b64_encode sample_lib der) = Some der" by (simp add: sample_lib_def)
  from renewal_keeps_binding [OF b r, of sample_digest] show ?thesis by simp
qed

lemma replace_seal_effect:
  assumes "keys_ok db" and "seal_replace_seal env pid current renewed db = (res, db')" and "row_at pp_id k (passport db) = Some p"
  shows "\<exists>p'. row_at pp_id k (passport db') = Some p' \<and> same_but_seal p p' \<and>
    (if k = pid \<and> res = Inr True
     then Option.bind (pp_seal p) stored_seal_value = Some (se_seal_value current) \<and> pp_seal p' = Some (SealDoc renewed)
     else pp_seal p' = pp_seal p)"
proof (cases "fault_at env (tick db)")
  case (Some e)
  with assms(2,3) show ?thesis by (auto simp: seal_replace_seal_def exec_update_def pg_update_def Let_def)
next
  case None
  have d: "distinct (map pp_id (passport db))" using assms(1) by (simp add: keys_ok_def)
  let ?q = "\<lambda>p. Option.bind (pp_seal p) stored_seal_value = Some (se_seal_value current)"
  let ?f = "with_seal (now_at env (tick db)) renewed"
  from None assms(2) have db': "passport db' = upd_where (\<lambda>p. pp_id p = pid \<and> ?q p) ?f (passport db)"
    and res: "res = Inr (length (filter (\<lambda>p. pp_id p = pid \<and> ?q p) (passport db)) = 1)"
    by (auto simp: seal_replace_seal_def exec_update_def pg_update_def Let_def)
  have id: "pp_id p = k" using row_at_SomeD [OF assms(3)] by blast
  have look: "row_at pp_id k (passport db') = Some (if pp_id p = pid \<and> ?q p then ?f p else p)"
    unfolding db' using assms(3) by (subst row_at_upd_where) (auto simp: with_seal_def)
  have "res = Inr (?q p)" if "k = pid"
    unfolding res filter_key_distinct [OF d] using assms(3) that by simp
  with look show ?thesis by (auto simp: id with_seal_def same_but_seal_def)
qed

text \<open>
  Property C27 (safety). A stamp in hand is stored only over the seal it was made for. Whatever
  happened to the document since it was read, the passport's seal after a renewal is the
  renewed one if its value was still the one read, and otherwise exactly what it was; the
  outcome says which. No row of the queue and no other table moves.
\<close>

theorem renewal_never_clobbers:
  assumes "keys_ok (rn_db st)" and "renewer_renew env rn row now st = (outcome, st')"
    and "row_at pp_id pid (passport (rn_db st)) = Some p"
  shows "\<exists>p'. row_at pp_id pid (passport (rn_db st')) = Some p' \<and> same_but_seal p p' \<and>
    seal_outbox (rn_db st') = seal_outbox (rn_db st) \<and> other_tables (rn_db st') = other_tables (rn_db st) \<and>
    (if pid = sp_passport_id row \<and> (\<exists>t. outcome = Renewed t)
     then Option.bind (pp_seal p) stored_seal_value = Some (se_seal_value (sp_seal row)) \<and>
       (\<exists>renewed. fst (renew_archive_timestamp (rn_lib rn) (rn_source rn) (rn_require_qualified rn) (sp_seal row) now (rn_asked st)) =
          Inr renewed \<and> pp_seal p' = Some (SealDoc (re_envelope renewed)))
     else pp_seal p' = pp_seal p)"
proof (cases "rn_db st' = rn_db st \<and> \<not> (\<exists>t. outcome = Renewed t)")
  case True
  with assms(3) show ?thesis by simp
next
  case False
  let ?r = "renew_archive_timestamp (rn_lib rn) (rn_source rn) (rn_require_qualified rn) (sp_seal row) now (rn_asked st)"
  from False assms(2) obtain renewed res where
    r: "fst ?r = Inr renewed" and
    w: "seal_replace_seal env (sp_passport_id row) (sp_seal row) (re_envelope renewed) (rn_db st) = (res, rn_db st')" and
    o: "(\<exists>t. outcome = Renewed t) \<longleftrightarrow> res = Inr True"
    by (auto simp: renewer_renew_def split: prod.splits sum.splits if_splits bool.splits)
  from replace_seal_effect [OF assms(1) w assms(3)] seal_replace_only [OF w] r o show ?thesis by auto
qed

definition sample_renewer :: ArchivalRenewer where
  "sample_renewer = \<lparr>rn_lib = sample_lib, rn_source = (\<lambda>_ _. Inr ''+''), rn_require_qualified = True\<rparr>"

theorem renewal_never_clobbers_witness:
  "\<exists>p'. row_at pp_id 7 (passport (rn_db (snd (renewer_renew sample_env sample_renewer
       \<lparr>sp_passport_id = 7, sp_seal = sample_envelope ''old'', sp_payload_hash = sample_digest\<rparr> 0
       \<lparr>rn_budget = 20, rn_paused_until = None, rn_asked = [], rn_db = sample_late_db\<rparr>)))) = Some p' \<and>
     same_but_seal (hd (passport sample_late_db)) p'"
proof -
  let ?row = "\<lparr>sp_passport_id = 7, sp_seal = sample_envelope ''old'', sp_payload_hash = sample_digest\<rparr>"
  let ?st = "\<lparr>rn_budget = 20, rn_paused_until = None, rn_asked = [], rn_db = sample_late_db\<rparr>"
  obtain outcome st' where r: "renewer_renew sample_env sample_renewer ?row 0 ?st = (outcome, st')" by fastforce
  have k: "keys_ok (rn_db ?st)" using sample_late_db_ok by simp
  have p: "row_at pp_id 7 (passport (rn_db ?st)) = Some (hd (passport sample_late_db))" by (simp add: sample_late_db_simps)
  from renewal_never_clobbers [OF k r p] show ?thesis unfolding r snd_conv by blast
qed

text \<open>One seal costs at most one stamp and the budget; a pause and an empty budget cost nothing.\<close>

lemma untouched_unusable: "signature_untouched lib a b \<noteq> Inl (NotRenewable m)"
  by (simp add: signature_untouched_def split: sum.split)

lemma check_stamp_asked: "check_stamp lib q der now request att \<noteq> Inl (NotRenewable m)"
  using untouched_unusable [of lib der "at_seal_der att" m]
  by (cases "signature_untouched lib der (at_seal_der att)") (auto simp: check_stamp_def)

lemma renew_der_asks:
  assumes "renew_der lib source q der now asked = (res, asked')"
  shows "\<exists>n \<le> 1. length asked' = length asked + n \<and> (n = 0 \<longleftrightarrow> (\<exists>m. res = Inl (NotRenewable m)))"
proof (cases "prepare_archive_renewal lib der")
  case (Inl e)
  with assms show ?thesis by (auto simp: renew_der_def)
next
  case (Inr request)
  with assms check_stamp_asked have "asked' = asked @ [rr_imprint request] \<and> (\<forall>m. res \<noteq> Inl (NotRenewable m))"
    by (auto simp: renew_der_def Let_def split: sum.splits)
  then show ?thesis by (intro exI [of _ 1]) simp
qed

lemma renew_asks:
  assumes "renew_archive_timestamp lib source q e now asked = (res, asked')"
  shows "\<exists>n \<le> 1. length asked' = length asked + n \<and> (n = 0 \<longleftrightarrow> (\<exists>m. res = Inl (NotRenewable m)))"
proof (cases "readable lib e")
  case None
  with assms show ?thesis by (auto simp: renew_archive_timestamp_def)
next
  case (Some der)
  obtain r a where r: "renew_der lib source q der now asked = (r, a)" by fastforce
  with assms Some renew_der_asks [OF r] show ?thesis
    by (cases r) (auto simp: renew_archive_timestamp_def)
qed

lemma renewer_budget:
  assumes "renewer_renew env rn row now st = (outcome, st')"
  shows "length (rn_asked st') + rn_budget st' = length (rn_asked st) + rn_budget st"
    and "length (rn_asked st) \<le> length (rn_asked st')"
    and "paused now st \<Longrightarrow> st' = st"
proof -
  let ?r = "renew_archive_timestamp (rn_lib rn) (rn_source rn) (rn_require_qualified rn) (sp_seal row) now (rn_asked st)"
  obtain res asked' where r: "?r = (res, asked')" by fastforce
  show "length (rn_asked st') + rn_budget st' = length (rn_asked st) + rn_budget st" "length (rn_asked st) \<le> length (rn_asked st')"
    using assms renew_asks [OF r]
    by (auto simp: renewer_renew_def r shared_failure_def split: sum.splits prod.splits if_splits RenewalError.splits)
  show "st' = st" if "paused now st" using assms that by (simp add: renewer_renew_def)
qed

end
