(* ===== verification/Seal_Audit.thy ===== *)
theory Seal_Audit
  imports Seal_Renewal
begin

text \<open>
  The audit of stored seals: one batch (\<^verbatim>\<open>dpp-node/src/infra/seal_drain.rs\<close>, second half), and
  the walk that covers the estate batch by batch, its cadence, its persisted progress and its
  report (\<^verbatim>\<open>spawn_seal_audit\<close> in \<^verbatim>\<open>dpp-node/src/boot/tasks.rs\<close>). The node's clock is a function of
  the statement counter, and of the passport for the reading taken per row.
\<close>

subsection \<open>One batch\<close>

definition MAX_NAMED_BROKEN :: nat where "MAX_NAMED_BROKEN = 100"
definition RENEWAL_LEAD :: time where "RENEWAL_LEAD = 90 * 86400"

record SealAudit =
  ac_checked :: nat
  ac_sound :: nat
  ac_certificate_failed :: nat
  ac_superseded :: nat
  ac_broken :: nat
  ac_unreadable :: nat
  ac_broken_passports :: "uuid list"
  ac_archival_lapsed :: nat
  ac_archival_due :: nat
  ac_archival_unverifiable :: nat
  ac_renewal_passports :: "uuid list"

definition audit_default :: SealAudit where
  "audit_default = \<lparr>ac_checked = 0, ac_sound = 0, ac_certificate_failed = 0, ac_superseded = 0, ac_broken = 0,
     ac_unreadable = 0, ac_broken_passports = [], ac_archival_lapsed = 0, ac_archival_due = 0,
     ac_archival_unverifiable = 0, ac_renewal_passports = []\<rparr>"

text \<open>A list that stops filling at the cap.\<close>

definition cap_push :: "uuid \<Rightarrow> uuid list \<Rightarrow> uuid list" where
  "cap_push x xs = (if length xs < MAX_NAMED_BROKEN then xs @ [x] else xs)"

definition absorb :: "SealAudit \<Rightarrow> SealAudit \<Rightarrow> SealAudit" where
  "absorb self batch =
     \<lparr>ac_checked = ac_checked self + ac_checked batch,
      ac_sound = ac_sound self + ac_sound batch,
      ac_certificate_failed = ac_certificate_failed self + ac_certificate_failed batch,
      ac_superseded = ac_superseded self + ac_superseded batch,
      ac_broken = ac_broken self + ac_broken batch,
      ac_unreadable = ac_unreadable self + ac_unreadable batch,
      ac_broken_passports = fold cap_push (ac_broken_passports batch) (ac_broken_passports self),
      ac_archival_lapsed = ac_archival_lapsed self + ac_archival_lapsed batch,
      ac_archival_due = ac_archival_due self + ac_archival_due batch,
      ac_archival_unverifiable = ac_archival_unverifiable self + ac_archival_unverifiable batch,
      ac_renewal_passports = fold cap_push (ac_renewal_passports batch) (ac_renewal_passports self)\<rparr>"

datatype RenewalFinding = NothingDue | RenewalDue | RenewalLapsed | RenewalUnverifiable

definition renewal_finding :: "ArchivalFreshness \<Rightarrow> time \<Rightarrow> RenewalFinding" where
  "renewal_finding freshness now =
     (case freshness of
        NotArchived \<Rightarrow> NothingDue
      | Current expires \<Rightarrow> if RENEWAL_LEAD < expires - now then NothingDue else RenewalDue
      | Lapsed _ \<Rightarrow> RenewalLapsed
      | UnknownFreshness \<Rightarrow> RenewalUnverifiable)"

datatype SealFinding = CertificateFailed | SoundSeal RenewalFinding "time option"

definition expiry_of :: "ArchivalFreshness \<Rightarrow> time option" where
  "expiry_of freshness = (case freshness of Current t \<Rightarrow> Some t | Lapsed t \<Rightarrow> Some t | _ \<Rightarrow> None)"

definition seal_finding :: "SealValidationStatus \<Rightarrow> (unit \<Rightarrow> ArchivalFreshness) \<Rightarrow> time \<Rightarrow> SealFinding" where
  "seal_finding status read_freshness now =
     (if indication status = TotalFailed then CertificateFailed
      else let freshness = read_freshness () in SoundSeal (renewal_finding freshness now) (expiry_of freshness))"

definition name_for_renewal :: "uuid \<Rightarrow> SealAudit \<Rightarrow> SealAudit" where
  "name_for_renewal pid audit = audit\<lparr>ac_renewal_passports := cap_push pid (ac_renewal_passports audit)\<rparr>"

text \<open>What is done about a finding: a due or lapsed timestamp is renewed where there is a renewer.\<close>

definition act_on_finding ::
  "pg_env \<Rightarrow> ArchivalRenewer option \<Rightarrow> SealedPassport \<Rightarrow> time \<Rightarrow> RenewalFinding \<Rightarrow> renewal_state \<Rightarrow>
   RenewalFinding \<times> renewal_state" where
  "act_on_finding env renewer row now finding st =
     (case renewer of
        None \<Rightarrow> (finding, st)
      | Some rn \<Rightarrow>
          if finding = RenewalDue \<or> finding = RenewalLapsed then
            (case renewer_renew env rn row now st of
               (Renewed _, st') \<Rightarrow> (NothingDue, st')
             | (Raced, st') \<Rightarrow> (NothingDue, st')
             | (Deferred _, st') \<Rightarrow> (finding, st')
             | (RenewalFailed _, st') \<Rightarrow> (finding, st'))
          else (finding, st))"

definition count_finding :: "uuid \<Rightarrow> RenewalFinding \<Rightarrow> SealAudit \<Rightarrow> SealAudit" where
  "count_finding pid finding audit =
     (case finding of
        NothingDue \<Rightarrow> audit
      | RenewalDue \<Rightarrow> name_for_renewal pid (audit\<lparr>ac_archival_due := ac_archival_due audit + 1\<rparr>)
      | RenewalLapsed \<Rightarrow> name_for_renewal pid (audit\<lparr>ac_archival_lapsed := ac_archival_lapsed audit + 1\<rparr>)
      | RenewalUnverifiable \<Rightarrow> audit\<lparr>ac_archival_unverifiable := ac_archival_unverifiable audit + 1\<rparr>)"

definition audit_row ::
  "pg_env \<Rightarrow> SealInspector \<Rightarrow> ArchivalRenewer option \<Rightarrow> (nat \<Rightarrow> uuid \<Rightarrow> time) \<Rightarrow> SealedPassport \<Rightarrow>
   SealAudit \<times> renewal_state \<Rightarrow> SealAudit \<times> renewal_state" where
  "audit_row env inspector renewer row_clock row s =
     (case s of (audit0, st) \<Rightarrow>
        (let audit = audit0\<lparr>ac_checked := ac_checked audit0 + 1\<rparr>;
             binding = binding_of inspector (sp_seal row) (sp_payload_hash row);
             now = row_clock (tick (rn_db st)) (sp_passport_id row)
         in case binding of
              CoversThisSignature \<Rightarrow>
                (case seal_finding (validation_of binding (certificate_standing inspector (sp_seal row) now))
                        (\<lambda>_. archival_freshness inspector (sp_seal row) now) now of
                   CertificateFailed \<Rightarrow> (audit\<lparr>ac_certificate_failed := ac_certificate_failed audit + 1\<rparr>, st)
                 | SoundSeal finding expires \<Rightarrow>
                     (case act_on_finding env renewer row now finding st of
                        (finding', st') \<Rightarrow>
                          (count_finding (sp_passport_id row) finding' (audit\<lparr>ac_sound := ac_sound audit + 1\<rparr>), st')))
            | CoversAnotherDigest _ \<Rightarrow> (audit\<lparr>ac_superseded := ac_superseded audit + 1\<rparr>, st)
            | NotIntact \<Rightarrow>
                (audit\<lparr>ac_broken := ac_broken audit + 1,
                       ac_broken_passports := cap_push (sp_passport_id row) (ac_broken_passports audit)\<rparr>, st)
            | UnknownBinding \<Rightarrow> (audit\<lparr>ac_unreadable := ac_unreadable audit + 1\<rparr>, st)))"

text \<open>The parts of the node that the audit is given.\<close>

record audit_cfg =
  cf_sha :: "string \<Rightarrow> string"
  cf_inspector :: SealInspector
  cf_renewer :: "ArchivalRenewer option"
  cf_row_clock :: "nat \<Rightarrow> uuid \<Rightarrow> time"
  cf_clock :: "nat \<Rightarrow> time"
  cf_batch :: nat
  cf_store :: bool

definition audit_seals_once ::
  "pg_env \<Rightarrow> audit_cfg \<Rightarrow> uuid option \<Rightarrow> time option \<Rightarrow> renewal_state \<Rightarrow>
   (SealAudit \<times> uuid option) option \<times> renewal_state" where
  "audit_seals_once env cfg after sealed_before st =
     (case seal_sealed_passports env (cf_sha cfg) (cf_batch cfg) after sealed_before (rn_db st) of
        (Inl _, db') \<Rightarrow> (None, st\<lparr>rn_db := db'\<rparr>)
      | (Inr batch, db') \<Rightarrow>
          (let cursor = (if batch = [] then None else Some (sp_passport_id (last batch)));
               (audit, st') = fold (audit_row env (cf_inspector cfg) (cf_renewer cfg) (cf_row_clock cfg)) batch
                 (audit_default, st\<lparr>rn_budget := MAX_RENEWALS_PER_BATCH, rn_db := db'\<rparr>)
           in (Some (audit, cursor), st')))"

subsection \<open>Cadence\<close>

definition SEAL_AUDIT_BATCH :: nat where "SEAL_AUDIT_BATCH = 200"
definition SEAL_AUDIT_INTERVAL :: nat where "SEAL_AUDIT_INTERVAL = 60"

text \<open>
  A whole number within bounds; \<open>parse\<close> is Rust's parser of the type read, \<^verbatim>\<open>i64\<close> for the batch
  and \<^verbatim>\<open>u64\<close> for the interval. A leading minus sign only parses as \<^verbatim>\<open>i64\<close>, below the minimum.
\<close>

definition parse_i64 :: "string \<Rightarrow> int option" where
  "parse_i64 s =
     (case s of
        c # cs \<Rightarrow>
          if c = CHR ''-'' then
            (if cs \<noteq> [] \<and> list_all is_digit cs \<and> foldl (\<lambda>acc d. 10 * acc + digit_of d) 0 cs \<le> 2 ^ 63
             then Some (- int (foldl (\<lambda>acc d. 10 * acc + digit_of d) 0 cs)) else None)
          else (case parse_u64 s of Some n \<Rightarrow> if n < 2 ^ 63 then Some (int n) else None | None \<Rightarrow> None)
      | [] \<Rightarrow> None)"

definition read_setting ::
  "(string \<Rightarrow> string option) \<Rightarrow> (string \<Rightarrow> int option) \<Rightarrow> string \<Rightarrow> int \<Rightarrow> int \<Rightarrow> int \<Rightarrow> string + int" where
  "read_setting get parse name dflt lo hi =
     (case get name of
        None \<Rightarrow> Inr dflt
      | Some raw \<Rightarrow>
          (case parse (str_trim raw) of
             None \<Rightarrow> Inl (name @ '' '' @ quoted (str_trim raw) @ '' is not a whole number (expected '' @ show_int lo @
               ''..='' @ show_int hi @ '')'')
           | Some v \<Rightarrow>
               if lo \<le> v \<and> v \<le> hi then Inr v
               else Inl (name @ '' '' @ quoted (show_int v) @ '' is out of range (expected '' @ show_int lo @
                 ''..='' @ show_int hi @ '')'')))"

definition seal_audit_cadence_from :: "(string \<Rightarrow> string option) \<Rightarrow> string + nat \<times> nat" where
  "seal_audit_cadence_from get =
     (case read_setting get parse_i64 ''SEAL_AUDIT_BATCH'' (int SEAL_AUDIT_BATCH) 1 10000 of
        Inl e \<Rightarrow> Inl e
      | Inr batch \<Rightarrow>
          (case read_setting get (\<lambda>s. map_option int (parse_u64 s)) ''SEAL_AUDIT_INTERVAL_SECS''
                  (int SEAL_AUDIT_INTERVAL) 1 3600 of
             Inl e \<Rightarrow> Inl e
           | Inr interval \<Rightarrow> Inr (nat batch, nat interval)))"

text \<open>Seconds of a whole walk, saturating like \<^verbatim>\<open>Duration\<close>, whose seconds are a \<^verbatim>\<open>u64\<close>.\<close>

definition walk_passes :: "nat \<Rightarrow> nat \<Rightarrow> nat" where
  "walk_passes sealed batch =
     (let b = max batch 1 in sealed div b + (if 0 < sealed mod b then 1 else 0) + 1)"

definition projected_wrap :: "nat \<Rightarrow> nat \<Rightarrow> nat \<Rightarrow> nat" where
  "projected_wrap sealed batch interval =
     (let passes = walk_passes sealed batch
      in min (interval * (if passes < 2 ^ 32 then passes else 2 ^ 32 - 1)) (2 ^ 64 - 1))"

subsection \<open>The walk\<close>

record walk_state =
  wk_cursor :: "uuid option"
  wk_walk :: SealAudit
  wk_started_at :: time
  wk_log :: SealAuditLog
  wk_rn :: renewal_state

definition report_of :: "time \<Rightarrow> SealAudit \<Rightarrow> SealAuditReport" where
  "report_of now walk =
     \<lparr>rp_completed_at = now, rp_checked = ac_checked walk, rp_sound = ac_sound walk,
      rp_superseded = ac_superseded walk, rp_broken = ac_broken walk,
      rp_certificate_failed = ac_certificate_failed walk, rp_unreadable = ac_unreadable walk,
      rp_archival_lapsed = ac_archival_lapsed walk, rp_archival_due = ac_archival_due walk,
      rp_archival_unverifiable = ac_archival_unverifiable walk,
      rp_broken_passports = ac_broken_passports walk, rp_renewal_passports = ac_renewal_passports walk,
      rp_truncated = (length (ac_broken_passports walk) < ac_broken walk),
      rp_renewal_truncated = (length (ac_renewal_passports walk) < ac_archival_due walk + ac_archival_lapsed walk)\<rparr>"

definition progress_of :: "time \<Rightarrow> uuid option \<Rightarrow> SealAudit \<Rightarrow> SealAuditProgress" where
  "progress_of started_at cursor walk =
     \<lparr>pr_started_at = started_at, pr_cursor = cursor, pr_checked = ac_checked walk, pr_sound = ac_sound walk,
      pr_superseded = ac_superseded walk, pr_broken = ac_broken walk,
      pr_certificate_failed = ac_certificate_failed walk, pr_unreadable = ac_unreadable walk,
      pr_archival_lapsed = ac_archival_lapsed walk, pr_archival_due = ac_archival_due walk,
      pr_archival_unverifiable = ac_archival_unverifiable walk,
      pr_broken_passports = ac_broken_passports walk, pr_renewal_passports = ac_renewal_passports walk\<rparr>"

definition walk_of_progress :: "SealAuditProgress \<Rightarrow> SealAudit" where
  "walk_of_progress p =
     \<lparr>ac_checked = pr_checked p, ac_sound = pr_sound p, ac_certificate_failed = pr_certificate_failed p,
      ac_superseded = pr_superseded p, ac_broken = pr_broken p, ac_unreadable = pr_unreadable p,
      ac_broken_passports = pr_broken_passports p, ac_archival_lapsed = pr_archival_lapsed p,
      ac_archival_due = pr_archival_due p, ac_archival_unverifiable = pr_archival_unverifiable p,
      ac_renewal_passports = pr_renewal_passports p\<rparr>"

text \<open>The start of the task: an empty log and walk, filled from the store where there is one.\<close>

definition audit_boot :: "pg_env \<Rightarrow> audit_cfg \<Rightarrow> renewal_state \<Rightarrow> walk_state" where
  "audit_boot env cfg rn =
     (let fresh = \<lparr>wk_cursor = None, wk_walk = audit_default, wk_started_at = cf_clock cfg (tick (rn_db rn)),
                   wk_log = None, wk_rn = rn\<rparr>
      in if \<not> cf_store cfg then fresh
         else (case audit_load env (rn_db rn) of
                 (Inl _, db') \<Rightarrow> fresh\<lparr>wk_rn := rn\<lparr>rn_db := db'\<rparr>\<rparr>
               | (Inr (progress, report), db') \<Rightarrow>
                   (let logged = fresh\<lparr>wk_rn := rn\<lparr>rn_db := db'\<rparr>,
                          wk_log := (case report of Some r \<Rightarrow> log_record r (wk_log fresh) | None \<Rightarrow> wk_log fresh)\<rparr>
                    in case progress of
                         None \<Rightarrow> logged
                       | Some p \<Rightarrow> logged\<lparr>wk_cursor := pr_cursor p, wk_started_at := pr_started_at p,
                                          wk_walk := walk_of_progress p\<rparr>)))"

definition with_db :: "odal \<Rightarrow> renewal_state \<Rightarrow> renewal_state" where
  "with_db db rn = rn\<lparr>rn_db := db\<rparr>"

text \<open>One turn of the loop.\<close>

definition audit_step :: "pg_env \<Rightarrow> audit_cfg \<Rightarrow> walk_state \<Rightarrow> walk_state" where
  "audit_step env cfg w =
     (case audit_seals_once env cfg (wk_cursor w) (Some (wk_started_at w)) (wk_rn w) of
        (None, rn) \<Rightarrow> w\<lparr>wk_rn := rn\<rparr>
      | (Some (audit, next), rn) \<Rightarrow>
          (let walk = absorb (wk_walk w) audit in
           case next of
             None \<Rightarrow>
               (let now = cf_clock cfg (tick (rn_db rn)); report = report_of now walk;
                    db' = (if cf_store cfg then snd (audit_complete env report (rn_db rn)) else rn_db rn)
                in \<lparr>wk_cursor = None, wk_walk = audit_default, wk_started_at = cf_clock cfg (tick db'),
                    wk_log = log_record report (wk_log w), wk_rn = with_db db' rn\<rparr>)
           | Some c \<Rightarrow>
               (let db' = (if cf_store cfg
                           then snd (audit_save_progress env (progress_of (wk_started_at w) next walk) (rn_db rn))
                           else rn_db rn)
                in w\<lparr>wk_cursor := next, wk_walk := walk, wk_rn := with_db db' rn\<rparr>)))"

subsection \<open>Counting\<close>

lemma cap_push_fold: "fold cap_push ys acc = acc @ take (MAX_NAMED_BROKEN - length acc) ys"
proof (induction ys arbitrary: acc)
  case (Cons y ys)
  have "MAX_NAMED_BROKEN - length acc = Suc (MAX_NAMED_BROKEN - Suc (length acc))" if "length acc < MAX_NAMED_BROKEN"
    using that by simp
  with Cons show ?case by (auto simp: cap_push_def)
qed simp

lemma absorb_default [simp]: "absorb a audit_default = a"
  by (cases a) (simp add: absorb_def audit_default_def)

lemma cap_push_assoc: "fold cap_push c (fold cap_push b a) = fold cap_push (fold cap_push c b) a"
  unfolding cap_push_fold by (auto simp: min_def)

lemma absorb_assoc: "absorb (absorb a b) c = absorb a (absorb b c)"
  by (simp add: absorb_def cap_push_assoc)

text \<open>The counts partition what was opened, and the lists hold the first hundred of what was counted.\<close>

definition audit_ok :: "SealAudit \<Rightarrow> bool" where
  "audit_ok a \<longleftrightarrow>
     ac_checked a = ac_sound a + ac_certificate_failed a + ac_superseded a + ac_broken a + ac_unreadable a \<and>
     ac_archival_due a + ac_archival_lapsed a + ac_archival_unverifiable a \<le> ac_sound a \<and>
     length (ac_broken_passports a) = min MAX_NAMED_BROKEN (ac_broken a) \<and>
     length (ac_renewal_passports a) = min MAX_NAMED_BROKEN (ac_archival_due a + ac_archival_lapsed a)"

lemma audit_ok_default [simp]: "audit_ok audit_default"
  by (simp add: audit_ok_def audit_default_def)

lemma audit_ok_absorb: "audit_ok a \<Longrightarrow> audit_ok b \<Longrightarrow> audit_ok (absorb a b)"
  by (auto simp: audit_ok_def absorb_def cap_push_fold min_def)

lemma audit_ok_row:
  assumes "audit_ok (fst s)"
  shows "audit_ok (fst (audit_row env inspector renewer row_clock row s))"
  using assms
  by (cases s)
    (auto simp: audit_row_def Let_def audit_ok_def count_finding_def name_for_renewal_def cap_push_def MAX_NAMED_BROKEN_def
      split: SealBinding.splits SealFinding.splits prod.splits RenewalFinding.splits)

lemma audit_ok_rows:
  "audit_ok (fst s) \<Longrightarrow> audit_ok (fst (fold (audit_row env inspector renewer row_clock) rows s))"
  by (induction rows arbitrary: s) (simp_all add: audit_ok_row)

text \<open>Without a renewer a row adds what it is worth and changes nothing else.\<close>

definition tally_one :: "SealInspector \<Rightarrow> SealedPassport \<Rightarrow> time \<Rightarrow> SealAudit" where
  "tally_one inspector row now =
     (let one = audit_default\<lparr>ac_checked := 1\<rparr>;
          binding = binding_of inspector (sp_seal row) (sp_payload_hash row)
      in case binding of
           CoversThisSignature \<Rightarrow>
             if indication (validation_of binding (certificate_standing inspector (sp_seal row) now)) = TotalFailed
             then one\<lparr>ac_certificate_failed := 1\<rparr>
             else count_finding (sp_passport_id row) (renewal_finding (archival_freshness inspector (sp_seal row) now) now)
               (one\<lparr>ac_sound := 1\<rparr>)
         | CoversAnotherDigest _ \<Rightarrow> one\<lparr>ac_superseded := 1\<rparr>
         | NotIntact \<Rightarrow> one\<lparr>ac_broken := 1, ac_broken_passports := [sp_passport_id row]\<rparr>
         | UnknownBinding \<Rightarrow> one\<lparr>ac_unreadable := 1\<rparr>)"

definition tally :: "SealInspector \<Rightarrow> (SealedPassport \<times> time) list \<Rightarrow> SealAudit" where
  "tally inspector seen = fold (\<lambda>(row, now) a. absorb a (tally_one inspector row now)) seen audit_default"

lemma audit_row_tally:
  "audit_row env inspector None row_clock row (a, st) =
     (absorb a (tally_one inspector row (row_clock (tick (rn_db st)) (sp_passport_id row))), st)"
  by (auto simp: audit_row_def tally_one_def act_on_finding_def seal_finding_def Let_def absorb_def audit_default_def
      count_finding_def name_for_renewal_def cap_push_def MAX_NAMED_BROKEN_def
      split: SealBinding.splits RenewalFinding.splits)

lemma absorb_default_left: "audit_ok a \<Longrightarrow> absorb audit_default a = a"
  by (cases a) (simp add: absorb_def audit_default_def audit_ok_def cap_push_fold)

lemma tally_one_ok: "audit_ok (tally_one inspector row now)"
  by (auto simp: tally_one_def Let_def audit_ok_def audit_default_def count_finding_def name_for_renewal_def cap_push_def
      MAX_NAMED_BROKEN_def split: SealBinding.splits RenewalFinding.splits)

lemma tally_Cons_fold:
  assumes "\<And>acc. fold (\<lambda>(row, now) a. absorb a (tally_one inspector row now)) seen acc = absorb acc (tally inspector seen)"
  shows "tally inspector ((row, now) # seen) = absorb (tally_one inspector row now) (tally inspector seen)"
  unfolding tally_def [of _ "_ # _"] by (simp add: assms absorb_default_left tally_one_ok)

lemma tally_fold:
  "fold (\<lambda>(row, now) a. absorb a (tally_one inspector row now)) seen acc = absorb acc (tally inspector seen)"
proof (induction seen arbitrary: acc)
  case Nil
  show ?case by (simp add: tally_def)
next
  case (Cons x xs)
  obtain row now where x: "x = (row, now)" by fastforce
  show ?case unfolding x tally_Cons_fold [OF Cons.IH] by (simp add: Cons.IH absorb_assoc)
qed

lemma tally_ok: "audit_ok (tally inspector seen)"
  unfolding tally_def by (induction seen rule: rev_induct) (auto intro: audit_ok_absorb tally_one_ok)

lemma tally_append: "tally inspector (xs @ ys) = absorb (tally inspector xs) (tally inspector ys)"
  unfolding tally_def [of _ "xs @ ys"] fold_append comp_def tally_fold
  by (simp add: absorb_default_left tally_ok)

lemma tally_Cons: "tally inspector ((row, now) # seen) = absorb (tally_one inspector row now) (tally inspector seen)"
  by (rule tally_Cons_fold) (rule tally_fold)

lemma audit_rows_tally:
  "fold (audit_row env inspector None row_clock) rows (a, st) =
     (absorb a (tally inspector (map (\<lambda>row. (row, row_clock (tick (rn_db st)) (sp_passport_id row))) rows)), st)"
proof (induction rows arbitrary: a)
  case (Cons row rows)
  then show ?case by (simp add: audit_row_tally absorb_assoc tally_Cons)
qed (simp add: tally_def)

subsection \<open>Pages\<close>

text \<open>The seals a walk is about: those of published, signed passports sealed before it began.\<close>

definition estate :: "time \<Rightarrow> odal \<Rightarrow> passport_rec list" where
  "estate t db = sort_key pp_id (filter (auditable None (Some t) (seal_outbox db)) (passport db))"

lemma estate_sorted:
  assumes "distinct (map pp_id (passport db))"
  shows "sorted_wrt (<) (map pp_id (estate t db))"
proof -
  have "distinct (map pp_id (filter (auditable None (Some t) (seal_outbox db)) (passport db)))"
    using assms by (simp add: distinct_map inj_on_def)
  then have "distinct (map pp_id (estate t db))"
    unfolding estate_def by (simp add: distinct_map)
  then show ?thesis by (simp add: strict_sorted_iff estate_def)
qed

lemma drop_after:
  fixes f :: "'a \<Rightarrow> 'b::linorder"
  assumes "sorted_wrt (<) (map f xs)" and "0 < m" and "m \<le> length xs"
  shows "filter (\<lambda>x. f (xs ! (m - 1)) < f x) xs = drop m xs"
proof -
  have lt: "f (xs ! i) < f (xs ! j)" if "i < j" "j < length xs" for i j
    using assms(1) that by (simp add: sorted_wrt_iff_nth_less)
  have "filter (\<lambda>x. f (xs ! (m - 1)) < f x) (take m xs) = []"
  proof (rule filter_False, rule ballI)
    fix x assume "x \<in> set (take m xs)"
    then obtain i where i: "i < m" "x = xs ! i" "i < length xs" by (auto simp: in_set_conv_nth)
    show "\<not> f (xs ! (m - 1)) < f x"
    proof (cases "i = m - 1")
      case False
      with i have "f (xs ! i) < f (xs ! (m - 1))" using assms(2,3) by (intro lt) auto
      with i show ?thesis by simp
    qed (use i in simp)
  qed
  moreover have "filter (\<lambda>x. f (xs ! (m - 1)) < f x) (drop m xs) = drop m xs"
  proof (rule filter_True, rule ballI)
    fix x assume "x \<in> set (drop m xs)"
    then obtain i where "i < length xs - m" and i: "x = xs ! (m + i)" by (auto simp: in_set_conv_nth)
    then have "m + i < length xs" by simp
    with i assms(2) show "f (xs ! (m - 1)) < f x" by (auto intro: lt)
  qed
  ultimately show ?thesis by (metis append_Nil append_take_drop_id filter_append)
qed

text \<open>The cursor after the first \<open>m\<close> seals, and the page that follows it.\<close>

definition cursor_at :: "nat \<Rightarrow> passport_rec list \<Rightarrow> uuid option" where
  "cursor_at m ps = (if m = 0 then None else Some (pp_id (ps ! (m - 1))))"

lemma page_at:
  assumes "fault_free env" and "distinct (map pp_id (passport db))" and "m \<le> length (estate t db)"
  shows "seal_sealed_passports env sha b (cursor_at m (estate t db)) (Some t) db =
    (Inr (List.map_filter (read_sealed sha) (take b (drop m (estate t db)))), bump db)"
proof -
  let ?e = "estate t db"
  have "sort_key pp_id (filter (auditable (cursor_at m ?e) (Some t) (seal_outbox db)) (passport db)) = drop m ?e"
  proof (cases "m = 0")
    case True
    then show ?thesis by (simp add: cursor_at_def estate_def)
  next
    case False
    have "filter (auditable (cursor_at m ?e) (Some t) (seal_outbox db)) (passport db) =
        filter (\<lambda>p. pp_id (?e ! (m - 1)) < pp_id p) (filter (auditable None (Some t) (seal_outbox db)) (passport db))"
      using False by (auto simp: auditable_def cursor_at_def intro!: filter_cong)
    then have "sort_key pp_id (filter (auditable (cursor_at m ?e) (Some t) (seal_outbox db)) (passport db)) =
        filter (\<lambda>p. pp_id (?e ! (m - 1)) < pp_id p) ?e"
      by (simp add: estate_def filter_sort)
    also have "\<dots> = drop m ?e" by (rule drop_after [OF estate_sorted [OF assms(2)]]) (use False assms(3) in auto)
    finally show ?thesis .
  qed
  with assms(1) show ?thesis by (simp add: seal_sealed_passports_def exec_select_fault_free)
qed

subsection \<open>The walk, seal by seal\<close>

definition all_read :: "(string \<Rightarrow> string) \<Rightarrow> passport_rec list \<Rightarrow> bool" where
  "all_read sha ps \<longleftrightarrow> list_all (\<lambda>p. read_sealed sha p \<noteq> None) ps"

definition seals_of :: "(string \<Rightarrow> string) \<Rightarrow> passport_rec list \<Rightarrow> SealedPassport list" where
  "seals_of sha ps = List.map_filter (read_sealed sha) ps"

lemma seals_of_all_read: "all_read sha ps \<Longrightarrow> seals_of sha ps = map (\<lambda>p. the (read_sealed sha p)) ps"
  by (induction ps) (auto simp: seals_of_def all_read_def map_filter_simps)

lemma seals_of_append [simp]: "seals_of sha (xs @ ys) = seals_of sha xs @ seals_of sha ys"
  by (induction xs) (simp_all add: seals_of_def map_filter_simps split: option.split)

lemma length_seals_of: "all_read sha ps \<Longrightarrow> length (seals_of sha ps) = length ps"
  by (simp add: seals_of_all_read)

lemma last_seal_id:
  assumes "all_read sha ps" and "ps \<noteq> []"
  shows "sp_passport_id (last (seals_of sha ps)) = pp_id (last ps)"
proof -
  have "read_sealed sha (last ps) \<noteq> None" using assms by (auto simp: all_read_def list_all_iff)
  then show ?thesis
    unfolding seals_of_all_read [OF assms(1)] last_map [OF assms(2)]
    by (auto simp: read_sealed_def split: option.splits)
qed

text \<open>Where a walk stands after the first \<open>m\<close> seals of the estate, each looked at once, at some time.\<close>

definition walk_at :: "audit_cfg \<Rightarrow> odal \<Rightarrow> time \<Rightarrow> SealAuditLog \<Rightarrow> nat \<Rightarrow> walk_state \<Rightarrow> bool" where
  "walk_at cfg db t slot m w \<longleftrightarrow>
     wk_started_at w = t \<and> wk_cursor w = cursor_at m (estate t db) \<and> wk_log w = slot \<and>
     passport (rn_db (wk_rn w)) = passport db \<and> seal_outbox (rn_db (wk_rn w)) = seal_outbox db \<and>
     (\<exists>ts. length ts = m \<and>
        wk_walk w = tally (cf_inspector cfg) (zip (seals_of (cf_sha cfg) (take m (estate t db))) ts))"

lemma estate_cong: "passport db' = passport db \<Longrightarrow> seal_outbox db' = seal_outbox db \<Longrightarrow> estate t db' = estate t db"
  by (simp add: estate_def)

lemma audit_once_at:
  assumes "fault_free env" and "distinct (map pp_id (passport (rn_db st)))" and "cf_renewer cfg = None" and "m \<le> length (estate t (rn_db st))"
  shows "audit_seals_once env cfg (cursor_at m (estate t (rn_db st))) (Some t) st =
    (let page = seals_of (cf_sha cfg) (take (cf_batch cfg) (drop m (estate t (rn_db st)))) in
     (Some (tally (cf_inspector cfg) (map (\<lambda>row. (row, cf_row_clock cfg (Suc (tick (rn_db st))) (sp_passport_id row))) page),
        if page = [] then None else Some (sp_passport_id (last page))),
      st\<lparr>rn_budget := MAX_RENEWALS_PER_BATCH, rn_db := bump (rn_db st)\<rparr>))"
  unfolding audit_seals_once_def page_at [OF assms(1,2,4)] assms(3)
  by (simp add: Let_def audit_rows_tally seals_of_def absorb_default_left tally_ok)

lemma stored_tables:
  "passport (snd (audit_save_progress env pr db)) = passport db" "seal_outbox (snd (audit_save_progress env pr db)) = seal_outbox db"
  "passport (snd (audit_complete env rp db)) = passport db" "seal_outbox (snd (audit_complete env rp db)) = seal_outbox db"
  by (simp_all add: audit_save_progress_def audit_complete_def Let_def split: option.split)


lemma walk_page:
  assumes "fault_free env" and "distinct (map pp_id (passport db))" and "cf_renewer cfg = None"
    and "walk_at cfg db t slot m w" and "m \<le> length (estate t db)"
  shows "\<exists>ts db'. length ts = length (take (cf_batch cfg) (drop m (estate t db))) \<and>
    passport db' = passport db \<and> seal_outbox db' = seal_outbox db \<and>
    (all_read (cf_sha cfg) (estate t db) \<longrightarrow>
      audit_seals_once env cfg (wk_cursor w) (Some (wk_started_at w)) (wk_rn w) =
      (let page = seals_of (cf_sha cfg) (take (cf_batch cfg) (drop m (estate t db))) in
       (Some (tally (cf_inspector cfg) (zip page ts), if page = [] then None else Some (sp_passport_id (last page))),
        (wk_rn w)\<lparr>rn_budget := MAX_RENEWALS_PER_BATCH, rn_db := db'\<rparr>)))"
proof -
  let ?st = "wk_rn w"
  have w: "wk_started_at w = t" "wk_cursor w = cursor_at m (estate t db)" "passport (rn_db ?st) = passport db"
      "seal_outbox (rn_db ?st) = seal_outbox db" using assms(4) by (auto simp: walk_at_def)
  have e: "estate t (rn_db ?st) = estate t db" by (rule estate_cong [OF w(3,4)])
  let ?page = "seals_of (cf_sha cfg) (take (cf_batch cfg) (drop m (estate t db)))"
  let ?ts = "map (\<lambda>row. cf_row_clock cfg (Suc (tick (rn_db ?st))) (sp_passport_id row)) ?page"
  have zip: "zip ?page ?ts = map (\<lambda>row. (row, cf_row_clock cfg (Suc (tick (rn_db ?st))) (sp_passport_id row))) ?page"
    by (simp add: zip_map2 zip_same_conv_map)
  note once = audit_once_at [of env ?st cfg m t, unfolded e w(3), OF assms(1-3,5)]
  have len: "length ?ts = length (take (cf_batch cfg) (drop m (estate t db)))" if "all_read (cf_sha cfg) (estate t db)"
  proof -
    have "all_read (cf_sha cfg) (take (cf_batch cfg) (drop m (estate t db)))"
      using that by (auto simp: all_read_def list_all_iff dest!: in_set_takeD in_set_dropD)
    from length_seals_of [OF this] show ?thesis by simp
  qed
  show ?thesis
  proof (cases "all_read (cf_sha cfg) (estate t db)")
    case True
    show ?thesis
      using once len [OF True] w(3,4)
      by (intro exI [of _ ?ts] exI [of _ "bump (rn_db ?st)"]) (simp add: zip w(1,2) Let_def del: length_map)
  next
    case False
    then show ?thesis using w(3,4) by (intro exI [of _ "replicate (length (take (cf_batch cfg) (drop m (estate t db)))) 0"] exI [of _ db]) simp
  qed
qed

lemma walk_step:
  assumes "fault_free env" and "distinct (map pp_id (passport db))" and "cf_renewer cfg = None" and "0 < cf_batch cfg"
    and "all_read (cf_sha cfg) (estate t db)" and "walk_at cfg db t slot m w" and "m < length (estate t db)"
  shows "walk_at cfg db t slot (min (length (estate t db)) (m + cf_batch cfg)) (audit_step env cfg w)"
proof -
  let ?e = "estate t db" and ?sha = "cf_sha cfg"
  let ?pg = "take (cf_batch cfg) (drop m ?e)" and ?m = "min (length (estate t db)) (m + cf_batch cfg)"
  from walk_page [OF assms(1,2,3,6)] assms(5,7) obtain ts db1 where ts: "length ts = length ?pg"
      and db1: "passport db1 = passport db" "seal_outbox db1 = seal_outbox db"
      and once: "audit_seals_once env cfg (wk_cursor w) (Some (wk_started_at w)) (wk_rn w) =
        (let page = seals_of ?sha ?pg in
         (Some (tally (cf_inspector cfg) (zip page ts), if page = [] then None else Some (sp_passport_id (last page))),
          (wk_rn w)\<lparr>rn_budget := MAX_RENEWALS_PER_BATCH, rn_db := db1\<rparr>))"
    by (metis (no_types, lifting) less_imp_le)
  have read: "all_read ?sha ?pg" "all_read ?sha (take m ?e)"
    using assms(5) by (auto simp: all_read_def list_all_iff dest!: in_set_takeD in_set_dropD)
  have ne: "?pg \<noteq> []" using assms(4,7) by simp
  then have page: "seals_of ?sha ?pg \<noteq> []" using length_seals_of [OF read(1)] by auto
  have tk: "take ?m ?e = take m ?e @ ?pg"
  proof -
    have "take ?m ?e = take (m + cf_batch cfg) ?e" by (simp add: min_def)
    then show ?thesis by (simp add: take_add)
  qed
  have last: "sp_passport_id (last (seals_of ?sha ?pg)) = pp_id (?e ! (?m - 1))"
  proof -
    have "last ?pg = last (take ?m ?e)" unfolding tk using ne by simp
    also have "\<dots> = ?e ! (?m - 1)" using assms(4,7) by (subst last_conv_nth) (auto simp: min_def)
    finally show ?thesis using last_seal_id [OF read(1) ne] by simp
  qed
  obtain us where us: "length us = m" "wk_walk w = tally (cf_inspector cfg) (zip (seals_of ?sha (take m ?e)) us)"
    using assms(6) by (auto simp: walk_at_def)
  have walk: "absorb (wk_walk w) (tally (cf_inspector cfg) (zip (seals_of ?sha ?pg) ts)) =
      tally (cf_inspector cfg) (zip (seals_of ?sha (take ?m ?e)) (us @ ts))"
    unfolding us(2) tk seals_of_append using length_seals_of [OF read(2)] us(1) assms(7)
    by (simp add: tally_append [symmetric] zip_append)
  have len: "length (us @ ts) = ?m" using us(1) ts assms(7) by (auto simp: min_def)
  have step: "audit_step env cfg w =
      w\<lparr>wk_cursor := cursor_at ?m ?e, wk_walk := tally (cf_inspector cfg) (zip (seals_of ?sha (take ?m ?e)) (us @ ts)),
        wk_rn := wk_rn (audit_step env cfg w)\<rparr>"
    using once page last walk assms(4,7)
    by (simp add: audit_step_def Let_def cursor_at_def)
  have rest: "passport (rn_db (wk_rn (audit_step env cfg w))) = passport db \<and>
      seal_outbox (rn_db (wk_rn (audit_step env cfg w))) = seal_outbox db"
    using once page db1 by (simp add: audit_step_def Let_def with_db_def stored_tables)
  have "wk_started_at (audit_step env cfg w) = wk_started_at w" "wk_log (audit_step env cfg w) = wk_log w"
      "wk_cursor (audit_step env cfg w) = cursor_at ?m ?e"
      "wk_walk (audit_step env cfg w) = tally (cf_inspector cfg) (zip (seals_of ?sha (take ?m ?e)) (us @ ts))"
    by (subst step, simp)+
  with rest len assms(6) show ?thesis unfolding walk_at_def by blast
qed

lemma walk_end:
  assumes "fault_free env" and "distinct (map pp_id (passport db))" and "cf_renewer cfg = None"
    and "all_read (cf_sha cfg) (estate t db)" and "walk_at cfg db t slot (length (estate t db)) w"
  shows "\<exists>ts now. length ts = length (estate t db) \<and>
    wk_log (audit_step env cfg w) = Some (report_of now (tally (cf_inspector cfg) (zip (seals_of (cf_sha cfg) (estate t db)) ts)))"
proof -
  let ?e = "estate t db"
  from walk_page [OF assms(1,2,3,5)] assms(4) obtain db1 where
    "audit_seals_once env cfg (wk_cursor w) (Some (wk_started_at w)) (wk_rn w) =
      (Some (audit_default, None), (wk_rn w)\<lparr>rn_budget := MAX_RENEWALS_PER_BATCH, rn_db := db1\<rparr>)"
    by (auto simp: Let_def seals_of_def map_filter_simps tally_def)
  then have "\<exists>now. wk_log (audit_step env cfg w) = Some (report_of now (wk_walk w))"
    by (auto simp: audit_step_def Let_def log_record_def)
  moreover from assms(5) obtain ts where "length ts = length ?e"
      "wk_walk w = tally (cf_inspector cfg) (zip (seals_of (cf_sha cfg) ?e) ts)"
    by (auto simp: walk_at_def)
  ultimately show ?thesis by metis
qed

lemma walk_steps:
  assumes "fault_free env" and "distinct (map pp_id (passport db))" and "cf_renewer cfg = None" and "0 < cf_batch cfg"
    and "all_read (cf_sha cfg) (estate t db)" and "walk_at cfg db t slot 0 w"
    and "j * cf_batch cfg < length (estate t db) + cf_batch cfg"
  shows "walk_at cfg db t slot (min (length (estate t db)) (j * cf_batch cfg)) ((audit_step env cfg ^^ j) w)"
  using assms(7)
proof (induction j)
  case 0
  then show ?case using assms(6) by simp
next
  case (Suc j)
  let ?n = "length (estate t db)"
  have lt: "j * cf_batch cfg < ?n" using Suc.prems by simp
  then have "min ?n (j * cf_batch cfg) = j * cf_batch cfg" by simp
  with Suc.IH lt have "walk_at cfg db t slot (j * cf_batch cfg) ((audit_step env cfg ^^ j) w)" by simp
  from walk_step [OF assms(1-5) this lt] show ?case by (simp add: add.commute)
qed

lemma passes_bound:
  assumes "0 < b"
  shows "(walk_passes n b - 1) * b < n + b" and "n \<le> (walk_passes n b - 1) * b" and "0 < walk_passes n b"
proof -
  let ?q = "n div b" and ?r = "n mod b"
  have n: "?q * b + ?r = n" by simp
  have r: "?r < b" using assms by simp
  have w: "walk_passes n b - 1 = ?q + (if 0 < ?r then 1 else 0)"
  proof -
    have "max b 1 = b" using assms by simp
    then show ?thesis by (simp add: walk_passes_def Let_def)
  qed
  show "(walk_passes n b - 1) * b < n + b" "n \<le> (walk_passes n b - 1) * b"
    unfolding w using n r assms by (cases "0 < ?r"; simp only: if_True if_False add_mult_distrib mult_1 mult_0 add_0_right; linarith)+
  show "0 < walk_passes n b" by (simp add: walk_passes_def Let_def)
qed


text \<open>
  Property C35 (error). A page of which no seal reads ends the walk. The store skips what it
  cannot read, an empty batch is how a walk says it has reached the end, and the two are not
  told apart: when every seal of the next batch is unreadable, whatever lies behind it, the
  node publishes a completed report of what it had seen so far and starts again.
\<close>

theorem unreadable_page_ends_walk:
  assumes "fault_free env" and "keys_ok db" and "cf_renewer cfg = None" and "m \<le> length (estate t db)"
    and "walk_at cfg db t slot m w"
    and "list_all (\<lambda>p. read_sealed (cf_sha cfg) p = None) (take (cf_batch cfg) (drop m (estate t db)))"
  shows "\<exists>now. wk_log (audit_step env cfg w) = Some (report_of now (wk_walk w)) \<and>
    wk_cursor (audit_step env cfg w) = None \<and> wk_walk (audit_step env cfg w) = audit_default"
proof -
  let ?st = "wk_rn w"
  have w: "wk_started_at w = t" "wk_cursor w = cursor_at m (estate t db)" "passport (rn_db ?st) = passport db"
      "seal_outbox (rn_db ?st) = seal_outbox db" using assms(5) by (auto simp: walk_at_def)
  have e: "estate t (rn_db ?st) = estate t db" by (rule estate_cong [OF w(3,4)])
  have ids: "distinct (map pp_id (passport db))" using assms(2) by (simp add: keys_ok_def)
  have none: "seals_of sha ps = []" if "list_all (\<lambda>p. read_sealed sha p = None) ps" for sha ps
    using that by (induction ps) (simp_all add: seals_of_def map_filter_simps)
  have "audit_seals_once env cfg (wk_cursor w) (Some (wk_started_at w)) ?st =
      (Some (audit_default, None), ?st\<lparr>rn_budget := MAX_RENEWALS_PER_BATCH, rn_db := bump (rn_db ?st)\<rparr>)"
    unfolding w(1,2) using audit_once_at [of env ?st cfg m t, unfolded e w(3), OF assms(1) ids assms(3,4)] none [OF assms(6)]
    by (simp add: Let_def tally_def)
  then show ?thesis by (auto simp: audit_step_def Let_def log_record_def)
qed

text \<open>Stamps: at most the ceiling per batch, and none while paused.\<close>

lemma act_budget:
  assumes "act_on_finding env renewer row now finding st = (finding', st')"
  shows "length (rn_asked st') + rn_budget st' = length (rn_asked st) + rn_budget st"
  using assms renewer_budget(1) [of env _ row now st]
  by (auto simp: act_on_finding_def split: option.splits if_splits prod.splits RenewalOutcome.splits)

lemma audit_row_budget:
  "length (rn_asked (snd (audit_row env inspector renewer row_clock row s))) +
     rn_budget (snd (audit_row env inspector renewer row_clock row s)) =
   length (rn_asked (snd s)) + rn_budget (snd s)"
  by (cases s) (auto simp: audit_row_def Let_def dest: act_budget split: SealBinding.splits SealFinding.splits prod.splits)

lemma audit_rows_budget:
  "length (rn_asked (snd (fold (audit_row env inspector renewer row_clock) rows s))) +
     rn_budget (snd (fold (audit_row env inspector renewer row_clock) rows s)) =
   length (rn_asked (snd s)) + rn_budget (snd s)"
  by (induction rows arbitrary: s) (simp_all add: audit_row_budget)

lemma with_db_simps [simp]: "rn_asked (with_db db rn) = rn_asked rn" "rn_paused_until (with_db db rn) = rn_paused_until rn"
  "rn_db (with_db db rn) = db" "rn_budget (with_db db rn) = rn_budget rn"
  by (simp_all add: with_db_def)

lemma once_budget:
  assumes "audit_seals_once env cfg after before st = (res, st')"
  shows "length (rn_asked st') \<le> length (rn_asked st) + MAX_RENEWALS_PER_BATCH"
proof (cases "seal_sealed_passports env (cf_sha cfg) (cf_batch cfg) after before (rn_db st)")
  case (Pair r db')
  show ?thesis
  proof (cases r)
    case (Inl e)
    with Pair assms show ?thesis by (auto simp: audit_seals_once_def)
  next
    case (Inr batch)
    with Pair assms audit_rows_budget [of env "cf_inspector cfg" "cf_renewer cfg" "cf_row_clock cfg" batch
        "(audit_default, st\<lparr>rn_budget := MAX_RENEWALS_PER_BATCH, rn_db := db'\<rparr>)"]
    show ?thesis by (auto simp: audit_seals_once_def Let_def split: prod.splits)
  qed
qed

text \<open>
  The audit asks the authority for at most twenty stamps a turn,
  however many seals of the batch are due and however the authority answers.
\<close>

theorem audit_turn_stamps:
  "length (rn_asked (wk_rn (audit_step env cfg w))) \<le> length (rn_asked (wk_rn w)) + 20"
proof (cases "audit_seals_once env cfg (wk_cursor w) (Some (wk_started_at w)) (wk_rn w)")
  case (Pair res rn)
  then have "rn_asked (wk_rn (audit_step env cfg w)) = rn_asked rn"
    by (cases res) (auto simp: audit_step_def Let_def split: option.split)
  with once_budget [OF Pair] show ?thesis by (simp add: MAX_RENEWALS_PER_BATCH_def)
qed

subsection \<open>Reports and restarts\<close>

definition report_ok :: "SealAuditReport \<Rightarrow> bool" where
  "report_ok r \<longleftrightarrow>
     rp_checked r = rp_sound r + rp_certificate_failed r + rp_superseded r + rp_broken r + rp_unreadable r \<and>
     rp_archival_due r + rp_archival_lapsed r + rp_archival_unverifiable r \<le> rp_sound r \<and>
     length (rp_broken_passports r) = min 100 (rp_broken r) \<and> rp_truncated r = (100 < rp_broken r) \<and>
     length (rp_renewal_passports r) = min 100 (rp_archival_due r + rp_archival_lapsed r) \<and>
     rp_renewal_truncated r = (100 < rp_archival_due r + rp_archival_lapsed r)"

lemma report_of_ok: "audit_ok walk \<Longrightarrow> report_ok (report_of now walk)"
  by (auto simp: audit_ok_def report_ok_def report_of_def MAX_NAMED_BROKEN_def)

lemma progress_round_trip: "walk_of_progress (progress_of t c walk) = walk"
  by (simp add: walk_of_progress_def progress_of_def)

lemma progress_of_simps: "pr_cursor (progress_of t c walk) = c" "pr_started_at (progress_of t c walk) = t"
  by (simp_all add: progress_of_def)

definition stored_ok :: "odal \<Rightarrow> bool" where
  "stored_ok db \<longleftrightarrow> (case seal_audit_state db of None \<Rightarrow> True
     | Some r \<Rightarrow> (\<forall>p. from_stored (sa_progress r) = Some p \<longrightarrow> audit_ok (walk_of_progress p)) \<and>
         (\<forall>rp. from_stored (sa_report r) = Some rp \<longrightarrow> report_ok rp))"

definition walk_ok :: "walk_state \<Rightarrow> bool" where
  "walk_ok w \<longleftrightarrow> audit_ok (wk_walk w) \<and> (\<forall>r. wk_log w = Some r \<longrightarrow> report_ok r) \<and> stored_ok (rn_db (wk_rn w))"

lemma stored_ok_cong: "seal_audit_state db' = seal_audit_state db \<Longrightarrow> stored_ok db' = stored_ok db"
  by (simp add: stored_ok_def)

lemma stored_ok_writes:
  assumes "stored_ok db"
  shows "audit_ok (walk_of_progress pr) \<Longrightarrow> stored_ok (snd (audit_save_progress env pr db))"
    and "report_ok rp \<Longrightarrow> stored_ok (snd (audit_complete env rp db))"
  using assms
  by (auto simp: stored_ok_def audit_save_progress_def audit_complete_def Let_def split: option.splits)

lemma renewer_store: "renewer_renew env rn row now st = (outcome, st') \<Longrightarrow> seal_audit_state (rn_db st') = seal_audit_state (rn_db st)"
  by (auto simp: renewer_renew_def split: prod.splits sum.splits if_splits dest: seal_replace_only(1) simp: other_tables_def)

lemma audit_row_store:
  "seal_audit_state (rn_db (snd (audit_row env inspector renewer row_clock row s))) = seal_audit_state (rn_db (snd s))"
proof -
  have "seal_audit_state (rn_db st') = seal_audit_state (rn_db st)"
    if "act_on_finding env renewer row now finding st = (finding', st')" for now finding finding' st st'
    using that renewer_store [of env _ row now st]
    by (auto simp: act_on_finding_def split: option.splits if_splits prod.splits RenewalOutcome.splits)
  then show ?thesis
    by (cases s) (auto simp: audit_row_def Let_def split: SealBinding.splits SealFinding.splits prod.splits)
qed

lemma audit_rows_store:
  "seal_audit_state (rn_db (snd (fold (audit_row env inspector renewer row_clock) rows s))) = seal_audit_state (rn_db (snd s))"
  by (induction rows arbitrary: s) (simp_all add: audit_row_store)

lemma once_ok:
  assumes "audit_seals_once env cfg after before st = (res, st')"
  shows "seal_audit_state (rn_db st') = seal_audit_state (rn_db st)"
    and "res = Some (audit, cursor) \<Longrightarrow> audit_ok audit"
proof -
  obtain r db' where r: "seal_sealed_passports env (cf_sha cfg) (cf_batch cfg) after before (rn_db st) = (r, db')" by fastforce
  have db': "db' = bump (rn_db st)"
    using r by (auto simp: seal_sealed_passports_def exec_select_def split: sum.splits)
  show "seal_audit_state (rn_db st') = seal_audit_state (rn_db st)" "res = Some (audit, cursor) \<Longrightarrow> audit_ok audit"
    using assms r db'
      audit_rows_store [of env "cf_inspector cfg" "cf_renewer cfg" "cf_row_clock cfg" _
        "(audit_default, st\<lparr>rn_budget := MAX_RENEWALS_PER_BATCH, rn_db := db'\<rparr>)"]
      audit_ok_rows [of "(audit_default, st\<lparr>rn_budget := MAX_RENEWALS_PER_BATCH, rn_db := db'\<rparr>)" env "cf_inspector cfg"
        "cf_renewer cfg" "cf_row_clock cfg"]
    by (cases r; auto simp: audit_seals_once_def Let_def split: prod.splits; metis fst_conv snd_conv)+
qed

lemma walk_ok_step:
  assumes "walk_ok w"
  shows "walk_ok (audit_step env cfg w)"
proof (cases "audit_seals_once env cfg (wk_cursor w) (Some (wk_started_at w)) (wk_rn w)")
  case (Pair res rn)
  have st: "stored_ok (rn_db rn)" using assms once_ok(1) [OF Pair] by (simp add: walk_ok_def stored_ok_def)
  show ?thesis
  proof (cases res)
    case None
    with Pair assms st show ?thesis by (simp add: audit_step_def walk_ok_def)
  next
    case (Some an)
    obtain audit cursor where an: "an = (audit, cursor)" by fastforce
    have a: "audit_ok (absorb (wk_walk w) audit)"
      using assms once_ok(2) [OF Pair, of audit cursor] Some an by (auto simp: walk_ok_def intro: audit_ok_absorb)
    show ?thesis
      using Pair Some an a assms st report_of_ok [OF a] stored_ok_writes [OF st]
      by (cases cursor) (auto simp: audit_step_def Let_def walk_ok_def log_record_def progress_round_trip)
  qed
qed

lemma walk_ok_boot:
  assumes "stored_ok (rn_db rn)"
  shows "walk_ok (audit_boot env cfg rn)"
  using assms
  by (auto simp: audit_boot_def audit_load_def Let_def walk_ok_def stored_ok_def log_record_def
      split: option.splits)

text \<open>
  The states of the task: it starts on a database with no stored audit, turns, is replaced by
  a new process on the same database, and other tasks write everything but its own row.
\<close>

inductive audit_reachable :: "pg_env \<Rightarrow> audit_cfg \<Rightarrow> walk_state \<Rightarrow> bool" for env cfg where
  first_boot: "seal_audit_state (rn_db rn) = None \<Longrightarrow> audit_reachable env cfg (audit_boot env cfg rn)"
| turn: "audit_reachable env cfg w \<Longrightarrow> audit_reachable env cfg (audit_step env cfg w)"
| restart: "audit_reachable env cfg w \<Longrightarrow> rn_db rn = rn_db (wk_rn w) \<Longrightarrow> audit_reachable env cfg (audit_boot env cfg rn)"
| others: "audit_reachable env cfg w \<Longrightarrow> seal_audit_state db = seal_audit_state (rn_db (wk_rn w)) \<Longrightarrow>
    audit_reachable env cfg (w\<lparr>wk_rn := with_db db (wk_rn w)\<rparr>)"

lemma audit_reachable_ok: "audit_reachable env cfg w \<Longrightarrow> walk_ok w"
proof (induction rule: audit_reachable.induct)
  case (first_boot rn)
  then show ?case by (intro walk_ok_boot) (simp add: stored_ok_def)
next
  case (turn w)
  then show ?case by (intro walk_ok_step)
next
  case (restart w rn)
  then show ?case by (intro walk_ok_boot) (simp add: walk_ok_def)
next
  case (others w db)
  then show ?case using stored_ok_cong [of db "rn_db (wk_rn w)"] by (simp add: walk_ok_def)
qed

text \<open>
  A published report adds up, through any number of turns, failures,
  renewals and restarts: the seals opened are exactly the sound, the certificate failures, the
  superseded, the broken and the unreadable ones; the archival findings are among the sound;
  and each list is complete up to its cap of a hundred, its flag saying whether it was cut.
\<close>

theorem audit_report_adds_up:
  assumes "audit_reachable env cfg w" and "wk_log w = Some r"
  shows "report_ok r"
  using audit_reachable_ok [OF assms(1)] assms(2) by (simp add: walk_ok_def)

text \<open>
  A restart costs nothing. With a store and a database that answers, the
  process that takes over after a turn stands where the old one stood: the same position, the
  same totals, the same published report, and the same bound on what the walk is about unless
  a new walk was just begun.
\<close>

theorem audit_survives_restart:
  assumes "fault_free env" and "cf_store cfg"
    and "Option.bind (seal_audit_state (rn_db (wk_rn w))) (\<lambda>r. from_stored (sa_report r)) = wk_log w"
    and "w' = audit_step env cfg w" and "w'' = audit_boot env cfg (wk_rn w')"
  shows "wk_cursor w'' = wk_cursor w' \<and> wk_walk w'' = wk_walk w' \<and> wk_log w'' = wk_log w' \<and>
    (wk_cursor w' \<noteq> None \<longrightarrow> wk_started_at w'' = wk_started_at w')"
proof -
  have f: "fault_at env n = None" for n using assms(1) by (simp add: fault_free_def)
  obtain res rn where once: "audit_seals_once env cfg (wk_cursor w) (Some (wk_started_at w)) (wk_rn w) = (res, rn)" by fastforce
  have state: "seal_audit_state (rn_db rn) = seal_audit_state (rn_db (wk_rn w))" by (rule once_ok(1) [OF once])
  have "res \<noteq> None"
    using once assms(1) by (auto simp: audit_seals_once_def seal_sealed_passports_def exec_select_fault_free Let_def split: prod.splits)
  then obtain audit cursor where res: "res = Some (audit, cursor)" by auto
  show ?thesis
  proof (cases cursor)
    case None
    then show ?thesis unfolding assms(4,5)
      by (auto simp: audit_step_def once res Let_def assms(2) audit_complete_def f audit_boot_def audit_load_def log_record_def
          split: option.splits)
  next
    case (Some c)
    have "from_stored (sa_report r) = wk_log w" if "seal_audit_state (rn_db rn) = Some r" for r
      using assms(3) that state by simp
    moreover have "wk_log w = None" if "seal_audit_state (rn_db rn) = None"
      using assms(3) that state by simp
    ultimately show ?thesis using Some unfolding assms(4,5)
      by (auto simp: audit_step_def once res Let_def assms(2) audit_save_progress_def f audit_boot_def audit_load_def log_record_def
          progress_round_trip progress_of_simps split: option.splits)
  qed
qed

subsection \<open>Witnesses\<close>

definition sample_cfg :: audit_cfg where
  "sample_cfg = \<lparr>cf_sha = (\<lambda>_. sample_digest), cf_inspector = cades_inspector sample_lib, cf_renewer = None,
     cf_row_clock = (\<lambda>_ _. 0), cf_clock = of_nat, cf_batch = 1, cf_store = True\<rparr>"

lemma sample_cfg_simps:
  "cf_sha sample_cfg = (\<lambda>_. sample_digest)" "cf_renewer sample_cfg = None" "cf_batch sample_cfg = 1" "cf_store sample_cfg"
  by (simp_all add: sample_cfg_def)

abbreviation sample_rn :: "odal \<Rightarrow> renewal_state" where
  "sample_rn db \<equiv> \<lparr>rn_budget = 20, rn_paused_until = None, rn_asked = [], rn_db = db\<rparr>"

lemma sample_estate: "estate 1 sample_late_db = passport sample_late_db"
  by (simp add: estate_def sample_late_db_simps auditable_def sealed_row_def new_seal_row_def)

lemma sample_all_read: "all_read (cf_sha sample_cfg) (estate 1 sample_late_db)"
  by (simp add: sample_estate sample_cfg_simps all_read_def sample_late_db_simps read_sealed_def)


text \<open>Two sealed passports, of which the first has a member that does not read.\<close>

definition sample_torn_db :: odal where
  "sample_torn_db = sample_late_db\<lparr>passport :=
     [(hd (passport sample_late_db))\<lparr>pp_seal := Some (SealUnreadable None)\<rparr>, (hd (passport sample_late_db))\<lparr>pp_id := 8\<rparr>]\<rparr>"

lemma sample_torn_keys: "keys_ok sample_torn_db"
  using sample_late_db_ok(1) by (simp add: sample_torn_db_def keys_ok_def sample_late_db_simps)

lemma sample_torn_estate: "estate 1 sample_torn_db = passport sample_torn_db"
  by (simp add: estate_def sample_torn_db_def sample_late_db_simps auditable_def sealed_row_def new_seal_row_def)

theorem unreadable_page_ends_walk_witness:
  "(\<exists>now. wk_log (audit_step sample_env sample_cfg
      \<lparr>wk_cursor = None, wk_walk = audit_default, wk_started_at = 1, wk_log = None, wk_rn = sample_rn sample_torn_db\<rparr>) =
        Some (report_of now audit_default)) \<and>
   read_sealed (cf_sha sample_cfg) (passport sample_torn_db ! 1) \<noteq> None"
proof -
  let ?w = "\<lparr>wk_cursor = None, wk_walk = audit_default, wk_started_at = 1, wk_log = None, wk_rn = sample_rn sample_torn_db\<rparr>"
  have w: "walk_at sample_cfg sample_torn_db 1 None 0 ?w"
    by (simp add: walk_at_def cursor_at_def tally_def)
  have page: "list_all (\<lambda>p. read_sealed (cf_sha sample_cfg) p = None)
      (take (cf_batch sample_cfg) (drop 0 (estate 1 sample_torn_db)))"
    unfolding sample_torn_estate by (simp add: sample_cfg_simps sample_torn_db_def read_sealed_def sample_late_db_simps)
  from unreadable_page_ends_walk [OF sample_env_ok(1) sample_torn_keys sample_cfg_simps(2) _ w page] show ?thesis
    by (auto simp: sample_torn_db_def read_sealed_def sample_late_db_simps)
qed

lemma sample_empty_walk:
  "\<exists>now. wk_log (audit_step sample_env sample_cfg (audit_boot sample_env sample_cfg (sample_rn sample_seal_db))) =
     Some (report_of now audit_default)"
proof -
  let ?db = "bump sample_seal_db"
  let ?w = "audit_boot sample_env sample_cfg (sample_rn sample_seal_db)"
  have w: "?w = \<lparr>wk_cursor = None, wk_walk = audit_default, wk_started_at = 0, wk_log = None, wk_rn = sample_rn ?db\<rparr>"
    by (simp add: audit_boot_def sample_cfg_def audit_load_def sample_seal_db_simps Let_def)
  have e: "estate 0 ?db = []" by (simp add: estate_def sample_seal_db_simps auditable_def)
  have "audit_seals_once sample_env sample_cfg (cursor_at 0 (estate 0 ?db)) (Some 0) (sample_rn ?db) =
      (Some (audit_default, None), sample_rn (bump ?db))"
    using audit_once_at [OF sample_env_ok(1), of "sample_rn ?db" sample_cfg 0 0]
    by (simp add: e sample_seal_db_simps sample_cfg_simps seals_of_def map_filter_simps tally_def Let_def MAX_RENEWALS_PER_BATCH_def)
  then show ?thesis by (auto simp: w audit_step_def Let_def log_record_def cursor_at_def)
qed

theorem audit_report_adds_up_witness:
  "\<exists>r. wk_log (audit_step sample_env sample_cfg (audit_boot sample_env sample_cfg (sample_rn sample_seal_db))) = Some r \<and> report_ok r"
proof -
  let ?w = "audit_step sample_env sample_cfg (audit_boot sample_env sample_cfg (sample_rn sample_seal_db))"
  obtain now where r: "wk_log ?w = Some (report_of now audit_default)" using sample_empty_walk by blast
  have "audit_reachable sample_env sample_cfg ?w"
    by (intro audit_reachable.intros) (simp add: sample_seal_db_simps)
  from audit_report_adds_up [OF this r] r show ?thesis by blast
qed

theorem audit_survives_restart_witness:
  "let w' = audit_step sample_env sample_cfg (audit_boot sample_env sample_cfg (sample_rn sample_seal_db))
   in wk_log (audit_boot sample_env sample_cfg (wk_rn w')) = wk_log w'"
proof -
  let ?w = "audit_boot sample_env sample_cfg (sample_rn sample_seal_db)"
  have "Option.bind (seal_audit_state (rn_db (wk_rn ?w))) (\<lambda>r. from_stored (sa_report r)) = wk_log ?w"
    by (simp add: audit_boot_def sample_cfg_def audit_load_def sample_seal_db_simps Let_def)
  from audit_survives_restart [OF sample_env_ok(1) sample_cfg_simps(4) this refl refl] show ?thesis by (simp add: Let_def)
qed

end
