(* ===== verification/Auth_Types.thy ===== *)
theory Auth_Types
  imports DPP_Prelude
begin

text \<open>
  Who a caller is and what it may do: the scopes of \<^verbatim>\<open>dpp-types/src/api_key.rs\<close>, the context and
  errors of \<^verbatim>\<open>dpp-types/src/auth.rs\<close>, the scope gates of \<^verbatim>\<open>dpp-vault/src/middleware/scope.rs\<close> and
  their in-handler twins of \<^verbatim>\<open>handlers/error.rs\<close>. A refusal is a problem document with its status
  and detail; what a handler answers otherwise is the type argument of \<open>reply\<close>.
\<close>

datatype 'a reply = Refusal nat string | Answer 'a

datatype ApiKeyScope = ScopeRead | ScopeWrite | ScopeAdmin

definition is_admin :: "ApiKeyScope \<Rightarrow> bool" where
  "is_admin s = (case s of ScopeAdmin \<Rightarrow> True | _ \<Rightarrow> False)"

definition can_write :: "ApiKeyScope \<Rightarrow> bool" where
  "can_write s = (case s of ScopeWrite \<Rightarrow> True | ScopeAdmin \<Rightarrow> True | ScopeRead \<Rightarrow> False)"

definition scope_as_str :: "ApiKeyScope \<Rightarrow> string" where
  "scope_as_str s = (case s of ScopeRead \<Rightarrow> ''read'' | ScopeWrite \<Rightarrow> ''write'' | ScopeAdmin \<Rightarrow> ''admin'')"

definition from_scopes :: "string list \<Rightarrow> ApiKeyScope" where
  "from_scopes scopes =
     (if list_ex (\<lambda>s. s = ''admin'') scopes then ScopeAdmin
      else if list_ex (\<lambda>s. s = ''write'') scopes then ScopeWrite
      else ScopeRead)"

record AuthContext =
  auth_user_id :: string
  auth_scope :: ApiKeyScope
  auth_key_id :: "uuid option"

datatype AuthError = AuthMissing | AuthInvalid string | AuthSuspended

definition internal_refusal :: "'a reply" where
  "internal_refusal = Refusal 500 ''An internal error occurred.''"

definition forbidden :: "string \<Rightarrow> 'a reply" where
  "forbidden scope = Refusal 403 (''This operation requires '' @ (if scope = ''admin'' then ''an'' else ''a'') @ '' '' @
     scope @ ''-scoped credential.'')"

definition require_admin :: "AuthContext \<Rightarrow> 'a reply option" where
  "require_admin auth = (if is_admin (auth_scope auth) then None else Some (forbidden ''admin''))"

definition require_write :: "AuthContext \<Rightarrow> 'a reply option" where
  "require_write auth = (if can_write (auth_scope auth) then None else Some (forbidden ''write''))"

text \<open>The extractors run before the body is read; a request without a context is a wiring fault.\<close>

definition RequireWrite :: "AuthContext option \<Rightarrow> 'a reply + AuthContext" where
  "RequireWrite context =
     (case context of
        None \<Rightarrow> Inl internal_refusal
      | Some auth \<Rightarrow> if can_write (auth_scope auth) then Inr auth else Inl (forbidden ''write''))"

definition RequireAdmin :: "AuthContext option \<Rightarrow> 'a reply + AuthContext" where
  "RequireAdmin context =
     (case context of
        None \<Rightarrow> Inl internal_refusal
      | Some auth \<Rightarrow> if is_admin (auth_scope auth) then Inr auth else Inl (forbidden ''admin''))"

lemma scope_order: "is_admin s \<Longrightarrow> can_write s"
  by (cases s) (simp_all add: is_admin_def can_write_def)

lemma require_admin_None: "require_admin auth = None \<longleftrightarrow> is_admin (auth_scope auth)"
  by (simp add: require_admin_def)

lemma RequireAdmin_Inr: "RequireAdmin context = Inr auth \<longleftrightarrow> context = Some auth \<and> is_admin (auth_scope auth)"
  by (auto simp: RequireAdmin_def split: option.splits if_splits)

text \<open>A stored scope reads back, and only an explicit grant reads as more than reading.\<close>

lemma scope_roundtrip: "from_scopes [scope_as_str s] = s"
  by (cases s) (simp_all add: from_scopes_def scope_as_str_def)

lemma from_scopes_admin: "from_scopes scopes = ScopeAdmin \<longleftrightarrow> ''admin'' \<in> set scopes"
  by (auto simp: from_scopes_def list_ex_iff)

end
