(* ===== verification/Seal_Routes.thy ===== *)
theory Seal_Routes
  imports Seal_Audit Auth_Types
begin

text \<open>
  The seal routes of the vault (\<^verbatim>\<open>dpp-vault/src/handlers/seal.rs\<close>) with the guards of
  \<^verbatim>\<open>handlers/error.rs\<close> and the scopes of \<^verbatim>\<open>dpp-types/src/api_key.rs\<close>: reading a passport's seal,
  repairing a broken one, and the operator's summary. The parser of identifiers, the reading
  of a stored document, the transfer chain and the trust tier are fields of \<open>seal_host\<close>.
\<close>

subsection \<open>Replies\<close>

datatype SealCoverage = CoverageCurrent | CoverageSuperseded | CoverageUnknown

record SealResponse =
  sv_seal :: SealedEnvelope
  sv_transferred :: bool
  sv_archival :: ArchivalFreshness
  sv_current_jws :: string
  sv_current_payload_hash :: string
  sv_sealed_payload_hash :: "string option"
  sv_coverage :: SealCoverage
  sv_binding :: SealBinding
  sv_validation :: SealValidationStatus
  sv_certificate :: "CertificateStanding option"

datatype SealRepairAction = Rearmed | RepairQueued

record SealSummaryResponse =
  sm_unsealed_published :: nat
  sm_unsealed_terminal :: nat
  sm_pending :: nat
  sm_sealed :: nat
  sm_exhausted :: nat
  sm_sealing_configured :: bool
  sm_trust_mode :: "string option"
  sm_audit :: "SealAuditReport option"

datatype seal_answer =
    SealFound SealResponse
  | RepairDone SealRepairAction string
  | SealSummary SealSummaryResponse

type_synonym seal_reply = "seal_answer reply"

subsection \<open>The service behind the routes\<close>

record seal_host =
  sh_parse_uuid :: "string \<Rightarrow> uuid option"
  sh_doc_error :: "passport_rec \<Rightarrow> dpp_error option"
  sh_sha :: "string \<Rightarrow> string"
  sh_outbox :: bool
  sh_inspector :: "SealInspector option"
  sh_clock :: "nat \<Rightarrow> time"
  sh_transfers :: "(uuid \<Rightarrow> string + nat option) option"
  sh_trust_mode :: "string option"
  sh_audit_log :: SealAuditLog
  sh_statuses :: "string list"
  sh_can_transition_to :: "string \<Rightarrow> string \<Rightarrow> bool"

definition parse_passport_id :: "seal_host \<Rightarrow> string \<Rightarrow> seal_reply + uuid" where
  "parse_passport_id host s =
     (case sh_parse_uuid host s of Some u \<Rightarrow> Inr u | None \<Rightarrow> Inl (Refusal 400 ''Invalid dppId''))"

text \<open>A read inside its own transaction; a document with a seal member that does not read is an error.\<close>

definition read_doc_seal :: "seal_host \<Rightarrow> passport_rec \<Rightarrow> dpp_error + (string option \<times> SealedEnvelope option)" where
  "read_doc_seal host p =
     (case sh_doc_error host p of
        Some e \<Rightarrow> Inl e
      | None \<Rightarrow>
          (case pp_seal p of
             None \<Rightarrow> Inr (pp_jws p, None)
           | Some (SealDoc e) \<Rightarrow> Inr (pp_jws p, Some e)
           | Some (SealUnreadable _) \<Rightarrow> Inl (Serialisation ''passport'')))"

definition service_find_by_id ::
  "pg_env \<Rightarrow> seal_host \<Rightarrow> uuid \<Rightarrow> odal \<Rightarrow> (dpp_error + (string option \<times> SealedEnvelope option)) \<times> odal" where
  "service_find_by_id env host pid db =
     (let n = tick db in
      case fault_at env n of
        Some e \<Rightarrow> (Inl (db_err env e), bump db)
      | None \<Rightarrow>
          (case fault_at env (n + 1) of
             Some e \<Rightarrow> (Inl (db_err env e), bump (bump db))
           | None \<Rightarrow>
               (case fault_at env (n + 2) of
                  Some e \<Rightarrow> (Inl (db_err env e), bump (bump (bump db)))
                | None \<Rightarrow>
                    ((case row_at pp_id pid (passport db) of
                        None \<Rightarrow> Inl (NotFound (fmt_uuid env pid))
                      | Some p \<Rightarrow> read_doc_seal host p), bump (bump (bump db))))))"

definition coverage_of :: "string option \<Rightarrow> string \<Rightarrow> SealCoverage" where
  "coverage_of sealed current =
     (case sealed of
        Some s \<Rightarrow> if s = current then CoverageCurrent else CoverageSuperseded
      | None \<Rightarrow> CoverageUnknown)"

subsection \<open>Reading a seal\<close>

definition no_seal_message :: string where
  "no_seal_message = ''This passport carries no qualified seal. It may not be published, or its seal may still be queued.''"

definition build_seal_response ::
  "seal_host \<Rightarrow> nat \<Rightarrow> SealedEnvelope \<Rightarrow> string \<Rightarrow> string option \<Rightarrow> bool \<Rightarrow> SealResponse" where
  "build_seal_response host n seal jws sealed_payload_hash transferred =
     (let payload_hash = sh_sha host jws; now = sh_clock host n;
          binding = (case sh_inspector host of None \<Rightarrow> UnknownBinding | Some i \<Rightarrow> binding_of i seal payload_hash);
          certificate = Option.bind (sh_inspector host) (\<lambda>i. certificate_standing i seal now)
      in \<lparr>sv_seal = seal, sv_transferred = transferred,
          sv_archival = (case sh_inspector host of None \<Rightarrow> UnknownFreshness | Some i \<Rightarrow> archival_freshness i seal now),
          sv_current_jws = jws, sv_current_payload_hash = payload_hash, sv_sealed_payload_hash = sealed_payload_hash,
          sv_coverage = coverage_of sealed_payload_hash payload_hash, sv_binding = binding,
          sv_validation = validation_of binding certificate, sv_certificate = certificate\<rparr>)"

definition seal_handler :: "pg_env \<Rightarrow> seal_host \<Rightarrow> string \<Rightarrow> odal \<Rightarrow> seal_reply \<times> odal" where
  "seal_handler env host dpp_id db =
     (case parse_passport_id host dpp_id of
        Inl r \<Rightarrow> (r, db)
      | Inr pid \<Rightarrow>
          (case service_find_by_id env host pid db of
             (Inl (NotFound _), db1) \<Rightarrow> (Refusal 404 ''DPP not found.'', db1)
           | (Inl _, db1) \<Rightarrow> (internal_refusal, db1)
           | (Inr (_, None), db1) \<Rightarrow> (Refusal 404 no_seal_message, db1)
           | (Inr (None, Some seal), db1) \<Rightarrow> (internal_refusal, db1)
           | (Inr (Some jws, Some seal), db1) \<Rightarrow>
               (case (if sh_outbox host then seal_sealed_digest env pid db1 else (Inr None, db1)) of
                  (Inl _, db2) \<Rightarrow> (internal_refusal, db2)
                | (Inr sealed, db2) \<Rightarrow>
                    (case (case sh_transfers host of None \<Rightarrow> Inr None | Some chain \<Rightarrow> chain pid) of
                       Inl _ \<Rightarrow> (internal_refusal, db2)
                     | Inr transfers \<Rightarrow>
                         (Answer (SealFound (build_seal_response host (tick db2) seal jws sealed
                            (case transfers of Some c \<Rightarrow> 0 < c | None \<Rightarrow> False))), db2)))))"

subsection \<open>Repairing a seal\<close>

text \<open>The refusals of the repair route, each a 422.\<close>

datatype repair_refusal =
    NoSeal | NoBackend | NoInspector | NoSignature | CertificateInvalid | SealSound | SealSuperseded | SealUnknown

fun refusal_text :: "repair_refusal \<Rightarrow> string" where
  "refusal_text NoSeal = ''This passport carries no seal, so there is nothing to repair. A published passport '' @
     ''with no seal is queued by the node's own sweep, which costs nothing extra because no seal was ever bought for it.''"
| "refusal_text NoBackend = ''This node has no sealing backend configured, so a queued repair would never drain. '' @
     ''Configure SEAL_PROVIDER before repairing.''"
| "refusal_text NoInspector = ''This node cannot read seals, so it cannot establish that this one is broken. '' @
     ''Repairing on an unchecked seal would buy a second seal for an artifact that may be perfectly sound.''"
| "refusal_text NoSignature = ''This passport carries a seal but no signature, so there is no digest for a '' @
     ''replacement to cover. That combination should not occur; repairing it would queue a seal over nothing.''"
| "refusal_text CertificateInvalid = ''This seal verifies, and the certificate that made it was not valid at the '' @
     ''time -- revoked, or outside its validity window, with an attested time to prove it. Re-sealing does not repair '' @
     ''that: the replacement would come from the same certificate. The passport needs a seal from a credential that was '' @
     ''valid, which is a provider question rather than a queue one.''"
| "refusal_text SealSound = ''This seal verifies and covers this passport's current signature. There is nothing to '' @
     ''repair, and re-sealing would buy a second seal for a sound one.''"
| "refusal_text SealSuperseded = ''This seal is intact and covers a different signature -- the passport was '' @
     ''re-published after it was made. The signature now needing a seal has its own queue row from that re-publish; '' @
     ''there is nothing here to repair.''"
| "refusal_text SealUnknown = ''This seal could not be read, so it cannot be shown to be broken. An unreadable seal is '' @
     ''not the same as a worthless one -- it may be a format this node does not parse.''"

definition repair_refused :: "repair_refusal \<Rightarrow> seal_reply" where
  "repair_refused r = Refusal 422 (refusal_text r)"

text \<open>What establishes that a repair is due: the digest to seal, or the reason not to.\<close>

definition repair_guard :: "seal_host \<Rightarrow> nat \<Rightarrow> string option \<times> SealedEnvelope option \<Rightarrow> repair_refusal + string" where
  "repair_guard host n doc =
     (case snd doc of
        None \<Rightarrow> Inl NoSeal
      | Some seal \<Rightarrow>
          if \<not> sh_outbox host then Inl NoBackend
          else (case sh_inspector host of
                  None \<Rightarrow> Inl NoInspector
                | Some i \<Rightarrow>
                    (case map_option (sh_sha host) (fst doc) of
                       None \<Rightarrow> Inl NoSignature
                     | Some payload_hash \<Rightarrow>
                         (case binding_of i seal payload_hash of
                            NotIntact \<Rightarrow> Inr payload_hash
                          | CoversThisSignature \<Rightarrow>
                              if indication (validation_of CoversThisSignature (certificate_standing i seal (sh_clock host n))) = TotalFailed
                              then Inl CertificateInvalid else Inl SealSound
                          | CoversAnotherDigest _ \<Rightarrow> Inl SealSuperseded
                          | UnknownBinding \<Rightarrow> Inl SealUnknown))))"

definition seal_repair_handler ::
  "pg_env \<Rightarrow> seal_host \<Rightarrow> AuthContext \<Rightarrow> string \<Rightarrow> odal \<Rightarrow> seal_reply \<times> odal" where
  "seal_repair_handler env host auth dpp_id db =
     (case require_admin auth of
        Some r \<Rightarrow> (r, db)
      | None \<Rightarrow>
          (case parse_passport_id host dpp_id of
             Inl r \<Rightarrow> (r, db)
           | Inr pid \<Rightarrow>
               (case service_find_by_id env host pid db of
                  (Inl (NotFound _), db1) \<Rightarrow> (Refusal 404 ''DPP not found.'', db1)
                | (Inl _, db1) \<Rightarrow> (internal_refusal, db1)
                | (Inr doc, db1) \<Rightarrow>
                    (case repair_guard host (tick db1) doc of
                       Inl r \<Rightarrow> (repair_refused r, db1)
                     | Inr payload_hash \<Rightarrow>
                         (case seal_sealed_digest env pid db1 of
                            (Inl _, db2) \<Rightarrow> (internal_refusal, db2)
                          | (Inr d, db2) \<Rightarrow>
                              if d = Some payload_hash then
                                (case seal_rearm_sealed env pid payload_hash
                                        (''repaired by '' @ auth_user_id auth @ '': stored seal did not verify'') db2 of
                                   (Inl _, db3) \<Rightarrow> (internal_refusal, db3)
                                 | (Inr True, db3) \<Rightarrow> (Answer (RepairDone Rearmed payload_hash), db3)
                                 | (Inr False, db3) \<Rightarrow> (Answer (RepairDone RepairQueued payload_hash), db3))
                              else
                                (case seal_enqueue env pid payload_hash db2 of
                                   (Inl _, db3) \<Rightarrow> (internal_refusal, db3)
                                 | (Inr _, db3) \<Rightarrow> (Answer (RepairDone RepairQueued payload_hash), db3)))))))"

subsection \<open>The summary\<close>

definition seal_summary_handler :: "pg_env \<Rightarrow> seal_host \<Rightarrow> odal \<Rightarrow> seal_reply \<times> odal" where
  "seal_summary_handler env host db =
     (if \<not> sh_outbox host then
        (Answer (SealSummary \<lparr>sm_unsealed_published = 0, sm_unsealed_terminal = 0, sm_pending = 0, sm_sealed = 0,
           sm_exhausted = 0, sm_sealing_configured = False, sm_trust_mode = sh_trust_mode host,
           sm_audit = sh_audit_log host\<rparr>), db)
      else (case seal_status_counts env db of
              (Inl _, db1) \<Rightarrow> (internal_refusal, db1)
            | (Inr counts, db1) \<Rightarrow>
                (case seal_unsealed_published_counts env (sh_statuses host) (sh_can_transition_to host) id db1 of
                   (Inl _, db2) \<Rightarrow> (internal_refusal, db2)
                 | (Inr unsealed, db2) \<Rightarrow>
                     (Answer (SealSummary \<lparr>sm_unsealed_published = uc_live unsealed, sm_unsealed_terminal = uc_terminal unsealed,
                        sm_pending = slc_pending counts, sm_sealed = slc_sealed counts, sm_exhausted = slc_exhausted counts,
                        sm_sealing_configured = True, sm_trust_mode = sh_trust_mode host,
                        sm_audit = sh_audit_log host\<rparr>), db2))))"

subsection \<open>Properties\<close>

lemma find_by_id_only: "service_find_by_id env host pid db = (res, db') \<Longrightarrow> \<exists>n. db' = (bump ^^ n) db"
  by (auto simp: service_find_by_id_def Let_def split: option.splits
      intro: exI [of _ 1] exI [of _ 2] exI [of _ 3] simp: numeral_2_eq_2 numeral_3_eq_3)

lemma bumps_same:
  "seal_outbox ((bump ^^ n) db) = seal_outbox db" "passport ((bump ^^ n) db) = passport db"
  "keys_ok ((bump ^^ n) db) = keys_ok db" "ledger ((bump ^^ n) db) = ledger db"
  "seal_statuses_ok ((bump ^^ n) db) = seal_statuses_ok db"
  by (induction n) (simp_all add: keys_ok_def seal_statuses_ok_def)

lemma find_by_id_found:
  "service_find_by_id env host pid db = (Inr doc, db') \<Longrightarrow>
   \<exists>p. row_at pp_id pid (passport db) = Some p \<and> read_doc_seal host p = Inr doc"
  by (auto simp: service_find_by_id_def Let_def split: option.splits)

lemma repair_guard_broken:
  "repair_guard host n doc = Inr h \<Longrightarrow>
   \<exists>jws seal i. doc = (Some jws, Some seal) \<and> sh_outbox host \<and> sh_inspector host = Some i \<and>
     h = sh_sha host jws \<and> binding_of i seal h = NotIntact"
  by (cases doc) (auto simp: repair_guard_def split: option.splits if_splits SealBinding.splits)

lemma sealed_digest_only: "seal_sealed_digest env pid db = (res, db') \<Longrightarrow> db' = bump db"
  by (auto simp: seal_sealed_digest_def split: option.splits)

text \<open>The two ways a repair that passed its guard writes.\<close>

lemma repair_writes:
  assumes "keys_ok db" and "seal_statuses_ok db" and "seal_repair_handler env host auth dpp_id db = (reply, db')"
    and "ledger db' \<noteq> ledger db"
  shows "\<exists>pid doc db1 n h. is_admin (auth_scope auth) \<and> sh_parse_uuid host dpp_id = Some pid \<and>
    service_find_by_id env host pid db = (Inr doc, db1) \<and> repair_guard host n doc = Inr h \<and>
    ledger db' = (ledger db)((pid, h) \<mapsto> Queued)"
proof -
  have admin: "is_admin (auth_scope auth)"
    using assms(3,4) by (auto simp: seal_repair_handler_def require_admin_def)
  obtain pid where pid: "sh_parse_uuid host dpp_id = Some pid"
    using assms(3,4) admin
    by (cases "sh_parse_uuid host dpp_id") (auto simp: seal_repair_handler_def require_admin_def parse_passport_id_def)
  obtain found db1 where f: "service_find_by_id env host pid db = (found, db1)" by fastforce
  from find_by_id_only [OF f] obtain n where n: "db1 = (bump ^^ n) db" by blast
  have same1: "ledger db1 = ledger db" unfolding n by (rule bumps_same)
  note unf = assms(3) [unfolded seal_repair_handler_def, simplified, unfolded require_admin_def, simplified admin, simplified,
      unfolded parse_passport_id_def pid, simplified, unfolded f, simplified]
  obtain doc where doc: "found = Inr doc"
    using unf same1 assms(4) by (cases found) (auto split: dpp_error.splits)
  obtain h where h: "repair_guard host (tick db1) doc = Inr h"
    using unf same1 assms(4) doc by (cases "repair_guard host (tick db1) doc") auto
  obtain d db2 where d: "seal_sealed_digest env pid db1 = (d, db2)" by fastforce
  have db2: "db2 = (bump ^^ Suc n) db" using sealed_digest_only [OF d] n by simp
  have k2: "keys_ok db2" "seal_statuses_ok db2" and same2: "ledger db2 = ledger db"
    unfolding db2 using assms(1,2) bumps_same by blast+
  have "ledger db' = ledger db2 \<or> ledger db' = spec_reorder (pid, h) (ledger db2) \<or> ledger db' = spec_request (pid, h) (ledger db2)"
  proof (cases d)
    case (Inl e)
    with unf doc h d show ?thesis by simp
  next
    case (Inr dg)
    let ?reason = "''repaired by '' @ auth_user_id auth @ '': stored seal did not verify''"
    show ?thesis
    proof (cases "dg = Some h")
      case True
      obtain r db3 where r: "seal_rearm_sealed env pid h ?reason db2 = (r, db3)" by fastforce
      have "db' = db3" using unf doc h d Inr True r by (auto split: sum.splits bool.splits)
      with rearm_refines [OF k2(1) r] show ?thesis by auto
    next
      case False
      obtain r db3 where r: "seal_enqueue env pid h db2 = (r, db3)" by fastforce
      have "db' = db3" using unf doc h d Inr False r by (auto split: sum.splits)
      with enqueue_refines [OF k2 r] show ?thesis by (auto split: if_splits)
    qed
  qed
  then have "ledger db' = (ledger db)((pid, h) \<mapsto> Queued)"
    using assms(4) same2 by (auto simp: spec_reorder_def spec_request_def split: if_splits)
  with admin pid f doc h show ?thesis by blast
qed

text \<open>
  Property C28 (safety). A seal is bought again only when the one in hand is worthless.
  Whatever the database does, the repair route changes the queue for an administrator alone,
  only when the stored seal, opened at that moment, does not verify, and then only by queueing
  the digest of the passport's current signature. A sound, superseded or unreadable seal and a
  failed certificate change nothing.
\<close>

theorem repair_needs_broken_seal:
  assumes "keys_ok db" and "seal_statuses_ok db" and "seal_repair_handler env host auth dpp_id db = (reply, db')"
    and "ledger db' \<noteq> ledger db"
  shows "\<exists>pid p jws seal i. is_admin (auth_scope auth) \<and> sh_parse_uuid host dpp_id = Some pid \<and>
    row_at pp_id pid (passport db) = Some p \<and> pp_jws p = Some jws \<and> pp_seal p = Some (SealDoc seal) \<and>
    sh_inspector host = Some i \<and> binding_of i seal (sh_sha host jws) = NotIntact \<and>
    ledger db' = (ledger db)((pid, sh_sha host jws) \<mapsto> Queued)"
proof -
  from repair_writes [OF assms] obtain pid doc db1 n h where
    w: "is_admin (auth_scope auth)" "sh_parse_uuid host dpp_id = Some pid" "service_find_by_id env host pid db = (Inr doc, db1)"
      "repair_guard host n doc = Inr h" "ledger db' = (ledger db)((pid, h) \<mapsto> Queued)" by blast
  from find_by_id_found [OF w(3)] obtain p where p: "row_at pp_id pid (passport db) = Some p" "read_doc_seal host p = Inr doc"
    by blast
  from repair_guard_broken [OF w(4)] obtain jws seal i where
    g: "doc = (Some jws, Some seal)" "sh_inspector host = Some i" "h = sh_sha host jws" "binding_of i seal h = NotIntact" by blast
  from p(2) g(1) have "pp_jws p = Some jws" "pp_seal p = Some (SealDoc seal)"
    by (auto simp: read_doc_seal_def split: option.splits stored_seal.splits)
  with w(1,2,5) p(1) g(2-4) show ?thesis by blast
qed

text \<open>
  A repair can promise what nothing will do. When an older signature was
  sealed last, the newest closed row is not that of the current signature, so the route
  queues the current digest the ordinary way; but that digest counts as attested, queueing it
  changes nothing, and the answer is still that a replacement has been queued.
\<close>

theorem repair_queues_nothing:
  assumes "fault_free env" and "keys_ok db" and "seal_statuses_ok db" and "is_admin (auth_scope auth)"
    and "sh_parse_uuid host dpp_id = Some pid" and "row_at pp_id pid (passport db) = Some p" and "sh_doc_error host p = None"
    and "pp_jws p = Some jws" and "pp_seal p = Some (SealDoc seal)" and "sh_outbox host" and "sh_inspector host = Some i"
    and "binding_of i seal (sh_sha host jws) = NotIntact" and "ledger db (pid, sh_sha host jws) = Some Attested"
    and "newest_sealed pid (seal_outbox db) = Some s" and "sl_payload_hash s \<noteq> sh_sha host jws"
    and "is_digest (sh_sha host jws)"
  shows "case seal_repair_handler env host auth dpp_id db of (reply, db') \<Rightarrow>
    reply = Answer (RepairDone RepairQueued (sh_sha host jws)) \<and> ledger db' = ledger db"
proof -
  have f: "fault_at env n = None" for n using assms(1) by (simp add: fault_free_def)
  let ?db1 = "bump (bump (bump db))" and ?h = "sh_sha host jws"
  have find: "service_find_by_id env host pid db = (Inr (Some jws, Some seal), ?db1)"
    using assms(6-9) by (simp add: service_find_by_id_def f read_doc_seal_def)
  have guard: "repair_guard host n (Some jws, Some seal) = Inr ?h" for n
    using assms(10-12) by (simp add: repair_guard_def)
  have dig: "seal_sealed_digest env pid ?db1 = (Inr (Some (sl_payload_hash s)), bump ?db1)"
    using assms(14) by (simp add: seal_sealed_digest_def f)
  have keys: "keys_ok (bump ?db1)" "seal_statuses_ok (bump ?db1)" "ledger (bump ?db1) = ledger db"
    using assms(2,3) by (simp_all add: keys_ok_def seal_statuses_ok_def)
  obtain r db3 where e: "seal_enqueue env pid ?h (bump ?db1) = (r, db3)" by fastforce
  have "(pid, ?h) \<in> seal_key ` set (seal_outbox db)"
    using assms(13) row_at_None [of seal_key "(pid, ?h)" "seal_outbox db"] by (auto simp: ledger_def)
  then have r: "r = Inr ()" using e assms(16) by (auto simp: seal_enqueue_def Let_def f)
  have "ledger db3 = ledger db"
    using enqueue_refines [OF keys(1,2) e] r keys(3) assms(13) by (simp add: spec_request_def)
  then show ?thesis
    using assms(4,5,15) find guard dig e r
    by (simp add: seal_repair_handler_def require_admin_def parse_passport_id_def)
qed

definition sample_host :: seal_host where
  "sample_host = \<lparr>sh_parse_uuid = (\<lambda>_. Some 7), sh_doc_error = (\<lambda>_. None), sh_sha = (\<lambda>_. replicate 64 (CHR ''b'')),
     sh_outbox = True,
     sh_inspector = Some \<lparr>binding_of = (\<lambda>_ _. NotIntact), archival_freshness = (\<lambda>_ _. NotArchived), certificate_standing = (\<lambda>_ _. None)\<rparr>,
     sh_clock = of_nat, sh_transfers = None, sh_trust_mode = None, sh_audit_log = None, sh_statuses = [],
     sh_can_transition_to = (\<lambda>_ _. False)\<rparr>"

lemma sample_host_simps:
  "sh_parse_uuid sample_host x = Some 7" "sh_doc_error sample_host p = None" "sh_sha sample_host j = replicate 64 (CHR ''b'')"
  "sh_outbox sample_host"
  "sh_inspector sample_host = Some \<lparr>binding_of = (\<lambda>_ _. NotIntact), archival_freshness = (\<lambda>_ _. NotArchived),
     certificate_standing = (\<lambda>_ _. None)\<rparr>"
  by (simp_all add: sample_host_def)

definition sample_admin :: AuthContext where
  "sample_admin = \<lparr>auth_user_id = ''root'', auth_scope = ScopeAdmin, auth_key_id = None\<rparr>"

lemma sample_late_attested: "ledger sample_late_db (7, replicate 64 (CHR ''b'')) = Some Attested"
  by (simp add: ledger_def sample_late_db_simps sealed_row_def new_seal_row_def seal_key_def attestation_of_simps)

lemma sample_repair_rearms:
  "ledger (snd (seal_repair_handler sample_env sample_host sample_admin ''7'' sample_late_db)) \<noteq> ledger sample_late_db"
proof -
  let ?h = "replicate 64 (CHR ''b'')" and ?db2 = "bump (bump (bump (bump sample_late_db)))"
  let ?reason = "''repaired by root: stored seal did not verify''"
  have n: "newest_sealed 7 (seal_outbox sample_late_db) = Some (sealed_row 0 (new_seal_row 0 52 7 ?h))"
    by (simp add: newest_sealed_def sample_late_db_simps sealed_row_def new_seal_row_def)
  have h: "seal_repair_handler sample_env sample_host sample_admin ''7'' sample_late_db =
      (case seal_rearm_sealed sample_env 7 ?h ?reason ?db2 of
         (Inl _, db3) \<Rightarrow> (internal_refusal, db3)
       | (Inr True, db3) \<Rightarrow> (Answer (RepairDone Rearmed ?h), db3)
       | (Inr False, db3) \<Rightarrow> (Answer (RepairDone RepairQueued ?h), db3))"
    by (simp add: seal_repair_handler_def require_admin_def sample_admin_def is_admin_def parse_passport_id_def sample_host_simps
        service_find_by_id_def sample_late_db_simps(3) read_doc_seal_def repair_guard_def seal_sealed_digest_def n
        sealed_row_def new_seal_row_def)
  obtain r db3 where r: "seal_rearm_sealed sample_env 7 ?h ?reason ?db2 = (r, db3)" by fastforce
  have k: "keys_ok ?db2" using sample_late_db_ok(1) by (simp add: keys_ok_def)
  have "r \<noteq> Inl e" for e
    using r by (auto simp: seal_rearm_sealed_def exec_update_def pg_update_def Let_def)
  with rearm_refines [OF k r] have "ledger db3 (7, ?h) = Some Queued"
    by (cases r) (auto simp: spec_reorder_def sample_late_attested)
  moreover have "snd (seal_repair_handler sample_env sample_host sample_admin ''7'' sample_late_db) = db3"
    unfolding h r by (auto split: sum.split bool.split)
  ultimately show ?thesis using sample_late_attested by auto
qed

theorem repair_needs_broken_seal_witness:
  "\<exists>p. row_at pp_id 7 (passport sample_late_db) = Some p \<and>
     ledger (snd (seal_repair_handler sample_env sample_host sample_admin ''7'' sample_late_db)) =
       (ledger sample_late_db)((7, replicate 64 (CHR ''b'')) \<mapsto> Queued)"
proof -
  obtain reply db' where r: "seal_repair_handler sample_env sample_host sample_admin ''7'' sample_late_db = (reply, db')" by fastforce
  from repair_needs_broken_seal [OF sample_late_db_ok r] sample_repair_rearms show ?thesis
    by (auto simp: r sample_host_simps)
qed

definition sample_crossed_db :: odal where
  "sample_crossed_db = sample_late_db\<lparr>seal_outbox := [sealed_row 0 (new_seal_row 0 52 7 (replicate 64 (CHR ''b''))),
     sealed_row 5 (new_seal_row 0 51 7 sample_digest)]\<rparr>"

lemma sample_crossed_ok: "keys_ok sample_crossed_db" "seal_statuses_ok sample_crossed_db"
  using sample_late_db_ok(1) sample_digests_differ
  by (simp_all add: sample_crossed_db_def keys_ok_def seal_statuses_ok_def sealed_row_def new_seal_row_def seal_key_def
      sample_late_db_simps)

theorem repair_queues_nothing_witness:
  "case seal_repair_handler sample_env sample_host sample_admin ''7'' sample_crossed_db of (reply, db') \<Rightarrow>
     reply = Answer (RepairDone RepairQueued (replicate 64 (CHR ''b''))) \<and> ledger db' = ledger sample_crossed_db"
proof -
  let ?p = "hd (passport sample_late_db)" and ?s = "sealed_row 5 (new_seal_row 0 51 7 sample_digest)"
  have p: "row_at pp_id 7 (passport sample_crossed_db) = Some ?p" "pp_jws ?p = Some ''jws2''"
      "pp_seal ?p = Some (SealDoc (sample_envelope (replicate 64 (CHR ''b''))))"
    by (simp_all add: sample_crossed_db_def sample_late_db_simps)
  have l: "ledger sample_crossed_db (7, sh_sha sample_host ''jws2'') = Some Attested"
    by (simp add: ledger_def sample_crossed_db_def sealed_row_def new_seal_row_def seal_key_def attestation_of_simps sample_host_simps)
  have n: "newest_sealed 7 (seal_outbox sample_crossed_db) = Some ?s"
    by (simp add: newest_sealed_def sample_crossed_db_def sealed_row_def new_seal_row_def)
  have d: "sl_payload_hash ?s \<noteq> sh_sha sample_host ''jws2''"
    using sample_digests_differ by (simp add: sealed_row_def new_seal_row_def sample_host_simps)
  have a: "is_admin (auth_scope sample_admin)" by (simp add: sample_admin_def is_admin_def)
  have b: "binding_of \<lparr>binding_of = (\<lambda>_ _. NotIntact), archival_freshness = (\<lambda>_ _. NotArchived), certificate_standing = (\<lambda>_ _. None)\<rparr>
      (sample_envelope (replicate 64 (CHR ''b''))) (sh_sha sample_host ''jws2'') = NotIntact" by simp
  have g: "is_digest (sh_sha sample_host ''jws2'')" by (simp add: is_digest_def sample_host_simps list_all_iff)
  from repair_queues_nothing [OF sample_env_ok(1) sample_crossed_ok a sample_host_simps(1) p(1) sample_host_simps(2) p(2,3)
      sample_host_simps(4,5) b l n d g]
  show ?thesis by (simp add: sample_host_simps)
qed

end
