(* ===== verification/Access.thy ===== *)
theory Access
  imports Statements Auth_Types
begin

text \<open>
  API keys and authentication: the repository (\<^verbatim>\<open>dpp-dal/src/pg/repo_api_key.rs\<close>), the key service
  (\<^verbatim>\<open>dpp-vault/src/domain/api_key_service.rs\<close>), the three providers (\<^verbatim>\<open>dpp-vault/src/infra/auth\<close>), the
  authentication middleware (\<^verbatim>\<open>middleware/auth.rs\<close>) and the key routes (\<^verbatim>\<open>handlers/api_keys.rs\<close>). The
  port \<^verbatim>\<open>AuthProvider\<close> is the locale \<open>auth_provider\<close>, interpreted for the key table and for the
  local administrator. Hashing, encoding, randomness and the constant-time comparison are fields
  of \<open>key_libs\<close>.
\<close>

record key_libs =
  kl_sha256_hex :: "string \<Rightarrow> string"
  kl_ct_eq :: "string \<Rightarrow> string \<Rightarrow> bool"
  kl_random :: "nat \<Rightarrow> string"
  kl_utc_now :: "nat \<Rightarrow> time"
  kl_b64_decode :: "string \<Rightarrow> string option"
  kl_from_utf8 :: "string \<Rightarrow> string option"
  kl_parse_uuid :: "string \<Rightarrow> uuid option"

text \<open>What \<^verbatim>\<open>subtle\<close> documents of its comparison.\<close>

definition ct_eq_ok :: "key_libs \<Rightarrow> bool" where
  "ct_eq_ok libs \<longleftrightarrow> (\<forall>a b. kl_ct_eq libs a b = (a = b))"

subsection \<open>The repository\<close>

record ApiKey =
  key_id :: uuid
  key_name :: string
  key_prefix :: string
  key_is_active :: bool
  key_scope :: ApiKeyScope
  key_created_at :: time
  key_last_used_at :: "time option"
  key_expires_at :: "time option"

record ApiKeyRecord =
  rec_key :: ApiKey
  rec_key_hash :: string

definition scopes_of :: "string option list option \<Rightarrow> string list" where
  "scopes_of column =
     (case column of
        None \<Rightarrow> []
      | Some xs \<Rightarrow> if list_all (\<lambda>x. x \<noteq> None) xs then map the xs else [])"

definition key_from_row :: "api_key_rec \<Rightarrow> ApiKey" where
  "key_from_row r =
     \<lparr>key_id = ak_id r, key_name = ak_name r, key_prefix = ak_key_prefix r, key_is_active = ak_is_active r,
      key_scope = from_scopes (scopes_of (ak_scopes r)), key_created_at = ak_created_at r,
      key_last_used_at = ak_last_used_at r, key_expires_at = ak_expires_at r\<rparr>"

text \<open>\<^verbatim>\<open>SELECT ... WHERE p\<close>, fetched as an optional row.\<close>

definition find_key :: "pg_env \<Rightarrow> (time \<Rightarrow> api_key_rec \<Rightarrow> bool) \<Rightarrow> odal \<Rightarrow> (dpp_error + api_key_rec option) \<times> odal" where
  "find_key env p db =
     (case fault_at env (tick db) of
        Some e \<Rightarrow> (Inl (db_err env e), bump db)
      | None \<Rightarrow> (Inr (find (p (now_at env (tick db))) (api_key db)), bump db))"

definition unexpired :: "time \<Rightarrow> api_key_rec \<Rightarrow> bool" where
  "unexpired now r = (case ak_expires_at r of None \<Rightarrow> True | Some t \<Rightarrow> now < t)"

definition list_active :: "pg_env \<Rightarrow> odal \<Rightarrow> (dpp_error + ApiKey list) \<times> odal" where
  "list_active env db =
     (case fault_at env (tick db) of
        Some e \<Rightarrow> (Inl (db_err env e), bump db)
      | None \<Rightarrow> (Inr (map key_from_row (sort_key (\<lambda>r. - ak_created_at r) (filter ak_is_active (api_key db)))), bump db))"

definition find_active_by_prefix :: "pg_env \<Rightarrow> string \<Rightarrow> odal \<Rightarrow> (dpp_error + ApiKeyRecord option) \<times> odal" where
  "find_active_by_prefix env pfx db =
     (case find_key env (\<lambda>now r. ak_key_prefix r = pfx \<and> ak_is_active r \<and> unexpired now r) db of
        (Inl e, db') \<Rightarrow> (Inl e, db')
      | (Inr row, db') \<Rightarrow>
          (Inr (map_option (\<lambda>r. \<lparr>rec_key = key_from_row r, rec_key_hash = ak_key_hash r\<rparr>) row), db'))"

definition find_any_by_prefix :: "pg_env \<Rightarrow> string \<Rightarrow> odal \<Rightarrow> (dpp_error + ApiKey option) \<times> odal" where
  "find_any_by_prefix env pfx db =
     (case find_key env (\<lambda>_ r. ak_key_prefix r = pfx) db of
        (Inl e, db') \<Rightarrow> (Inl e, db')
      | (Inr row, db') \<Rightarrow> (Inr (map_option key_from_row row), db'))"

definition new_key_row :: "ApiKeyRecord \<Rightarrow> api_key_rec" where
  "new_key_row r =
     \<lparr>ak_id = key_id (rec_key r), ak_name = key_name (rec_key r), ak_key_hash = rec_key_hash r,
      ak_key_prefix = key_prefix (rec_key r), ak_scopes = Some [Some (scope_as_str (key_scope (rec_key r)))],
      ak_is_active = key_is_active (rec_key r), ak_created_at = key_created_at (rec_key r),
      ak_last_used_at = None, ak_expires_at = key_expires_at (rec_key r)\<rparr>"

definition repo_create_key :: "pg_env \<Rightarrow> ApiKeyRecord \<Rightarrow> odal \<Rightarrow> (dpp_error + ApiKey) \<times> odal" where
  "repo_create_key env r db =
     (case fault_at env (tick db) of
        Some e \<Rightarrow> (Inl (db_err env e), bump db)
      | None \<Rightarrow>
          if list_ex (\<lambda>x. ak_id x = key_id (rec_key r) \<or> ak_name x = key_name (rec_key r) \<or>
                ak_key_prefix x = key_prefix (rec_key r)) (api_key db)
          then (Inl (db_err env unique_violation), bump db)
          else (Inr (rec_key r), bump (db\<lparr>api_key := api_key db @ [new_key_row r]\<rparr>)))"

definition touched_key :: "time \<Rightarrow> rat \<Rightarrow> api_key_rec \<Rightarrow> api_key_rec" where
  "touched_key now _ r = r\<lparr>ak_last_used_at := Some now\<rparr>"

definition revoked_key :: "time \<Rightarrow> rat \<Rightarrow> api_key_rec \<Rightarrow> api_key_rec" where
  "revoked_key _ _ r = r\<lparr>ak_is_active := False\<rparr>"

definition touch_last_used :: "pg_env \<Rightarrow> uuid \<Rightarrow> rat \<Rightarrow> odal \<Rightarrow> (dpp_error + unit) \<times> odal" where
  "touch_last_used env ident not_within db =
     (case exec_update api_key api_key_update ak_id env ident
             (\<lambda>now r. case ak_last_used_at r of None \<Rightarrow> True | Some t \<Rightarrow> t < now - not_within) (\<lambda>_. True) touched_key db of
        (Inl e, db') \<Rightarrow> (Inl e, db')
      | (Inr _, db') \<Rightarrow> (Inr (), db'))"

definition repo_revoke_key :: "pg_env \<Rightarrow> uuid \<Rightarrow> odal \<Rightarrow> (dpp_error + bool) \<times> odal" where
  "repo_revoke_key env ident db =
     (case exec_update api_key api_key_update ak_id env ident (\<lambda>_ _. True) (\<lambda>_. True) revoked_key db of
        (Inl e, db') \<Rightarrow> (Inl e, db')
      | (Inr m, db') \<Rightarrow> (Inr (0 < m), db'))"

subsection \<open>The key service\<close>

definition KEY_PREFIX :: string where
  "KEY_PREFIX = ''odal_sk_''"

definition KEY_PREFIX_LEN :: nat where
  "KEY_PREFIX_LEN = length KEY_PREFIX + 4"

definition lookup_prefix :: "string \<Rightarrow> string" where
  "lookup_prefix secret = take KEY_PREFIX_LEN secret"

definition generate_key_secret :: "key_libs \<Rightarrow> nat \<Rightarrow> string" where
  "generate_key_secret libs n = KEY_PREFIX @ kl_random libs n"

record CreatedApiKeyResponse =
  created_key :: ApiKey
  created_key_secret :: string

definition service_create_key ::
  "pg_env \<Rightarrow> key_libs \<Rightarrow> string \<Rightarrow> ApiKeyScope \<Rightarrow> time option \<Rightarrow> odal \<Rightarrow>
   (dpp_error + CreatedApiKeyResponse) \<times> odal" where
  "service_create_key env libs name scope expires_at db =
     (let name = str_trim name in
      if name = [] then (Inl (Validation ''API key name is required''), db)
      else
        let secret = generate_key_secret libs (tick db);
            key = \<lparr>key_id = uuid_at env (tick db) 0, key_name = name, key_prefix = lookup_prefix secret,
              key_is_active = True, key_scope = scope, key_created_at = kl_utc_now libs (tick db),
              key_last_used_at = None, key_expires_at = expires_at\<rparr>
        in case repo_create_key env \<lparr>rec_key = key, rec_key_hash = kl_sha256_hex libs secret\<rparr> db of
             (Inl e, db') \<Rightarrow> (Inl e, db')
           | (Inr stored, db') \<Rightarrow> (Inr \<lparr>created_key = stored, created_key_secret = secret\<rparr>, db'))"

definition service_revoke_key :: "pg_env \<Rightarrow> uuid \<Rightarrow> odal \<Rightarrow> (dpp_error + unit) \<times> odal" where
  "service_revoke_key env ident db =
     (case repo_revoke_key env ident db of
        (Inl e, db') \<Rightarrow> (Inl e, db')
      | (Inr revoked, db') \<Rightarrow> ((if revoked then Inr () else Inl (NotFound (fmt_uuid env ident))), db'))"

subsection \<open>The providers\<close>

definition LAST_USED_RESOLUTION :: rat where
  "LAST_USED_RESOLUTION = 5 * 60"

definition api_key_authenticate ::
  "pg_env \<Rightarrow> key_libs \<Rightarrow> string \<Rightarrow> odal \<Rightarrow> (AuthError + AuthContext) \<times> odal" where
  "api_key_authenticate env libs token db =
     (let hash = kl_sha256_hex libs token; pfx = lookup_prefix token in
      case find_active_by_prefix env pfx db of
        (Inl e, db1) \<Rightarrow> (Inl (AuthInvalid (''key lookup failed: '' @ fmt_dpp env e)), db1)
      | (Inr None, db1) \<Rightarrow>
          (case find_any_by_prefix env pfx db1 of
             (found, db2) \<Rightarrow>
               (Inl (AuthInvalid
                  (case found of
                     Inr (Some key) \<Rightarrow>
                       if \<not> key_is_active key then ''API key has been revoked''
                       else if (case key_expires_at key of Some e \<Rightarrow> e < kl_utc_now libs (tick db2) | None \<Rightarrow> False)
                       then ''API key has expired''
                       else ''unknown API key''
                   | _ \<Rightarrow> ''unknown API key'')), db2))
      | (Inr (Some r), db1) \<Rightarrow>
          if length (rec_key_hash r) = length hash \<and> kl_ct_eq libs (rec_key_hash r) hash
          then (Inr \<lparr>auth_user_id = ''api-key'', auth_scope = key_scope (rec_key r), auth_key_id = Some (key_id (rec_key r))\<rparr>,
                snd (touch_last_used env (key_id (rec_key r)) LAST_USED_RESOLUTION db1))
          else (Inl (AuthInvalid ''invalid API key''), db1))"

text \<open>The local administrator, with the hash of the password kept from construction.\<close>

record LocalAuthProvider =
  la_username :: string
  la_password_hash :: string

definition local_auth_new :: "key_libs \<Rightarrow> string \<Rightarrow> string \<Rightarrow> LocalAuthProvider" where
  "local_auth_new libs username password =
     \<lparr>la_username = username, la_password_hash = kl_sha256_hex libs password\<rparr>"

text \<open>Rust's \<^verbatim>\<open>str::split_once\<close> on a character.\<close>

definition split_once :: "char \<Rightarrow> string \<Rightarrow> (string \<times> string) option" where
  "split_once c s =
     (if c \<in> set s then Some (takeWhile (\<lambda>x. x \<noteq> c) s, tl (dropWhile (\<lambda>x. x \<noteq> c) s)) else None)"

definition local_authenticate :: "key_libs \<Rightarrow> LocalAuthProvider \<Rightarrow> string \<Rightarrow> 's \<Rightarrow> (AuthError + AuthContext) \<times> 's" where
  "local_authenticate libs provider token s =
     ((case Option.bind (Option.bind (kl_b64_decode libs token) (kl_from_utf8 libs)) (split_once (CHR '':'')) of
         Some (user, pass) \<Rightarrow>
           if user = la_username provider \<and> kl_ct_eq libs (kl_sha256_hex libs pass) (la_password_hash provider)
           then Inr \<lparr>auth_user_id = ''admin'', auth_scope = ScopeAdmin, auth_key_id = None\<rparr>
           else Inl (AuthInvalid ''invalid credentials'')
       | None \<Rightarrow> Inl (AuthInvalid ''invalid credentials'')), s)"

fun composite_loop ::
  "(string \<Rightarrow> 's \<Rightarrow> (AuthError + AuthContext) \<times> 's) list \<Rightarrow> AuthError \<Rightarrow> string \<Rightarrow> 's \<Rightarrow> (AuthError + AuthContext) \<times> 's" where
  "composite_loop [] last_err token s = (Inl last_err, s)"
| "composite_loop (provider # providers) last_err token s =
     (case provider token s of
        (Inr ctx, s') \<Rightarrow> (Inr ctx, s')
      | (Inl AuthSuspended, s') \<Rightarrow> (Inl AuthSuspended, s')
      | (Inl e, s') \<Rightarrow> composite_loop providers e token s')"

definition composite_authenticate ::
  "(string \<Rightarrow> 's \<Rightarrow> (AuthError + AuthContext) \<times> 's) list \<Rightarrow> string \<Rightarrow> 's \<Rightarrow> (AuthError + AuthContext) \<times> 's" where
  "composite_authenticate providers token s = composite_loop providers AuthMissing token s"

subsection \<open>The middleware\<close>

datatype Credential = Bearer string | Basic string

definition extract_credential :: "string option \<Rightarrow> Credential option" where
  "extract_credential header =
     (case Option.bind header (split_once (CHR '' '')) of
        None \<Rightarrow> None
      | Some (scheme, credential) \<Rightarrow>
          if eq_ignore_ascii_case scheme ''bearer'' then Some (Bearer credential)
          else if eq_ignore_ascii_case scheme ''basic'' then Some (Basic credential)
          else None)"

definition route_credential ::
  "Credential \<Rightarrow> (string \<Rightarrow> 's \<Rightarrow> (AuthError + AuthContext) \<times> 's) \<Rightarrow>
   (string \<Rightarrow> 's \<Rightarrow> (AuthError + AuthContext) \<times> 's) option \<Rightarrow> 's \<Rightarrow> (AuthError + AuthContext) \<times> 's" where
  "route_credential credential bearer_provider basic_provider s =
     (case credential of
        Bearer token \<Rightarrow> bearer_provider token s
      | Basic token \<Rightarrow>
          (case basic_provider of
             Some p \<Rightarrow> p token s
           | None \<Rightarrow> (Inl (AuthInvalid ''local admin auth is not configured''), s)))"

definition unauthorized :: "string \<Rightarrow> 'a reply" where
  "unauthorized detail = Refusal 401 detail"

text \<open>The header is the value of \<^verbatim>\<open>Authorization\<close>, if there is one and it is visible ASCII.\<close>

definition auth_middleware ::
  "(string \<Rightarrow> 's \<Rightarrow> (AuthError + AuthContext) \<times> 's) \<Rightarrow> (string \<Rightarrow> 's \<Rightarrow> (AuthError + AuthContext) \<times> 's) option \<Rightarrow>
   (AuthContext \<Rightarrow> 's \<Rightarrow> 'a reply \<times> 's) \<Rightarrow> string option \<Rightarrow> 's \<Rightarrow> 'a reply \<times> 's" where
  "auth_middleware auth_provider local_auth_provider run_next header s =
     (case extract_credential header of
        None \<Rightarrow> (unauthorized ''Missing or invalid Authorization header.'', s)
      | Some credential \<Rightarrow>
          (case route_credential credential auth_provider local_auth_provider s of
             (Inr ctx, s') \<Rightarrow> run_next ctx s'
           | (Inl AuthSuspended, s') \<Rightarrow> (Refusal 403 ''Operator account is suspended.'', s')
           | (Inl _, s') \<Rightarrow> (unauthorized ''Invalid or expired token.'', s')))"

subsection \<open>The key routes\<close>

datatype key_answer = KeysListed "ApiKey list" | KeyCreated CreatedApiKeyResponse | KeyRevoked

definition blocks_self_revoke :: "AuthContext \<Rightarrow> uuid \<Rightarrow> 'a reply option" where
  "blocks_self_revoke auth target =
     (if auth_key_id auth = Some target
      then Some (Refusal 409 (''Cannot revoke the API key you are currently authenticating with. '' @
             ''Authenticate with a different key (or admin credentials), then revoke this one.''))
      else None)"

definition api_keys_list_handler :: "pg_env \<Rightarrow> AuthContext \<Rightarrow> odal \<Rightarrow> key_answer reply \<times> odal" where
  "api_keys_list_handler env auth db =
     (case require_admin auth of
        Some resp \<Rightarrow> (resp, db)
      | None \<Rightarrow>
          (case list_active env db of
             (Inr keys, db') \<Rightarrow> (Answer (KeysListed keys), db')
           | (Inl _, db') \<Rightarrow> (internal_refusal, db')))"

record CreateApiKeyRequest =
  cr_name :: string
  cr_expires_at :: "time option"
  cr_scope :: "ApiKeyScope option"

definition api_keys_create_handler ::
  "pg_env \<Rightarrow> key_libs \<Rightarrow> AuthContext option \<Rightarrow> CreateApiKeyRequest \<Rightarrow> odal \<Rightarrow> key_answer reply \<times> odal" where
  "api_keys_create_handler env libs context body db =
     (case RequireAdmin context of
        Inl resp \<Rightarrow> (resp, db)
      | Inr _ \<Rightarrow>
          (let scope = (case cr_scope body of Some s \<Rightarrow> s | None \<Rightarrow> ScopeAdmin) in
           case service_create_key env libs (cr_name body) scope (cr_expires_at body) db of
             (Inr key, db') \<Rightarrow> (Answer (KeyCreated key), db')
           | (Inl (Validation msg), db') \<Rightarrow> (Refusal 422 msg, db')
           | (Inl _, db') \<Rightarrow> (internal_refusal, db')))"

definition api_keys_delete_handler ::
  "pg_env \<Rightarrow> key_libs \<Rightarrow> AuthContext \<Rightarrow> string \<Rightarrow> odal \<Rightarrow> key_answer reply \<times> odal" where
  "api_keys_delete_handler env libs auth ident db =
     (case require_admin auth of
        Some resp \<Rightarrow> (resp, db)
      | None \<Rightarrow>
          (case kl_parse_uuid libs ident of
             None \<Rightarrow> (Refusal 400 ''Invalid api-key id'', db)
           | Some parsed \<Rightarrow>
               (case blocks_self_revoke auth parsed of
                  Some resp \<Rightarrow> (resp, db)
                | None \<Rightarrow>
                    (case service_revoke_key env parsed db of
                       (Inr _, db') \<Rightarrow> (Answer KeyRevoked, db')
                     | (Inl (NotFound _), db') \<Rightarrow> (Refusal 404 ''API key not found'', db')
                     | (Inl _, db') \<Rightarrow> (internal_refusal, db')))))"

datatype key_request = ListKeys | CreateKey CreateApiKeyRequest | DeleteKey string

text \<open>The key routes behind the middleware, with the providers the node wires.\<close>

definition key_handler :: "pg_env \<Rightarrow> key_libs \<Rightarrow> key_request \<Rightarrow> AuthContext \<Rightarrow> odal \<Rightarrow> key_answer reply \<times> odal" where
  "key_handler env libs request auth db =
     (case request of
        ListKeys \<Rightarrow> api_keys_list_handler env auth db
      | CreateKey body \<Rightarrow> api_keys_create_handler env libs (Some auth) body db
      | DeleteKey ident \<Rightarrow> api_keys_delete_handler env libs auth ident db)"

definition key_route ::
  "pg_env \<Rightarrow> key_libs \<Rightarrow> LocalAuthProvider option \<Rightarrow> string option \<Rightarrow> key_request \<Rightarrow> odal \<Rightarrow> key_answer reply \<times> odal" where
  "key_route env libs local header request db =
     auth_middleware (composite_authenticate [api_key_authenticate env libs]) (map_option (local_authenticate libs) local)
       (key_handler env libs request) header db"

subsection \<open>What the table allows\<close>

definition keys_unique :: "odal \<Rightarrow> bool" where
  "keys_unique db \<longleftrightarrow> distinct (map ak_id (api_key db)) \<and> distinct (map ak_name (api_key db)) \<and>
     distinct (map ak_key_prefix (api_key db))"

text \<open>What of a key no use of it changes.\<close>

definition grant_of :: "api_key_rec \<Rightarrow> api_key_rec" where
  "grant_of r = r\<lparr>ak_last_used_at := None\<rparr>"

text \<open>A row that vouches for a token at a moment.\<close>

definition key_vouches :: "pg_env \<Rightarrow> key_libs \<Rightarrow> string \<Rightarrow> odal \<Rightarrow> api_key_rec \<Rightarrow> bool" where
  "key_vouches env libs token db r \<longleftrightarrow>
     r \<in> set (api_key db) \<and> ak_is_active r \<and> unexpired (now_at env (tick db)) r \<and>
     ak_key_prefix r = lookup_prefix token \<and> ak_key_hash r = kl_sha256_hex libs token"

definition key_context :: "api_key_rec \<Rightarrow> AuthContext" where
  "key_context r = \<lparr>auth_user_id = ''api-key'', auth_scope = from_scopes (scopes_of (ak_scopes r)),
     auth_key_id = Some (ak_id r)\<rparr>"

lemma find_key_snd [simp]: "snd (find_key env p db) = bump db"
  by (simp add: find_key_def split: option.splits)

lemma find_SomeD: "find p xs = Some x \<Longrightarrow> x \<in> set xs \<and> p x"
  by (auto simp: find_Some_iff)

lemma find_key_cases:
  obtains (fault) e where "find_key env p db = (Inl (db_err env e), bump db)"
  | (found) r where "find_key env p db = (Inr (Some r), bump db)"
      "find (p (now_at env (tick db))) (api_key db) = Some r" "r \<in> set (api_key db)" "p (now_at env (tick db)) r"
  | (absent) "find_key env p db = (Inr None, bump db)"
  by (cases "fault_at env (tick db)"; cases "find (p (now_at env (tick db))) (api_key db)")
    (auto simp: find_key_def dest: find_SomeD)

text \<open>Authentication succeeds only for a vouching row, in its name.\<close>

lemma authenticate_sound:
  assumes "ct_eq_ok libs" and "api_key_authenticate env libs token db = (Inr ctx, db')"
  shows "\<exists>r. key_vouches env libs token db r \<and> ctx = key_context r"
proof (cases rule: find_key_cases [of env "\<lambda>now r. ak_key_prefix r = lookup_prefix token \<and> ak_is_active r \<and> unexpired now r" db])
  case (found r)
  with assms show ?thesis
    by (intro exI [of _ r])
      (auto simp: api_key_authenticate_def find_active_by_prefix_def Let_def ct_eq_ok_def key_vouches_def key_context_def
        key_from_row_def split: if_splits)
qed (use assms(2) in \<open>auto simp: api_key_authenticate_def find_active_by_prefix_def find_any_by_prefix_def Let_def
       split: prod.splits sum.splits\<close>)

lemma find_unique:
  assumes "distinct (map key xs)" and "x \<in> set xs" and "p x" and "\<And>y. p y \<Longrightarrow> key y = key x"
  shows "find p xs = Some x"
proof -
  obtain y where y: "find p xs = Some y" using assms(2,3) by (metis find_None_iff not_None_eq)
  then have "y \<in> set xs" "key y = key x" using assms(4) by (auto dest: find_SomeD)
  then have "y = x" using assms(1,2) by (metis distinct_map inj_onD)
  with y show ?thesis by simp
qed

lemma authenticate_complete:
  assumes "ct_eq_ok libs" and "keys_unique db" and "fault_at env (tick db) = None" and "key_vouches env libs token db r"
  shows "fst (api_key_authenticate env libs token db) = Inr (key_context r)"
proof -
  have "find (\<lambda>x. ak_key_prefix x = lookup_prefix token \<and> ak_is_active x \<and> unexpired (now_at env (tick db)) x)
      (api_key db) = Some r"
    using assms(2,4) by (intro find_unique [where key = ak_key_prefix]) (auto simp: keys_unique_def key_vouches_def)
  then show ?thesis using assms
    by (simp add: api_key_authenticate_def find_active_by_prefix_def find_key_def Let_def key_vouches_def key_context_def
        key_from_row_def ct_eq_ok_def)
qed

text \<open>What each operation does to the rows: a use marks one row used, a creation appends, a revocation disables.\<close>

lemma touch_rows:
  "map grant_of (api_key (snd (touch_last_used env ident w db))) = map grant_of (api_key db)"
  "\<exists>rs. snd (touch_last_used env ident w db) = bump (db\<lparr>api_key := rs\<rparr>)"
proof -
  let ?q = "\<lambda>now r. case ak_last_used_at r of None \<Rightarrow> True | Some t \<Rightarrow> t < now - w"
  have e: "snd (touch_last_used env ident w db) = snd (exec_update api_key api_key_update ak_id env ident ?q (\<lambda>_. True) touched_key db)"
    by (simp add: touch_last_used_def split: prod.splits sum.splits)
  show "map grant_of (api_key (snd (touch_last_used env ident w db))) = map grant_of (api_key db)"
    using key_t.exec_update_rows [of env ident ?q "\<lambda>_. True" touched_key db]
    by (auto simp: e upd_where_def grant_of_def touched_key_def)
  show "\<exists>rs. snd (touch_last_used env ident w db) = bump (db\<lparr>api_key := rs\<rparr>)"
    using key_t.exec_update_only [of env ident ?q "\<lambda>_. True" touched_key db] unfolding e by auto
qed

lemma touch_tick: "tick (snd (touch_last_used env ident w db)) = tick db + 1"
proof -
  obtain rs where "snd (touch_last_used env ident w db) = bump (db\<lparr>api_key := rs\<rparr>)" using touch_rows(2) by blast
  then show ?thesis by simp
qed

lemma authenticate_rows:
  "map grant_of (api_key (snd (api_key_authenticate env libs token db))) = map grant_of (api_key db)"
proof (cases rule: find_key_cases [of env "\<lambda>now r. ak_key_prefix r = lookup_prefix token \<and> ak_is_active r \<and> unexpired now r" db])
  case absent
  then show ?thesis
    by (auto simp: api_key_authenticate_def find_active_by_prefix_def find_any_by_prefix_def Let_def find_key_def
        split: option.splits)
qed (simp_all add: api_key_authenticate_def find_active_by_prefix_def Let_def touch_rows)

lemma create_key_cases:
  obtains (refused) "api_key (snd (service_create_key env libs name scope expires db)) = api_key db"
      "\<And>c. fst (service_create_key env libs name scope expires db) \<noteq> Inr c"
  | (stored) r where "api_key (snd (service_create_key env libs name scope expires db)) = api_key db @ [r]"
      "ak_id r \<notin> ak_id ` set (api_key db)" "ak_name r \<notin> ak_name ` set (api_key db)"
      "ak_key_prefix r \<notin> ak_key_prefix ` set (api_key db)"
      "ak_is_active r" "ak_expires_at r = expires" "ak_scopes r = Some [Some (scope_as_str scope)]"
      "ak_key_prefix r = lookup_prefix (generate_key_secret libs (tick db))"
      "ak_key_hash r = kl_sha256_hex libs (generate_key_secret libs (tick db))"
      "\<And>c. fst (service_create_key env libs name scope expires db) = Inr c \<Longrightarrow>
         created_key_secret c = generate_key_secret libs (tick db) \<and> key_id (created_key c) = ak_id r"
proof -
  let ?res = "service_create_key env libs name scope expires db"
  consider (blank) "str_trim name = []" | (fault) e where "str_trim name \<noteq> []" "fault_at env (tick db) = Some e"
    | (run) "str_trim name \<noteq> []" "fault_at env (tick db) = None"
    by (cases "fault_at env (tick db)") auto
  then show thesis
  proof cases
    case blank
    then show ?thesis by (intro refused) (auto simp: service_create_key_def)
  next
    case fault
    then show ?thesis by (intro refused) (auto simp: service_create_key_def repo_create_key_def Let_def)
  next
    case run
    show ?thesis
    proof (cases "list_ex (\<lambda>x. ak_id x = uuid_at env (tick db) 0 \<or> ak_name x = str_trim name \<or>
        ak_key_prefix x = lookup_prefix (generate_key_secret libs (tick db))) (api_key db)")
      case True
      with run show ?thesis by (intro refused) (simp_all add: service_create_key_def repo_create_key_def Let_def)
    next
      case False
      with run show ?thesis
        by (intro stored [of "last (api_key (snd ?res))"])
          (auto simp: service_create_key_def repo_create_key_def Let_def new_key_row_def list_ex_iff image_iff)
    qed
  qed
qed

lemma revoke_rows:
  "api_key (snd (service_revoke_key env ident db)) = api_key db \<or>
   api_key (snd (service_revoke_key env ident db)) =
     upd_where (\<lambda>r. ak_id r = ident) (\<lambda>r. r\<lparr>ak_is_active := False\<rparr>) (api_key db)"
proof -
  have "snd (service_revoke_key env ident db) =
      snd (exec_update api_key api_key_update ak_id env ident (\<lambda>_ _. True) (\<lambda>_. True) revoked_key db)"
    by (simp add: service_revoke_key_def repo_revoke_key_def split: prod.splits sum.splits)
  then show ?thesis
    using key_t.exec_update_rows [of env ident "\<lambda>_ _. True" "\<lambda>_. True" revoked_key db]
    by (simp add: revoked_key_def [abs_def])
qed

lemma revoke_InrD:
  assumes "service_revoke_key env ident db = (Inr u, db')"
  shows "\<exists>r \<in> set (api_key db'). ak_id r = ident \<and> \<not> ak_is_active r"
proof -
  obtain m where "exec_update api_key api_key_update ak_id env ident (\<lambda>_ _. True) (\<lambda>_. True) revoked_key db = (Inr m, db')"
    and "0 < m"
    using assms by (auto simp: service_revoke_key_def repo_revoke_key_def split: prod.splits sum.splits if_splits)
  from key_t.exec_update_InrD [OF this(1)] this(2) obtain r where "r \<in> set (api_key db)" "ak_id r = ident"
    and rows: "api_key db' = upd_where (\<lambda>r. ak_id r = ident \<and> True) (revoked_key (now_at env (tick db)) (random_at env (tick db))) (api_key db)"
    by (auto simp: filter_empty_conv)
  then have "r\<lparr>ak_is_active := False\<rparr> \<in> set (api_key db')"
    unfolding rows by (auto simp: set_upd_where revoked_key_def)
  with \<open>ak_id r = ident\<close> show ?thesis by (metis api_key_rec.select_convs(1) api_key_rec.surjective api_key_rec.update_convs(6) api_key_rec.select_convs(6))
qed

subsection \<open>The life of the table\<close>

datatype key_event = EvCreate | EvRevoke uuid | EvUse | EvElsewhere

inductive key_steps :: "pg_env \<Rightarrow> key_libs \<Rightarrow> key_event list \<Rightarrow> odal \<Rightarrow> odal \<Rightarrow> bool" for env libs where
  nothing: "key_steps env libs [] db db"
| creates: "key_steps env libs evs (snd (service_create_key env libs name scope expires db)) db' \<Longrightarrow>
    key_steps env libs (EvCreate # evs) db db'"
| revokes: "key_steps env libs evs (snd (service_revoke_key env ident db)) db' \<Longrightarrow>
    key_steps env libs (EvRevoke ident # evs) db db'"
| used: "key_steps env libs evs (snd (api_key_authenticate env libs token db)) db' \<Longrightarrow>
    key_steps env libs (EvUse # evs) db db'"
| elsewhere: "api_key db1 = api_key db \<Longrightarrow> key_steps env libs evs db1 db' \<Longrightarrow>
    key_steps env libs (EvElsewhere # evs) db db'"

text \<open>How the rows of one moment are found again at a later one.\<close>

definition key_kept :: "key_event list \<Rightarrow> odal \<Rightarrow> odal \<Rightarrow> bool" where
  "key_kept evs db db' \<longleftrightarrow> (keys_unique db \<longrightarrow> keys_unique db') \<and>
     (\<forall>r \<in> set (api_key db). \<exists>r' \<in> set (api_key db').
        grant_of r' = grant_of r \<or>
        (EvRevoke (ak_id r) \<in> set evs \<and> grant_of r' = (grant_of r)\<lparr>ak_is_active := False\<rparr>))"

lemma grant_of_same:
  assumes "grant_of r = grant_of r'"
  shows "ak_id r = ak_id r'" "ak_name r = ak_name r'" "ak_key_prefix r = ak_key_prefix r'" "ak_key_hash r = ak_key_hash r'"
    "ak_scopes r = ak_scopes r'" "ak_is_active r = ak_is_active r'" "ak_expires_at r = ak_expires_at r'"
  using assms by (cases r; cases r'; simp add: grant_of_def)+

lemma grant_of_sel:
  "ak_id (grant_of r) = ak_id r" "ak_is_active (grant_of r) = ak_is_active r" "ak_name (grant_of r) = ak_name r"
  "ak_key_prefix (grant_of r) = ak_key_prefix r"
  by (simp_all add: grant_of_def)

lemma map_grant_keys:
  assumes "map grant_of rs = map grant_of rs'"
  shows "map ak_id rs = map ak_id rs'" "map ak_name rs = map ak_name rs'" "map ak_key_prefix rs = map ak_key_prefix rs'"
proof -
  show "map ak_id rs = map ak_id rs'" "map ak_name rs = map ak_name rs'" "map ak_key_prefix rs = map ak_key_prefix rs'"
    using arg_cong [OF assms, of "map ak_id"] arg_cong [OF assms, of "map ak_name"] arg_cong [OF assms, of "map ak_key_prefix"]
    by (simp_all add: comp_def grant_of_sel)
qed

lemma key_kept_grants:
  assumes "map grant_of (api_key db') = map grant_of (api_key db)"
  shows "key_kept evs db db'"
proof -
  have "\<exists>r' \<in> set (api_key db'). grant_of r' = grant_of r" if "r \<in> set (api_key db)" for r
  proof -
    have "grant_of r \<in> set (map grant_of (api_key db'))" unfolding assms using that by simp
    then show ?thesis by (auto simp del: map_map)
  qed
  moreover have "keys_unique db' = keys_unique db" by (simp only: keys_unique_def map_grant_keys [OF assms])
  ultimately show ?thesis unfolding key_kept_def by blast
qed

lemma key_kept_trans:
  assumes "key_kept [ev] db db1" and "key_kept evs db1 db'"
  shows "key_kept (ev # evs) db db'"
  unfolding key_kept_def
proof (intro conjI impI ballI)
  show "keys_unique db'" if "keys_unique db" using that assms by (simp add: key_kept_def)
  fix r assume r: "r \<in> set (api_key db)"
  with assms(1) obtain r1 where r1: "r1 \<in> set (api_key db1)"
    and one: "grant_of r1 = grant_of r \<or> (EvRevoke (ak_id r) \<in> set [ev] \<and> grant_of r1 = (grant_of r)\<lparr>ak_is_active := False\<rparr>)"
    unfolding key_kept_def by blast
  from one have id: "ak_id r1 = ak_id r" by (metis api_key_rec.select_convs(1) api_key_rec.surjective api_key_rec.update_convs(6) grant_of_sel(1))
  from r1 assms(2) obtain r2 where r2: "r2 \<in> set (api_key db')"
    and two: "grant_of r2 = grant_of r1 \<or> (EvRevoke (ak_id r1) \<in> set evs \<and> grant_of r2 = (grant_of r1)\<lparr>ak_is_active := False\<rparr>)"
    unfolding key_kept_def by blast
  from one two id have "grant_of r2 = grant_of r \<or>
      (EvRevoke (ak_id r) \<in> set (ev # evs) \<and> grant_of r2 = (grant_of r)\<lparr>ak_is_active := False\<rparr>)"
    by auto
  with r2 show "\<exists>r' \<in> set (api_key db'). grant_of r' = grant_of r \<or>
      (EvRevoke (ak_id r) \<in> set (ev # evs) \<and> grant_of r' = (grant_of r)\<lparr>ak_is_active := False\<rparr>)" by blast
qed

lemma key_kept_create: "key_kept [EvCreate] db (snd (service_create_key env libs name scope expires db))"
proof (cases rule: create_key_cases [of env libs name scope expires db])
  case refused
  then show ?thesis by (intro key_kept_grants) simp
next
  case (stored r)
  then show ?thesis by (auto simp: key_kept_def keys_unique_def)
qed

lemma key_kept_revoke: "key_kept [EvRevoke ident] db (snd (service_revoke_key env ident db))"
proof (cases "api_key (snd (service_revoke_key env ident db)) = api_key db")
  case True
  then show ?thesis by (intro key_kept_grants) simp
next
  case False
  let ?f = "\<lambda>r. r\<lparr>ak_is_active := False\<rparr>"
  from False revoke_rows have rows: "api_key (snd (service_revoke_key env ident db)) = upd_where (\<lambda>r. ak_id r = ident) ?f (api_key db)"
    by blast
  have maps: "map g (upd_where (\<lambda>r. ak_id r = ident) ?f (api_key db)) = map g (api_key db)"
    if "\<And>r. g (?f r) = g r" for g :: "api_key_rec \<Rightarrow> 'b"
    using that by (simp add: upd_where_def)
  have "keys_unique (snd (service_revoke_key env ident db)) = keys_unique db"
    unfolding keys_unique_def rows by (simp add: maps)
  moreover have "\<exists>r' \<in> set (api_key (snd (service_revoke_key env ident db))). grant_of r' = grant_of r \<or>
      (EvRevoke (ak_id r) \<in> set [EvRevoke ident] \<and> grant_of r' = (grant_of r)\<lparr>ak_is_active := False\<rparr>)"
    if "r \<in> set (api_key db)" for r
    using that unfolding rows
    by (intro bexI [of _ "if ak_id r = ident then ?f r else r"]) (auto simp: set_upd_where grant_of_def)
  ultimately show ?thesis unfolding key_kept_def by blast
qed

lemma key_steps_kept:
  assumes "key_steps env libs evs db db'"
  shows "key_kept evs db db'"
  using assms
proof induction
  case (nothing db)
  show ?case by (rule key_kept_grants) simp
next
  case creates
  then show ?case using key_kept_create key_kept_trans by blast
next
  case revokes
  then show ?case using key_kept_revoke key_kept_trans by blast
next
  case (used evs token db db')
  then show ?case using key_kept_grants [OF authenticate_rows] key_kept_trans by blast
next
  case (elsewhere db1 db evs db')
  have "key_kept [EvElsewhere] db db1" using elsewhere.hyps(1) by (intro key_kept_grants) simp
  then show ?case using elsewhere.IH key_kept_trans by blast
qed

subsection \<open>Keys across their life\<close>

text \<open>
  Property C18 (roundtrip). A secret opens what it was issued for, until it is revoked or expires. After a key was
  created, whatever else happens to the table, as long as nobody revokes this key, its secret
  authenticates at every moment before its expiry at which the lookup is answered, with exactly
  the scope that was asked for.
\<close>

theorem key_secret_authenticates:
  assumes "ct_eq_ok libs" and "keys_unique db"
    and "service_create_key env libs name scope expires db = (Inr created, db1)"
    and "key_steps env libs evs db1 db2" and "EvRevoke (key_id (created_key created)) \<notin> set evs"
    and "fault_at env (tick db2) = None" and "opt_holds (\<lambda>t. now_at env (tick db2) < t) expires \<or> expires = None"
  shows "fst (api_key_authenticate env libs (created_key_secret created) db2) =
    Inr \<lparr>auth_user_id = ''api-key'', auth_scope = scope, auth_key_id = Some (key_id (created_key created))\<rparr>"
proof (cases rule: create_key_cases [of env libs name scope expires db])
  case refused
  with assms(3) show ?thesis by (metis fst_conv)
next
  case (stored r)
  from assms(3) stored(10) have c: "created_key_secret created = generate_key_secret libs (tick db)" "key_id (created_key created) = ak_id r"
    by auto
  have u: "keys_unique db2"
    using key_kept_create [of db env libs name scope expires] key_steps_kept [OF assms(4)] assms(2,3) by (simp add: key_kept_def)
  have "r \<in> set (api_key db1)" using stored(1) assms(3) by simp
  with key_steps_kept [OF assms(4)] assms(5) c(2) obtain r' where r': "r' \<in> set (api_key db2)" "grant_of r' = grant_of r"
    unfolding key_kept_def by metis
  note same = grant_of_same [OF r'(2)]
  have "key_vouches env libs (created_key_secret created) db2 r'"
    using r'(1) stored assms(7) by (auto simp: key_vouches_def same c(1) unexpired_def split: option.splits)
  from authenticate_complete [OF assms(1) u assms(6) this] show ?thesis
    by (simp add: key_context_def same stored(7) c(2) scopes_of_def scope_roundtrip)
qed

text \<open>
  Property C17 (safety). Revocation is final. Once a key has been revoked, no sequence of creations, revocations,
  authentications and other activity lets any token authenticate as that key again.
\<close>

theorem revoked_key_stays_out:
  assumes "ct_eq_ok libs" and "keys_unique db" and "service_revoke_key env ident db = (Inr u, db1)"
    and "key_steps env libs evs db1 db2" and "api_key_authenticate env libs token db2 = (Inr ctx, db3)"
  shows "auth_key_id ctx \<noteq> Some ident"
proof
  assume own: "auth_key_id ctx = Some ident"
  have kept: "key_kept evs db1 db2" by (rule key_steps_kept [OF assms(4)])
  have u: "keys_unique db2" using kept key_kept_revoke [of ident db env] assms(2,3) by (simp add: key_kept_def)
  from revoke_InrD [OF assms(3)] obtain r where r: "r \<in> set (api_key db1)" "ak_id r = ident" "\<not> ak_is_active r" by blast
  from kept r(1) obtain r' where r': "r' \<in> set (api_key db2)"
      "grant_of r' = grant_of r \<or> grant_of r' = (grant_of r)\<lparr>ak_is_active := False\<rparr>"
    unfolding key_kept_def by blast
  from r'(2) r(2,3) have off: "ak_id r' = ident" "\<not> ak_is_active r'"
    by (metis api_key_rec.select_convs(1,6) api_key_rec.surjective api_key_rec.update_convs(6) grant_of_sel(1,2))+
  from authenticate_sound [OF assms(1,5)] obtain s where s: "key_vouches env libs token db2 s" "ctx = key_context s" by blast
  then have "s \<in> set (api_key db2)" "ak_is_active s" "ak_id s = ident" using own by (auto simp: key_vouches_def key_context_def)
  with u r'(1) off show False unfolding keys_unique_def distinct_map by (metis inj_onD)
qed

subsection \<open>The provider interface\<close>

text \<open>
  What the middleware relies on in a provider: a context is given only for a token something
  vouches for, and asking changes nothing that matters to the routes.
\<close>

locale auth_provider =
  fixes authenticate :: "string \<Rightarrow> 's \<Rightarrow> (AuthError + AuthContext) \<times> 's"
    and vouched :: "string \<Rightarrow> 's \<Rightarrow> AuthContext \<Rightarrow> bool"
    and same :: "'s \<Rightarrow> 's \<Rightarrow> bool"
  assumes sound: "authenticate token s = (Inr ctx, s') \<Longrightarrow> vouched token s ctx"
    and quiet: "same s (snd (authenticate token s))"
begin

lemma composite_sound:
  assumes "composite_authenticate [authenticate] token s = (Inr ctx, s')"
  shows "vouched token s ctx"
  using assms by (auto simp: composite_authenticate_def split: prod.splits sum.splits AuthError.splits intro: sound)

lemma composite_quiet: "same s (snd (composite_authenticate [authenticate] token s))"
  using quiet [of s token] by (auto simp: composite_authenticate_def split: prod.splits sum.splits AuthError.splits)

end

text \<open>A gate: a provider for each scheme over the same state.\<close>

locale auth_gate =
  bearer: auth_provider bearer_authenticate bearer_vouched same +
  basic: auth_provider basic_authenticate basic_vouched same
  for bearer_authenticate :: "string \<Rightarrow> 's \<Rightarrow> (AuthError + AuthContext) \<times> 's" and bearer_vouched
    and basic_authenticate and basic_vouched and same +
  assumes same_refl: "same s s"
begin

lemma gate:
  assumes "auth_middleware bearer_authenticate (if configured then Some basic_authenticate else None) run_next header s = (reply, s')"
  shows "same s s' \<or>
    (\<exists>ctx s1. same s s1 \<and> run_next ctx s1 = (reply, s') \<and>
       ((\<exists>t. extract_credential header = Some (Bearer t) \<and> bearer_vouched t s ctx) \<or>
        (\<exists>t. extract_credential header = Some (Basic t) \<and> configured \<and> basic_vouched t s ctx)))"
proof (cases "extract_credential header")
  case None
  then show ?thesis using assms same_refl by (auto simp: auth_middleware_def)
next
  case (Some credential)
  show ?thesis
  proof (cases credential)
    case (Bearer t)
    obtain res s1 where res: "bearer_authenticate t s = (res, s1)" by fastforce
    then have "same s s1" using bearer.quiet [of s t] by simp
    then show ?thesis using assms Some Bearer res
      by (auto simp: auth_middleware_def route_credential_def split: sum.splits AuthError.splits dest: bearer.sound)
  next
    case (Basic t)
    show ?thesis
    proof (cases configured)
      case True
      obtain res s1 where res: "basic_authenticate t s = (res, s1)" by fastforce
      then have "same s s1" using basic.quiet [of s t] by simp
      then show ?thesis using assms Some Basic res True
        by (auto simp: auth_middleware_def route_credential_def split: sum.splits AuthError.splits dest: basic.sound)
    next
      case False
      then show ?thesis using assms Some Basic same_refl by (auto simp: auth_middleware_def route_credential_def)
    qed
  qed
qed

end

text \<open>The administrator's credential: the configured name and a password with the configured hash.\<close>

definition local_vouches :: "key_libs \<Rightarrow> LocalAuthProvider \<Rightarrow> string \<Rightarrow> AuthContext \<Rightarrow> bool" where
  "local_vouches libs provider token ctx \<longleftrightarrow>
     ctx = \<lparr>auth_user_id = ''admin'', auth_scope = ScopeAdmin, auth_key_id = None\<rparr> \<and>
     (\<exists>decoded user pass. Option.bind (kl_b64_decode libs token) (kl_from_utf8 libs) = Some decoded \<and>
        split_once (CHR '':'') decoded = Some (user, pass) \<and> user = la_username provider \<and>
        kl_ct_eq libs (kl_sha256_hex libs pass) (la_password_hash provider))"

definition same_grants :: "odal \<Rightarrow> odal \<Rightarrow> bool" where
  "same_grants db db' \<longleftrightarrow> map grant_of (api_key db') = map grant_of (api_key db)"

definition keyed_vouches :: "pg_env \<Rightarrow> key_libs \<Rightarrow> string \<Rightarrow> odal \<Rightarrow> AuthContext \<Rightarrow> bool" where
  "keyed_vouches env libs token db ctx \<longleftrightarrow> ct_eq_ok libs \<longrightarrow> (\<exists>r. key_vouches env libs token db r \<and> ctx = key_context r)"

interpretation api_keys: auth_provider "api_key_authenticate env libs" "keyed_vouches env libs" same_grants
  by unfold_locales (auto simp: keyed_vouches_def same_grants_def authenticate_rows dest: authenticate_sound)

interpretation local_admin: auth_provider "local_authenticate libs provider" "\<lambda>token _ ctx. local_vouches libs provider token ctx" same_grants
  by unfold_locales
    (auto simp: local_authenticate_def local_vouches_def same_grants_def split: option.splits if_splits bind_splits)

interpretation key_gate: auth_gate "composite_authenticate [api_key_authenticate env libs]" "keyed_vouches env libs"
  "local_authenticate libs provider" "\<lambda>token _ ctx. local_vouches libs provider token ctx" same_grants
  by unfold_locales (auto simp: same_grants_def api_keys.composite_quiet [unfolded same_grants_def] intro: api_keys.composite_sound)

subsection \<open>The routes\<close>

lemma list_keys_rows: "api_key (snd (api_keys_list_handler env auth db)) = api_key db"
  by (auto simp: api_keys_list_handler_def list_active_def split: option.splits prod.splits sum.splits)

lemma key_handler_rows:
  assumes "key_handler env libs request auth db = (reply, db')" and "\<not> same_grants db db'"
  shows "is_admin (auth_scope auth)" and "\<forall>r \<in> set (api_key db). auth_key_id auth = Some (ak_id r) \<longrightarrow> r \<in> set (api_key db')"
proof -
  show "is_admin (auth_scope auth)"
  proof (rule ccontr)
    assume "\<not> is_admin (auth_scope auth)"
    then have "db' = db" using assms(1)
      by (auto simp: key_handler_def api_keys_list_handler_def api_keys_create_handler_def api_keys_delete_handler_def
          require_admin_def RequireAdmin_def split: key_request.splits)
    with assms(2) show False by (simp add: same_grants_def)
  qed
  show "\<forall>r \<in> set (api_key db). auth_key_id auth = Some (ak_id r) \<longrightarrow> r \<in> set (api_key db')"
  proof (cases request)
    case ListKeys
    then show ?thesis using assms list_keys_rows [of env auth db] by (simp add: key_handler_def same_grants_def)
  next
    case (CreateKey body)
    have snd_create: "snd (api_keys_create_handler env libs (Some auth) body db) =
        snd (service_create_key env libs (cr_name body) (case cr_scope body of Some s \<Rightarrow> s | None \<Rightarrow> ScopeAdmin) (cr_expires_at body) db)"
      if "is_admin (auth_scope auth)"
      using that by (simp add: api_keys_create_handler_def RequireAdmin_def Let_def split: prod.splits sum.splits dpp_error.splits)
    show ?thesis
      by (cases rule: create_key_cases [of env libs "cr_name body" "case cr_scope body of Some s \<Rightarrow> s | None \<Rightarrow> ScopeAdmin" "cr_expires_at body" db])
        (use snd_create [OF \<open>is_admin (auth_scope auth)\<close>] CreateKey assms(1) in \<open>auto simp: key_handler_def\<close>)
  next
    case (DeleteKey ident)
    have "api_key db' = api_key db \<or> (\<exists>target. auth_key_id auth \<noteq> Some target \<and>
        api_key db' = upd_where (\<lambda>r. ak_id r = target) (\<lambda>r. r\<lparr>ak_is_active := False\<rparr>) (api_key db))"
    proof (cases "kl_parse_uuid libs ident")
      case None
      then show ?thesis using DeleteKey assms(1) by (auto simp: key_handler_def api_keys_delete_handler_def split: option.splits)
    next
      case (Some target)
      then have "db' = db \<or> (auth_key_id auth \<noteq> Some target \<and> db' = snd (service_revoke_key env target db))"
        using DeleteKey assms(1)
        by (auto simp: key_handler_def api_keys_delete_handler_def blocks_self_revoke_def
            split: option.splits if_splits prod.splits sum.splits dpp_error.splits)
      then show ?thesis using revoke_rows [of env target db] by blast
    qed
    then show ?thesis by (auto simp: set_upd_where)
  qed
qed

text \<open>
  Property C16 (safety). The keys are changed by an administrator only. Whatever a request to the key routes
  carries and whatever fails, if afterwards any key's name, hash, scope, expiry or standing
  differs, or a key is new, then the request carried either the secret of an active, unexpired
  key whose stored scopes name admin, as a Bearer token, or the administrator's own name and
  password, as Basic credentials, never the one under the other's scheme; and the key it
  authenticated with is itself unchanged, so no caller can lock itself out.
\<close>

theorem key_routes_admin_only:
  assumes "ct_eq_ok libs" and "key_route env libs provider header request db = (reply, db')"
    and "map grant_of (api_key db') \<noteq> map grant_of (api_key db)"
  shows "(\<exists>token r. extract_credential header = Some (Bearer token) \<and> key_vouches env libs token db r \<and>
        ''admin'' \<in> set (scopes_of (ak_scopes r)) \<and> grant_of r \<in> grant_of ` set (api_key db')) \<or>
    (\<exists>token p ctx. extract_credential header = Some (Basic token) \<and> provider = Some p \<and> local_vouches libs p token ctx)"
proof -
  let ?p = "case provider of Some p \<Rightarrow> p | None \<Rightarrow> undefined"
  have route: "auth_middleware (composite_authenticate [api_key_authenticate env libs])
      (if provider \<noteq> None then Some (local_authenticate libs ?p) else None) (key_handler env libs request) header db = (reply, db')"
    using assms(2) by (cases provider) (simp_all add: key_route_def)
  have "\<not> same_grants db db'" using assms(3) by (simp add: same_grants_def)
  with key_gate.gate [OF route] obtain ctx s1 where s1: "same_grants db s1" "key_handler env libs request ctx s1 = (reply, db')"
    and by_whom: "(\<exists>t. extract_credential header = Some (Bearer t) \<and> keyed_vouches env libs t db ctx) \<or>
        (\<exists>t. extract_credential header = Some (Basic t) \<and> provider \<noteq> None \<and> local_vouches libs ?p t ctx)"
    by blast
  have changed: "\<not> same_grants s1 db'" using s1(1) assms(3) by (simp add: same_grants_def)
  note handled = key_handler_rows [OF s1(2) changed]
  from by_whom show ?thesis
  proof (elim disjE exE conjE)
    fix t assume t: "extract_credential header = Some (Bearer t)" "keyed_vouches env libs t db ctx"
    then obtain r where r: "key_vouches env libs t db r" "ctx = key_context r" using assms(1) by (auto simp: keyed_vouches_def)
    have "''admin'' \<in> set (scopes_of (ak_scopes r))"
      using handled(1) r(2) from_scopes_admin [of "scopes_of (ak_scopes r)"]
      by (cases "from_scopes (scopes_of (ak_scopes r))") (auto simp: key_context_def is_admin_def)
    moreover have "grant_of r \<in> grant_of ` set (api_key db')"
    proof -
      have "grant_of r \<in> set (map grant_of (api_key s1))" using r(1) s1(1) by (simp add: same_grants_def key_vouches_def)
      then obtain r1 where r1: "r1 \<in> set (api_key s1)" "grant_of r1 = grant_of r" by auto
      then have "r1 \<in> set (api_key db')" using handled(2) r(2) grant_of_same(1) [OF r1(2)] by (auto simp: key_context_def)
      with r1(2) show ?thesis by (metis image_eqI)
    qed
    ultimately show ?thesis using t(1) r(1) by blast
  next
    fix t assume "extract_credential header = Some (Basic t)" "provider \<noteq> None" "local_vouches libs ?p t ctx"
    then show ?thesis by (cases provider) auto
  qed
qed

text \<open>
  A name is never free again. Creating a key under the name of any other, a revoked or expired
  one that no listing shows included, is answered as an internal error.
\<close>

theorem used_key_name_is_internal_error:
  assumes "is_admin (auth_scope auth)" and "r \<in> set (api_key db)" and "ak_name r = str_trim (cr_name body)"
    and "str_trim (cr_name body) \<noteq> []" and "fault_at env (tick db) = None"
  shows "api_keys_create_handler env libs (Some auth) body db = (internal_refusal, bump db)"
proof -
  have taken: "list_ex (\<lambda>x. ak_id x = i \<or> ak_name x = str_trim (cr_name body) \<or> ak_key_prefix x = k) (api_key db)" for i k
    using assms(2,3) by (auto simp: list_ex_iff)
  have "db_err env unique_violation \<noteq> Validation m" for m by (simp add: db_err_def unique_violation_def)
  moreover have "service_create_key env libs (cr_name body) scope (cr_expires_at body) db = (Inl (db_err env unique_violation), bump db)" for scope
    using assms(4,5) taken by (simp add: service_create_key_def repo_create_key_def Let_def)
  ultimately show ?thesis using assms(1)
    by (simp add: api_keys_create_handler_def RequireAdmin_def Let_def split: dpp_error.splits)
qed

subsection \<open>Concrete keys\<close>

definition sample_key_libs :: key_libs where
  "sample_key_libs = \<lparr>kl_sha256_hex = (\<lambda>s. ''sha:'' @ s), kl_ct_eq = (\<lambda>a b. a = b), kl_random = (\<lambda>_. ''AAAAB''),
     kl_utc_now = (\<lambda>n. of_nat n), kl_b64_decode = Some, kl_from_utf8 = Some, kl_parse_uuid = (\<lambda>s. Some (length s))\<rparr>"

definition sample_key_row :: api_key_rec where
  "sample_key_row = \<lparr>ak_id = 7, ak_name = ''ops'', ak_key_hash = ''sha:odal_sk_ZZZZ1'', ak_key_prefix = ''odal_sk_ZZZZ'',
     ak_scopes = Some [Some ''admin''], ak_is_active = True, ak_created_at = 0, ak_last_used_at = None, ak_expires_at = None\<rparr>"

definition sample_key_db :: odal where
  "sample_key_db = empty_db\<lparr>api_key := [sample_key_row]\<rparr>"

lemma sample_key_simps:
  "ct_eq_ok sample_key_libs" "keys_unique sample_key_db" "api_key sample_key_db = [sample_key_row]" "tick sample_key_db = 0"
  by (simp_all add: ct_eq_ok_def sample_key_libs_def keys_unique_def sample_key_db_def empty_db_def)

lemma sample_secret_prefix: "lookup_prefix (generate_key_secret sample_key_libs n) = ''odal_sk_AAAA''"
  by (simp add: lookup_prefix_def generate_key_secret_def KEY_PREFIX_LEN_def KEY_PREFIX_def sample_key_libs_def numeral_eq_Suc)

lemma sample_name_trimmed: "str_trim ''ci'' = ''ci''"
  by (simp add: str_trim_def is_ws_def)

lemma sample_key_created:
  "\<exists>c db1. service_create_key sample_env sample_key_libs ''ci'' ScopeWrite (Some 100) sample_key_db = (Inr c, db1) \<and>
     key_id (created_key c) = 0 \<and> tick db1 = 1"
  by (simp add: service_create_key_def repo_create_key_def Let_def sample_key_simps sample_key_row_def sample_name_trimmed
      sample_secret_prefix)

theorem key_secret_authenticates_witness:
  "\<exists>c db1. service_create_key sample_env sample_key_libs ''ci'' ScopeWrite (Some 100) sample_key_db = (Inr c, db1) \<and>
     fst (api_key_authenticate sample_env sample_key_libs (created_key_secret c) (snd (service_revoke_key sample_env 7 db1))) =
       Inr \<lparr>auth_user_id = ''api-key'', auth_scope = ScopeWrite, auth_key_id = Some 0\<rparr>"
proof -
  from sample_key_created obtain c db1 where c: "service_create_key sample_env sample_key_libs ''ci'' ScopeWrite (Some 100) sample_key_db = (Inr c, db1)"
    "key_id (created_key c) = 0" "tick db1 = 1" by blast
  let ?db2 = "snd (service_revoke_key sample_env 7 db1)"
  have steps: "key_steps sample_env sample_key_libs [EvRevoke 7] db1 ?db2" by (intro key_steps.revokes key_steps.nothing)
  have "?db2 = snd (exec_update api_key api_key_update ak_id sample_env 7 (\<lambda>_ _. True) (\<lambda>_. True) revoked_key db1)"
    by (simp add: service_revoke_key_def repo_revoke_key_def split: prod.splits sum.splits)
  then have "tick ?db2 = 2" using c(3) by (simp add: key_t.exec_update_tick)
  then have "fst (api_key_authenticate sample_env sample_key_libs (created_key_secret c) ?db2) =
      Inr \<lparr>auth_user_id = ''api-key'', auth_scope = ScopeWrite, auth_key_id = Some (key_id (created_key c))\<rparr>"
    by (intro key_secret_authenticates [OF sample_key_simps(1,2) c(1) steps]) (simp_all add: c(2))
  with c show ?thesis by auto
qed

theorem revoked_key_stays_out_witness:
  "\<exists>db1. service_revoke_key sample_env 7 sample_key_db = (Inr (), db1) \<and>
     (\<forall>token ctx db3. api_key_authenticate sample_env sample_key_libs token db1 = (Inr ctx, db3) \<longrightarrow> auth_key_id ctx \<noteq> Some 7)"
proof -
  have "fst (service_revoke_key sample_env 7 sample_key_db) = Inr ()"
    by (simp add: service_revoke_key_def repo_revoke_key_def exec_update_def pg_update_def Let_def sample_key_simps sample_key_row_def)
  then obtain db1 where r: "service_revoke_key sample_env 7 sample_key_db = (Inr (), db1)" by (metis prod.collapse)
  then show ?thesis
    using revoked_key_stays_out [OF sample_key_simps(1,2) r key_steps.nothing] by blast
qed

lemma sample_bearer: "extract_credential (Some ''bearer odal_sk_ZZZZ1'') = Some (Bearer ''odal_sk_ZZZZ1'')"
  by (simp add: extract_credential_def split_once_def eq_ignore_ascii_case_def ascii_lower_def)

lemma sample_key_vouched: "key_vouches sample_env sample_key_libs ''odal_sk_ZZZZ1'' sample_key_db sample_key_row"
  by (simp add: key_vouches_def sample_key_simps) (simp add: sample_key_row_def unexpired_def lookup_prefix_def KEY_PREFIX_LEN_def
      KEY_PREFIX_def sample_key_libs_def numeral_eq_Suc)

theorem key_routes_admin_only_witness:
  "\<exists>reply db'. key_route sample_env sample_key_libs None (Some ''bearer odal_sk_ZZZZ1'')
       (CreateKey \<lparr>cr_name = ''ci'', cr_expires_at = None, cr_scope = Some ScopeRead\<rparr>) sample_key_db = (reply, db') \<and>
     map grant_of (api_key db') \<noteq> map grant_of (api_key sample_key_db) \<and>
     (\<exists>r. key_vouches sample_env sample_key_libs ''odal_sk_ZZZZ1'' sample_key_db r \<and> ''admin'' \<in> set (scopes_of (ak_scopes r)) \<and>
        grant_of r \<in> grant_of ` set (api_key db'))"
proof -
  let ?body = "\<lparr>cr_name = ''ci'', cr_expires_at = None, cr_scope = Some ScopeRead\<rparr>"
  let ?auth = "api_key_authenticate sample_env sample_key_libs ''odal_sk_ZZZZ1'' sample_key_db"
  obtain reply db' where route: "key_route sample_env sample_key_libs None (Some ''bearer odal_sk_ZZZZ1'') (CreateKey ?body) sample_key_db = (reply, db')"
    by fastforce
  have ctx: "fst ?auth = Inr (key_context sample_key_row)"
    by (rule authenticate_complete [OF sample_key_simps(1,2) _ sample_key_vouched]) simp
  have "is_admin (auth_scope (key_context sample_key_row))"
    by (simp add: key_context_def sample_key_row_def scopes_of_def from_scopes_def is_admin_def)
  then have db': "db' = snd (service_create_key sample_env sample_key_libs ''ci'' ScopeRead None (snd ?auth))"
    using route ctx
    by (cases ?auth) (auto simp: key_route_def auth_middleware_def sample_bearer route_credential_def composite_authenticate_def
        key_handler_def api_keys_create_handler_def RequireAdmin_def Let_def split: prod.splits sum.splits dpp_error.splits)
  have grants: "map grant_of (api_key (snd ?auth)) = [grant_of sample_key_row]"
    using authenticate_rows [of sample_env sample_key_libs "''odal_sk_ZZZZ1''" sample_key_db] by (simp add: sample_key_simps)
  then obtain r where r: "api_key (snd ?auth) = [r]" "grant_of r = grant_of sample_key_row" by auto
  have row: "ak_id r = 7" "ak_name r = ''ops''" "ak_key_prefix r = ''odal_sk_ZZZZ''"
    by (simp_all add: grant_of_same [OF r(2)] sample_key_row_def)
  have "tick (snd ?auth) \<noteq> 0"
    by (cases "find_active_by_prefix sample_env (lookup_prefix ''odal_sk_ZZZZ1'') sample_key_db")
      (use ctx in \<open>auto simp: touch_tick api_key_authenticate_def find_active_by_prefix_def find_any_by_prefix_def find_key_def Let_def
        split: if_splits option.splits\<close>)
  then have "length (api_key db') = 2"
    by (auto simp: db' service_create_key_def repo_create_key_def Let_def sample_name_trimmed sample_secret_prefix r(1) row)
  then have "map grant_of (api_key db') \<noteq> map grant_of (api_key sample_key_db)"
    by (metis length_map length_Cons list.size(3) sample_key_simps(3) One_nat_def numeral_2_eq_2 n_not_Suc_n)
  with key_routes_admin_only [OF sample_key_simps(1) route] route show ?thesis by (auto simp: sample_bearer)
qed

theorem used_key_name_is_internal_error_witness:
  "api_keys_create_handler sample_env sample_key_libs (Some \<lparr>auth_user_id = ''admin'', auth_scope = ScopeAdmin, auth_key_id = None\<rparr>)
     \<lparr>cr_name = '' ops '', cr_expires_at = None, cr_scope = None\<rparr> sample_key_db = (internal_refusal, bump sample_key_db)"
  by (rule used_key_name_is_internal_error [where r = sample_key_row])
    (simp_all add: is_admin_def sample_key_simps, simp_all add: sample_key_row_def str_trim_def is_ws_def)

end
