(* ===== verification/Import_Fields.thy ===== *)
theory Import_Fields
  imports Import_Types "HOL-Library.State_Monad"
begin

text \<open>
  Reading the cells of an uploaded row: \<^verbatim>\<open>dpp-integrator/src/domain/fields.rs\<close>, with the request a
  row becomes (\<^verbatim>\<open>dpp-types/src/passport_request.rs\<close>). The helpers thread the list of row errors, as
  the code does, through a state monad. A row is the association list a hash map iterates over,
  in any order. Number, date, GTIN, commodity code and serial checks come from libraries and the
  domain crate; they are fields of \<open>row_libs\<close>, and the domain's enumerations and wire types are
  kept as their names and as JSON.
\<close>

type_synonym csv_row = "(string \<times> string) list"

datatype Gs1ValueRejection = Gs1Empty | Gs1TooLong nat | Gs1OutsideCset82 string

datatype f64_parse = NotANumber | NotFinite | Number rat

record row_libs =
  parse_f64 :: "string \<Rightarrow> f64_parse"
  gtin_parse :: "string \<Rightarrow> string + string"
  commodity_code_parse :: "string \<Rightarrow> string option"
  check_gs1_serial :: "string \<Rightarrow> Gs1ValueRejection option"
  max_gs1_serial_chars :: nat
  parse_date :: "string \<Rightarrow> int option"
  serde_enum :: "string \<Rightarrow> string \<Rightarrow> string + string"
  serde_list :: "string \<Rightarrow> string \<Rightarrow> string + json list"
  domain_check :: "string \<Rightarrow> json list \<Rightarrow> string option"
  from_wire :: "string \<Rightarrow> json \<Rightarrow> json option"
  fmt_debug :: "string \<Rightarrow> string"
  json_of_f64 :: "rat \<Rightarrow> json"

subsection \<open>The request\<close>

record MaterialEntry =
  me_name :: string
  me_weight_kg :: rat
  me_recycled_pct :: "rat option"
  me_country_of_origin :: "string option"

record ManufacturerInfo =
  mi_name :: string
  mi_address :: string
  mi_registered_trade_name :: "string option"
  mi_electronic_address :: "string option"
  mi_country :: "string option"
  mi_did_web_url :: "string option"

datatype ProductGroup = Battery | Textile | Steel | Aluminium | Tyre | Mattress | Furniture | Toy | Construction
  | Electronics | Detergent

text \<open>
  The request is parametrised by the product group data, which the matcher and the runner treat
  as a whole; the identifier is the one thing they read of it.
\<close>

record 'd CreatePassportRequest =
  cp_product_name :: string
  cp_product_group :: "ProductGroup option"
  cp_manufacturer :: ManufacturerInfo
  cp_materials :: "MaterialEntry list option"
  cp_co2e_per_unit :: "rat option"
  cp_repairability_score :: "rat option"
  cp_product_group_data :: "'d option"
  cp_batch_id :: "string option"
  cp_placed_on_market_date :: "int option"
  cp_schema_version :: "string option"
  cp_commodity_code :: "string option"
  cp_supersedes_id :: "uuid option"
  cp_derived_from :: "json list"
  cp_life_status :: "string option"
  cp_personal_data :: "json list"
  cp_component_refs :: "json list"
  cp_carrier_serial :: "string option"

definition carrier_serial_problem :: "row_libs \<Rightarrow> string \<Rightarrow> string option" where
  "carrier_serial_problem lib serial =
     map_option (\<lambda>rejection.
       case rejection of
         Gs1Empty \<Rightarrow> ''must not be empty''
       | Gs1TooLong chars \<Rightarrow> ''has '' @ show_nat chars @ '' characters; GS1 AI 21 allows at most '' @ show_nat (max_gs1_serial_chars lib)
       | Gs1OutsideCset82 c \<Rightarrow> ''contains '' @ c @ '', which is outside GS1 CSET 82'')
     (check_gs1_serial lib serial)"

subsection \<open>Cells\<close>

definition is_ascii_alphanumeric :: "char \<Rightarrow> bool" where
  "is_ascii_alphanumeric c \<longleftrightarrow> (let n = of_char c :: nat in (48 \<le> n \<and> n \<le> 57) \<or> (65 \<le> n \<and> n \<le> 90) \<or> (97 \<le> n \<and> n \<le> 122))"

definition normalize_key :: "string \<Rightarrow> string" where
  "normalize_key key = map ascii_lower (filter is_ascii_alphanumeric key)"

definition get_field :: "csv_row \<Rightarrow> string \<Rightarrow> string option" where
  "get_field row field =
     (case map_of row field of
        Some v \<Rightarrow> Some v
      | None \<Rightarrow> map_option snd (find (\<lambda>(k, _). normalize_key k = normalize_key field) row))"

definition optional_str :: "csv_row \<Rightarrow> string \<Rightarrow> string option" where
  "optional_str row field =
     (case get_field row field of Some v \<Rightarrow> if str_trim v = [] then None else Some v | None \<Rightarrow> None)"

type_synonym 'a checked = "(RowError list, 'a) state"

definition push_error :: "nat \<Rightarrow> string \<Rightarrow> string \<Rightarrow> unit checked" where
  "push_error row_num field message =
     State (\<lambda>errors. ((), errors @ [\<lparr>er_row = row_num, er_field = field, er_message = message\<rparr>]))"

definition refuse :: "nat \<Rightarrow> string \<Rightarrow> string \<Rightarrow> 'a option checked" where
  "refuse row_num field message = do { push_error row_num field message; State_Monad.return None }"

definition parse_gtin :: "row_libs \<Rightarrow> string option \<Rightarrow> nat \<Rightarrow> string option checked" where
  "parse_gtin lib gtin row_num =
     (case gtin of
        None \<Rightarrow> State_Monad.return None
      | Some g \<Rightarrow>
          (case gtin_parse lib g of
             Inr parsed \<Rightarrow> State_Monad.return (Some parsed)
           | Inl e \<Rightarrow> refuse row_num ''gtin'' e))"

definition require_str :: "csv_row \<Rightarrow> string \<Rightarrow> nat \<Rightarrow> string option checked" where
  "require_str row field row_num =
     (case optional_str row field of
        Some v \<Rightarrow> State_Monad.return (Some v)
      | None \<Rightarrow> refuse row_num field (field @ '' is required''))"

definition number_cell :: "row_libs \<Rightarrow> string \<Rightarrow> nat \<Rightarrow> string \<Rightarrow> rat option checked" where
  "number_cell lib field row_num raw =
     (case parse_f64 lib raw of
        Number v \<Rightarrow> State_Monad.return (Some v)
      | NotFinite \<Rightarrow> refuse row_num field (''Expected a finite number, got '' @ [CHR 0x27] @ raw @ [CHR 0x27])
      | NotANumber \<Rightarrow> refuse row_num field (''Expected a number, got '' @ [CHR 0x27] @ raw @ [CHR 0x27]))"

definition require_f64 :: "row_libs \<Rightarrow> csv_row \<Rightarrow> string \<Rightarrow> nat \<Rightarrow> rat option checked" where
  "require_f64 lib row field row_num = do {
     raw \<leftarrow> require_str row field row_num;
     case raw of None \<Rightarrow> State_Monad.return None | Some raw \<Rightarrow> number_cell lib field row_num raw }"

definition optional_f64 :: "row_libs \<Rightarrow> csv_row \<Rightarrow> string \<Rightarrow> nat \<Rightarrow> rat option checked" where
  "optional_f64 lib row field row_num =
     (case optional_str row field of None \<Rightarrow> State_Monad.return None | Some raw \<Rightarrow> number_cell lib field row_num raw)"

text \<open>Rust's \<^verbatim>\<open>str::parse::<u32>\<close>: an optional plus sign and at least one digit, without overflow.\<close>

definition parse_u32 :: "string \<Rightarrow> nat option" where
  "parse_u32 s =
     (let ds = (case s of c # cs \<Rightarrow> if c = CHR ''+'' then cs else s | [] \<Rightarrow> []);
          n = foldl (\<lambda>acc c. 10 * acc + (of_char c - 48)) (0::nat) ds
      in if ds \<noteq> [] \<and> list_all (\<lambda>c. 48 \<le> (of_char c :: nat) \<and> (of_char c :: nat) \<le> 57) ds \<and> n < 2 ^ 32 then Some n else None)"

definition integer_cell :: "string \<Rightarrow> nat \<Rightarrow> string \<Rightarrow> nat option checked" where
  "integer_cell field row_num raw =
     (case parse_u32 raw of
        Some v \<Rightarrow> State_Monad.return (Some v)
      | None \<Rightarrow> refuse row_num field (''Expected a positive integer, got '' @ [CHR 0x27] @ raw @ [CHR 0x27]))"

definition require_u32 :: "csv_row \<Rightarrow> string \<Rightarrow> nat \<Rightarrow> nat option checked" where
  "require_u32 row field row_num = do {
     raw \<leftarrow> require_str row field row_num;
     case raw of None \<Rightarrow> State_Monad.return None | Some raw \<Rightarrow> integer_cell field row_num raw }"

definition optional_u32 :: "csv_row \<Rightarrow> string \<Rightarrow> nat \<Rightarrow> nat option checked" where
  "optional_u32 row field row_num =
     (case optional_str row field of None \<Rightarrow> State_Monad.return None | Some raw \<Rightarrow> integer_cell field row_num raw)"

definition bool_cell :: "string \<Rightarrow> nat \<Rightarrow> string \<Rightarrow> bool option checked" where
  "bool_cell field row_num raw =
     (let v = map ascii_lower (str_trim raw) in
      if v = ''true'' \<or> v = ''yes'' \<or> v = ''1'' then State_Monad.return (Some True)
      else if v = ''false'' \<or> v = ''no'' \<or> v = ''0'' then State_Monad.return (Some False)
      else refuse row_num field (''Expected true/false, yes/no or 1/0, got '' @ [CHR 0x27] @ raw @ [CHR 0x27]))"

definition require_bool :: "csv_row \<Rightarrow> string \<Rightarrow> nat \<Rightarrow> bool option checked" where
  "require_bool row field row_num = do {
     raw \<leftarrow> require_str row field row_num;
     case raw of None \<Rightarrow> State_Monad.return None | Some raw \<Rightarrow> bool_cell field row_num raw }"

definition optional_bool :: "csv_row \<Rightarrow> string \<Rightarrow> nat \<Rightarrow> bool option checked" where
  "optional_bool row field row_num =
     (case optional_str row field of None \<Rightarrow> State_Monad.return None | Some raw \<Rightarrow> bool_cell field row_num raw)"

definition optional_commodity_code :: "row_libs \<Rightarrow> csv_row \<Rightarrow> string \<Rightarrow> nat \<Rightarrow> string option checked" where
  "optional_commodity_code lib row field row_num =
     (case optional_str row field of
        None \<Rightarrow> State_Monad.return None
      | Some raw \<Rightarrow>
          (case commodity_code_parse lib (str_trim raw) of
             None \<Rightarrow> State_Monad.return (Some (str_trim raw))
           | Some e \<Rightarrow> refuse row_num field (''Invalid commodity code '' @ [CHR 0x27] @ raw @ [CHR 0x27] @ '': '' @ e)))"

definition optional_carrier_serial :: "row_libs \<Rightarrow> csv_row \<Rightarrow> string \<Rightarrow> nat \<Rightarrow> string option checked" where
  "optional_carrier_serial lib row field row_num =
     (case optional_str row field of
        None \<Rightarrow> State_Monad.return None
      | Some raw \<Rightarrow>
          (case carrier_serial_problem lib (str_trim raw) of
             None \<Rightarrow> State_Monad.return (Some (str_trim raw))
           | Some problem \<Rightarrow> refuse row_num field (''Invalid carrier serial '' @ [CHR 0x27] @ raw @ [CHR 0x27] @ '': '' @ problem)))"

definition optional_date :: "row_libs \<Rightarrow> csv_row \<Rightarrow> string \<Rightarrow> nat \<Rightarrow> int option checked" where
  "optional_date lib row field row_num =
     (case optional_str row field of
        None \<Rightarrow> State_Monad.return None
      | Some raw \<Rightarrow>
          (case parse_date lib (str_trim raw) of
             Some date \<Rightarrow> State_Monad.return (Some date)
           | None \<Rightarrow> refuse row_num field (''Expected an ISO-8601 date (YYYY-MM-DD), got '' @ [CHR 0x27] @ raw @ [CHR 0x27])))"

fun aliased :: "csv_row \<Rightarrow> string list \<Rightarrow> string option" where
  "aliased row [] = None"
| "aliased row (k # ks) = (case optional_str row k of Some v \<Rightarrow> Some v | None \<Rightarrow> aliased row ks)"

definition require_aliased :: "csv_row \<Rightarrow> string list \<Rightarrow> string \<Rightarrow> nat \<Rightarrow> string option checked" where
  "require_aliased row aliases canonical row_num =
     (case aliased row aliases of
        Some v \<Rightarrow> State_Monad.return (Some v)
      | None \<Rightarrow> refuse row_num canonical (canonical @ '' is required''))"

definition MAX_MATERIAL_COLUMNS :: nat where
  "MAX_MATERIAL_COLUMNS = 10"

definition finite_number :: "row_libs \<Rightarrow> string option \<Rightarrow> rat option" where
  "finite_number lib cell = (case cell of Some v \<Rightarrow> (case parse_f64 lib v of Number x \<Rightarrow> Some x | _ \<Rightarrow> None) | None \<Rightarrow> None)"

definition parse_materials :: "row_libs \<Rightarrow> csv_row \<Rightarrow> MaterialEntry list" where
  "parse_materials lib row =
     concat (map (\<lambda>i.
       let col = (\<lambda>suffix. ''material_'' @ show_nat i @ suffix) in
       case optional_str row (col ''_name'') of
         None \<Rightarrow> []
       | Some name \<Rightarrow>
           [\<lparr>me_name = name,
             me_weight_kg = (case finite_number lib (get_field row (col ''_weightKg'')) of Some x \<Rightarrow> x | None \<Rightarrow> 0),
             me_recycled_pct = finite_number lib (get_field row (col ''_recycledPct'')),
             me_country_of_origin = optional_str row (col ''_countryOfOrigin'')\<rparr>])
       [1..<MAX_MATERIAL_COLUMNS + 1])"

subsection \<open>What a reader does\<close>

text \<open>A reader yields a value and adds errors of its own at the end of the list.\<close>

definition value_of :: "'a checked \<Rightarrow> 'a" where
  "value_of m = fst (run_state m [])"

definition errors_of :: "'a checked \<Rightarrow> RowError list" where
  "errors_of m = snd (run_state m [])"

definition appending :: "'a checked \<Rightarrow> bool" where
  "appending m \<longleftrightarrow> (\<forall>errors. run_state m errors = (value_of m, errors @ errors_of m))"

lemma appendingI:
  assumes "\<And>errors. run_state m errors = (v, errors @ es)"
  shows "appending m" and "value_of m = v" and "errors_of m = es"
  using assms by (simp_all add: appending_def value_of_def errors_of_def)

lemma run_return: "appending (State_Monad.return x)" "value_of (State_Monad.return x) = x" "errors_of (State_Monad.return x) = []"
  by (rule appendingI [where es = "[]"]; simp)+

lemma run_refuse:
  "appending (refuse n f msg)" "value_of (refuse n f msg) = None"
  "errors_of (refuse n f msg) = [\<lparr>er_row = n, er_field = f, er_message = msg\<rparr>]"
  by (rule appendingI; simp add: refuse_def push_error_def)+

lemma run_bind:
  assumes "appending m" and "appending (f (value_of m))"
  shows "appending (State_Monad.bind m f)" and "value_of (State_Monad.bind m f) = value_of (f (value_of m))"
    and "errors_of (State_Monad.bind m f) = errors_of m @ errors_of (f (value_of m))"
  using assms by (rule_tac appendingI; simp add: appending_def)+

lemma run_state_step:
  assumes "appending m"
  shows "run_state m errors = (value_of m, errors @ errors_of m)"
  using assms by (simp add: appending_def)

text \<open>Errors of one row about some of its fields.\<close>

definition only_errors :: "nat \<Rightarrow> string set \<Rightarrow> RowError list \<Rightarrow> bool" where
  "only_errors n names es \<longleftrightarrow> (\<forall>e \<in> set es. er_row e = n \<and> er_field e \<in> names)"

lemma only_errors_append: "only_errors n names [] = True"
  "only_errors n names (es @ es') \<longleftrightarrow> only_errors n names es \<and> only_errors n names es'"
  by (auto simp: only_errors_def)

named_theorems reader_simps \<open>what the cell readers yield and report\<close>

text \<open>
  A cell reader for a field: it only adds errors of its row and field, and when it adds none it
  has read what was there. \<open>needed\<close> says whether a blank cell is an error.
\<close>

locale cell_reader =
  fixes reads :: "csv_row \<Rightarrow> string \<Rightarrow> nat \<Rightarrow> 'a option checked"
    and needed :: bool
  assumes reads_appending: "appending (reads row f n)"
    and reads_errors: "e \<in> set (errors_of (reads row f n)) \<Longrightarrow> er_row e = n \<and> er_field e = f"
    and reads_cell: "optional_str row f = optional_str row' f \<Longrightarrow> reads row f n = reads row' f n"
    and reads_present: "errors_of (reads row f n) = [] \<Longrightarrow> optional_str row f \<noteq> None \<Longrightarrow> value_of (reads row f n) \<noteq> None"
    and reads_absent: "optional_str row f = None \<Longrightarrow> value_of (reads row f n) = None \<and>
      map er_field (errors_of (reads row f n)) = (if needed then [f] else [])"
begin

lemma reads_run: "run_state (reads row f n) errors = (value_of (reads row f n), errors @ errors_of (reads row f n))"
  using reads_appending by (simp add: appending_def)

lemma reads_value:
  assumes "errors_of (reads row f n) = []" and "needed"
  shows "value_of (reads row f n) \<noteq> None" and "optional_str row f \<noteq> None"
proof -
  show "optional_str row f \<noteq> None"
  proof
    assume "optional_str row f = None"
    from reads_absent [OF this, of n] assms show False by simp
  qed
  with reads_present assms(1) show "value_of (reads row f n) \<noteq> None" by blast
qed

lemma reads_only: "f \<in> names \<Longrightarrow> only_errors n names (errors_of (reads row f n))"
  using reads_errors by (auto simp: only_errors_def)

lemma reads_value_iff:
  assumes "errors_of (reads row f n) = []"
  shows "value_of (reads row f n) = None \<longleftrightarrow> optional_str row f = None"
  using assms reads_present reads_absent by blast

end

lemma number_cell_run: "appending (number_cell lib f n raw)"
  "e \<in> set (errors_of (number_cell lib f n raw)) \<Longrightarrow> er_row e = n \<and> er_field e = f"
  "errors_of (number_cell lib f n raw) = [] \<Longrightarrow> value_of (number_cell lib f n raw) \<noteq> None"
  by (cases "parse_f64 lib raw"; simp add: number_cell_def run_return run_refuse)+

lemma integer_cell_run: "appending (integer_cell f n raw)"
  "e \<in> set (errors_of (integer_cell f n raw)) \<Longrightarrow> er_row e = n \<and> er_field e = f"
  "errors_of (integer_cell f n raw) = [] \<Longrightarrow> value_of (integer_cell f n raw) \<noteq> None"
  by (cases "parse_u32 raw"; simp add: integer_cell_def run_return run_refuse)+

lemma bool_cell_run: "appending (bool_cell f n raw)"
  "e \<in> set (errors_of (bool_cell f n raw)) \<Longrightarrow> er_row e = n \<and> er_field e = f"
  "errors_of (bool_cell f n raw) = [] \<Longrightarrow> value_of (bool_cell f n raw) \<noteq> None"
  by (auto simp: bool_cell_def Let_def run_return run_refuse split: if_splits)

lemma require_str_run [reader_simps]:
  "appending (require_str row f n)" "value_of (require_str row f n) = optional_str row f"
  by (cases "optional_str row f"; simp add: require_str_def run_return run_refuse)+

interpretation str_reader: cell_reader require_str True
  by unfold_locales (auto simp: require_str_def run_return run_refuse split: option.splits)

text \<open>A required cell that is then parsed, and an optional one.\<close>

lemma required_then:
  fixes parse :: "string \<Rightarrow> nat \<Rightarrow> string \<Rightarrow> 'a option checked"
  assumes "\<And>f n raw. appending (parse f n raw)"
    and "\<And>f n raw e. e \<in> set (errors_of (parse f n raw)) \<Longrightarrow> er_row e = n \<and> er_field e = f"
    and "\<And>f n raw. errors_of (parse f n raw) = [] \<Longrightarrow> value_of (parse f n raw) \<noteq> None"
  shows "cell_reader (\<lambda>row f n. State_Monad.bind (require_str row f n)
      (\<lambda>raw. case raw of None \<Rightarrow> State_Monad.return None | Some raw \<Rightarrow> parse f n raw)) True"
proof (unfold_locales, goal_cases)
  case (1 row f n)
  show ?case by (rule run_bind(1)) (auto simp: reader_simps run_return assms(1) split: option.splits)
next
  case (2 e row f n)
  then show ?case using assms(2) str_reader.reads_errors
    by (subst (asm) run_bind(3)) (auto simp: reader_simps run_return assms(1) split: option.splits)
next
  case (3 row f row' n)
  then show ?case using str_reader.reads_cell by metis
next
  case (4 row f n)
  then show ?case using assms(3)
    by (subst (asm) run_bind(3), simp_all add: reader_simps run_return assms(1) split: option.splits)
      (subst run_bind(2), auto simp: reader_simps assms(1))
next
  case (5 row f n)
  then show ?case
    by (subst run_bind(2), simp_all add: reader_simps run_return) (subst run_bind(3), simp_all add: reader_simps run_return str_reader.reads_absent)
qed

lemma optional_then:
  fixes parse :: "string \<Rightarrow> nat \<Rightarrow> string \<Rightarrow> 'a option checked"
  assumes "\<And>f n raw. appending (parse f n raw)"
    and "\<And>f n raw e. e \<in> set (errors_of (parse f n raw)) \<Longrightarrow> er_row e = n \<and> er_field e = f"
    and "\<And>f n raw. errors_of (parse f n raw) = [] \<Longrightarrow> value_of (parse f n raw) \<noteq> None"
  shows "cell_reader (\<lambda>row f n. case optional_str row f of None \<Rightarrow> State_Monad.return None | Some raw \<Rightarrow> parse f n raw) False"
  using assms by unfold_locales (auto simp: run_return split: option.splits)

interpretation f64_required: cell_reader "require_f64 lib" True
  unfolding require_f64_def [abs_def] by (rule required_then) (use number_cell_run in blast)+

interpretation f64_optional: cell_reader "optional_f64 lib" False
  unfolding optional_f64_def [abs_def] by (rule optional_then) (use number_cell_run in blast)+

interpretation u32_required: cell_reader require_u32 True
  unfolding require_u32_def [abs_def] by (rule required_then) (use integer_cell_run in blast)+

interpretation u32_optional: cell_reader optional_u32 False
  unfolding optional_u32_def [abs_def] by (rule optional_then) (use integer_cell_run in blast)+

interpretation bool_required: cell_reader require_bool True
  unfolding require_bool_def [abs_def] by (rule required_then) (use bool_cell_run in blast)+

interpretation bool_optional: cell_reader optional_bool False
  unfolding optional_bool_def [abs_def] by (rule optional_then) (use bool_cell_run in blast)+

interpretation code_optional: cell_reader "optional_commodity_code lib" False
  unfolding optional_commodity_code_def [abs_def]
  by (rule optional_then) (auto simp: run_return run_refuse split: option.splits)

interpretation serial_optional: cell_reader "optional_carrier_serial lib" False
  unfolding optional_carrier_serial_def [abs_def]
  by (rule optional_then) (auto simp: run_return run_refuse split: option.splits)

interpretation date_optional: cell_reader "optional_date lib" False
  unfolding optional_date_def [abs_def]
  by (rule optional_then) (auto simp: run_return run_refuse split: option.splits)

end
