(* ===== verification/Import_Data.thy ===== *)
theory Import_Data
  imports Import_Fields
begin

text \<open>
  The product group data the row validators build (\<^verbatim>\<open>dpp-integrator/src/domain/validate\<close>), as the
  struct expressions of the validators list the fields. Members a validator always leaves out
  are \<open>None\<close> in the request and have no field here. Values of the domain crate's enumerations are
  their names, values built from their wire shape are JSON.
\<close>

datatype ProductIdentifier = Gs1Identifier string

record SteelData =
  st_product_identifier :: ProductIdentifier
  st_co2e_per_tonne_steel :: rat
  st_recycled_scrap_content_pct :: rat
  st_product_category :: string
  st_country_of_origin :: string
  st_production_route :: string
  st_annual_production_tonnes :: "rat option"

record AluminiumData =
  al_product_identifier :: ProductIdentifier
  al_alloy_grade :: string
  al_production_route :: string
  al_co2e_per_tonne_kg :: rat
  al_recycled_content_pct :: rat
  al_country_of_origin :: string
  al_annual_production_tonnes :: "rat option"

record TyreData =
  ty_product_identifier :: ProductIdentifier
  ty_tyre_class :: string
  ty_fuel_efficiency_class :: string
  ty_wet_grip_class :: string
  ty_external_rolling_noise_db :: rat
  ty_noise_performance_class :: "string option"
  ty_rolling_resistance_n_per_kn :: "rat option"
  ty_recycled_rubber_pct :: "rat option"
  ty_co2e_per_tyre_kg :: "rat option"

record MattressData =
  ma_product_identifier :: ProductIdentifier
  ma_primary_material :: string
  ma_country_of_origin :: string
  ma_recycled_content_pct :: "rat option"
  ma_repairability_score :: "rat option"
  ma_co2e_per_unit_kg :: "rat option"
  ma_disassembly_instructions_url :: "string option"
  ma_end_of_life_instructions :: "string option"

record FurnitureData =
  fu_product_identifier :: ProductIdentifier
  fu_product_type :: string
  fu_primary_material :: string
  fu_country_of_origin :: string
  fu_recycled_content_pct :: "rat option"
  fu_repairability_score :: "rat option"
  fu_co2e_per_unit_kg :: "rat option"
  fu_disassembly_instructions_url :: "string option"
  fu_end_of_life_instructions :: "string option"

record ToyData =
  to_product_identifier :: ProductIdentifier
  to_age_group :: string
  to_primary_material :: string
  to_ce_marking :: bool
  to_country_of_origin :: string
  to_contains_battery :: "bool option"
  to_repairability_info :: "string option"

record ConstructionData =
  co_product_identifier :: ProductIdentifier
  co_product_family :: string
  co_country_of_origin :: string
  co_co2e_per_functional_unit_kg :: rat
  co_functional_unit :: string
  co_recycled_content_pct :: "rat option"
  co_epd_url :: "string option"
  co_ce_marking :: "bool option"

record ElectronicsData =
  el_product_identifier :: ProductIdentifier
  el_product_category :: string
  el_energy_efficiency_class :: string
  el_co2e_per_unit_kg :: rat
  el_index_scope_exclusion :: "string option"
  el_spare_parts_available :: "bool option"
  el_repair_manual_url :: "string option"
  el_disassembly_instructions_url :: "string option"
  el_rohs_compliant :: "bool option"
  el_recycled_content_pct :: "rat option"
  el_standby_power_w :: "rat option"
  el_expected_lifetime_years :: "nat option"
  el_firmware_update_until :: "int option"

record DetergentData =
  de_product_identifier :: ProductIdentifier
  de_product_type :: string
  de_format :: string
  de_surfactants :: "json list"
  de_country_of_origin :: string
  de_co2e_per_unit_kg :: "rat option"
  de_packaging_recyclable :: "bool option"
  de_recommended_dosage_ml :: "rat option"
  de_biodegradable :: "bool option"

record TextileData =
  te_product_identifier :: ProductIdentifier
  te_fibre_composition :: "json list"
  te_country_of_origin :: string
  te_care_instructions :: string
  te_chemical_compliance_standard :: string
  te_recycled_content_pct :: "rat option"
  te_repair_score :: "rat option"
  te_carbon_footprint_kg_co2e :: "rat option"

subsection \<open>Batteries\<close>

record MaterialComposition =
  mc_name :: string
  mc_weight_pct :: rat
  mc_cas_number :: "string option"

record CriticalRawMaterial =
  crm_name :: string
  crm_cas_number :: "string option"
  crm_weight_grams :: "rat option"
  crm_country_of_origin :: "string option"

record DynamicPerformance =
  dy_rated_capacity_ah :: "rat option"
  dy_capacity_fade_pct :: "rat option"
  dy_power_w :: "rat option"
  dy_power_fade_pct :: "rat option"
  dy_internal_resistance_mohm :: "rat option"
  dy_internal_resistance_increase_pct :: "rat option"
  dy_round_trip_efficiency_pct :: "rat option"
  dy_round_trip_efficiency_fade_pct :: "rat option"
  dy_expected_lifetime_cycles :: "nat option"
  dy_expected_lifetime_years :: "rat option"

record stationary_health =
  sh_remaining_capacity_pct :: rat
  sh_remaining_power_capability_pct :: "rat option"
  sh_remaining_round_trip_efficiency_pct :: "rat option"
  sh_self_discharge_rate_pct_per_month :: rat
  sh_ohmic_resistance_mohm :: "rat option"

datatype StateOfHealth = ElectricVehicle rat | StationaryOrLmt stationary_health

datatype BatteryStatus = Original | Repurposed | ReUsed | Remanufactured | Waste

record BatteryData =
  ba_product_identifier :: ProductIdentifier
  ba_battery_chemistry :: string
  ba_nominal_voltage_v :: rat
  ba_nominal_capacity_ah :: rat
  ba_expected_lifetime_cycles :: "nat option"
  ba_co2e_per_unit_kg :: "rat option"
  ba_recycled_content_cobalt_pct :: "rat option"
  ba_recycled_content_lithium_pct :: "rat option"
  ba_recycled_content_nickel_pct :: "rat option"
  ba_recycled_content_lead_pct :: "rat option"
  ba_state_of_health_pct :: "rat option"
  ba_rated_capacity_kwh :: "rat option"
  ba_carbon_footprint_class :: "string option"
  ba_due_diligence_url :: "string option"
  ba_battery_type :: string
  ba_battery_weight_kg :: "rat option"
  ba_operating_temp_min_c :: "rat option"
  ba_operating_temp_max_c :: "rat option"
  ba_round_trip_efficiency_pct :: "rat option"
  ba_cathode_material :: "MaterialComposition list option"
  ba_anode_material :: "MaterialComposition list option"
  ba_electrolyte_material :: "MaterialComposition list option"
  ba_critical_raw_materials :: "CriticalRawMaterial list option"
  ba_disassembly_instructions_url :: "string option"
  ba_state_of_health :: "StateOfHealth option"
  ba_manufacturing_date :: "int option"
  ba_manufacturing_place :: "string option"
  ba_battery_model_id :: "string option"
  ba_battery_passport_number :: "string option"
  ba_battery_status :: "BatteryStatus option"
  ba_capacity_threshold_for_exhaustion_pct :: "rat option"
  ba_component_part_numbers :: "string list option"
  ba_cycle_life_test_c_rate :: "rat option"
  ba_dynamic_performance :: "DynamicPerformance option"
  ba_eu_declaration_of_conformity :: "string option"
  ba_expected_lifetime_reference_test :: "string option"
  ba_hazardous_substances :: "json list option"
  ba_initial_round_trip_efficiency_pct :: "rat option"
  ba_internal_cell_resistance_mohm :: "rat option"
  ba_internal_pack_resistance_mohm :: "rat option"
  ba_marking_information :: "string option"
  ba_maximum_voltage_v :: "rat option"
  ba_minimal_voltage_v :: "rat option"
  ba_not_in_use_temperature_range :: "json option"
  ba_not_in_use_temperature_reference_test :: "string option"
  ba_original_power_capability_w :: "rat option"
  ba_power_limit_max_w :: "rat option"
  ba_power_limit_min_w :: "rat option"
  ba_renewable_content_pct :: "rat option"
  ba_round_trip_efficiency_at_half_cycle_life_pct :: "rat option"
  ba_safety_measures :: "string option"
  ba_spare_parts_contacts :: "string option"
  ba_test_report_results :: "string option"
  ba_usable_extinguishing_agent :: "string option"
  ba_waste_battery_information :: "string option"

datatype ProductGroupData =
    BatteryGroup BatteryData
  | TextileGroup TextileData
  | SteelGroup SteelData
  | AluminiumGroup AluminiumData
  | TyreGroup TyreData
  | MattressGroup MattressData
  | FurnitureGroup FurnitureData
  | ToyGroup ToyData
  | ConstructionGroup ConstructionData
  | ElectronicsGroup ElectronicsData
  | DetergentGroup DetergentData

end
