(* ===== verification/Import_Validate.thy ===== *)
theory Import_Validate
  imports Import_Data
begin

text \<open>
  The row validators (\<^verbatim>\<open>dpp-integrator/src/domain/validate\<close>), one per product group: the columns a
  template offers and the function that turns a row into a request or into errors. Where the
  code has \<^verbatim>\<open>expect\<close>, the model has the option monad: a verdict of \<open>None\<close> is a panic. The laws every
  validator keeps are the locale \<open>row_checker\<close>, and those of a validator that reads exactly its
  columns are \<open>templated_checker\<close>; each validator interprets one of them.
\<close>

subsection \<open>Columns\<close>

record Column =
  col_name :: string
  col_required :: bool

definition required_column :: "string \<Rightarrow> Column" where
  "required_column name = \<lparr>col_name = name, col_required = True\<rparr>"

definition optional_column :: "string \<Rightarrow> Column" where
  "optional_column name = \<lparr>col_name = name, col_required = False\<rparr>"

definition header_cell :: "Column \<Rightarrow> string" where
  "header_cell c = col_name c @ '' ['' @ (if col_required c then ''REQUIRED'' else ''OPTIONAL'') @ '']''"

definition template_header :: "Column list \<Rightarrow> string" where
  "template_header columns = str_join '','' (map header_cell columns)"

definition ENVELOPE_COLUMNS :: "Column list" where
  "ENVELOPE_COLUMNS = [optional_column ''placedOnMarketDate'', optional_column ''commodityCode'', optional_column ''carrierSerial'']"

subsection \<open>Verdicts\<close>

type_synonym import_row = "ProductGroupData CreatePassportRequest"
type_synonym row_verdict = "(RowError list + import_row) option"

definition validated :: "import_row option checked \<Rightarrow> row_verdict" where
  "validated m = (case run_state m [] of (built, errors) \<Rightarrow> if errors \<noteq> [] then Some (Inl errors) else map_option Inr built)"

text \<open>The request every template but the battery's fills: the country also stands for the address.\<close>

definition import_request ::
  "string \<Rightarrow> ProductGroup \<Rightarrow> string \<Rightarrow> string \<Rightarrow> rat option \<Rightarrow> rat option \<Rightarrow> ProductGroupData \<Rightarrow>
   string option \<Rightarrow> int option \<Rightarrow> string option \<Rightarrow> string option \<Rightarrow> import_row" where
  "import_request name pgroup manufacturer_name manufacturer_country co2e repairability data batch_id date code serial =
     \<lparr>cp_product_name = name, cp_product_group = Some pgroup,
      cp_manufacturer = \<lparr>mi_name = manufacturer_name, mi_address = manufacturer_country, mi_registered_trade_name = None,
        mi_electronic_address = None, mi_country = Some manufacturer_country, mi_did_web_url = None\<rparr>,
      cp_materials = None, cp_co2e_per_unit = co2e, cp_repairability_score = repairability,
      cp_product_group_data = Some data, cp_batch_id = batch_id, cp_placed_on_market_date = date, cp_schema_version = None,
      cp_commodity_code = code, cp_supersedes_id = None, cp_derived_from = [], cp_life_status = None,
      cp_personal_data = [], cp_component_refs = [], cp_carrier_serial = serial\<rparr>"

definition production_route_of :: "row_libs \<Rightarrow> string \<Rightarrow> string" where
  "production_route_of lib raw = (case serde_enum lib ''ProductionRoute'' raw of Inr route \<Rightarrow> route | Inl _ \<Rightarrow> ''Other'')"

subsection \<open>Cells with a vocabulary of their own\<close>

definition device_type_cell :: "row_libs \<Rightarrow> string \<Rightarrow> nat \<Rightarrow> string \<Rightarrow> string option checked" where
  "device_type_cell lib f n s =
     (case serde_enum lib ''DeviceType'' s of
        Inr d \<Rightarrow> State_Monad.return (Some d)
      | Inl e \<Rightarrow> refuse n f (fmt_debug lib s @ '' is not an electronics device type: '' @ e))"

definition energy_class_cell :: "row_libs \<Rightarrow> string \<Rightarrow> nat \<Rightarrow> string \<Rightarrow> string option checked" where
  "energy_class_cell lib f n s =
     (case serde_enum lib ''EnergyEfficiencyClass'' s of
        Inr c \<Rightarrow>
          if c \<noteq> ''Other'' then State_Monad.return (Some c)
          else refuse n f (fmt_debug lib s @ '' is not an energy label class -- expected one of A, B, C, D, E, F, G'')
      | Inl _ \<Rightarrow> refuse n f (fmt_debug lib s @ '' is not an energy label class -- expected one of A, B, C, D, E, F, G''))"

definition scope_exclusion_cell :: "row_libs \<Rightarrow> string \<Rightarrow> nat \<Rightarrow> string \<Rightarrow> string option checked" where
  "scope_exclusion_cell lib f n s =
     (case serde_enum lib ''IndexScopeExclusion'' s of
        Inr x \<Rightarrow> State_Monad.return (Some x)
      | Inl e \<Rightarrow> refuse n f (fmt_debug lib s @ '' is not a repairability index exclusion: '' @ e))"

definition json_list_cell :: "row_libs \<Rightarrow> string \<Rightarrow> string \<Rightarrow> string \<Rightarrow> nat \<Rightarrow> string \<Rightarrow> json list option checked" where
  "json_list_cell lib entry check f n s =
     (case serde_list lib entry s of
        Inr xs \<Rightarrow>
          (case domain_check lib check xs of
             Some msg \<Rightarrow> do { push_error n f msg; State_Monad.return (Some xs) }
           | None \<Rightarrow> State_Monad.return (Some xs))
      | Inl e \<Rightarrow> refuse n f (''Invalid JSON: '' @ e))"

definition require_device_type :: "row_libs \<Rightarrow> csv_row \<Rightarrow> string \<Rightarrow> nat \<Rightarrow> string option checked" where
  "require_device_type lib row f n = do {
     raw \<leftarrow> require_str row f n;
     case raw of None \<Rightarrow> State_Monad.return None | Some s \<Rightarrow> device_type_cell lib f n s }"

definition require_energy_class :: "row_libs \<Rightarrow> csv_row \<Rightarrow> string \<Rightarrow> nat \<Rightarrow> string option checked" where
  "require_energy_class lib row f n = do {
     raw \<leftarrow> require_str row f n;
     case raw of None \<Rightarrow> State_Monad.return None | Some s \<Rightarrow> energy_class_cell lib f n s }"

definition optional_scope_exclusion :: "row_libs \<Rightarrow> csv_row \<Rightarrow> string \<Rightarrow> nat \<Rightarrow> string option checked" where
  "optional_scope_exclusion lib row f n =
     (case optional_str row f of None \<Rightarrow> State_Monad.return None | Some s \<Rightarrow> scope_exclusion_cell lib f n s)"

definition require_surfactant_list :: "row_libs \<Rightarrow> csv_row \<Rightarrow> string \<Rightarrow> nat \<Rightarrow> json list option checked" where
  "require_surfactant_list lib row f n = do {
     raw \<leftarrow> require_str row f n;
     case raw of None \<Rightarrow> State_Monad.return None | Some s \<Rightarrow> json_list_cell lib ''SurfactantEntry'' ''surfactants'' f n s }"

definition require_fibre_list :: "row_libs \<Rightarrow> csv_row \<Rightarrow> string \<Rightarrow> nat \<Rightarrow> json list option checked" where
  "require_fibre_list lib row f n = do {
     raw \<leftarrow> require_str row f n;
     case raw of None \<Rightarrow> State_Monad.return None | Some s \<Rightarrow> json_list_cell lib ''FibreEntry'' ''fibre_composition'' f n s }"

subsection \<open>The validators\<close>

text \<open>\<^verbatim>\<open>validate/steel.rs\<close>\<close>

definition steel_COLUMNS :: "Column list" where
  "steel_COLUMNS =
     [required_column ''productName'', required_column ''gtin'', optional_column ''batchId'',
      required_column ''manufacturerName'', required_column ''manufacturerCountry'', required_column ''co2ePerTonneSteel'',
      required_column ''recycledScrapContentPct'', required_column ''productCategory'', required_column ''countryOfOrigin'',
      required_column ''productionRoute'', optional_column ''annualProductionTonnes'']"

definition validate_steel_row :: "row_libs \<Rightarrow> csv_row \<Rightarrow> nat \<Rightarrow> row_verdict" where
  "validate_steel_row lib row row_num = validated (do {
     product_name \<leftarrow> require_str row ''productName'' row_num;
     let batch_id = optional_str row ''batchId'';
     manufacturer_name \<leftarrow> require_str row ''manufacturerName'' row_num;
     manufacturer_country \<leftarrow> require_str row ''manufacturerCountry'' row_num;
     gtin_raw \<leftarrow> require_str row ''gtin'' row_num;
     gtin \<leftarrow> parse_gtin lib gtin_raw row_num;
     co2e \<leftarrow> require_f64 lib row ''co2ePerTonneSteel'' row_num;
     recycled \<leftarrow> require_f64 lib row ''recycledScrapContentPct'' row_num;
     product_category \<leftarrow> require_str row ''productCategory'' row_num;
     country_of_origin \<leftarrow> require_str row ''countryOfOrigin'' row_num;
     production_route_raw \<leftarrow> require_str row ''productionRoute'' row_num;
     annual \<leftarrow> optional_f64 lib row ''annualProductionTonnes'' row_num;
     placed_on_market_date \<leftarrow> optional_date lib row ''placedOnMarketDate'' row_num;
     commodity_code \<leftarrow> optional_commodity_code lib row ''commodityCode'' row_num;
     carrier_serial \<leftarrow> optional_carrier_serial lib row ''carrierSerial'' row_num;
     State_Monad.return (do {
       product_name \<leftarrow> product_name; manufacturer_name \<leftarrow> manufacturer_name; manufacturer_country \<leftarrow> manufacturer_country; gtin \<leftarrow> gtin;
       co2e \<leftarrow> co2e; recycled \<leftarrow> recycled; product_category \<leftarrow> product_category; country_of_origin \<leftarrow> country_of_origin;
       production_route_raw \<leftarrow> production_route_raw;
       Some (import_request product_name Steel manufacturer_name manufacturer_country None None
         (SteelGroup \<lparr>st_product_identifier = Gs1Identifier gtin, st_co2e_per_tonne_steel = co2e,
            st_recycled_scrap_content_pct = recycled, st_product_category = product_category,
            st_country_of_origin = country_of_origin, st_production_route = production_route_of lib production_route_raw,
            st_annual_production_tonnes = annual\<rparr>)
         batch_id placed_on_market_date commodity_code carrier_serial)})})"

text \<open>\<^verbatim>\<open>validate/aluminium.rs\<close>\<close>

definition aluminium_COLUMNS :: "Column list" where
  "aluminium_COLUMNS =
     [required_column ''productName'', required_column ''gtin'', optional_column ''batchId'',
      required_column ''manufacturerName'', required_column ''manufacturerCountry'', required_column ''alloyGrade'',
      required_column ''productionRoute'', required_column ''co2ePerTonneKg'', required_column ''recycledContentPct'',
      required_column ''countryOfOrigin'', optional_column ''annualProductionTonnes'']"

definition validate_aluminium_row :: "row_libs \<Rightarrow> csv_row \<Rightarrow> nat \<Rightarrow> row_verdict" where
  "validate_aluminium_row lib row row_num = validated (do {
     product_name \<leftarrow> require_str row ''productName'' row_num;
     let batch_id = optional_str row ''batchId'';
     manufacturer_name \<leftarrow> require_str row ''manufacturerName'' row_num;
     manufacturer_country \<leftarrow> require_str row ''manufacturerCountry'' row_num;
     gtin_raw \<leftarrow> require_str row ''gtin'' row_num;
     gtin \<leftarrow> parse_gtin lib gtin_raw row_num;
     alloy_grade \<leftarrow> require_str row ''alloyGrade'' row_num;
     production_route_raw \<leftarrow> require_str row ''productionRoute'' row_num;
     co2e \<leftarrow> require_f64 lib row ''co2ePerTonneKg'' row_num;
     recycled \<leftarrow> require_f64 lib row ''recycledContentPct'' row_num;
     country_of_origin \<leftarrow> require_str row ''countryOfOrigin'' row_num;
     annual \<leftarrow> optional_f64 lib row ''annualProductionTonnes'' row_num;
     placed_on_market_date \<leftarrow> optional_date lib row ''placedOnMarketDate'' row_num;
     commodity_code \<leftarrow> optional_commodity_code lib row ''commodityCode'' row_num;
     carrier_serial \<leftarrow> optional_carrier_serial lib row ''carrierSerial'' row_num;
     State_Monad.return (do {
       product_name \<leftarrow> product_name; manufacturer_name \<leftarrow> manufacturer_name; manufacturer_country \<leftarrow> manufacturer_country; gtin \<leftarrow> gtin;
       alloy_grade \<leftarrow> alloy_grade; production_route_raw \<leftarrow> production_route_raw; co2e \<leftarrow> co2e; recycled \<leftarrow> recycled;
       country_of_origin \<leftarrow> country_of_origin;
       Some (import_request product_name Aluminium manufacturer_name manufacturer_country None None
         (AluminiumGroup \<lparr>al_product_identifier = Gs1Identifier gtin, al_alloy_grade = alloy_grade,
            al_production_route = production_route_of lib production_route_raw, al_co2e_per_tonne_kg = co2e,
            al_recycled_content_pct = recycled, al_country_of_origin = country_of_origin,
            al_annual_production_tonnes = annual\<rparr>)
         batch_id placed_on_market_date commodity_code carrier_serial)})})"

text \<open>\<^verbatim>\<open>validate/tyre.rs\<close>\<close>

definition tyre_COLUMNS :: "Column list" where
  "tyre_COLUMNS =
     [required_column ''productName'', required_column ''gtin'', optional_column ''batchId'',
      required_column ''manufacturerName'', required_column ''manufacturerCountry'', required_column ''tyreClass'',
      required_column ''fuelEfficiencyClass'', required_column ''wetGripClass'', required_column ''externalRollingNoiseDb'',
      optional_column ''noisePerformanceClass'', optional_column ''rollingResistanceNPerKn'', optional_column ''recycledRubberPct'',
      optional_column ''co2ePerTyreKg'']"

definition validate_tyre_row :: "row_libs \<Rightarrow> csv_row \<Rightarrow> nat \<Rightarrow> row_verdict" where
  "validate_tyre_row lib row row_num = validated (do {
     product_name \<leftarrow> require_str row ''productName'' row_num;
     let batch_id = optional_str row ''batchId'';
     manufacturer_name \<leftarrow> require_str row ''manufacturerName'' row_num;
     manufacturer_country \<leftarrow> require_str row ''manufacturerCountry'' row_num;
     gtin_raw \<leftarrow> require_str row ''gtin'' row_num;
     gtin \<leftarrow> parse_gtin lib gtin_raw row_num;
     tyre_class \<leftarrow> require_str row ''tyreClass'' row_num;
     fuel_class \<leftarrow> require_str row ''fuelEfficiencyClass'' row_num;
     wet_class \<leftarrow> require_str row ''wetGripClass'' row_num;
     noise_db \<leftarrow> require_f64 lib row ''externalRollingNoiseDb'' row_num;
     let noise_class = optional_str row ''noisePerformanceClass'';
     rolling_res \<leftarrow> optional_f64 lib row ''rollingResistanceNPerKn'' row_num;
     recycled_rubber \<leftarrow> optional_f64 lib row ''recycledRubberPct'' row_num;
     co2e \<leftarrow> optional_f64 lib row ''co2ePerTyreKg'' row_num;
     placed_on_market_date \<leftarrow> optional_date lib row ''placedOnMarketDate'' row_num;
     commodity_code \<leftarrow> optional_commodity_code lib row ''commodityCode'' row_num;
     carrier_serial \<leftarrow> optional_carrier_serial lib row ''carrierSerial'' row_num;
     State_Monad.return (do {
       product_name \<leftarrow> product_name; manufacturer_name \<leftarrow> manufacturer_name; manufacturer_country \<leftarrow> manufacturer_country; gtin \<leftarrow> gtin;
       tyre_class \<leftarrow> tyre_class; fuel_class \<leftarrow> fuel_class; wet_class \<leftarrow> wet_class; noise_db \<leftarrow> noise_db;
       Some (import_request product_name Tyre manufacturer_name manufacturer_country co2e None
         (TyreGroup \<lparr>ty_product_identifier = Gs1Identifier gtin, ty_tyre_class = tyre_class,
            ty_fuel_efficiency_class = fuel_class, ty_wet_grip_class = wet_class,
            ty_external_rolling_noise_db = noise_db, ty_noise_performance_class = noise_class,
            ty_rolling_resistance_n_per_kn = rolling_res, ty_recycled_rubber_pct = recycled_rubber,
            ty_co2e_per_tyre_kg = co2e\<rparr>)
         batch_id placed_on_market_date commodity_code carrier_serial)})})"

text \<open>\<^verbatim>\<open>validate/mattress.rs\<close>\<close>

definition mattress_COLUMNS :: "Column list" where
  "mattress_COLUMNS =
     [required_column ''productName'', required_column ''gtin'', optional_column ''batchId'',
      required_column ''manufacturerName'', required_column ''manufacturerCountry'', required_column ''primaryMaterial'',
      required_column ''countryOfOrigin'', optional_column ''recycledContentPct'', optional_column ''repairabilityScore'',
      optional_column ''co2ePerUnitKg'', optional_column ''disassemblyInstructionsUrl'', optional_column ''endOfLifeInstructions'']"

definition validate_mattress_row :: "row_libs \<Rightarrow> csv_row \<Rightarrow> nat \<Rightarrow> row_verdict" where
  "validate_mattress_row lib row row_num = validated (do {
     product_name \<leftarrow> require_str row ''productName'' row_num;
     let batch_id = optional_str row ''batchId'';
     manufacturer_name \<leftarrow> require_str row ''manufacturerName'' row_num;
     manufacturer_country \<leftarrow> require_str row ''manufacturerCountry'' row_num;
     gtin_raw \<leftarrow> require_str row ''gtin'' row_num;
     gtin \<leftarrow> parse_gtin lib gtin_raw row_num;
     primary_material \<leftarrow> require_str row ''primaryMaterial'' row_num;
     country_of_origin \<leftarrow> require_str row ''countryOfOrigin'' row_num;
     recycled \<leftarrow> optional_f64 lib row ''recycledContentPct'' row_num;
     repairability \<leftarrow> optional_f64 lib row ''repairabilityScore'' row_num;
     co2e_per_unit_kg \<leftarrow> optional_f64 lib row ''co2ePerUnitKg'' row_num;
     let disassembly = optional_str row ''disassemblyInstructionsUrl'';
     let end_of_life = optional_str row ''endOfLifeInstructions'';
     placed_on_market_date \<leftarrow> optional_date lib row ''placedOnMarketDate'' row_num;
     commodity_code \<leftarrow> optional_commodity_code lib row ''commodityCode'' row_num;
     carrier_serial \<leftarrow> optional_carrier_serial lib row ''carrierSerial'' row_num;
     State_Monad.return (do {
       product_name \<leftarrow> product_name; manufacturer_name \<leftarrow> manufacturer_name; manufacturer_country \<leftarrow> manufacturer_country; gtin \<leftarrow> gtin;
       primary_material \<leftarrow> primary_material; country_of_origin \<leftarrow> country_of_origin;
       Some (import_request product_name Mattress manufacturer_name manufacturer_country None None
         (MattressGroup \<lparr>ma_product_identifier = Gs1Identifier gtin, ma_primary_material = primary_material,
            ma_country_of_origin = country_of_origin, ma_recycled_content_pct = recycled,
            ma_repairability_score = repairability, ma_co2e_per_unit_kg = co2e_per_unit_kg,
            ma_disassembly_instructions_url = disassembly, ma_end_of_life_instructions = end_of_life\<rparr>)
         batch_id placed_on_market_date commodity_code carrier_serial)})})"

text \<open>\<^verbatim>\<open>validate/furniture.rs\<close>\<close>

definition furniture_COLUMNS :: "Column list" where
  "furniture_COLUMNS =
     [required_column ''productName'', required_column ''gtin'', optional_column ''batchId'',
      required_column ''manufacturerName'', required_column ''manufacturerCountry'', required_column ''productType'',
      required_column ''primaryMaterial'', required_column ''countryOfOrigin'', optional_column ''recycledContentPct'',
      optional_column ''repairabilityScore'', optional_column ''co2ePerUnitKg'', optional_column ''disassemblyInstructionsUrl'',
      optional_column ''endOfLifeInstructions'']"

definition validate_furniture_row :: "row_libs \<Rightarrow> csv_row \<Rightarrow> nat \<Rightarrow> row_verdict" where
  "validate_furniture_row lib row row_num = validated (do {
     product_name \<leftarrow> require_str row ''productName'' row_num;
     let batch_id = optional_str row ''batchId'';
     manufacturer_name \<leftarrow> require_str row ''manufacturerName'' row_num;
     manufacturer_country \<leftarrow> require_str row ''manufacturerCountry'' row_num;
     gtin_raw \<leftarrow> require_str row ''gtin'' row_num;
     gtin \<leftarrow> parse_gtin lib gtin_raw row_num;
     product_type \<leftarrow> require_str row ''productType'' row_num;
     primary_material \<leftarrow> require_str row ''primaryMaterial'' row_num;
     country_of_origin \<leftarrow> require_str row ''countryOfOrigin'' row_num;
     recycled \<leftarrow> optional_f64 lib row ''recycledContentPct'' row_num;
     repairability \<leftarrow> optional_f64 lib row ''repairabilityScore'' row_num;
     co2e_per_unit_kg \<leftarrow> optional_f64 lib row ''co2ePerUnitKg'' row_num;
     let disassembly = optional_str row ''disassemblyInstructionsUrl'';
     let end_of_life = optional_str row ''endOfLifeInstructions'';
     placed_on_market_date \<leftarrow> optional_date lib row ''placedOnMarketDate'' row_num;
     commodity_code \<leftarrow> optional_commodity_code lib row ''commodityCode'' row_num;
     carrier_serial \<leftarrow> optional_carrier_serial lib row ''carrierSerial'' row_num;
     State_Monad.return (do {
       product_name \<leftarrow> product_name; manufacturer_name \<leftarrow> manufacturer_name; manufacturer_country \<leftarrow> manufacturer_country; gtin \<leftarrow> gtin;
       product_type \<leftarrow> product_type; primary_material \<leftarrow> primary_material; country_of_origin \<leftarrow> country_of_origin;
       Some (import_request product_name Furniture manufacturer_name manufacturer_country None None
         (FurnitureGroup \<lparr>fu_product_identifier = Gs1Identifier gtin, fu_product_type = product_type,
            fu_primary_material = primary_material, fu_country_of_origin = country_of_origin,
            fu_recycled_content_pct = recycled, fu_repairability_score = repairability,
            fu_co2e_per_unit_kg = co2e_per_unit_kg, fu_disassembly_instructions_url = disassembly,
            fu_end_of_life_instructions = end_of_life\<rparr>)
         batch_id placed_on_market_date commodity_code carrier_serial)})})"

text \<open>\<^verbatim>\<open>validate/toy.rs\<close>\<close>

definition toy_COLUMNS :: "Column list" where
  "toy_COLUMNS =
     [required_column ''productName'', required_column ''gtin'', optional_column ''batchId'',
      required_column ''manufacturerName'', required_column ''manufacturerCountry'', required_column ''ageGroup'',
      required_column ''primaryMaterial'', required_column ''ceMarking'', required_column ''countryOfOrigin'',
      optional_column ''containsBattery'', optional_column ''repairabilityInfo'']"

definition validate_toy_row :: "row_libs \<Rightarrow> csv_row \<Rightarrow> nat \<Rightarrow> row_verdict" where
  "validate_toy_row lib row row_num = validated (do {
     product_name \<leftarrow> require_str row ''productName'' row_num;
     let batch_id = optional_str row ''batchId'';
     manufacturer_name \<leftarrow> require_str row ''manufacturerName'' row_num;
     manufacturer_country \<leftarrow> require_str row ''manufacturerCountry'' row_num;
     gtin_raw \<leftarrow> require_str row ''gtin'' row_num;
     gtin \<leftarrow> parse_gtin lib gtin_raw row_num;
     age_group \<leftarrow> require_str row ''ageGroup'' row_num;
     primary_material \<leftarrow> require_str row ''primaryMaterial'' row_num;
     ce_marking \<leftarrow> require_bool row ''ceMarking'' row_num;
     country_of_origin \<leftarrow> require_str row ''countryOfOrigin'' row_num;
     contains_battery \<leftarrow> optional_bool row ''containsBattery'' row_num;
     let repairability_info = optional_str row ''repairabilityInfo'';
     placed_on_market_date \<leftarrow> optional_date lib row ''placedOnMarketDate'' row_num;
     commodity_code \<leftarrow> optional_commodity_code lib row ''commodityCode'' row_num;
     carrier_serial \<leftarrow> optional_carrier_serial lib row ''carrierSerial'' row_num;
     State_Monad.return (do {
       product_name \<leftarrow> product_name; manufacturer_name \<leftarrow> manufacturer_name; manufacturer_country \<leftarrow> manufacturer_country; gtin \<leftarrow> gtin;
       age_group \<leftarrow> age_group; primary_material \<leftarrow> primary_material; ce_marking \<leftarrow> ce_marking; country_of_origin \<leftarrow> country_of_origin;
       Some (import_request product_name Toy manufacturer_name manufacturer_country None None
         (ToyGroup \<lparr>to_product_identifier = Gs1Identifier gtin, to_age_group = age_group,
            to_primary_material = primary_material, to_ce_marking = ce_marking,
            to_country_of_origin = country_of_origin, to_contains_battery = contains_battery,
            to_repairability_info = repairability_info\<rparr>)
         batch_id placed_on_market_date commodity_code carrier_serial)})})"

text \<open>\<^verbatim>\<open>validate/construction.rs\<close>\<close>

definition construction_COLUMNS :: "Column list" where
  "construction_COLUMNS =
     [required_column ''productName'', required_column ''gtin'', optional_column ''batchId'',
      required_column ''manufacturerName'', required_column ''manufacturerCountry'', required_column ''productFamily'',
      required_column ''countryOfOrigin'', required_column ''co2ePerFunctionalUnitKg'', required_column ''functionalUnit'',
      optional_column ''recycledContentPct'', optional_column ''epdUrl'', optional_column ''ceMarking'']"

definition validate_construction_row :: "row_libs \<Rightarrow> csv_row \<Rightarrow> nat \<Rightarrow> row_verdict" where
  "validate_construction_row lib row row_num = validated (do {
     product_name \<leftarrow> require_str row ''productName'' row_num;
     let batch_id = optional_str row ''batchId'';
     manufacturer_name \<leftarrow> require_str row ''manufacturerName'' row_num;
     manufacturer_country \<leftarrow> require_str row ''manufacturerCountry'' row_num;
     gtin_raw \<leftarrow> require_str row ''gtin'' row_num;
     gtin \<leftarrow> parse_gtin lib gtin_raw row_num;
     product_family \<leftarrow> require_str row ''productFamily'' row_num;
     country_of_origin \<leftarrow> require_str row ''countryOfOrigin'' row_num;
     co2e \<leftarrow> require_f64 lib row ''co2ePerFunctionalUnitKg'' row_num;
     functional_unit \<leftarrow> require_str row ''functionalUnit'' row_num;
     recycled \<leftarrow> optional_f64 lib row ''recycledContentPct'' row_num;
     let epd_url = optional_str row ''epdUrl'';
     ce_marking \<leftarrow> optional_bool row ''ceMarking'' row_num;
     placed_on_market_date \<leftarrow> optional_date lib row ''placedOnMarketDate'' row_num;
     commodity_code \<leftarrow> optional_commodity_code lib row ''commodityCode'' row_num;
     carrier_serial \<leftarrow> optional_carrier_serial lib row ''carrierSerial'' row_num;
     State_Monad.return (do {
       product_name \<leftarrow> product_name; manufacturer_name \<leftarrow> manufacturer_name; manufacturer_country \<leftarrow> manufacturer_country; gtin \<leftarrow> gtin;
       product_family \<leftarrow> product_family; country_of_origin \<leftarrow> country_of_origin; co2e \<leftarrow> co2e; functional_unit \<leftarrow> functional_unit;
       Some (import_request product_name Construction manufacturer_name manufacturer_country None None
         (ConstructionGroup \<lparr>co_product_identifier = Gs1Identifier gtin, co_product_family = product_family,
            co_country_of_origin = country_of_origin, co_co2e_per_functional_unit_kg = co2e,
            co_functional_unit = functional_unit, co_recycled_content_pct = recycled,
            co_epd_url = epd_url, co_ce_marking = ce_marking\<rparr>)
         batch_id placed_on_market_date commodity_code carrier_serial)})})"

text \<open>\<^verbatim>\<open>validate/electronics.rs\<close>\<close>

definition electronics_COLUMNS :: "Column list" where
  "electronics_COLUMNS =
     [required_column ''productName'', required_column ''gtin'', optional_column ''batchId'',
      required_column ''manufacturerName'', required_column ''manufacturerCountry'', required_column ''productCategory'',
      required_column ''energyEfficiencyClass'', required_column ''co2ePerUnitKg'', optional_column ''indexScopeExclusion'',
      optional_column ''sparePartsAvailable'', optional_column ''repairManualUrl'', optional_column ''disassemblyInstructionsUrl'',
      optional_column ''rohsCompliant'', optional_column ''recycledContentPct'', optional_column ''standbyPowerW'',
      optional_column ''expectedLifetimeYears'', optional_column ''firmwareUpdateUntil'']"

definition validate_electronics_row :: "row_libs \<Rightarrow> csv_row \<Rightarrow> nat \<Rightarrow> row_verdict" where
  "validate_electronics_row lib row row_num = validated (do {
     product_name \<leftarrow> require_str row ''productName'' row_num;
     let batch_id = optional_str row ''batchId'';
     manufacturer_name \<leftarrow> require_str row ''manufacturerName'' row_num;
     manufacturer_country \<leftarrow> require_str row ''manufacturerCountry'' row_num;
     gtin_raw \<leftarrow> require_str row ''gtin'' row_num;
     gtin \<leftarrow> parse_gtin lib gtin_raw row_num;
     product_category \<leftarrow> require_device_type lib row ''productCategory'' row_num;
     energy_efficiency_class \<leftarrow> require_energy_class lib row ''energyEfficiencyClass'' row_num;
     co2e_per_unit_kg \<leftarrow> require_f64 lib row ''co2ePerUnitKg'' row_num;
     index_scope_exclusion \<leftarrow> optional_scope_exclusion lib row ''indexScopeExclusion'' row_num;
     spare_parts_available \<leftarrow> optional_bool row ''sparePartsAvailable'' row_num;
     let repair_manual_url = optional_str row ''repairManualUrl'';
     let disassembly_instructions_url = optional_str row ''disassemblyInstructionsUrl'';
     rohs_compliant \<leftarrow> optional_bool row ''rohsCompliant'' row_num;
     recycled_content_pct \<leftarrow> optional_f64 lib row ''recycledContentPct'' row_num;
     standby_power_w \<leftarrow> optional_f64 lib row ''standbyPowerW'' row_num;
     expected_lifetime_years \<leftarrow> optional_u32 row ''expectedLifetimeYears'' row_num;
     firmware_update_until \<leftarrow> optional_date lib row ''firmwareUpdateUntil'' row_num;
     placed_on_market_date \<leftarrow> optional_date lib row ''placedOnMarketDate'' row_num;
     commodity_code \<leftarrow> optional_commodity_code lib row ''commodityCode'' row_num;
     carrier_serial \<leftarrow> optional_carrier_serial lib row ''carrierSerial'' row_num;
     State_Monad.return (do {
       product_name \<leftarrow> product_name; manufacturer_name \<leftarrow> manufacturer_name; manufacturer_country \<leftarrow> manufacturer_country; gtin \<leftarrow> gtin;
       product_category \<leftarrow> product_category; energy_efficiency_class \<leftarrow> energy_efficiency_class; co2e_per_unit_kg \<leftarrow> co2e_per_unit_kg;
       Some (import_request product_name Electronics manufacturer_name manufacturer_country None None
         (ElectronicsGroup \<lparr>el_product_identifier = Gs1Identifier gtin, el_product_category = product_category,
            el_energy_efficiency_class = energy_efficiency_class, el_co2e_per_unit_kg = co2e_per_unit_kg,
            el_index_scope_exclusion = index_scope_exclusion, el_spare_parts_available = spare_parts_available,
            el_repair_manual_url = repair_manual_url, el_disassembly_instructions_url = disassembly_instructions_url,
            el_rohs_compliant = rohs_compliant, el_recycled_content_pct = recycled_content_pct,
            el_standby_power_w = standby_power_w, el_expected_lifetime_years = expected_lifetime_years,
            el_firmware_update_until = firmware_update_until\<rparr>)
         batch_id placed_on_market_date commodity_code carrier_serial)})})"

text \<open>\<^verbatim>\<open>validate/detergent.rs\<close>\<close>

definition detergent_COLUMNS :: "Column list" where
  "detergent_COLUMNS =
     [required_column ''productName'', required_column ''gtin'', optional_column ''batchId'',
      required_column ''manufacturerName'', required_column ''manufacturerCountry'', required_column ''productType'',
      required_column ''format'', required_column ''surfactants'', required_column ''countryOfOrigin'',
      optional_column ''co2ePerUnitKg'', optional_column ''packagingRecyclable'', optional_column ''recommendedDosageMl'',
      optional_column ''biodegradable'']"

definition validate_detergent_row :: "row_libs \<Rightarrow> csv_row \<Rightarrow> nat \<Rightarrow> row_verdict" where
  "validate_detergent_row lib row row_num = validated (do {
     product_name \<leftarrow> require_str row ''productName'' row_num;
     let batch_id = optional_str row ''batchId'';
     manufacturer_name \<leftarrow> require_str row ''manufacturerName'' row_num;
     manufacturer_country \<leftarrow> require_str row ''manufacturerCountry'' row_num;
     gtin_raw \<leftarrow> require_str row ''gtin'' row_num;
     gtin \<leftarrow> parse_gtin lib gtin_raw row_num;
     product_type \<leftarrow> require_str row ''productType'' row_num;
     format \<leftarrow> require_str row ''format'' row_num;
     country_of_origin \<leftarrow> require_str row ''countryOfOrigin'' row_num;
     surfactants \<leftarrow> require_surfactant_list lib row ''surfactants'' row_num;
     co2e_per_unit_kg \<leftarrow> optional_f64 lib row ''co2ePerUnitKg'' row_num;
     packaging_recyclable \<leftarrow> optional_bool row ''packagingRecyclable'' row_num;
     recommended_dosage_ml \<leftarrow> optional_f64 lib row ''recommendedDosageMl'' row_num;
     biodegradable \<leftarrow> optional_bool row ''biodegradable'' row_num;
     placed_on_market_date \<leftarrow> optional_date lib row ''placedOnMarketDate'' row_num;
     commodity_code \<leftarrow> optional_commodity_code lib row ''commodityCode'' row_num;
     carrier_serial \<leftarrow> optional_carrier_serial lib row ''carrierSerial'' row_num;
     State_Monad.return (do {
       product_name \<leftarrow> product_name; manufacturer_name \<leftarrow> manufacturer_name; manufacturer_country \<leftarrow> manufacturer_country; gtin \<leftarrow> gtin;
       product_type \<leftarrow> product_type; format \<leftarrow> format; surfactants \<leftarrow> surfactants; country_of_origin \<leftarrow> country_of_origin;
       Some (import_request product_name Detergent manufacturer_name manufacturer_country None None
         (DetergentGroup \<lparr>de_product_identifier = Gs1Identifier gtin, de_product_type = product_type,
            de_format = format, de_surfactants = surfactants,
            de_country_of_origin = country_of_origin, de_co2e_per_unit_kg = co2e_per_unit_kg,
            de_packaging_recyclable = packaging_recyclable, de_recommended_dosage_ml = recommended_dosage_ml,
            de_biodegradable = biodegradable\<rparr>)
         batch_id placed_on_market_date commodity_code carrier_serial)})})"

text \<open>\<^verbatim>\<open>validate/textile.rs\<close>\<close>

definition textile_COLUMNS :: "Column list" where
  "textile_COLUMNS =
     [required_column ''productName'', required_column ''gtin'', required_column ''batchId'',
      required_column ''manufacturerName'', required_column ''manufacturerCountry'', required_column ''fibreComposition'',
      required_column ''countryOfOrigin'', required_column ''careInstructions'', required_column ''chemicalComplianceStandard'',
      optional_column ''recycledContentPct'', optional_column ''repairScore'', optional_column ''carbonFootprintKgCo2e'']"

definition validate_textile_row :: "row_libs \<Rightarrow> csv_row \<Rightarrow> nat \<Rightarrow> row_verdict" where
  "validate_textile_row lib row row_num = validated (do {
     product_name \<leftarrow> require_str row ''productName'' row_num;
     gtin_raw \<leftarrow> require_str row ''gtin'' row_num;
     gtin \<leftarrow> parse_gtin lib gtin_raw row_num;
     batch_id \<leftarrow> require_str row ''batchId'' row_num;
     manufacturer_name \<leftarrow> require_str row ''manufacturerName'' row_num;
     manufacturer_country \<leftarrow> require_str row ''manufacturerCountry'' row_num;
     country_of_origin \<leftarrow> require_str row ''countryOfOrigin'' row_num;
     care_instructions \<leftarrow> require_str row ''careInstructions'' row_num;
     chemical_compliance_standard \<leftarrow> require_str row ''chemicalComplianceStandard'' row_num;
     fibres \<leftarrow> require_fibre_list lib row ''fibreComposition'' row_num;
     recycled_content_pct \<leftarrow> optional_f64 lib row ''recycledContentPct'' row_num;
     repair_score \<leftarrow> optional_f64 lib row ''repairScore'' row_num;
     carbon_footprint \<leftarrow> optional_f64 lib row ''carbonFootprintKgCo2e'' row_num;
     placed_on_market_date \<leftarrow> optional_date lib row ''placedOnMarketDate'' row_num;
     commodity_code \<leftarrow> optional_commodity_code lib row ''commodityCode'' row_num;
     carrier_serial \<leftarrow> optional_carrier_serial lib row ''carrierSerial'' row_num;
     State_Monad.return (do {
       product_name \<leftarrow> product_name; manufacturer_name \<leftarrow> manufacturer_name; manufacturer_country \<leftarrow> manufacturer_country; gtin \<leftarrow> gtin;
       fibres \<leftarrow> fibres; country_of_origin \<leftarrow> country_of_origin; care_instructions \<leftarrow> care_instructions; chemical_compliance_standard \<leftarrow> chemical_compliance_standard;
       Some (import_request product_name Textile manufacturer_name manufacturer_country carbon_footprint repair_score
         (TextileGroup \<lparr>te_product_identifier = Gs1Identifier gtin, te_fibre_composition = fibres,
            te_country_of_origin = country_of_origin, te_care_instructions = care_instructions,
            te_chemical_compliance_standard = chemical_compliance_standard, te_recycled_content_pct = recycled_content_pct,
            te_repair_score = repair_score, te_carbon_footprint_kg_co2e = carbon_footprint\<rparr>)
         batch_id placed_on_market_date commodity_code carrier_serial)})})"

subsection \<open>What the extra cells do\<close>

lemma run_push_error:
  "appending (push_error n f msg)" "value_of (push_error n f msg) = ()"
  "errors_of (push_error n f msg) = [\<lparr>er_row = n, er_field = f, er_message = msg\<rparr>]"
  by (rule appendingI; simp add: push_error_def)+

lemma json_list_cell_run: "appending (json_list_cell lib entry check f n s)"
  "e \<in> set (errors_of (json_list_cell lib entry check f n s)) \<Longrightarrow> er_row e = n \<and> er_field e = f"
  "errors_of (json_list_cell lib entry check f n s) = [] \<Longrightarrow> value_of (json_list_cell lib entry check f n s) \<noteq> None"
  by (auto simp: json_list_cell_def run_return run_refuse run_push_error run_bind split: sum.splits option.splits)

interpretation device_reader: cell_reader "require_device_type lib" True
  unfolding require_device_type_def [abs_def]
  by (rule required_then) (auto simp: device_type_cell_def run_return run_refuse split: sum.splits)

interpretation energy_reader: cell_reader "require_energy_class lib" True
  unfolding require_energy_class_def [abs_def]
  by (rule required_then) (auto simp: energy_class_cell_def run_return run_refuse split: sum.splits if_splits)

interpretation scope_reader: cell_reader "optional_scope_exclusion lib" False
  unfolding optional_scope_exclusion_def [abs_def]
  by (rule optional_then) (auto simp: scope_exclusion_cell_def run_return run_refuse split: sum.splits)

interpretation surfactant_reader: cell_reader "require_surfactant_list lib" True
  unfolding require_surfactant_list_def [abs_def] by (rule required_then) (use json_list_cell_run in blast)+

interpretation fibre_reader: cell_reader "require_fibre_list lib" True
  unfolding require_fibre_list_def [abs_def] by (rule required_then) (use json_list_cell_run in blast)+

lemma parse_gtin_run:
  "appending (parse_gtin lib g n)" "e \<in> set (errors_of (parse_gtin lib g n)) \<Longrightarrow> er_row e = n \<and> er_field e = ''gtin''"
  "errors_of (parse_gtin lib g n) = [] \<Longrightarrow> g \<noteq> None \<Longrightarrow> value_of (parse_gtin lib g n) \<noteq> None"
  by (auto simp: parse_gtin_def run_return run_refuse split: option.splits sum.splits)

lemmas reader_appends = run_bind(1) run_return(1) str_reader.reads_appending f64_required.reads_appending f64_optional.reads_appending u32_required.reads_appending
  u32_optional.reads_appending bool_required.reads_appending bool_optional.reads_appending code_optional.reads_appending serial_optional.reads_appending
  date_optional.reads_appending device_reader.reads_appending energy_reader.reads_appending scope_reader.reads_appending surfactant_reader.reads_appending
  fibre_reader.reads_appending parse_gtin_run(1)

lemmas reader_only_errors = str_reader.reads_only f64_required.reads_only f64_optional.reads_only u32_required.reads_only
  u32_optional.reads_only bool_required.reads_only bool_optional.reads_only code_optional.reads_only
  serial_optional.reads_only date_optional.reads_only device_reader.reads_only energy_reader.reads_only
  scope_reader.reads_only surfactant_reader.reads_only fibre_reader.reads_only 

lemma require_str_ok: "errors_of (require_str row f n) = [] \<longleftrightarrow> optional_str row f \<noteq> None"
  by (simp add: require_str_def run_return run_refuse split: option.splits)

lemmas reader_values = require_str_ok f64_required.reads_value(1) u32_required.reads_value(1) bool_required.reads_value(1)
  device_reader.reads_value(1) energy_reader.reads_value(1) surfactant_reader.reads_value(1) fibre_reader.reads_value(1)

lemmas reader_cells = f64_required.reads_value(2) [OF _ TrueI] u32_required.reads_value(2) [OF _ TrueI]
  bool_required.reads_value(2) [OF _ TrueI] device_reader.reads_value(2) [OF _ TrueI] energy_reader.reads_value(2) [OF _ TrueI]
  surfactant_reader.reads_value(2) [OF _ TrueI] fibre_reader.reads_value(2) [OF _ TrueI]

lemmas reader_defs = require_str_def require_f64_def optional_f64_def require_u32_def optional_u32_def require_bool_def
  optional_bool_def optional_commodity_code_def optional_carrier_serial_def optional_date_def require_device_type_def
  require_energy_class_def optional_scope_exclusion_def require_surfactant_list_def require_fibre_list_def

lemma gtin_only: "''gtin'' \<in> names \<Longrightarrow> only_errors n names (errors_of (parse_gtin lib g n))"
  using parse_gtin_run(2) by (auto simp: only_errors_def)

lemmas reader_runs = run_bind(2,3) run_return(2,3) reader_simps

lemmas column_simps = ENVELOPE_COLUMNS_def required_column_def optional_column_def

subsection \<open>What every validator keeps\<close>

text \<open>
  A validator never panics, and when it refuses a row it says why, under that row's number.
\<close>

locale row_checker =
  fixes validate :: "row_libs \<Rightarrow> csv_row \<Rightarrow> nat \<Rightarrow> row_verdict"
  assumes no_panic: "validate lib row n \<noteq> None"
    and explained: "validate lib row n = Some (Inl es) \<Longrightarrow> es \<noteq> [] \<and> (\<forall>e \<in> set es. er_row e = n)"
begin

lemma verdict_cases:
  obtains (accepted) req where "validate lib row n = Some (Inr req)"
  | (refused) es where "validate lib row n = Some (Inl es)" "es \<noteq> []" "\<forall>e \<in> set es. er_row e = n"
proof (cases "validate lib row n")
  case None
  with no_panic show ?thesis by blast
next
  case (Some v)
  then show ?thesis using accepted refused explained by (cases v) blast+
qed

end

text \<open>
  A templated validator reads its columns and nothing else: rows that agree on them get the same
  verdict, the errors name them, and an accepted row fills every required one.
\<close>

locale templated_checker = row_checker +
  fixes columns :: "Column list"
  assumes reads_columns: "list_all (\<lambda>c. optional_str row (col_name c) = optional_str row' (col_name c)) columns \<Longrightarrow>
      validate lib row n = validate lib row' n"
    and names_columns: "validate lib row n = Some (Inl es) \<Longrightarrow> e \<in> set es \<Longrightarrow> er_field e \<in> col_name ` set columns"
    and needs_columns: "validate lib row n = Some (Inr req) \<Longrightarrow> c \<in> set columns \<Longrightarrow> col_required c \<Longrightarrow>
      optional_str row (col_name c) \<noteq> None"

lemma templatedI:
  assumes "\<And>lib row row' n. list_all (\<lambda>c. optional_str row (col_name c) = optional_str row' (col_name c)) columns \<Longrightarrow>
      validate lib row n = validate lib row' n"
    and "\<And>lib row n. \<exists>m. validate lib row n = validated m \<and> appending m \<and> only_errors n (col_name ` set columns) (errors_of m) \<and>
      (errors_of m = [] \<longrightarrow> value_of m \<noteq> None \<and>
        list_all (\<lambda>c. col_required c \<longrightarrow> optional_str row (col_name c) \<noteq> None) columns)"
  shows "templated_checker validate columns"
proof -
  have verdict: "\<exists>es v. only_errors n (col_name ` set columns) es \<and>
      validate lib row n = (if es \<noteq> [] then Some (Inl es) else map_option Inr v) \<and>
      (es = [] \<longrightarrow> v \<noteq> None \<and> list_all (\<lambda>c. col_required c \<longrightarrow> optional_str row (col_name c) \<noteq> None) columns)" for lib row n
  proof -
    from assms(2) obtain m where m: "validate lib row n = validated m" "appending m" "only_errors n (col_name ` set columns) (errors_of m)"
      "errors_of m = [] \<longrightarrow> value_of m \<noteq> None \<and> list_all (\<lambda>c. col_required c \<longrightarrow> optional_str row (col_name c) \<noteq> None) columns"
      by blast
    from m(2) have "run_state m [] = (value_of m, errors_of m)" by (simp add: appending_def)
    with m show ?thesis by (intro exI [of _ "errors_of m"] exI [of _ "value_of m"]) (simp add: validated_def)
  qed
  show ?thesis
  proof (unfold_locales, goal_cases)
    case (1 lib row n)
    from verdict [of n lib row] show ?case by auto
  next
    case (2 lib row n es)
    with verdict [of n lib row] show ?case by (auto simp: only_errors_def split: if_splits)
  next
    case (3 row row' lib n)
    then show ?case by (rule assms(1))
  next
    case (4 lib row n es e)
    with verdict [of n lib row] show ?case by (auto simp: only_errors_def split: if_splits)
  next
    case (5 lib row n req c)
    with verdict [of n lib row] show ?case by (auto simp: list_all_iff split: if_splits)
  qed
qed

lemma steel_row:
  "\<exists>m. validate_steel_row lib row n = validated m \<and> appending m \<and>
     only_errors n (col_name ` set (steel_COLUMNS @ ENVELOPE_COLUMNS)) (errors_of m) \<and>
     (errors_of m = [] \<longrightarrow> value_of m \<noteq> None \<and>
        list_all (\<lambda>c. col_required c \<longrightarrow> optional_str row (col_name c) \<noteq> None) (steel_COLUMNS @ ENVELOPE_COLUMNS))"
  unfolding validate_steel_row_def Let_def
  by (intro exI conjI, rule refl, intro reader_appends)
    (simp_all add: reader_appends reader_runs bind_eq_None_conv only_errors_append reader_only_errors column_simps steel_COLUMNS_def
      reader_values gtin_only parse_gtin_run(3) del: not_None_eq, (auto dest: reader_cells)?)

interpretation steel_rows: templated_checker validate_steel_row "steel_COLUMNS @ ENVELOPE_COLUMNS"
proof (rule templatedI)
  fix lib row row' n
  assume "list_all (\<lambda>c. optional_str row (col_name c) = optional_str row' (col_name c)) (steel_COLUMNS @ ENVELOPE_COLUMNS)"
  then show "validate_steel_row lib row n = validate_steel_row lib row' n"
    by (simp add: validate_steel_row_def reader_defs steel_COLUMNS_def ENVELOPE_COLUMNS_def required_column_def optional_column_def)
qed (rule steel_row)

lemma aluminium_row:
  "\<exists>m. validate_aluminium_row lib row n = validated m \<and> appending m \<and>
     only_errors n (col_name ` set (aluminium_COLUMNS @ ENVELOPE_COLUMNS)) (errors_of m) \<and>
     (errors_of m = [] \<longrightarrow> value_of m \<noteq> None \<and>
        list_all (\<lambda>c. col_required c \<longrightarrow> optional_str row (col_name c) \<noteq> None) (aluminium_COLUMNS @ ENVELOPE_COLUMNS))"
  unfolding validate_aluminium_row_def Let_def
  by (intro exI conjI, rule refl, intro reader_appends)
    (simp_all add: reader_appends reader_runs bind_eq_None_conv only_errors_append reader_only_errors column_simps aluminium_COLUMNS_def
      reader_values gtin_only parse_gtin_run(3) del: not_None_eq, (auto dest: reader_cells)?)

interpretation aluminium_rows: templated_checker validate_aluminium_row "aluminium_COLUMNS @ ENVELOPE_COLUMNS"
proof (rule templatedI)
  fix lib row row' n
  assume "list_all (\<lambda>c. optional_str row (col_name c) = optional_str row' (col_name c)) (aluminium_COLUMNS @ ENVELOPE_COLUMNS)"
  then show "validate_aluminium_row lib row n = validate_aluminium_row lib row' n"
    by (simp add: validate_aluminium_row_def reader_defs aluminium_COLUMNS_def ENVELOPE_COLUMNS_def required_column_def optional_column_def)
qed (rule aluminium_row)

lemma tyre_row:
  "\<exists>m. validate_tyre_row lib row n = validated m \<and> appending m \<and>
     only_errors n (col_name ` set (tyre_COLUMNS @ ENVELOPE_COLUMNS)) (errors_of m) \<and>
     (errors_of m = [] \<longrightarrow> value_of m \<noteq> None \<and>
        list_all (\<lambda>c. col_required c \<longrightarrow> optional_str row (col_name c) \<noteq> None) (tyre_COLUMNS @ ENVELOPE_COLUMNS))"
  unfolding validate_tyre_row_def Let_def
  by (intro exI conjI, rule refl, intro reader_appends)
    (simp_all add: reader_appends reader_runs bind_eq_None_conv only_errors_append reader_only_errors column_simps tyre_COLUMNS_def
      reader_values gtin_only parse_gtin_run(3) del: not_None_eq, (auto dest: reader_cells)?)

interpretation tyre_rows: templated_checker validate_tyre_row "tyre_COLUMNS @ ENVELOPE_COLUMNS"
proof (rule templatedI)
  fix lib row row' n
  assume "list_all (\<lambda>c. optional_str row (col_name c) = optional_str row' (col_name c)) (tyre_COLUMNS @ ENVELOPE_COLUMNS)"
  then show "validate_tyre_row lib row n = validate_tyre_row lib row' n"
    by (simp add: validate_tyre_row_def reader_defs tyre_COLUMNS_def ENVELOPE_COLUMNS_def required_column_def optional_column_def)
qed (rule tyre_row)

lemma mattress_row:
  "\<exists>m. validate_mattress_row lib row n = validated m \<and> appending m \<and>
     only_errors n (col_name ` set (mattress_COLUMNS @ ENVELOPE_COLUMNS)) (errors_of m) \<and>
     (errors_of m = [] \<longrightarrow> value_of m \<noteq> None \<and>
        list_all (\<lambda>c. col_required c \<longrightarrow> optional_str row (col_name c) \<noteq> None) (mattress_COLUMNS @ ENVELOPE_COLUMNS))"
  unfolding validate_mattress_row_def Let_def
  by (intro exI conjI, rule refl, intro reader_appends)
    (simp_all add: reader_appends reader_runs bind_eq_None_conv only_errors_append reader_only_errors column_simps mattress_COLUMNS_def
      reader_values gtin_only parse_gtin_run(3) del: not_None_eq, (auto dest: reader_cells)?)

interpretation mattress_rows: templated_checker validate_mattress_row "mattress_COLUMNS @ ENVELOPE_COLUMNS"
proof (rule templatedI)
  fix lib row row' n
  assume "list_all (\<lambda>c. optional_str row (col_name c) = optional_str row' (col_name c)) (mattress_COLUMNS @ ENVELOPE_COLUMNS)"
  then show "validate_mattress_row lib row n = validate_mattress_row lib row' n"
    by (simp add: validate_mattress_row_def reader_defs mattress_COLUMNS_def ENVELOPE_COLUMNS_def required_column_def optional_column_def)
qed (rule mattress_row)

lemma furniture_row:
  "\<exists>m. validate_furniture_row lib row n = validated m \<and> appending m \<and>
     only_errors n (col_name ` set (furniture_COLUMNS @ ENVELOPE_COLUMNS)) (errors_of m) \<and>
     (errors_of m = [] \<longrightarrow> value_of m \<noteq> None \<and>
        list_all (\<lambda>c. col_required c \<longrightarrow> optional_str row (col_name c) \<noteq> None) (furniture_COLUMNS @ ENVELOPE_COLUMNS))"
  unfolding validate_furniture_row_def Let_def
  by (intro exI conjI, rule refl, intro reader_appends)
    (simp_all add: reader_appends reader_runs bind_eq_None_conv only_errors_append reader_only_errors column_simps furniture_COLUMNS_def
      reader_values gtin_only parse_gtin_run(3) del: not_None_eq, (auto dest: reader_cells)?)

interpretation furniture_rows: templated_checker validate_furniture_row "furniture_COLUMNS @ ENVELOPE_COLUMNS"
proof (rule templatedI)
  fix lib row row' n
  assume "list_all (\<lambda>c. optional_str row (col_name c) = optional_str row' (col_name c)) (furniture_COLUMNS @ ENVELOPE_COLUMNS)"
  then show "validate_furniture_row lib row n = validate_furniture_row lib row' n"
    by (simp add: validate_furniture_row_def reader_defs furniture_COLUMNS_def ENVELOPE_COLUMNS_def required_column_def optional_column_def)
qed (rule furniture_row)

lemma toy_row:
  "\<exists>m. validate_toy_row lib row n = validated m \<and> appending m \<and>
     only_errors n (col_name ` set (toy_COLUMNS @ ENVELOPE_COLUMNS)) (errors_of m) \<and>
     (errors_of m = [] \<longrightarrow> value_of m \<noteq> None \<and>
        list_all (\<lambda>c. col_required c \<longrightarrow> optional_str row (col_name c) \<noteq> None) (toy_COLUMNS @ ENVELOPE_COLUMNS))"
  unfolding validate_toy_row_def Let_def
  by (intro exI conjI, rule refl, intro reader_appends)
    (simp_all add: reader_appends reader_runs bind_eq_None_conv only_errors_append reader_only_errors column_simps toy_COLUMNS_def
      reader_values gtin_only parse_gtin_run(3) del: not_None_eq, (auto dest: reader_cells)?)

interpretation toy_rows: templated_checker validate_toy_row "toy_COLUMNS @ ENVELOPE_COLUMNS"
proof (rule templatedI)
  fix lib row row' n
  assume "list_all (\<lambda>c. optional_str row (col_name c) = optional_str row' (col_name c)) (toy_COLUMNS @ ENVELOPE_COLUMNS)"
  then show "validate_toy_row lib row n = validate_toy_row lib row' n"
    by (simp add: validate_toy_row_def reader_defs toy_COLUMNS_def ENVELOPE_COLUMNS_def required_column_def optional_column_def)
qed (rule toy_row)

lemma construction_row:
  "\<exists>m. validate_construction_row lib row n = validated m \<and> appending m \<and>
     only_errors n (col_name ` set (construction_COLUMNS @ ENVELOPE_COLUMNS)) (errors_of m) \<and>
     (errors_of m = [] \<longrightarrow> value_of m \<noteq> None \<and>
        list_all (\<lambda>c. col_required c \<longrightarrow> optional_str row (col_name c) \<noteq> None) (construction_COLUMNS @ ENVELOPE_COLUMNS))"
  unfolding validate_construction_row_def Let_def
  by (intro exI conjI, rule refl, intro reader_appends)
    (simp_all add: reader_appends reader_runs bind_eq_None_conv only_errors_append reader_only_errors column_simps construction_COLUMNS_def
      reader_values gtin_only parse_gtin_run(3) del: not_None_eq, (auto dest: reader_cells)?)

interpretation construction_rows: templated_checker validate_construction_row "construction_COLUMNS @ ENVELOPE_COLUMNS"
proof (rule templatedI)
  fix lib row row' n
  assume "list_all (\<lambda>c. optional_str row (col_name c) = optional_str row' (col_name c)) (construction_COLUMNS @ ENVELOPE_COLUMNS)"
  then show "validate_construction_row lib row n = validate_construction_row lib row' n"
    by (simp add: validate_construction_row_def reader_defs construction_COLUMNS_def ENVELOPE_COLUMNS_def required_column_def optional_column_def)
qed (rule construction_row)

lemma electronics_row:
  "\<exists>m. validate_electronics_row lib row n = validated m \<and> appending m \<and>
     only_errors n (col_name ` set (electronics_COLUMNS @ ENVELOPE_COLUMNS)) (errors_of m) \<and>
     (errors_of m = [] \<longrightarrow> value_of m \<noteq> None \<and>
        list_all (\<lambda>c. col_required c \<longrightarrow> optional_str row (col_name c) \<noteq> None) (electronics_COLUMNS @ ENVELOPE_COLUMNS))"
  unfolding validate_electronics_row_def Let_def
  by (intro exI conjI, rule refl, intro reader_appends)
    (simp_all add: reader_appends reader_runs bind_eq_None_conv only_errors_append reader_only_errors column_simps electronics_COLUMNS_def
      reader_values gtin_only parse_gtin_run(3) del: not_None_eq, (auto dest: reader_cells)?)

interpretation electronics_rows: templated_checker validate_electronics_row "electronics_COLUMNS @ ENVELOPE_COLUMNS"
proof (rule templatedI)
  fix lib row row' n
  assume "list_all (\<lambda>c. optional_str row (col_name c) = optional_str row' (col_name c)) (electronics_COLUMNS @ ENVELOPE_COLUMNS)"
  then show "validate_electronics_row lib row n = validate_electronics_row lib row' n"
    by (simp add: validate_electronics_row_def reader_defs electronics_COLUMNS_def ENVELOPE_COLUMNS_def required_column_def optional_column_def)
qed (rule electronics_row)

lemma detergent_row:
  "\<exists>m. validate_detergent_row lib row n = validated m \<and> appending m \<and>
     only_errors n (col_name ` set (detergent_COLUMNS @ ENVELOPE_COLUMNS)) (errors_of m) \<and>
     (errors_of m = [] \<longrightarrow> value_of m \<noteq> None \<and>
        list_all (\<lambda>c. col_required c \<longrightarrow> optional_str row (col_name c) \<noteq> None) (detergent_COLUMNS @ ENVELOPE_COLUMNS))"
  unfolding validate_detergent_row_def Let_def
  by (intro exI conjI, rule refl, intro reader_appends)
    (simp_all add: reader_appends reader_runs bind_eq_None_conv only_errors_append reader_only_errors column_simps detergent_COLUMNS_def
      reader_values gtin_only parse_gtin_run(3) del: not_None_eq, (auto dest: reader_cells)?)

interpretation detergent_rows: templated_checker validate_detergent_row "detergent_COLUMNS @ ENVELOPE_COLUMNS"
proof (rule templatedI)
  fix lib row row' n
  assume "list_all (\<lambda>c. optional_str row (col_name c) = optional_str row' (col_name c)) (detergent_COLUMNS @ ENVELOPE_COLUMNS)"
  then show "validate_detergent_row lib row n = validate_detergent_row lib row' n"
    by (simp add: validate_detergent_row_def reader_defs detergent_COLUMNS_def ENVELOPE_COLUMNS_def required_column_def optional_column_def)
qed (rule detergent_row)

lemma textile_row:
  "\<exists>m. validate_textile_row lib row n = validated m \<and> appending m \<and>
     only_errors n (col_name ` set (textile_COLUMNS @ ENVELOPE_COLUMNS)) (errors_of m) \<and>
     (errors_of m = [] \<longrightarrow> value_of m \<noteq> None \<and>
        list_all (\<lambda>c. col_required c \<longrightarrow> optional_str row (col_name c) \<noteq> None) (textile_COLUMNS @ ENVELOPE_COLUMNS))"
  unfolding validate_textile_row_def Let_def
  by (intro exI conjI, rule refl, intro reader_appends)
    (simp_all add: reader_appends reader_runs bind_eq_None_conv only_errors_append reader_only_errors column_simps textile_COLUMNS_def
      reader_values gtin_only parse_gtin_run(3) del: not_None_eq, (auto dest: reader_cells)?)

interpretation textile_rows: templated_checker validate_textile_row "textile_COLUMNS @ ENVELOPE_COLUMNS"
proof (rule templatedI)
  fix lib row row' n
  assume "list_all (\<lambda>c. optional_str row (col_name c) = optional_str row' (col_name c)) (textile_COLUMNS @ ENVELOPE_COLUMNS)"
  then show "validate_textile_row lib row n = validate_textile_row lib row' n"
    by (simp add: validate_textile_row_def reader_defs textile_COLUMNS_def ENVELOPE_COLUMNS_def required_column_def optional_column_def)
qed (rule textile_row)

end
