(* ===== verification/Import_Battery.thy ===== *)
theory Import_Battery
  imports Import_Validate
begin

text \<open>
  The battery validator (\<^verbatim>\<open>dpp-integrator/src/domain/validate/battery.rs\<close>) with its structured columns
  (\<^verbatim>\<open>battery_fields.rs\<close>) and template keys (\<^verbatim>\<open>battery_template.rs\<close>), and the dispatch over all product
  groups (\<^verbatim>\<open>validate/mod.rs\<close>).
\<close>

subsection \<open>Structured columns\<close>

definition MAX_GROUP_SLOTS :: nat where
  "MAX_GROUP_SLOTS = 10"

definition battery_cell :: "csv_row \<Rightarrow> string \<Rightarrow> string option" where
  "battery_cell row name = (case optional_str row name of Some v \<Rightarrow> if str_trim v = [] then None else Some v | None \<Rightarrow> None)"

definition battery_optional_u32 :: "csv_row \<Rightarrow> string \<Rightarrow> nat option" where
  "battery_optional_u32 row name = Option.bind (battery_cell row name) (\<lambda>v. parse_u32 (str_trim v))"

text \<open>\<^verbatim>\<open>(!out.is_empty()).then_some(out)\<close>\<close>

definition nonempty :: "'a list \<Rightarrow> 'a list option" where
  "nonempty xs = (if xs = [] then None else Some xs)"

definition slot :: "string \<Rightarrow> nat \<Rightarrow> string \<Rightarrow> string" where
  "slot pfx i tail = pfx @ ''_'' @ show_nat i @ tail"

fun composition_slots :: "row_libs \<Rightarrow> csv_row \<Rightarrow> string \<Rightarrow> nat \<Rightarrow> nat list \<Rightarrow> MaterialComposition list checked" where
  "composition_slots lib row pfx row_num [] = State_Monad.return []"
| "composition_slots lib row pfx row_num (i # is) =
     (case battery_cell row (slot pfx i ''_name'') of
        None \<Rightarrow> composition_slots lib row pfx row_num is
      | Some name \<Rightarrow> do {
          weight_pct \<leftarrow> optional_f64 lib row (slot pfx i ''_weightPct'') row_num;
          rest \<leftarrow> composition_slots lib row pfx row_num is;
          State_Monad.return (case weight_pct of
             None \<Rightarrow> rest
           | Some w \<Rightarrow> \<lparr>mc_name = name, mc_weight_pct = w, mc_cas_number = battery_cell row (slot pfx i ''_casNumber'')\<rparr> # rest) })"

definition parse_composition :: "row_libs \<Rightarrow> csv_row \<Rightarrow> string \<Rightarrow> nat \<Rightarrow> MaterialComposition list option checked" where
  "parse_composition lib row pfx row_num = do {
     out \<leftarrow> composition_slots lib row pfx row_num [1..<MAX_GROUP_SLOTS + 1];
     State_Monad.return (nonempty out) }"

fun critical_raw_slots :: "row_libs \<Rightarrow> csv_row \<Rightarrow> nat \<Rightarrow> nat list \<Rightarrow> CriticalRawMaterial list checked" where
  "critical_raw_slots lib row row_num [] = State_Monad.return []"
| "critical_raw_slots lib row row_num (i # is) =
     (case battery_cell row (slot ''criticalRaw'' i ''_name'') of
        None \<Rightarrow> critical_raw_slots lib row row_num is
      | Some name \<Rightarrow> do {
          weight_grams \<leftarrow> optional_f64 lib row (slot ''criticalRaw'' i ''_weightGrams'') row_num;
          rest \<leftarrow> critical_raw_slots lib row row_num is;
          State_Monad.return (\<lparr>crm_name = name, crm_cas_number = battery_cell row (slot ''criticalRaw'' i ''_casNumber''),
            crm_weight_grams = weight_grams,
            crm_country_of_origin = battery_cell row (slot ''criticalRaw'' i ''_countryOfOrigin'')\<rparr> # rest) })"

definition parse_critical_raw_materials :: "row_libs \<Rightarrow> csv_row \<Rightarrow> nat \<Rightarrow> CriticalRawMaterial list option checked" where
  "parse_critical_raw_materials lib row row_num = do {
     out \<leftarrow> critical_raw_slots lib row row_num [1..<MAX_GROUP_SLOTS + 1];
     State_Monad.return (nonempty out) }"

definition json_or_null :: "('a \<Rightarrow> json) \<Rightarrow> 'a option \<Rightarrow> json" where
  "json_or_null f x = (case x of None \<Rightarrow> JNull | Some v \<Rightarrow> f v)"

text \<open>An entry that does not read from its wire shape ends the whole list, and the later slots are not read.\<close>

fun hazardous_slots :: "row_libs \<Rightarrow> csv_row \<Rightarrow> nat \<Rightarrow> nat list \<Rightarrow> json list option checked" where
  "hazardous_slots lib row row_num [] = State_Monad.return (Some [])"
| "hazardous_slots lib row row_num (i # is) =
     (case battery_cell row (slot ''hazardous'' i ''_name'') of
        None \<Rightarrow> hazardous_slots lib row row_num is
      | Some name \<Rightarrow> do {
          concentration_pct \<leftarrow> optional_f64 lib row (slot ''hazardous'' i ''_concentrationPct'') row_num;
          case from_wire lib ''HazardousSubstance'' (JObj
                 [(''casNumber'', json_or_null JStr (battery_cell row (slot ''hazardous'' i ''_casNumber''))),
                  (''concentrationPct'', json_or_null (json_of_f64 lib) concentration_pct), (''name'', JStr name)]) of
            None \<Rightarrow> State_Monad.return None
          | Some entry \<Rightarrow> do {
              rest \<leftarrow> hazardous_slots lib row row_num is;
              State_Monad.return (map_option ((#) entry) rest) } })"

definition parse_hazardous_substances :: "row_libs \<Rightarrow> csv_row \<Rightarrow> nat \<Rightarrow> json list option checked" where
  "parse_hazardous_substances lib row row_num = do {
     out \<leftarrow> hazardous_slots lib row row_num [1..<MAX_GROUP_SLOTS + 1];
     State_Monad.return (Option.bind out nonempty) }"

definition parse_temperature_range :: "row_libs \<Rightarrow> csv_row \<Rightarrow> nat \<Rightarrow> json option checked" where
  "parse_temperature_range lib row row_num = do {
     min_c \<leftarrow> optional_f64 lib row ''notInUseTemperatureMinC'' row_num;
     case min_c of
       None \<Rightarrow> State_Monad.return None
     | Some min_c \<Rightarrow> do {
         max_c \<leftarrow> optional_f64 lib row ''notInUseTemperatureMaxC'' row_num;
         case max_c of
           None \<Rightarrow> State_Monad.return None
         | Some max_c \<Rightarrow> State_Monad.return (from_wire lib ''TemperatureRange''
             (JObj [(''maxC'', json_of_f64 lib max_c), (''minC'', json_of_f64 lib min_c)])) } }"

text \<open>Rust's \<^verbatim>\<open>str::split\<close> on a character.\<close>

fun split_on :: "char \<Rightarrow> string \<Rightarrow> string list" where
  "split_on c [] = [[]]"
| "split_on c (x # xs) = (if x = c then [] # split_on c xs
     else (case split_on c xs of [] \<Rightarrow> [[x]] | p # ps \<Rightarrow> (x # p) # ps))"

definition parse_component_part_numbers :: "csv_row \<Rightarrow> string list option" where
  "parse_component_part_numbers row =
     Option.bind (battery_cell row ''componentPartNumbers'')
       (\<lambda>raw. nonempty (filter (\<lambda>p. p \<noteq> []) (map str_trim (split_on (CHR '';'') raw))))"

definition parse_dynamic_performance :: "row_libs \<Rightarrow> csv_row \<Rightarrow> nat \<Rightarrow> DynamicPerformance option checked" where
  "parse_dynamic_performance lib row row_num = do {
     rated_capacity_ah \<leftarrow> optional_f64 lib row ''dynamicPerformance_ratedCapacityAh'' row_num;
     capacity_fade_pct \<leftarrow> optional_f64 lib row ''dynamicPerformance_capacityFadePct'' row_num;
     power_w \<leftarrow> optional_f64 lib row ''dynamicPerformance_powerW'' row_num;
     power_fade_pct \<leftarrow> optional_f64 lib row ''dynamicPerformance_powerFadePct'' row_num;
     internal_resistance_mohm \<leftarrow> optional_f64 lib row ''dynamicPerformance_internalResistanceMohm'' row_num;
     internal_resistance_increase_pct \<leftarrow> optional_f64 lib row ''dynamicPerformance_internalResistanceIncreasePct'' row_num;
     round_trip_efficiency_pct \<leftarrow> optional_f64 lib row ''dynamicPerformance_roundTripEfficiencyPct'' row_num;
     round_trip_efficiency_fade_pct \<leftarrow> optional_f64 lib row ''dynamicPerformance_roundTripEfficiencyFadePct'' row_num;
     let expected_lifetime_cycles = battery_optional_u32 row ''dynamicPerformance_expectedLifetimeCycles'';
     expected_lifetime_years \<leftarrow> optional_f64 lib row ''dynamicPerformance_expectedLifetimeYears'' row_num;
     State_Monad.return
       (if rated_capacity_ah = None \<and> capacity_fade_pct = None \<and> power_w = None \<and> power_fade_pct = None \<and>
           internal_resistance_mohm = None \<and> internal_resistance_increase_pct = None \<and> round_trip_efficiency_pct = None \<and>
           round_trip_efficiency_fade_pct = None \<and> expected_lifetime_cycles = None \<and> expected_lifetime_years = None
        then None
        else Some \<lparr>dy_rated_capacity_ah = rated_capacity_ah, dy_capacity_fade_pct = capacity_fade_pct, dy_power_w = power_w,
          dy_power_fade_pct = power_fade_pct, dy_internal_resistance_mohm = internal_resistance_mohm,
          dy_internal_resistance_increase_pct = internal_resistance_increase_pct,
          dy_round_trip_efficiency_pct = round_trip_efficiency_pct,
          dy_round_trip_efficiency_fade_pct = round_trip_efficiency_fade_pct,
          dy_expected_lifetime_cycles = expected_lifetime_cycles, dy_expected_lifetime_years = expected_lifetime_years\<rparr>) }"

definition health_both_message :: string where
  "health_both_message = ''stateOfHealth carries both the electric-vehicle parameter (socePct) and the stationary/LMT ones. Annex VII Part A lists these as alternatives, so a battery reports one set or the other -- fill only the columns for this battery's category.''"

definition health_partial_message :: string where
  "health_partial_message = ''stateOfHealth for a stationary or LMT battery needs both remainingCapacityPct and selfDischargeRatePctPerMonth -- Annex VII Part A lists items 1 and 4 unconditionally, unlike items 2, 3 and 5.''"

definition OPTIONAL_ONLY :: "string list" where
  "OPTIONAL_ONLY = [''stateOfHealth_remainingPowerCapabilityPct'', ''stateOfHealth_remainingRoundTripEfficiencyPct'',
     ''stateOfHealth_ohmicResistanceMohm'']"

definition match_state_of_health ::
    "row_libs \<Rightarrow> csv_row \<Rightarrow> nat \<Rightarrow> rat option \<Rightarrow> rat option \<Rightarrow> rat option \<Rightarrow> (string + StateOfHealth option) checked" where
  "match_state_of_health lib row row_num soce remaining_capacity self_discharge =
     (case (soce, remaining_capacity = None \<and> self_discharge = None) of
       (Some _, False) \<Rightarrow> State_Monad.return (Inl health_both_message)
     | (Some soce_pct, True) \<Rightarrow> State_Monad.return (Inr (Some (ElectricVehicle soce_pct)))
     | (None, False) \<Rightarrow>
         (case (remaining_capacity, self_discharge) of
            (Some remaining_capacity_pct, Some self_discharge_rate_pct_per_month) \<Rightarrow> do {
              power \<leftarrow> optional_f64 lib row ''stateOfHealth_remainingPowerCapabilityPct'' row_num;
              efficiency \<leftarrow> optional_f64 lib row ''stateOfHealth_remainingRoundTripEfficiencyPct'' row_num;
              ohmic \<leftarrow> optional_f64 lib row ''stateOfHealth_ohmicResistanceMohm'' row_num;
              State_Monad.return (Inr (Some (StationaryOrLmt \<lparr>sh_remaining_capacity_pct = remaining_capacity_pct,
                sh_remaining_power_capability_pct = power, sh_remaining_round_trip_efficiency_pct = efficiency,
                sh_self_discharge_rate_pct_per_month = self_discharge_rate_pct_per_month,
                sh_ohmic_resistance_mohm = ohmic\<rparr>))) }
          | _ \<Rightarrow> State_Monad.return (Inl health_partial_message))
     | (None, True) \<Rightarrow>
         State_Monad.return
           (if list_ex (\<lambda>c. case map_of row c of Some v \<Rightarrow> str_trim v \<noteq> [] | None \<Rightarrow> False) OPTIONAL_ONLY
            then Inl health_partial_message else Inr None))"

definition parse_state_of_health :: "row_libs \<Rightarrow> csv_row \<Rightarrow> nat \<Rightarrow> (string + StateOfHealth option) checked" where
  "parse_state_of_health lib row row_num = do {
     soce \<leftarrow> optional_f64 lib row ''stateOfHealth_socePct'' row_num;
     remaining_capacity \<leftarrow> optional_f64 lib row ''stateOfHealth_remainingCapacityPct'' row_num;
     self_discharge \<leftarrow> optional_f64 lib row ''stateOfHealth_selfDischargeRatePctPerMonth'' row_num;
     match_state_of_health lib row row_num soce remaining_capacity self_discharge }"

definition parse_battery_status :: "csv_row \<Rightarrow> BatteryStatus option" where
  "parse_battery_status row =
     Option.bind (battery_cell row ''batteryStatus'') (\<lambda>raw.
       let normalised = map (\<lambda>c. if c = CHR ''-'' \<or> c = CHR '' '' then CHR ''_'' else c) (map ascii_lower (str_trim raw)) in
       if normalised = ''original'' then Some Original
       else if normalised = ''repurposed'' then Some Repurposed
       else if normalised = ''re_used'' \<or> normalised = ''reused'' then Some ReUsed
       else if normalised = ''remanufactured'' then Some Remanufactured
       else if normalised = ''waste'' then Some Waste
       else None)"

subsection \<open>The battery row\<close>

definition battery_COLUMNS :: "Column list" where
  "battery_COLUMNS =
     [required_column ''productName'', required_column ''gtin'', required_column ''batchId'', required_column ''manufacturerName'',
      required_column ''manufacturerCountry'', required_column ''batteryChemistry'', required_column ''batteryType'',
      required_column ''nominalVoltageV'', required_column ''nominalCapacityAh'', required_column ''expectedLifetimeCycles'',
      optional_column ''co2ePerUnitKg'', optional_column ''recycledContentCobaltPct'', optional_column ''recycledContentLithiumPct'',
      optional_column ''recycledContentNickelPct'', optional_column ''recycledContentLeadPct'', optional_column ''stateOfHealthPct'',
      optional_column ''ratedCapacityKwh'', optional_column ''batteryWeightKg'', optional_column ''operatingTempMinC'',
      optional_column ''operatingTempMaxC'', optional_column ''roundTripEfficiencyPct'', optional_column ''dueDiligenceUrl'',
      optional_column ''carbonFootprintClass'', optional_column ''repairabilityScore'']"

definition battery_type_cell :: "row_libs \<Rightarrow> string \<Rightarrow> nat \<Rightarrow> string \<Rightarrow> string option checked" where
  "battery_type_cell lib f n s =
     (case serde_enum lib ''BatteryType'' s of
        Inr t \<Rightarrow> State_Monad.return (Some t)
      | Inl _ \<Rightarrow> refuse n f (fmt_debug lib s @ '' is not a battery type recognised by Annex VI Part A -- expected one '' @
          ''of: portable, industrial, ev, lmt, starting-lighting-ignition''))"

definition require_battery_type :: "row_libs \<Rightarrow> csv_row \<Rightarrow> string \<Rightarrow> nat \<Rightarrow> string option checked" where
  "require_battery_type lib row f n = do {
     raw \<leftarrow> require_str row f n;
     case raw of None \<Rightarrow> State_Monad.return None | Some s \<Rightarrow> battery_type_cell lib f n s }"

definition require_place :: "string option \<Rightarrow> string option \<Rightarrow> nat \<Rightarrow> unit checked" where
  "require_place country postal row_num =
     (if country = None \<and> postal = None then push_error row_num ''manufacturerCountry'' ''manufacturerCountry is required''
      else State_Monad.return ())"

definition health_block :: "row_libs \<Rightarrow> csv_row \<Rightarrow> nat \<Rightarrow> StateOfHealth option checked" where
  "health_block lib row row_num = do {
     parsed \<leftarrow> parse_state_of_health lib row row_num;
     case parsed of
       Inr soh \<Rightarrow> State_Monad.return soh
     | Inl message \<Rightarrow> refuse row_num ''stateOfHealth'' message }"

definition validate_battery_row :: "row_libs \<Rightarrow> csv_row \<Rightarrow> nat \<Rightarrow> row_verdict" where
  "validate_battery_row lib row row_num = validated (do {
     product_name \<leftarrow> require_str row ''productName'' row_num;
     gtin_raw \<leftarrow> require_str row ''gtin'' row_num;
     batch_id \<leftarrow> require_str row ''batchId'' row_num;
     manufacturer_name \<leftarrow> require_aliased row [''manufacturerName'', ''manufacturer_name''] ''manufacturerName'' row_num;
     let manufacturer_country = aliased row [''manufacturerCountry'', ''manufacturer_country''];
     let manufacturer_postal = aliased row [''manufacturerAddress'', ''manufacturer_address''];
     _ \<leftarrow> require_place manufacturer_country manufacturer_postal row_num;
     let did_web_url = aliased row [''didWebUrl'', ''manufacturerDidWebUrl'', ''manufacturer_didWebUrl''];
     battery_chemistry \<leftarrow> require_str row ''batteryChemistry'' row_num;
     nominal_voltage_v \<leftarrow> require_f64 lib row ''nominalVoltageV'' row_num;
     nominal_capacity_ah \<leftarrow> require_f64 lib row ''nominalCapacityAh'' row_num;
     expected_lifetime_cycles \<leftarrow> require_u32 row ''expectedLifetimeCycles'' row_num;
     co2e_per_unit_kg \<leftarrow> optional_f64 lib row ''co2ePerUnitKg'' row_num;
     gtin \<leftarrow> parse_gtin lib gtin_raw row_num;
     recycled_cobalt \<leftarrow> optional_f64 lib row ''recycledContentCobaltPct'' row_num;
     recycled_lithium \<leftarrow> optional_f64 lib row ''recycledContentLithiumPct'' row_num;
     recycled_nickel \<leftarrow> optional_f64 lib row ''recycledContentNickelPct'' row_num;
     recycled_lead \<leftarrow> optional_f64 lib row ''recycledContentLeadPct'' row_num;
     state_of_health \<leftarrow> optional_f64 lib row ''stateOfHealthPct'' row_num;
     rated_capacity_kwh \<leftarrow> optional_f64 lib row ''ratedCapacityKwh'' row_num;
     battery_weight_kg \<leftarrow> optional_f64 lib row ''batteryWeightKg'' row_num;
     operating_temp_min_c \<leftarrow> optional_f64 lib row ''operatingTempMinC'' row_num;
     operating_temp_max_c \<leftarrow> optional_f64 lib row ''operatingTempMaxC'' row_num;
     round_trip_efficiency_pct \<leftarrow> optional_f64 lib row ''roundTripEfficiencyPct'' row_num;
     let due_diligence_url = optional_str row ''dueDiligenceUrl'';
     let carbon_footprint_class = Option.bind (optional_str row ''carbonFootprintClass'')
           (\<lambda>s. case serde_enum lib ''CarbonFootprintClass'' s of Inr c \<Rightarrow> Some c | Inl _ \<Rightarrow> None);
     battery_type \<leftarrow> require_battery_type lib row ''batteryType'' row_num;
     repairability_score \<leftarrow> optional_f64 lib row ''repairabilityScore'' row_num;
     let materials = parse_materials lib row;
     placed_on_market_date \<leftarrow> optional_date lib row ''placedOnMarketDate'' row_num;
     commodity_code \<leftarrow> optional_commodity_code lib row ''commodityCode'' row_num;
     carrier_serial \<leftarrow> optional_carrier_serial lib row ''carrierSerial'' row_num;
     manufacturing_date \<leftarrow> optional_date lib row ''manufacturingDate'' row_num;
     minimal_voltage \<leftarrow> optional_f64 lib row ''minimalVoltageV'' row_num;
     maximum_voltage \<leftarrow> optional_f64 lib row ''maximumVoltageV'' row_num;
     original_power \<leftarrow> optional_f64 lib row ''originalPowerCapabilityW'' row_num;
     power_limit_min \<leftarrow> optional_f64 lib row ''powerLimitMinW'' row_num;
     power_limit_max \<leftarrow> optional_f64 lib row ''powerLimitMaxW'' row_num;
     renewable_content \<leftarrow> optional_f64 lib row ''renewableContentPct'' row_num;
     internal_cell_resistance \<leftarrow> optional_f64 lib row ''internalCellResistanceMohm'' row_num;
     internal_pack_resistance \<leftarrow> optional_f64 lib row ''internalPackResistanceMohm'' row_num;
     initial_rte \<leftarrow> optional_f64 lib row ''initialRoundTripEfficiencyPct'' row_num;
     rte_half_life \<leftarrow> optional_f64 lib row ''roundTripEfficiencyAtHalfCycleLifePct'' row_num;
     cycle_life_c_rate \<leftarrow> optional_f64 lib row ''cycleLifeTestCRate'' row_num;
     capacity_threshold \<leftarrow> optional_f64 lib row ''capacityThresholdForExhaustionPct'' row_num;
     cathode \<leftarrow> parse_composition lib row ''cathode'' row_num;
     anode \<leftarrow> parse_composition lib row ''anode'' row_num;
     electrolyte \<leftarrow> parse_composition lib row ''electrolyte'' row_num;
     critical_raw \<leftarrow> parse_critical_raw_materials lib row row_num;
     hazardous_substances \<leftarrow> parse_hazardous_substances lib row row_num;
     not_in_use_temperature_range \<leftarrow> parse_temperature_range lib row row_num;
     dynamic_performance \<leftarrow> parse_dynamic_performance lib row row_num;
     state_of_health_block \<leftarrow> health_block lib row row_num;
     State_Monad.return (do {
       chemistry_raw \<leftarrow> battery_chemistry; gtin \<leftarrow> gtin; nominal_voltage_v \<leftarrow> nominal_voltage_v;
       nominal_capacity_ah \<leftarrow> nominal_capacity_ah; battery_type \<leftarrow> battery_type;
       product_name \<leftarrow> product_name; manufacturer_name \<leftarrow> manufacturer_name;
       address \<leftarrow> (case manufacturer_postal of Some a \<Rightarrow> Some a | None \<Rightarrow> manufacturer_country);
       let battery_data = \<lparr>ba_product_identifier = Gs1Identifier gtin,
         ba_battery_chemistry = (case serde_enum lib ''BatteryChemistry'' chemistry_raw of Inr c \<Rightarrow> c | Inl _ \<Rightarrow> ''Other''),
         ba_nominal_voltage_v = nominal_voltage_v, ba_nominal_capacity_ah = nominal_capacity_ah,
         ba_expected_lifetime_cycles = expected_lifetime_cycles, ba_co2e_per_unit_kg = co2e_per_unit_kg,
         ba_recycled_content_cobalt_pct = recycled_cobalt, ba_recycled_content_lithium_pct = recycled_lithium,
         ba_recycled_content_nickel_pct = recycled_nickel, ba_recycled_content_lead_pct = recycled_lead,
         ba_state_of_health_pct = state_of_health, ba_rated_capacity_kwh = rated_capacity_kwh,
         ba_carbon_footprint_class = carbon_footprint_class, ba_due_diligence_url = due_diligence_url,
         ba_battery_type = battery_type, ba_battery_weight_kg = battery_weight_kg,
         ba_operating_temp_min_c = operating_temp_min_c, ba_operating_temp_max_c = operating_temp_max_c,
         ba_round_trip_efficiency_pct = round_trip_efficiency_pct, ba_cathode_material = cathode, ba_anode_material = anode,
         ba_electrolyte_material = electrolyte, ba_critical_raw_materials = critical_raw,
         ba_disassembly_instructions_url = optional_str row ''disassemblyInstructionsUrl'',
         ba_state_of_health = state_of_health_block, ba_manufacturing_date = manufacturing_date,
         ba_manufacturing_place = optional_str row ''manufacturingPlace'', ba_battery_model_id = optional_str row ''batteryModelId'',
         ba_battery_passport_number = optional_str row ''batteryPassportNumber'', ba_battery_status = parse_battery_status row,
         ba_capacity_threshold_for_exhaustion_pct = capacity_threshold,
         ba_component_part_numbers = parse_component_part_numbers row, ba_cycle_life_test_c_rate = cycle_life_c_rate,
         ba_dynamic_performance = dynamic_performance,
         ba_eu_declaration_of_conformity = optional_str row ''euDeclarationOfConformity'',
         ba_expected_lifetime_reference_test = optional_str row ''expectedLifetimeReferenceTest'',
         ba_hazardous_substances = hazardous_substances, ba_initial_round_trip_efficiency_pct = initial_rte,
         ba_internal_cell_resistance_mohm = internal_cell_resistance, ba_internal_pack_resistance_mohm = internal_pack_resistance,
         ba_marking_information = optional_str row ''markingInformation'', ba_maximum_voltage_v = maximum_voltage,
         ba_minimal_voltage_v = minimal_voltage, ba_not_in_use_temperature_range = not_in_use_temperature_range,
         ba_not_in_use_temperature_reference_test = optional_str row ''notInUseTemperatureReferenceTest'',
         ba_original_power_capability_w = original_power, ba_power_limit_max_w = power_limit_max,
         ba_power_limit_min_w = power_limit_min, ba_renewable_content_pct = renewable_content,
         ba_round_trip_efficiency_at_half_cycle_life_pct = rte_half_life, ba_safety_measures = optional_str row ''safetyMeasures'',
         ba_spare_parts_contacts = optional_str row ''sparePartsContacts'',
         ba_test_report_results = optional_str row ''testReportResults'',
         ba_usable_extinguishing_agent = optional_str row ''usableExtinguishingAgent'',
         ba_waste_battery_information = optional_str row ''wasteBatteryInformation''\<rparr>;
       Some \<lparr>cp_product_name = product_name, cp_product_group = Some Battery,
         cp_manufacturer = \<lparr>mi_name = manufacturer_name, mi_address = address, mi_registered_trade_name = None,
           mi_electronic_address = None, mi_country = manufacturer_country, mi_did_web_url = did_web_url\<rparr>,
         cp_materials = nonempty materials, cp_co2e_per_unit = None, cp_repairability_score = repairability_score,
         cp_product_group_data = Some (BatteryGroup battery_data), cp_batch_id = batch_id,
         cp_placed_on_market_date = placed_on_market_date, cp_schema_version = None, cp_commodity_code = commodity_code,
         cp_supersedes_id = None, cp_derived_from = [], cp_life_status = None, cp_personal_data = [],
         cp_component_refs = [], cp_carrier_serial = carrier_serial\<rparr>})})"

subsection \<open>Dispatch\<close>

datatype BatteryCategory = Ev | Lmt | Industrial

definition category_as_str :: "BatteryCategory \<Rightarrow> string" where
  "category_as_str c = (case c of Ev \<Rightarrow> ''ev'' | Lmt \<Rightarrow> ''lmt'' | Industrial \<Rightarrow> ''industrial'')"

definition template_key :: "BatteryCategory \<Rightarrow> string" where
  "template_key c = (case c of Ev \<Rightarrow> ''battery-ev'' | Lmt \<Rightarrow> ''battery-lmt'' | Industrial \<Rightarrow> ''battery-industrial'')"

definition ALL_CATEGORIES :: "BatteryCategory list" where
  "ALL_CATEGORIES = [Ev, Lmt, Industrial]"

definition from_template_key :: "string \<Rightarrow> BatteryCategory option" where
  "from_template_key key = find (\<lambda>c. template_key c = key) ALL_CATEGORIES"

definition product_group_for_template_key :: "string \<Rightarrow> string" where
  "product_group_for_template_key key = (if from_template_key key \<noteq> None then ''battery'' else key)"

definition group_columns :: "(string \<times> Column list) list" where
  "group_columns =
     [(''battery'', battery_COLUMNS), (''textile'', textile_COLUMNS), (''steel'', steel_COLUMNS),
      (''aluminium'', aluminium_COLUMNS), (''tyre'', tyre_COLUMNS), (''mattress'', mattress_COLUMNS),
      (''furniture'', furniture_COLUMNS), (''toy'', toy_COLUMNS), (''construction'', construction_COLUMNS),
      (''electronics'', electronics_COLUMNS), (''detergent'', detergent_COLUMNS)]"

definition columns_for :: "string \<Rightarrow> Column list option" where
  "columns_for product_group = map_option (\<lambda>own. own @ ENVELOPE_COLUMNS) (map_of group_columns product_group)"

definition SUPPORTED_PRODUCT_GROUPS :: "string list" where
  "SUPPORTED_PRODUCT_GROUPS = [''battery'', ''textile'', ''steel'', ''aluminium'', ''tyre'', ''mattress'', ''furniture'', ''toy'',
     ''construction'', ''electronics'', ''detergent'']"

definition is_importable :: "string \<Rightarrow> bool" where
  "is_importable key \<longleftrightarrow> product_group_for_template_key key \<in> set SUPPORTED_PRODUCT_GROUPS"

definition importable_keys :: "string list" where
  "importable_keys = filter (\<lambda>g. g \<noteq> ''battery'') SUPPORTED_PRODUCT_GROUPS @ map template_key ALL_CATEGORIES"

datatype RowValidationError = UnsupportedProductGroup | InvalidRow "RowError list"

text \<open>The validators by product group; a verdict of \<open>None\<close> is a panic.\<close>

definition row_validator :: "string \<Rightarrow> (row_libs \<Rightarrow> csv_row \<Rightarrow> nat \<Rightarrow> row_verdict) option" where
  "row_validator product_group =
     map_of [(''battery'', validate_battery_row), (''textile'', validate_textile_row), (''steel'', validate_steel_row),
       (''aluminium'', validate_aluminium_row), (''tyre'', validate_tyre_row), (''mattress'', validate_mattress_row),
       (''furniture'', validate_furniture_row), (''toy'', validate_toy_row), (''construction'', validate_construction_row),
       (''electronics'', validate_electronics_row), (''detergent'', validate_detergent_row)] product_group"

definition validate_row :: "row_libs \<Rightarrow> string \<Rightarrow> csv_row \<Rightarrow> nat \<Rightarrow> (RowValidationError + import_row) option" where
  "validate_row lib product_group row row_num =
     (case row_validator (product_group_for_template_key product_group) of
        None \<Rightarrow> Some (Inl UnsupportedProductGroup)
      | Some validate \<Rightarrow>
          map_option (\<lambda>result. case result of Inl errs \<Rightarrow> Inl (InvalidRow errs) | Inr req \<Rightarrow> Inr req)
            (validate lib row row_num))"

subsection \<open>What the battery validator keeps\<close>

text \<open>A reader that reports about its own row only.\<close>

definition row_reader :: "nat \<Rightarrow> 'a checked \<Rightarrow> bool" where
  "row_reader n m \<longleftrightarrow> appending m \<and> only_errors n UNIV (errors_of m)"

lemma row_reader_basic:
  "row_reader n (State_Monad.return x)" "row_reader n (refuse n f msg)" "row_reader n (push_error n f msg)"
  by (simp_all add: row_reader_def run_return run_refuse run_push_error only_errors_def)

lemma row_reader_bind:
  assumes "row_reader n m" and "row_reader n (f (value_of m))"
  shows "row_reader n (State_Monad.bind m f)"
  using assms by (simp add: row_reader_def run_bind only_errors_append)

lemma row_reader_cells:
  "row_reader n (require_str row f n)" "row_reader n (require_f64 lib row f n)" "row_reader n (optional_f64 lib row f n)"
  "row_reader n (require_u32 row f n)" "row_reader n (optional_commodity_code lib row f n)"
  "row_reader n (optional_carrier_serial lib row f n)" "row_reader n (optional_date lib row f n)" "row_reader n (parse_gtin lib g n)"
  by (simp_all add: row_reader_def reader_appends reader_only_errors gtin_only)

interpretation battery_type_reader: cell_reader "require_battery_type lib" True
  unfolding require_battery_type_def [abs_def]
  by (rule required_then) (auto simp: battery_type_cell_def run_return run_refuse split: sum.splits)

lemma composition_slots_reads: "row_reader n (composition_slots lib row pfx n is)"
  by (induction "is") (auto intro!: row_reader_basic row_reader_bind row_reader_cells split: option.splits)

lemma critical_raw_slots_reads: "row_reader n (critical_raw_slots lib row n is)"
  by (induction "is") (auto intro!: row_reader_basic row_reader_bind row_reader_cells split: option.splits)

lemma hazardous_slots_reads: "row_reader n (hazardous_slots lib row n is)"
  by (induction "is") (auto intro!: row_reader_basic row_reader_bind row_reader_cells split: option.splits)

lemma row_reader_cases:
  "(\<And>x. row_reader n (g x)) \<Longrightarrow> row_reader n h \<Longrightarrow> row_reader n (case v of None \<Rightarrow> h | Some x \<Rightarrow> g x)"
  "(\<And>x. row_reader n (g x)) \<Longrightarrow> (\<And>y. row_reader n (k y)) \<Longrightarrow> row_reader n (case w of Inl y \<Rightarrow> k y | Inr x \<Rightarrow> g x)"
  by (cases v; simp) (cases w; simp)

lemma match_state_of_health_reads: "row_reader n (match_state_of_health lib row n soce capacity discharge)"
  by (cases soce; cases capacity; cases discharge;
      simp only: match_state_of_health_def simp_thms option.simps prod.case bool.case;
      intro row_reader_bind row_reader_cells row_reader_basic)

lemma parse_state_of_health_reads: "row_reader n (parse_state_of_health lib row n)"
  unfolding parse_state_of_health_def by (intro row_reader_bind row_reader_cells match_state_of_health_reads)

lemma slots_read:
  "row_reader n (parse_composition lib row pfx n)" "row_reader n (parse_critical_raw_materials lib row n)"
  "row_reader n (parse_hazardous_substances lib row n)"
  unfolding parse_composition_def parse_critical_raw_materials_def parse_hazardous_substances_def
  by (intro row_reader_bind row_reader_basic composition_slots_reads critical_raw_slots_reads hazardous_slots_reads)+

lemma blocks_read:
  "row_reader n (parse_temperature_range lib row n)" "row_reader n (parse_dynamic_performance lib row n)"
  "row_reader n (health_block lib row n)"
  unfolding parse_temperature_range_def parse_dynamic_performance_def health_block_def Let_def
  by (intro row_reader_bind row_reader_basic row_reader_cells row_reader_cases parse_state_of_health_reads)+

lemma battery_type_reads: "row_reader n (require_battery_type lib row f n)"
  by (simp add: row_reader_def battery_type_reader.reads_appending battery_type_reader.reads_only)

lemma aliased_reads: "row_reader n (require_aliased row aliases canonical n)"
  unfolding require_aliased_def by (intro row_reader_cases row_reader_basic)

lemma place_reads: "row_reader n (require_place country postal n)"
  by (simp add: require_place_def row_reader_basic)

lemmas battery_block_reads = slots_read blocks_read battery_type_reads aliased_reads place_reads

lemmas battery_reads = row_reader_cells battery_block_reads

lemma battery_read_run:
  assumes "row_reader n m"
  shows "appending m" and "only_errors n UNIV (errors_of m)"
  using assms by (simp_all add: row_reader_def)

lemma require_aliased_run:
  "value_of (require_aliased row aliases canonical n) = aliased row aliases"
  "errors_of (require_aliased row aliases canonical n) = [] \<longleftrightarrow> aliased row aliases \<noteq> None"
  by (auto simp: require_aliased_def run_return run_refuse split: option.splits)

lemma require_place_run:
  "errors_of (require_place country postal n) = [] \<longleftrightarrow> (postal \<noteq> None \<or> country \<noteq> None)"
  by (auto simp: require_place_def run_return run_push_error)

text \<open>A row is settled, under what its earlier cells gave, if no error means a value.\<close>

definition cells_settled :: "nat \<Rightarrow> bool \<Rightarrow> 'a option checked \<Rightarrow> bool" where
  "cells_settled n E m \<longleftrightarrow> row_reader n m \<and> (E \<longrightarrow> errors_of m = [] \<longrightarrow> value_of m \<noteq> None)"

lemma cells_settled_bind:
  assumes "row_reader n m" and "cells_settled n (errors_of m = [] \<and> E) (f (value_of m))"
  shows "cells_settled n E (State_Monad.bind m f)"
  using assms by (auto simp: cells_settled_def row_reader_def run_bind only_errors_append)

lemma cells_settled_return: "cells_settled n E (State_Monad.return v) \<longleftrightarrow> (E \<longrightarrow> v \<noteq> None)"
  by (simp add: cells_settled_def row_reader_basic run_return)

lemma battery_row:
  "\<exists>m. validate_battery_row lib row n = validated m \<and> cells_settled n True m"
  unfolding validate_battery_row_def Let_def
  by (intro exI conjI, rule refl, (rule cells_settled_bind, rule battery_reads)+)
    (auto simp: cells_settled_return bind_eq_None_conv reader_values battery_type_reader.reads_value(1) parse_gtin_run(3)
      require_aliased_run require_place_run reader_runs simp del: not_None_eq aliased.simps split: option.splits)

interpretation battery_rows: row_checker validate_battery_row
proof
  fix lib row n es
  obtain m where m: "validate_battery_row lib row n = validated m" "cells_settled n True m" using battery_row by blast
  from m(2) have run: "run_state m [] = (value_of m, errors_of m)" "only_errors n UNIV (errors_of m)"
    "errors_of m = [] \<longrightarrow> value_of m \<noteq> None"
    by (simp_all add: cells_settled_def row_reader_def appending_def)
  then show "validate_battery_row lib row n \<noteq> None" by (auto simp: m(1) validated_def)
  show "es \<noteq> [] \<and> (\<forall>e \<in> set es. er_row e = n)" if "validate_battery_row lib row n = Some (Inl es)"
    using run that by (auto simp: m(1) validated_def only_errors_def split: if_splits)
qed

subsection \<open>What the dispatch keeps\<close>

lemmas checkers = battery_rows.row_checker_axioms textile_rows.row_checker_axioms steel_rows.row_checker_axioms
  aluminium_rows.row_checker_axioms tyre_rows.row_checker_axioms mattress_rows.row_checker_axioms furniture_rows.row_checker_axioms
  toy_rows.row_checker_axioms construction_rows.row_checker_axioms electronics_rows.row_checker_axioms
  detergent_rows.row_checker_axioms

lemmas templated_checkers = textile_rows.templated_checker_axioms steel_rows.templated_checker_axioms
  aluminium_rows.templated_checker_axioms tyre_rows.templated_checker_axioms mattress_rows.templated_checker_axioms
  furniture_rows.templated_checker_axioms toy_rows.templated_checker_axioms construction_rows.templated_checker_axioms
  electronics_rows.templated_checker_axioms detergent_rows.templated_checker_axioms

lemma row_validator_checks: "row_validator g = Some validate \<Longrightarrow> row_checker validate"
  unfolding row_validator_def by (drule map_of_SomeD) (auto simp: checkers)

lemma row_validator_supported: "row_validator g = None \<longleftrightarrow> g \<notin> set SUPPORTED_PRODUCT_GROUPS"
  unfolding row_validator_def map_of_eq_None_iff SUPPORTED_PRODUCT_GROUPS_def by simp

lemma columns_for_own:
  assumes "columns_for g = Some columns"
  obtains own where "columns = own @ ENVELOPE_COLUMNS" and "(g, own) \<in> set group_columns"
proof -
  from assms obtain own where "map_of group_columns g = Some own" "columns = own @ ENVELOPE_COLUMNS"
    by (auto simp: columns_for_def)
  with that map_of_SomeD show thesis by metis
qed

lemma columns_for_templated:
  assumes "columns_for g = Some columns" and "g \<noteq> ''battery''"
  shows "\<exists>validate. row_validator g = Some validate \<and> templated_checker validate columns"
proof -
  from assms(1) obtain own where own: "columns = own @ ENVELOPE_COLUMNS" "(g, own) \<in> set group_columns"
    by (rule columns_for_own)
  show ?thesis
    using own(2) assms(2) unfolding group_columns_def own(1)
    by (simp, elim disjE) (simp_all add: row_validator_def templated_checkers)
qed

lemma templated_key:
  assumes "columns_for g = Some columns"
  shows "product_group_for_template_key g = g"
proof -
  have "g \<noteq> template_key c" for c
    using assms by (cases c) (simp_all add: columns_for_def group_columns_def template_key_def, auto)
  then show ?thesis by (auto simp: product_group_for_template_key_def from_template_key_def find_None_iff)
qed

lemma validate_row_judged:
  "validate_row lib g row n \<noteq> None \<and>
   (validate_row lib g row n = Some (Inl UnsupportedProductGroup) \<longleftrightarrow> \<not> is_importable g) \<and>
   (\<forall>es. validate_row lib g row n = Some (Inl (InvalidRow es)) \<longrightarrow> es \<noteq> [] \<and> (\<forall>e \<in> set es. er_row e = n))"
proof (cases "row_validator (product_group_for_template_key g)")
  case None
  then have "\<not> is_importable g" by (simp add: row_validator_supported is_importable_def)
  with None show ?thesis by (simp add: validate_row_def)
next
  case (Some validate)
  then have importable: "is_importable g"
    using row_validator_supported [of "product_group_for_template_key g"] by (simp add: is_importable_def)
  from row_validator_checks [OF Some] show ?thesis
    by (cases rule: row_checker.verdict_cases [of validate lib row n]) (simp_all add: validate_row_def Some importable)
qed

text \<open>
  A row is always judged: the validator never panics, refuses the file's product group exactly
  when it is not importable, and refuses a row with at least one error, all under its own number.
\<close>

theorem every_row_is_judged:
  "validate_row lib g row n \<noteq> None \<and>
   (validate_row lib g row n = Some (Inl UnsupportedProductGroup) \<longleftrightarrow> \<not> is_importable g) \<and>
   (\<forall>es. validate_row lib g row n = Some (Inl (InvalidRow es)) \<longrightarrow> es \<noteq> [] \<and> (\<forall>e \<in> set es. er_row e = n))"
  by (rule validate_row_judged)


text \<open>
  A battery's state of health is refused when only its optional figures are filled in, but that
  check looks the columns up by their exact names, while every other column is found whatever
  its case and separators. A file that writes such a header differently loses the figure without
  an error.
\<close>

theorem misspelt_health_column_is_dropped:
  assumes "\<forall>c \<in> set OPTIONAL_ONLY. map_of row c = None"
    and "optional_str row ''stateOfHealth_socePct'' = None" and "optional_str row ''stateOfHealth_remainingCapacityPct'' = None"
    and "optional_str row ''stateOfHealth_selfDischargeRatePctPerMonth'' = None"
    and "c \<in> set OPTIONAL_ONLY" and "optional_str row c \<noteq> None"
  shows "run_state (health_block lib row n) errors = (None, errors)"
proof -
  from assms(1) have "\<not> list_ex (\<lambda>c. case map_of row c of Some v \<Rightarrow> str_trim v \<noteq> [] | None \<Rightarrow> False) OPTIONAL_ONLY"
    by (auto simp: list_ex_iff)
  with assms(2-4) show ?thesis
    by (simp add: health_block_def parse_state_of_health_def match_state_of_health_def optional_f64_def)
qed

definition plain_libs :: row_libs where
  "plain_libs = \<lparr>parse_f64 = \<lambda>_. Number 1, gtin_parse = Inr, commodity_code_parse = \<lambda>_. None, check_gs1_serial = \<lambda>_. None,
     max_gs1_serial_chars = 20, parse_date = \<lambda>_. Some 0, serde_enum = \<lambda>_. Inr, serde_list = \<lambda>_ _. Inr [],
     domain_check = \<lambda>_ _. None, from_wire = \<lambda>_. Some, fmt_debug = \<lambda>s. s, json_of_f64 = \<lambda>_. JNull\<rparr>"

theorem every_row_is_judged_witness:
  "\<not> is_importable ''cheese'' \<and> validate_row plain_libs ''cheese'' [] 1 = Some (Inl UnsupportedProductGroup) \<and>
   is_importable ''battery-ev'' \<and> validate_row plain_libs ''battery-ev'' [] 1 \<noteq> None"
proof -
  have "\<not> is_importable ''cheese''" "is_importable ''battery-ev''"
    by (simp_all add: is_importable_def SUPPORTED_PRODUCT_GROUPS_def product_group_for_template_key_def from_template_key_def
        ALL_CATEGORIES_def template_key_def)
  then show ?thesis
    using every_row_is_judged [of plain_libs "''cheese''" "[]" 1] every_row_is_judged [of plain_libs "''battery-ev''" "[]" 1] by simp
qed


theorem misspelt_health_column_is_dropped_witness:
  "optional_str [(''state_of_health_ohmic_resistance_mohm'', ''12'')] ''stateOfHealth_ohmicResistanceMohm'' = Some ''12'' \<and>
   run_state (health_block plain_libs [(''state_of_health_ohmic_resistance_mohm'', ''12'')] 1) [] = (None, []) \<and>
   snd (run_state (health_block plain_libs [(''stateOfHealth_ohmicResistanceMohm'', ''12'')] 1) []) \<noteq> []"
proof -
  let ?row = "[(''state_of_health_ohmic_resistance_mohm'', ''12'')]" and ?exact = "[(''stateOfHealth_ohmicResistanceMohm'', ''12'')]"
  have cells: "optional_str ?row ''stateOfHealth_ohmicResistanceMohm'' = Some ''12''"
    "optional_str ?row ''stateOfHealth_socePct'' = None" "optional_str ?row ''stateOfHealth_remainingCapacityPct'' = None"
    "optional_str ?row ''stateOfHealth_selfDischargeRatePctPerMonth'' = None"
    "optional_str ?exact ''stateOfHealth_socePct'' = None" "optional_str ?exact ''stateOfHealth_remainingCapacityPct'' = None"
    "optional_str ?exact ''stateOfHealth_selfDischargeRatePctPerMonth'' = None"
    by code_simp+
  have "run_state (health_block plain_libs ?row 1) [] = (None, [])"
    by (rule misspelt_health_column_is_dropped [of _ "''stateOfHealth_ohmicResistanceMohm''"]) (simp_all add: cells OPTIONAL_ONLY_def)
  moreover have "snd (run_state (health_block plain_libs ?exact 1) []) \<noteq> []"
    by (simp add: health_block_def parse_state_of_health_def match_state_of_health_def optional_f64_def cells OPTIONAL_ONLY_def
        refuse_def push_error_def str_trim_def is_ws_def)
  ultimately show ?thesis by (simp add: cells)
qed

end
