(* ===== verification/Import_File.thy ===== *)
theory Import_File
  imports Import_Battery "HOL-Library.AList"
begin

text \<open>
  From an uploaded file to its rows: the multipart form (\<^verbatim>\<open>read_upload\<close> of
  \<^verbatim>\<open>dpp-integrator/src/handlers/import.rs\<close>), the CSV reader (\<^verbatim>\<open>domain/csv_parser.rs\<close>) and the workbook
  reader with its guards (\<^verbatim>\<open>domain/xlsx_parser.rs\<close>). Splitting CSV records, unpacking an archive,
  reading XML events and materialising a worksheet are libraries: their results are values here.
\<close>

datatype ParseError = CsvError string | EmptyFile

definition parse_error_text :: "ParseError \<Rightarrow> string" where
  "parse_error_text e = (case e of CsvError m \<Rightarrow> ''CSV error: '' @ m | EmptyFile \<Rightarrow> ''file is empty or has no header row'')"

definition MAX_ROWS :: nat where
  "MAX_ROWS = 200000"

subsection \<open>Headers\<close>

text \<open>\<^verbatim>\<open>str::replace\<close> of a pattern by nothing.\<close>

function str_remove :: "string \<Rightarrow> string \<Rightarrow> string" where
  "str_remove pat s =
     (if s = [] then []
      else if pat \<noteq> [] \<and> take (length pat) s = pat then str_remove pat (drop (length pat) s)
      else hd s # str_remove pat (tl s))"
  by pat_completeness auto
termination by (relation "measure (\<lambda>(pat, s). length s)") (auto simp: neq_Nil_conv)

declare str_remove.simps [simp del]

definition normalize_header :: "string \<Rightarrow> string" where
  "normalize_header header = str_trim (str_remove '' [OPTIONAL]'' (str_remove '' [REQUIRED]'' header))"

subsection \<open>CSV\<close>

record csv_doc =
  csv_headers :: "string + string list"
  csv_records :: "(string + string list) list"

definition detect_delimiter :: "string \<Rightarrow> char" where
  "detect_delimiter bytes =
     (let first_line = takeWhile (\<lambda>b. b \<noteq> CHR 0x0A) bytes in
      if CHR 0x09 \<in> set first_line then CHR 0x09
      else if CHR '';'' \<in> set first_line \<and> CHR '','' \<notin> set first_line then CHR '';''
      else CHR '','')"

text \<open>The cells of a record by header, as collecting into a hash map keeps them: the last one of a name.\<close>

definition record_row :: "string list \<Rightarrow> string list \<Rightarrow> csv_row" where
  "record_row headers record_cells =
     fold (\<lambda>(k, v). AList.update k (str_trim v))
       (filter (\<lambda>(k, v). k \<noteq> [] \<and> str_trim v \<noteq> []) (zip headers record_cells)) []"

definition too_many_rows :: ParseError where
  "too_many_rows = CsvError (''file contains too many rows; maximum is '' @ show_nat MAX_ROWS)"

fun csv_rows :: "string list \<Rightarrow> nat \<Rightarrow> (string + string list) list \<Rightarrow> ParseError + csv_row list" where
  "csv_rows headers taken [] = Inr []"
| "csv_rows headers taken (Inl e # rest) = Inl (CsvError e)"
| "csv_rows headers taken (Inr cells # rest) =
     (let row = record_row headers cells in
      if row = [] then csv_rows headers taken rest
      else if MAX_ROWS < taken + 1 then Inl too_many_rows
      else (case csv_rows headers (taken + 1) rest of Inl e \<Rightarrow> Inl e | Inr rows \<Rightarrow> Inr (row # rows)))"

definition parse_csv :: "(char \<Rightarrow> string \<Rightarrow> csv_doc) \<Rightarrow> string \<Rightarrow> ParseError + csv_row list" where
  "parse_csv csv_reader bytes =
     (let doc = csv_reader (detect_delimiter bytes) bytes in
      case csv_headers doc of
        Inl e \<Rightarrow> Inl (CsvError e)
      | Inr raw \<Rightarrow>
          let headers = map normalize_header raw in
          if list_all (\<lambda>h. h = []) headers then Inl EmptyFile else csv_rows headers 0 (csv_records doc))"

subsection \<open>Workbooks: the guards\<close>

definition MAX_DENSE_CELLS :: nat where
  "MAX_DENSE_CELLS = 5000000"

definition MAX_DECOMPRESSED_BYTES :: nat where
  "MAX_DECOMPRESSED_BYTES = 128 * 1024 * 1024"

definition MAX_ATTRS_PER_TAG :: nat where
  "MAX_ATTRS_PER_TAG = 64"

definition u64_max :: nat where
  "u64_max = 2 ^ 64 - 1"

definition is_ascii_digit :: "char \<Rightarrow> bool" where
  "is_ascii_digit c \<longleftrightarrow> 48 \<le> (of_char c :: nat) \<and> (of_char c :: nat) \<le> 57"

definition is_ascii_uppercase :: "char \<Rightarrow> bool" where
  "is_ascii_uppercase c \<longleftrightarrow> 65 \<le> (of_char c :: nat) \<and> (of_char c :: nat) \<le> 90"

text \<open>A number in some base with checked 64-bit arithmetic; \<open>None\<close> is the overflow.\<close>

fun checked_digits :: "nat \<Rightarrow> (char \<Rightarrow> nat) \<Rightarrow> nat \<Rightarrow> char list \<Rightarrow> nat option" where
  "checked_digits base digit acc [] = Some acc"
| "checked_digits base digit acc (b # bs) =
     (if acc * base \<le> u64_max \<and> acc * base + digit b \<le> u64_max then checked_digits base digit (acc * base + digit b) bs else None)"

text \<open>
  What follows the first digit is not checked to be digits; the byte subtraction wraps around in
  a release build.
\<close>

definition row_digit :: "char \<Rightarrow> nat" where
  "row_digit b = (of_char b + 256 - 48) mod 256"

definition column_digit :: "char \<Rightarrow> nat" where
  "column_digit b = of_char b - 65 + 1"

definition parse_cell_ref :: "string \<Rightarrow> (nat \<times> nat) option" where
  "parse_cell_ref r =
     (let letters = takeWhile (\<lambda>b. \<not> is_ascii_digit b) r; digits = dropWhile (\<lambda>b. \<not> is_ascii_digit b) r in
      if digits = [] then None
      else if letters = [] \<or> \<not> list_all is_ascii_uppercase letters then None
      else (case checked_digits 26 column_digit 0 letters of
              None \<Rightarrow> Some (u64_max, u64_max)
            | Some col \<Rightarrow>
                (case checked_digits 10 row_digit 0 digits of
                   None \<Rightarrow> Some (u64_max, u64_max)
                 | Some row \<Rightarrow> Some (col, row))))"

datatype xml_event = XmlTag string "(string + string \<times> string) list" | XmlOther

definition too_many_attributes :: ParseError where
  "too_many_attributes = CsvError (''XLSX contains a tag with too many attributes; maximum is '' @ show_nat MAX_ATTRS_PER_TAG)"

definition oversized_range :: "nat \<Rightarrow> nat \<Rightarrow> ParseError" where
  "oversized_range max_col max_row =
     CsvError (''XLSX worksheet implies an oversized dense range ('' @ show_nat max_col @ '' cols x '' @ show_nat max_row @
       '' rows); maximum is '' @ show_nat MAX_DENSE_CELLS @ '' cells'')"

fun scan_attributes :: "bool \<Rightarrow> nat \<Rightarrow> string option \<Rightarrow> (string + string \<times> string) list \<Rightarrow> ParseError + string option" where
  "scan_attributes is_cell attr_count r_value [] = Inr r_value"
| "scan_attributes is_cell attr_count r_value (attr # attrs) =
     (if MAX_ATTRS_PER_TAG < attr_count + 1 then Inl too_many_attributes
      else scan_attributes is_cell (attr_count + 1)
        (case attr of Inr (key, v) \<Rightarrow> if is_cell \<and> key = ''r'' then Some v else r_value | Inl _ \<Rightarrow> r_value) attrs)"

fun scan_xml_entry :: "bool \<Rightarrow> nat \<times> nat \<Rightarrow> (string + xml_event) list \<Rightarrow> ParseError + unit" where
  "scan_xml_entry track_dimensions dims [] = Inr ()"
| "scan_xml_entry track_dimensions dims (Inl e # rest) = Inl (CsvError (''XLSX XML scan error: '' @ e))"
| "scan_xml_entry track_dimensions dims (Inr XmlOther # rest) = scan_xml_entry track_dimensions dims rest"
| "scan_xml_entry track_dimensions (max_col, max_row) (Inr (XmlTag name attrs) # rest) =
     (case scan_attributes (track_dimensions \<and> name = ''c'') 0 None attrs of
        Inl e \<Rightarrow> Inl e
      | Inr r_value \<Rightarrow>
          (case Option.bind r_value parse_cell_ref of
             None \<Rightarrow> scan_xml_entry track_dimensions (max_col, max_row) rest
           | Some (col, row) \<Rightarrow>
               let max_col = max max_col col; max_row = max max_row row in
               if MAX_DENSE_CELLS < min (max_col * max_row) u64_max then Inl (oversized_range max_col max_row)
               else scan_xml_entry track_dimensions (max_col, max_row) rest))"

text \<open>
  An entry of the archive: its name, its size once unpacked and, for XML, the events. Reading
  the end of an entry needs a byte of budget to be left, so the sizes must stay below it.
\<close>

record zip_entry =
  ze_name :: "string + string"
  ze_size :: nat
  ze_events :: "(string + xml_event) list"

definition ends_with :: "string \<Rightarrow> string \<Rightarrow> bool" where
  "ends_with s tail \<longleftrightarrow> length tail \<le> length s \<and> drop (length s - length tail) s = tail"

definition is_worksheet_name :: "string \<Rightarrow> bool" where
  "is_worksheet_name name \<longleftrightarrow> take 14 name = ''xl/worksheets/'' \<and> ends_with name ''.xml''"

definition is_xml_name :: "string \<Rightarrow> bool" where
  "is_xml_name name \<longleftrightarrow> ends_with name ''.xml'' \<or> ends_with name ''.rels''"

definition entry_scan :: "string \<Rightarrow> zip_entry \<Rightarrow> ParseError + unit" where
  "entry_scan name entry = (if is_xml_name name then scan_xml_entry (is_worksheet_name name) (0, 0) (ze_events entry) else Inr ())"

definition over_budget :: "string \<Rightarrow> ParseError" where
  "over_budget name =
     CsvError ((if is_xml_name name then ''XLSX XML scan error: '' else ''XLSX decompression too large: '') @
       ''decompressed size limit exceeded'')"

fun precheck_entries :: "nat \<Rightarrow> (string + zip_entry) list \<Rightarrow> ParseError + unit" where
  "precheck_entries budget [] = Inr ()"
| "precheck_entries budget (Inl e # rest) = Inl (CsvError (''XLSX entry error: '' @ e))"
| "precheck_entries budget (Inr entry # rest) =
     (case ze_name entry of
        Inl e \<Rightarrow> Inl (CsvError (''XLSX entry name error: '' @ e))
      | Inr name \<Rightarrow>
          (case entry_scan name entry of
             Inl e \<Rightarrow> Inl e
           | Inr _ \<Rightarrow> if ze_size entry < budget then precheck_entries (budget - ze_size entry) rest else Inl (over_budget name)))"

definition precheck_xlsx :: "string + (string + zip_entry) list \<Rightarrow> ParseError + unit" where
  "precheck_xlsx archive =
     (case archive of
        Inl e \<Rightarrow> Inl (CsvError (''XLSX is not a valid zip: '' @ e))
      | Inr entries \<Rightarrow> precheck_entries MAX_DECOMPRESSED_BYTES entries)"

subsection \<open>Workbooks: the rows\<close>

datatype xl_cell = CellEmpty | CellError | CellBool bool | CellInt int | CellFloat rat | CellString string | CellOther string

definition cell_to_string :: "(rat \<Rightarrow> string) \<Rightarrow> xl_cell \<Rightarrow> string" where
  "cell_to_string fmt_f64 cell =
     (case cell of
        CellEmpty \<Rightarrow> []
      | CellError \<Rightarrow> []
      | CellBool b \<Rightarrow> if b then ''true'' else ''false''
      | CellInt i \<Rightarrow> show_int i
      | CellFloat f \<Rightarrow> if f = of_int \<lfloor>f\<rfloor> \<and> \<bar>f\<bar> < 10 ^ 15 then show_int \<lfloor>f\<rfloor> else fmt_f64 f
      | CellString s \<Rightarrow> str_trim s
      | CellOther s \<Rightarrow> s)"

definition cell_to_header :: "(rat \<Rightarrow> string) \<Rightarrow> xl_cell \<Rightarrow> string" where
  "cell_to_header fmt_f64 cell = normalize_header (cell_to_string fmt_f64 cell)"

definition sheet_row :: "(rat \<Rightarrow> string) \<Rightarrow> string list \<Rightarrow> xl_cell list \<Rightarrow> csv_row" where
  "sheet_row fmt_f64 headers cells =
     fold (\<lambda>(k, v). AList.update k v)
       (filter (\<lambda>(k, v). k \<noteq> [] \<and> v \<noteq> []) (zip headers (map (cell_to_string fmt_f64) cells))) []"

fun sheet_rows :: "(rat \<Rightarrow> string) \<Rightarrow> string list \<Rightarrow> nat \<Rightarrow> xl_cell list list \<Rightarrow> ParseError + csv_row list" where
  "sheet_rows fmt_f64 headers taken [] = Inr []"
| "sheet_rows fmt_f64 headers taken (cells # rest) =
     (let row = sheet_row fmt_f64 headers cells in
      if row = [] then sheet_rows fmt_f64 headers taken rest
      else if MAX_ROWS < taken + 1 then Inl too_many_rows
      else (case sheet_rows fmt_f64 headers (taken + 1) rest of Inl e \<Rightarrow> Inl e | Inr rows \<Rightarrow> Inr (row # rows)))"

record xl_libs =
  unzip :: "string \<Rightarrow> string + (string + zip_entry) list"
  open_workbook :: "string \<Rightarrow> string + string list"
  worksheet_range :: "string \<Rightarrow> string \<Rightarrow> string + xl_cell list list"
  fmt_f64 :: "rat \<Rightarrow> string"

definition parse_xlsx :: "xl_libs \<Rightarrow> string \<Rightarrow> ParseError + csv_row list" where
  "parse_xlsx lib bytes =
     (case precheck_xlsx (unzip lib bytes) of
        Inl e \<Rightarrow> Inl e
      | Inr _ \<Rightarrow>
          (case open_workbook lib bytes of
             Inl e \<Rightarrow> Inl (CsvError (''XLSX open error: '' @ e))
           | Inr [] \<Rightarrow> Inl EmptyFile
           | Inr (first_sheet # _) \<Rightarrow>
               (case worksheet_range lib bytes first_sheet of
                  Inl e \<Rightarrow> Inl (CsvError (''XLSX range error: '' @ e))
                | Inr [] \<Rightarrow> Inl EmptyFile
                | Inr (header_row # rows) \<Rightarrow>
                    let headers = map (cell_to_header (fmt_f64 lib)) header_row in
                    if list_all (\<lambda>h. h = []) headers then Inl EmptyFile else sheet_rows (fmt_f64 lib) headers 0 rows)))"

subsection \<open>The upload\<close>

record Field =
  fd_name :: "string option"
  fd_content_type :: "string option"
  fd_file_name :: "string option"
  fd_bytes :: "string + string"
  fd_text :: "string + string"

record Upload =
  up_file_bytes :: "string option"
  up_is_xlsx :: bool
  up_mode :: ImportMode

definition contains :: "string \<Rightarrow> string \<Rightarrow> bool" where
  "contains s pat \<longleftrightarrow> list_ex (\<lambda>i. take (length pat) (drop i s) = pat) [0..<length s + 1]"

definition names_workbook :: "Field \<Rightarrow> bool" where
  "names_workbook field \<longleftrightarrow>
     (case fd_content_type field of Some ct \<Rightarrow> contains ct ''spreadsheet'' \<or> contains ct ''excel'' \<or> contains ct ''xlsx'' | None \<Rightarrow> False) \<or>
     (case fd_file_name field of Some f \<Rightarrow> ends_with f ''.xlsx'' \<or> ends_with f ''.ods'' | None \<Rightarrow> False)"

definition mode_of :: "string \<Rightarrow> ImportMode" where
  "mode_of s = (if str_trim s = ''dry_run'' \<or> str_trim s = ''dryRun'' then DryRun else Apply)"

text \<open>The fields in order; an error of the form reader ends the loop. The left result is a bad request.\<close>

fun read_fields :: "Upload \<Rightarrow> (string + Field) list \<Rightarrow> string + Upload" where
  "read_fields up [] = Inr up"
| "read_fields up (Inl e # rest) = Inl (''Multipart read error: '' @ e)"
| "read_fields up (Inr field # rest) =
     (case fd_name field of
        Some name \<Rightarrow>
          if name = ''file'' then
            (case fd_bytes field of
               Inl e \<Rightarrow> Inl (''Failed to read uploaded file: '' @ e)
             | Inr b \<Rightarrow> read_fields (up\<lparr>up_is_xlsx := names_workbook field, up_file_bytes := Some b\<rparr>) rest)
          else if name = ''mode'' then
            read_fields (up\<lparr>up_mode := mode_of (case fd_text field of Inr s \<Rightarrow> s | Inl _ \<Rightarrow> [])\<rparr>) rest
          else read_fields up rest
      | None \<Rightarrow> read_fields up rest)"

definition read_upload :: "(string + Field) list \<Rightarrow> string + Upload" where
  "read_upload parts = read_fields \<lparr>up_file_bytes = None, up_is_xlsx = False, up_mode = Apply\<rparr> parts"

subsection \<open>What a template promises\<close>

lemma str_remove_absent:
  assumes "CHR '' '' \<notin> set s" and "pat \<noteq> []" and "hd pat = CHR '' ''"
  shows "str_remove pat s = s"
  using assms(1)
proof (induction s)
  case (Cons c s)
  obtain p ps where pat: "pat = p # ps" using assms(2) by (cases pat) auto
  then have "take (length pat) (c # s) \<noteq> pat" using Cons.prems assms(3) by auto
  with Cons show ?case by (subst str_remove.simps) simp
qed (subst str_remove.simps, simp)

lemma str_remove_tail:
  assumes "CHR '' '' \<notin> set s" and "pat \<noteq> []" and "hd pat = CHR '' ''"
  shows "str_remove pat (s @ pat) = s"
  using assms(1)
proof (induction s)
  case Nil
  show ?case by (subst str_remove.simps, simp add: assms(2)) (subst str_remove.simps, simp)
next
  case (Cons c s)
  obtain p ps where pat: "pat = p # ps" using assms(2) by (cases pat) auto
  then have "take (length pat) (c # s @ pat) \<noteq> pat" using Cons.prems assms(3) by auto
  with Cons show ?case by (subst str_remove.simps) simp
qed

text \<open>A plain name: some letters or digits, and so no blank.\<close>

definition plain_name :: "string \<Rightarrow> bool" where
  "plain_name name \<longleftrightarrow> name \<noteq> [] \<and> list_all (\<lambda>c. \<not> is_ws c) name"

lemma plain_name_trim: "plain_name name \<Longrightarrow> str_trim name = name \<and> CHR '' '' \<notin> set name"
proof -
  assume name: "plain_name name"
  then have "str_trim name = name" by (intro str_trim_plain) (auto simp: plain_name_def list_all_iff)
  moreover have "is_ws CHR '' ''" by (simp add: is_ws_def)
  ultimately show ?thesis using name by (auto simp: plain_name_def list_all_iff)
qed

lemma str_remove_other:
  assumes "CHR '' '' \<notin> set s" and "pat \<noteq> []" and "hd pat = CHR '' ''" and "other \<noteq> []" and "hd other = CHR '' ''"
    and "CHR '' '' \<notin> set (tl other)" and "take (length pat) other \<noteq> pat"
  shows "str_remove pat (s @ other) = s @ other"
  using assms(1)
proof (induction s)
  case Nil
  obtain p ps where other: "other = p # ps" using assms(4) by (cases other) auto
  with assms(6) str_remove_absent [of ps pat] assms(2,3) have "str_remove pat ps = ps" by simp
  with assms(7) other show ?case by (subst str_remove.simps) simp
next
  case (Cons c s)
  obtain p ps where pat: "pat = p # ps" using assms(2) by (cases pat) auto
  then have "take (length pat) (c # s @ other) \<noteq> pat" using Cons.prems assms(3) by auto
  with Cons show ?case by (subst str_remove.simps) simp
qed

lemma normalize_header_cell:
  assumes "plain_name (col_name c)"
  shows "normalize_header (header_cell c) = col_name c"
proof -
  note name = plain_name_trim [OF assms]
  show ?thesis
  proof (cases "col_required c")
    case True
    then have "header_cell c = col_name c @ '' [REQUIRED]''" by (simp add: header_cell_def)
    with name str_remove_tail [of "col_name c" "'' [REQUIRED]''"] show ?thesis
      by (simp add: normalize_header_def str_remove_absent)
  next
    case False
    then have "header_cell c = col_name c @ '' [OPTIONAL]''" by (simp add: header_cell_def)
    moreover have "str_remove '' [REQUIRED]'' (col_name c @ '' [OPTIONAL]'') = col_name c @ '' [OPTIONAL]''"
      by (rule str_remove_other) (use name in simp_all)
    ultimately show ?thesis
      using name str_remove_tail [of "col_name c" "'' [OPTIONAL]''"] by (simp add: normalize_header_def)
  qed
qed

lemma plain_name_simps:
  "plain_name [c] \<longleftrightarrow> \<not> is_ws c" "plain_name (c # d # s) \<longleftrightarrow> \<not> is_ws c \<and> plain_name (d # s)"
  by (simp_all add: plain_name_def)

lemma letter_not_ws: "48 \<le> (of_char c :: nat) \<Longrightarrow> (of_char c :: nat) \<le> 122 \<Longrightarrow> \<not> is_ws c"
  by (simp add: is_ws_def)

definition plain_columns :: "Column list \<Rightarrow> bool" where
  "plain_columns columns \<longleftrightarrow> list_all (\<lambda>c. plain_name (col_name c)) columns"

lemma plain_columns_simps:
  "plain_columns []" "plain_columns (required_column name # cs) \<longleftrightarrow> plain_name name \<and> plain_columns cs"
  "plain_columns (optional_column name # cs) \<longleftrightarrow> plain_name name \<and> plain_columns cs"
  "plain_columns (cs @ ds) \<longleftrightarrow> plain_columns cs \<and> plain_columns ds"
  by (simp_all add: plain_columns_def required_column_def optional_column_def)

lemma group_columns_plain:
  "plain_columns battery_COLUMNS"
  "plain_columns textile_COLUMNS"
  "plain_columns steel_COLUMNS"
  "plain_columns aluminium_COLUMNS"
  "plain_columns tyre_COLUMNS"
  "plain_columns mattress_COLUMNS"
  "plain_columns furniture_COLUMNS"
  "plain_columns toy_COLUMNS"
  "plain_columns construction_COLUMNS"
  "plain_columns electronics_COLUMNS"
  "plain_columns detergent_COLUMNS"
  "plain_columns ENVELOPE_COLUMNS"
  unfolding battery_COLUMNS_def textile_COLUMNS_def steel_COLUMNS_def aluminium_COLUMNS_def tyre_COLUMNS_def mattress_COLUMNS_def furniture_COLUMNS_def toy_COLUMNS_def construction_COLUMNS_def electronics_COLUMNS_def detergent_COLUMNS_def ENVELOPE_COLUMNS_def
  by (simp_all add: plain_columns_simps plain_name_simps letter_not_ws)

lemma columns_plain:
  assumes "columns_for g = Some columns"
  shows "plain_columns columns"
proof -
  obtain own where own: "columns = own @ ENVELOPE_COLUMNS" "(g, own) \<in> set group_columns"
    using assms by (auto simp: columns_for_def dest: map_of_SomeD)
  then show ?thesis unfolding group_columns_def
    by (simp add: plain_columns_simps, elim disjE) (simp_all add: group_columns_plain)
qed


subsection \<open>What a parser returns\<close>

text \<open>A row without blank names or cells and with one cell per name.\<close>

definition clean_row :: "csv_row \<Rightarrow> bool" where
  "clean_row row \<longleftrightarrow> row \<noteq> [] \<and> distinct (map fst row) \<and> list_all (\<lambda>(k, v). k \<noteq> [] \<and> v \<noteq> []) row"

lemma set_alist_update: "set (AList.update k v al) \<subseteq> insert (k, v) (set al)"
  by (induction al) auto

lemma fold_update_clean:
  assumes "list_all (\<lambda>(k, v). k \<noteq> [] \<and> f v \<noteq> []) cells" and "distinct (map fst acc)" and "list_all (\<lambda>(k, v). k \<noteq> [] \<and> v \<noteq> []) acc"
  shows "distinct (map fst (fold (\<lambda>(k, v). AList.update k (f v)) cells acc)) \<and>
    list_all (\<lambda>(k, v). k \<noteq> [] \<and> v \<noteq> []) (fold (\<lambda>(k, v). AList.update k (f v)) cells acc)"
  using assms
proof (induction cells arbitrary: acc)
  case (Cons cell cells)
  obtain k v where cell: "cell = (k, v)" by fastforce
  have "distinct (map fst (AList.update k (f v) acc))" using Cons.prems(2) by (rule distinct_update)
  moreover have "list_all (\<lambda>(k, v). k \<noteq> [] \<and> v \<noteq> []) (AList.update k (f v) acc)"
    using Cons.prems set_alist_update [of k "f v" acc] by (fastforce simp: cell list_all_iff)
  ultimately show ?case using Cons by (simp add: cell)
qed simp

lemma list_all_filter: "list_all P (filter P xs)"
  by (simp add: list_all_iff)

lemma filtered_update_clean:
  "distinct (map fst (fold (\<lambda>(k, v). AList.update k (f v)) (filter (\<lambda>(k, v). k \<noteq> [] \<and> f v \<noteq> []) cells) [])) \<and>
    list_all (\<lambda>(k, v). k \<noteq> [] \<and> v \<noteq> []) (fold (\<lambda>(k, v). AList.update k (f v)) (filter (\<lambda>(k, v). k \<noteq> [] \<and> f v \<noteq> []) cells) [])"
  by (rule fold_update_clean) (simp_all only: list_all_filter list.map distinct.simps list.pred_inject)

lemma record_row_clean: "record_row headers cells \<noteq> [] \<Longrightarrow> clean_row (record_row headers cells)"
  unfolding clean_row_def record_row_def by (intro conjI filtered_update_clean [THEN conjunct1] filtered_update_clean [THEN conjunct2])

lemma sheet_row_clean: "sheet_row fmt headers cells \<noteq> [] \<Longrightarrow> clean_row (sheet_row fmt headers cells)"
  unfolding clean_row_def sheet_row_def
  by (intro conjI filtered_update_clean [where f = "\<lambda>v. v", THEN conjunct1] filtered_update_clean [where f = "\<lambda>v. v", THEN conjunct2])

lemma csv_rows_clean:
  "csv_rows headers taken records = Inr rows \<Longrightarrow> taken \<le> MAX_ROWS \<Longrightarrow> taken + length rows \<le> MAX_ROWS \<and> list_all clean_row rows"
proof (induction headers taken records arbitrary: rows rule: csv_rows.induct)
  case (3 headers taken cells rest)
  show ?case
  proof (cases "record_row headers cells = []")
    case True
    with 3 show ?thesis by simp
  next
    case False
    with 3(3) obtain rows' where "csv_rows headers (taken + 1) rest = Inr rows'" "rows = record_row headers cells # rows'" "taken + 1 \<le> MAX_ROWS"
      by (auto simp: Let_def split: if_splits sum.splits)
    with 3(2) [OF refl False] False show ?thesis by (simp add: record_row_clean)
  qed
qed simp_all

lemma sheet_rows_clean:
  "sheet_rows fmt headers taken cells = Inr rows \<Longrightarrow> taken \<le> MAX_ROWS \<Longrightarrow> taken + length rows \<le> MAX_ROWS \<and> list_all clean_row rows"
proof (induction fmt headers taken cells arbitrary: rows rule: sheet_rows.induct)
  case (2 fmt headers taken cells rest)
  show ?case
  proof (cases "sheet_row fmt headers cells = []")
    case True
    with 2 show ?thesis by simp
  next
    case False
    with 2(3) obtain rows' where "sheet_rows fmt headers (taken + 1) rest = Inr rows'" "rows = sheet_row fmt headers cells # rows'" "taken + 1 \<le> MAX_ROWS"
      by (auto simp: Let_def split: if_splits sum.splits)
    with 2(2) [OF refl False] False show ?thesis by (simp add: sheet_row_clean)
  qed
qed simp_all

text \<open>
  Whatever the file, what the parsers hand on is at most 200000 rows, each with at least one cell,
  one cell per column name and neither blank names nor empty cells.
\<close>

theorem parsed_rows_are_clean:
  assumes "parse_csv csv_reader bytes = Inr rows \<or> parse_xlsx lib bytes = Inr rows"
  shows "length rows \<le> 200000 \<and> list_all clean_row rows"
proof -
  have "\<exists>headers records. csv_rows headers 0 records = Inr rows" if "parse_csv csv_reader bytes = Inr rows"
    using that by (auto simp: parse_csv_def Let_def split: sum.splits if_splits)
  moreover have "\<exists>headers cells. sheet_rows (fmt_f64 lib) headers 0 cells = Inr rows" if "parse_xlsx lib bytes = Inr rows"
    using that by (auto simp: parse_xlsx_def Let_def split: sum.splits if_splits list.splits)
  ultimately show ?thesis
    using assms csv_rows_clean [of _ 0] sheet_rows_clean [of _ _ 0] unfolding MAX_ROWS_def by fastforce
qed

subsection \<open>What the guards keep out\<close>

text \<open>The reference a cell tag carries, and where the cells of a worksheet lie.\<close>

fun last_reference :: "(string + string \<times> string) list \<Rightarrow> string option" where
  "last_reference [] = None"
| "last_reference (attr # attrs) =
     (case last_reference attrs of
        Some r \<Rightarrow> Some r
      | None \<Rightarrow> (case attr of Inr (key, v) \<Rightarrow> if key = ''r'' then Some v else None | Inl _ \<Rightarrow> None))"

fun cell_position :: "string + xml_event \<Rightarrow> (nat \<times> nat) option" where
  "cell_position (Inr (XmlTag name attrs)) = (if name = ''c'' then Option.bind (last_reference attrs) parse_cell_ref else None)"
| "cell_position _ = None"

lemma scan_attributes_result:
  "scan_attributes is_cell n r attrs = Inr r' \<Longrightarrow> n \<le> MAX_ATTRS_PER_TAG \<Longrightarrow>
     n + length attrs \<le> MAX_ATTRS_PER_TAG \<and> (is_cell \<longrightarrow> r' = (case last_reference attrs of Some v \<Rightarrow> Some v | None \<Rightarrow> r))"
  by (induction is_cell n r attrs rule: scan_attributes.induct) (auto split: if_splits sum.splits option.splits prod.splits)

fun tag_attributes :: "string + xml_event \<Rightarrow> nat" where
  "tag_attributes (Inr (XmlTag name attrs)) = length attrs"
| "tag_attributes _ = 0"

lemma scan_xml_entry_attributes:
  "scan_xml_entry track dims events = Inr () \<Longrightarrow> \<forall>ev \<in> set events. tag_attributes ev \<le> MAX_ATTRS_PER_TAG"
  by (induction track dims events rule: scan_xml_entry.induct)
    (auto simp: Let_def dest: scan_attributes_result split: sum.splits option.splits if_splits)

lemma scan_xml_entry_dims:
  assumes "scan_xml_entry True (C, R) events = Inr ()" and "C * R \<le> MAX_DENSE_CELLS"
  shows "\<exists>C' R'. C \<le> C' \<and> R \<le> R' \<and> C' * R' \<le> MAX_DENSE_CELLS \<and>
    (\<forall>ev \<in> set events. \<forall>c r. cell_position ev = Some (c, r) \<longrightarrow> c \<le> C' \<and> r \<le> R')"
  using assms
proof (induction events arbitrary: C R)
  case (Cons ev rest)
  consider (other) "ev = Inr XmlOther" | (tag) name attrs where "ev = Inr (XmlTag name attrs)"
    using Cons.prems(1) by (cases ev; cases "projr ev") auto
  then show ?case
  proof cases
    case other
    with Cons show ?thesis by simp
  next
    case tag
    with Cons.prems(1) obtain r_value where scan: "scan_attributes (name = ''c'') 0 None attrs = Inr r_value"
      by (auto split: sum.splits)
    have r_value: "name = ''c'' \<longrightarrow> r_value = last_reference attrs"
      using scan_attributes_result [OF scan] by (auto split: option.splits)
    show ?thesis
    proof (cases "Option.bind r_value parse_cell_ref")
      case None
      with Cons.prems tag scan have "scan_xml_entry True (C, R) rest = Inr ()" by simp
      moreover have "cell_position ev = None" using None r_value tag by auto
      ultimately show ?thesis using Cons.IH [of C R] Cons.prems(2) by simp
    next
      case (Some cr)
      obtain c r where cr: "cr = (c, r)" by fastforce
      have small: "max C c * max R r \<le> MAX_DENSE_CELLS" and rest: "scan_xml_entry True (max C c, max R r) rest = Inr ()"
        using Cons.prems(1) tag scan Some cr by (auto simp: Let_def u64_max_def MAX_DENSE_CELLS_def min_def split: if_splits)
      from Cons.IH [OF rest small] obtain C' R' where bound: "C \<le> C'" "c \<le> C'" "R \<le> R'" "r \<le> R'" "C' * R' \<le> MAX_DENSE_CELLS"
        "\<forall>ev \<in> set rest. \<forall>c r. cell_position ev = Some (c, r) \<longrightarrow> c \<le> C' \<and> r \<le> R'" by auto
      have "cell_position ev = Some (x, y) \<Longrightarrow> x = c \<and> y = r" for x y
        using tag r_value Some cr by (auto split: if_splits)
      with bound show ?thesis by (intro exI [of _ C'] exI [of _ R']) auto
    qed
  qed
qed auto

lemma precheck_entries_bound:
  assumes "precheck_entries budget entries = Inr ()" and "0 < budget"
  shows "\<exists>files. entries = map Inr files \<and> sum_list (map ze_size files) < budget \<and>
    (\<forall>f \<in> set files. \<exists>name. ze_name f = Inr name \<and> entry_scan name f = Inr ())"
  using assms
proof (induction budget entries rule: precheck_entries.induct)
  case (3 budget entry rest)
  then obtain name where name: "ze_name entry = Inr name" "entry_scan name entry = Inr ()" "ze_size entry < budget"
    "precheck_entries (budget - ze_size entry) rest = Inr ()"
    by (auto split: sum.splits if_splits)
  with 3 obtain files where "rest = map Inr files" "sum_list (map ze_size files) < budget - ze_size entry"
    "\<forall>f \<in> set files. \<exists>name. ze_name f = Inr name \<and> entry_scan name f = Inr ()" by auto
  with name show ?case by (intro exI [of _ "entry # files"]) auto
qed auto


subsection \<open>Witnesses\<close>



definition sample_csv :: "char \<Rightarrow> string \<Rightarrow> csv_doc" where
  "sample_csv delimiter bytes = \<lparr>csv_headers = Inr [''gtin''], csv_records = [Inr [''0950''], Inr ['' '']]\<rparr>"

definition sample_xl :: xl_libs where
  "sample_xl = \<lparr>unzip = \<lambda>_. Inr [], open_workbook = \<lambda>_. Inr [], worksheet_range = \<lambda>_ _. Inr [], fmt_f64 = \<lambda>_. []\<rparr>"

theorem parsed_rows_are_clean_witness:
  "\<exists>rows. parse_csv sample_csv ''gtin'' = Inr rows \<and> length rows = 1 \<and> list_all clean_row rows"
proof -
  have "normalize_header ''gtin'' = ''gtin''"
    by (simp add: normalize_header_def str_remove_absent str_trim_plain is_ws_def)
  then have "parse_csv sample_csv ''gtin'' = Inr [[(''gtin'', ''0950'')]]"
    by (simp add: parse_csv_def sample_csv_def record_row_def MAX_ROWS_def Let_def str_trim_def is_ws_def)
  with parsed_rows_are_clean [of sample_csv "''gtin''" "[[(''gtin'', ''0950'')]]" sample_xl] show ?thesis by simp
qed

definition sample_sheet :: zip_entry where
  "sample_sheet = \<lparr>ze_name = Inr ''xl/worksheets/sheet1.xml'', ze_size = 100, ze_events = [Inr (XmlTag ''c'' [Inr (''r'', ''B3'')])]\<rparr>"


end
