(* ===== verification/Import_Batch.thy ===== *)
theory Import_Batch
  imports Import_Battery "HOL-Library.Sublist" "HOL-Library.Multiset"
begin

text \<open>
  What an import does with its accepted rows: the matcher
  (\<^verbatim>\<open>dpp-integrator/src/domain/matcher.rs\<close>), the vault client (\<^verbatim>\<open>infra/vault_client.rs\<close>) and the batch
  runner (\<^verbatim>\<open>domain/batch_runner.rs\<close>). The vault is another service: its answers are a parameter,
  one per row and attempt, which covers every interleaving of the concurrent requests. A run also
  yields the requests it sends and the pauses it makes, row by row. What the domain crate says of
  a row's data is in \<open>match_libs\<close>.
\<close>

subsection \<open>The vault client\<close>

datatype vault_answer = NoAnswer string | Answered nat "string + json"

datatype VaultClientError = VcNetwork string | VcParse string | VcValidation string | VcConflict string string
  | VcUnauthorised | VcRateLimit | VcServerError nat | VcUnexpected nat

definition vault_error_text :: "VaultClientError \<Rightarrow> string" where
  "vault_error_text e =
     (case e of
        VcNetwork m \<Rightarrow> ''network error: '' @ m
      | VcParse m \<Rightarrow> ''response parse error: '' @ m
      | VcValidation m \<Rightarrow> ''vault validation error: '' @ m
      | VcConflict field message \<Rightarrow> ''vault conflict on '' @ field @ '': '' @ message
      | VcUnauthorised \<Rightarrow> ''vault returned 401/403 -- check auth token''
      | VcRateLimit \<Rightarrow> ''vault rate limit (429) -- all retries exhausted''
      | VcServerError c \<Rightarrow> ''vault server error: HTTP '' @ show_nat c
      | VcUnexpected c \<Rightarrow> ''unexpected vault response: HTTP '' @ show_nat c)"

text \<open>\<^verbatim>\<open>Value::get\<close> by name and by index, and \<^verbatim>\<open>Value::as_str\<close>.\<close>

fun json_get :: "string \<Rightarrow> json \<Rightarrow> json option" where
  "json_get k (JObj members) = map_of members k"
| "json_get k _ = None"

fun json_index :: "nat \<Rightarrow> json \<Rightarrow> json option" where
  "json_index i (JArr xs) = (if i < length xs then Some (xs ! i) else None)"
| "json_index i _ = None"

fun json_str :: "json \<Rightarrow> string option" where
  "json_str (JStr s) = Some s"
| "json_str _ = None"

definition is_success :: "nat \<Rightarrow> bool" where
  "is_success s \<longleftrightarrow> 200 \<le> s \<and> s < 300"

definition is_5xx :: "nat \<Rightarrow> bool" where
  "is_5xx s \<longleftrightarrow> 500 \<le> s \<and> s < 600"

definition body_or :: "json \<Rightarrow> string + json \<Rightarrow> json" where
  "body_or fallback body = (case body of Inr b \<Rightarrow> b | Inl _ \<Rightarrow> fallback)"

definition validation_message :: "json \<Rightarrow> string" where
  "validation_message body =
     (case Option.bind (case json_get ''detail'' body of Some d \<Rightarrow> Some d | None \<Rightarrow> json_get ''title'' body) json_str of
        Some m \<Rightarrow> m
      | None \<Rightarrow> ''validation failed'')"

definition conflict_of :: "json \<Rightarrow> VaultClientError" where
  "conflict_of body =
     (let first_error = Option.bind (json_get ''errors'' body) (json_index 0);
          named = map_option (dropWhile (\<lambda>c. c = CHR ''/'')) (Option.bind (Option.bind first_error (json_get ''field'')) json_str);
          said = (case Option.bind first_error (json_get ''message'') of Some m \<Rightarrow> Some m | None \<Rightarrow> json_get ''detail'' body)
      in VcConflict (case named of Some f \<Rightarrow> if f = [] then ''request'' else f | None \<Rightarrow> ''request'')
           (case Option.bind said json_str of Some m \<Rightarrow> m | None \<Rightarrow> ''conflicts with an existing passport''))"

definition parsed_body :: "string + json \<Rightarrow> VaultClientError + json" where
  "parsed_body body = (case body of Inr b \<Rightarrow> Inr b | Inl e \<Rightarrow> Inl (VcParse e))"

definition failed_detail :: json where
  "failed_detail = JObj [(''detail'', JStr ''validation failed'')]"

definition create_passport :: "vault_answer \<Rightarrow> VaultClientError + json" where
  "create_passport answer =
     (case answer of
        NoAnswer e \<Rightarrow> Inl (VcNetwork e)
      | Answered s body \<Rightarrow>
          if is_success s then parsed_body body
          else if s = 401 then Inl VcUnauthorised
          else if s = 403 then Inl VcUnauthorised
          else if s = 422 then Inl (VcValidation (validation_message (body_or failed_detail body)))
          else if s = 409 then Inl (conflict_of (body_or JNull body))
          else if s = 429 then Inl VcRateLimit
          else if is_5xx s then Inl (VcServerError s)
          else Inl (VcUnexpected s))"

definition update_passport :: "vault_answer \<Rightarrow> VaultClientError + json" where
  "update_passport answer =
     (case answer of
        NoAnswer e \<Rightarrow> Inl (VcNetwork e)
      | Answered s body \<Rightarrow>
          if is_success s then parsed_body body
          else if s = 401 then Inl VcUnauthorised
          else if s = 403 then Inl VcUnauthorised
          else if s = 422 then Inl (VcValidation (validation_message (body_or failed_detail body)))
          else if s = 429 then Inl VcRateLimit
          else if is_5xx s then Inl (VcServerError s)
          else Inl (VcUnexpected s))"

definition find_by_identity :: "vault_answer \<Rightarrow> VaultClientError + json option" where
  "find_by_identity answer =
     (case answer of
        NoAnswer e \<Rightarrow> Inl (VcNetwork e)
      | Answered s body \<Rightarrow>
          if is_success s then (case parsed_body body of Inr b \<Rightarrow> Inr (Some b) | Inl e \<Rightarrow> Inl e)
          else if s = 404 then Inr None
          else if s = 401 \<or> s = 403 then Inl VcUnauthorised
          else if is_5xx s then Inl (VcServerError s)
          else Inl (VcUnexpected s))"

subsection \<open>The matcher\<close>

record match_libs =
  group_of_data :: "ProductGroupData \<Rightarrow> ProductGroup"
  identifier_of :: "ProductGroupData \<Rightarrow> string option"
  request_json :: "import_row \<Rightarrow> json"
  sha256_hex :: "json \<Rightarrow> string"
  parse_uuid_text :: "string \<Rightarrow> uuid option"
  default_carrier_serial :: "uuid \<Rightarrow> string"

record ProductIdentity =
  id_product_group :: ProductGroup
  id_identifier :: string
  id_batch_id :: "string option"
  id_serial_number :: "string option"

definition COMPARABLE_FIELDS :: "string list" where
  "COMPARABLE_FIELDS = [''productName'', ''productGroup'', ''manufacturer'', ''materials'', ''productGroupData'', ''batchId'']"

definition comparable_fingerprint :: "match_libs \<Rightarrow> json \<Rightarrow> string" where
  "comparable_fingerprint lib v =
     sha256_hex lib (JObj (List.map_filter (\<lambda>field. map_option (Pair field) (json_get field v)) COMPARABLE_FIELDS))"

definition identity_from_request :: "match_libs \<Rightarrow> import_row \<Rightarrow> ProductIdentity option" where
  "identity_from_request lib req = do {
     product_group \<leftarrow> (case cp_product_group req of Some g \<Rightarrow> Some g | None \<Rightarrow> map_option (group_of_data lib) (cp_product_group_data req));
     data \<leftarrow> cp_product_group_data req;
     identifier \<leftarrow> identifier_of lib data;
     Some \<lparr>id_product_group = product_group, id_identifier = identifier, id_batch_id = cp_batch_id req, id_serial_number = None\<rparr> }"

definition printed_carrier_serial :: "match_libs \<Rightarrow> json \<Rightarrow> string option" where
  "printed_carrier_serial lib existing =
     (case Option.bind (json_get ''carrierSerial'' existing) json_str of
        Some attributed \<Rightarrow> Some attributed
      | None \<Rightarrow> map_option (default_carrier_serial lib)
          (Option.bind (Option.bind (json_get ''id'' existing) json_str) (parse_uuid_text lib)))"

definition states_another_carrier_serial :: "match_libs \<Rightarrow> import_row \<Rightarrow> json \<Rightarrow> bool" where
  "states_another_carrier_serial lib req existing =
     (case cp_carrier_serial req of None \<Rightarrow> False | Some stated \<Rightarrow> printed_carrier_serial lib existing \<noteq> Some stated)"

definition unmatched :: Classification where
  "unmatched = \<lparr>cl_action = ActCreate, cl_existing_id = None\<rparr>"

definition same_content :: "match_libs \<Rightarrow> import_row \<Rightarrow> json \<Rightarrow> bool" where
  "same_content lib req existing \<longleftrightarrow>
     comparable_fingerprint lib (request_json lib req) = comparable_fingerprint lib existing \<and>
     \<not> states_another_carrier_serial lib req existing"

definition classify_row :: "match_libs \<Rightarrow> vault_answer \<Rightarrow> import_row \<Rightarrow> VaultClientError + Classification" where
  "classify_row lib answer req =
     (case identity_from_request lib req of
        None \<Rightarrow> Inr unmatched
      | Some identity \<Rightarrow>
          (case find_by_identity answer of
             Inl e \<Rightarrow> Inl e
           | Inr None \<Rightarrow> Inr unmatched
           | Inr (Some existing) \<Rightarrow>
               let existing_id = Option.bind (json_get ''id'' existing) json_str in
               Inr (if same_content lib req existing then \<lparr>cl_action = ActUnchanged, cl_existing_id = existing_id\<rparr>
                 else if Option.bind (json_get ''status'' existing) json_str = Some ''active''
                 then \<lparr>cl_action = ActConflictPublished, cl_existing_id = existing_id\<rparr>
                 else \<lparr>cl_action = ActUpdateDraft, cl_existing_id = existing_id\<rparr>)))"

definition serial_key :: "match_libs \<Rightarrow> import_row \<Rightarrow> (string \<times> string) option" where
  "serial_key lib req = do {
     serial \<leftarrow> cp_carrier_serial req;
     data \<leftarrow> cp_product_group_data req;
     identifier \<leftarrow> identifier_of lib data;
     Some (identifier, serial) }"

definition repeated_serial :: "nat \<Rightarrow> string \<Rightarrow> nat \<Rightarrow> RowError" where
  "repeated_serial row_num serial first_row =
     \<lparr>er_row = row_num, er_field = ''carrierSerial'',
      er_message = ''carrier serial '' @ [CHR 0x27] @ serial @ [CHR 0x27] @ '' is already stated by row '' @ show_nat first_row @
        '' under the same product identifier; a label that names two passports resolves to neither''\<rparr>"

fun refuse_loop :: "match_libs \<Rightarrow> ((string \<times> string) \<rightharpoonup> nat) \<Rightarrow> (nat \<times> import_row) list \<Rightarrow> (nat \<times> import_row) list \<times> RowError list" where
  "refuse_loop lib first_stated [] = ([], [])"
| "refuse_loop lib first_stated ((row_num, req) # rows) =
     (case serial_key lib req of
        None \<Rightarrow> (case refuse_loop lib first_stated rows of (kept, refused) \<Rightarrow> ((row_num, req) # kept, refused))
      | Some key \<Rightarrow>
          (case first_stated key of
             Some first_row \<Rightarrow>
               (case refuse_loop lib first_stated rows of
                  (kept, refused) \<Rightarrow> (kept, repeated_serial row_num (snd key) first_row # refused))
           | None \<Rightarrow>
               (case refuse_loop lib (first_stated(key \<mapsto> row_num)) rows of
                  (kept, refused) \<Rightarrow> ((row_num, req) # kept, refused))))"

definition refuse_repeated_carrier_serials ::
    "match_libs \<Rightarrow> (nat \<times> import_row) list \<Rightarrow> (nat \<times> import_row) list \<times> RowError list" where
  "refuse_repeated_carrier_serials lib rows = refuse_loop lib Map.empty rows"

definition classify_batch :: "match_libs \<Rightarrow> (nat \<Rightarrow> vault_answer) \<Rightarrow> (nat \<times> import_row) list \<Rightarrow> nat \<rightharpoonup> Classification" where
  "classify_batch lib lookup_answer rows =
     map_of (map (\<lambda>(row_num, req). (row_num, case classify_row lib (lookup_answer row_num) req of Inr c \<Rightarrow> c | Inl _ \<Rightarrow> unmatched)) rows)"

subsection \<open>The batch runner\<close>

text \<open>What a row makes the client do: a request, or a pause of some milliseconds.\<close>

datatype vault_step = Post import_row | Put string import_row | Pause nat

definition MAX_RETRIES :: nat where
  "MAX_RETRIES = 3"

definition BASE_DELAY_MS :: nat where
  "BASE_DELAY_MS = 100"

fun retry_loop :: "vault_step \<Rightarrow> (nat \<Rightarrow> VaultClientError + json) \<Rightarrow> nat list \<Rightarrow> (VaultClientError + json) \<times> vault_step list" where
  "retry_loop call reply [] = (Inl VcRateLimit, [])"
| "retry_loop call reply (attempt # attempts) =
     (case reply attempt of
        Inr resp \<Rightarrow> (Inr resp, [call])
      | Inl e \<Rightarrow>
          if e = VcRateLimit \<and> attempt < MAX_RETRIES - 1
          then (case retry_loop call reply attempts of
                  (res, steps) \<Rightarrow> (res, call # Pause (BASE_DELAY_MS * 2 ^ attempt) # steps))
          else (Inl e, [call]))"

definition retry_create :: "(nat \<Rightarrow> vault_answer) \<Rightarrow> import_row \<Rightarrow> (VaultClientError + json) \<times> vault_step list" where
  "retry_create answer req = retry_loop (Post req) (\<lambda>attempt. create_passport (answer attempt)) [0..<MAX_RETRIES]"

definition retry_update :: "(nat \<Rightarrow> vault_answer) \<Rightarrow> string \<Rightarrow> import_row \<Rightarrow> (VaultClientError + json) \<times> vault_step list" where
  "retry_update answer ident req = retry_loop (Put ident req) (\<lambda>attempt. update_passport (answer attempt)) [0..<MAX_RETRIES]"

datatype RowOutcome = RowCreated string | RowUpdated string

definition created_outcome :: "VaultClientError + json \<Rightarrow> VaultClientError + RowOutcome" where
  "created_outcome res =
     (case res of
        Inl e \<Rightarrow> Inl e
      | Inr body \<Rightarrow>
          (case Option.bind (json_get ''id'' body) json_str of
             Some ident \<Rightarrow> if ident \<noteq> [] then Inr (RowCreated ident)
               else Inl (VcParse ''vault returned success without a passport id'')
           | None \<Rightarrow> Inl (VcParse ''vault returned success without a passport id'')))"

text \<open>A row of the batch; an update without the matched identifier panics.\<close>

definition run_row :: "(nat \<Rightarrow> vault_answer) \<Rightarrow> import_row \<Rightarrow> Classification \<Rightarrow> ((VaultClientError + RowOutcome) \<times> vault_step list) option" where
  "run_row answer req c =
     (if cl_action c = ActUpdateDraft
      then (case cl_existing_id c of
              None \<Rightarrow> None
            | Some ident \<Rightarrow>
                (case retry_update answer ident req of
                   (Inl e, steps) \<Rightarrow> Some (Inl e, steps)
                 | (Inr _, steps) \<Rightarrow> Some (Inr (RowUpdated ident), steps)))
      else (case retry_create answer req of (res, steps) \<Rightarrow> Some (created_outcome res, steps)))"

definition classification_at :: "(nat \<rightharpoonup> Classification) \<Rightarrow> nat \<Rightarrow> Classification" where
  "classification_at classifications row_num = (case classifications row_num of Some c \<Rightarrow> c | None \<Rightarrow> unmatched)"

definition row_is_run :: "(nat \<rightharpoonup> Classification) \<Rightarrow> nat \<times> import_row \<Rightarrow> bool" where
  "row_is_run classifications row \<longleftrightarrow>
     cl_action (classification_at classifications (fst row)) \<notin> {ActUnchanged, ActConflictPublished}"

definition outcome_error :: "nat \<Rightarrow> VaultClientError \<Rightarrow> RowError" where
  "outcome_error row_num e =
     (case e of
        VcValidation msg \<Rightarrow> \<lparr>er_row = row_num, er_field = ''request'', er_message = msg\<rparr>
      | VcConflict field message \<Rightarrow> \<lparr>er_row = row_num, er_field = field, er_message = message\<rparr>
      | VcUnauthorised \<Rightarrow> \<lparr>er_row = row_num, er_field = ''auth'', er_message = ''Not authorised -- check your Bearer token.''\<rparr>
      | _ \<Rightarrow> \<lparr>er_row = row_num, er_field = ''vault'', er_message = vault_error_text e\<rparr>)"

fun collect_outcomes :: "(nat \<times> (VaultClientError + RowOutcome)) list \<Rightarrow> BatchResult \<Rightarrow> BatchResult" where
  "collect_outcomes [] acc = acc"
| "collect_outcomes ((row_num, outcome) # rest) acc =
     collect_outcomes rest
       (case outcome of
          Inr (RowCreated ident) \<Rightarrow> acc\<lparr>br_created := br_created acc @ [\<lparr>ci_row = row_num, ci_passport_id = ident\<rparr>]\<rparr>
        | Inr (RowUpdated ident) \<Rightarrow> acc\<lparr>br_updated := br_updated acc @ [\<lparr>ui_row = row_num, ui_passport_id = ident\<rparr>]\<rparr>
        | Inl e \<Rightarrow> acc\<lparr>br_errors := br_errors acc @ [outcome_error row_num e]\<rparr>)"

text \<open>
  The rows in order, as \<^verbatim>\<open>buffered\<close> returns them, each with its answers. A panic of one row is the
  panic of the batch; which of the other rows were sent by then is not determined, and the steps
  listed are those of the rows before it.
\<close>

fun run_rows ::
    "(nat \<Rightarrow> nat \<Rightarrow> vault_answer) \<Rightarrow> (nat \<rightharpoonup> Classification) \<Rightarrow> (nat \<times> import_row) list \<Rightarrow>
     ((nat \<times> (VaultClientError + RowOutcome)) list) option \<times> (nat \<times> vault_step) list" where
  "run_rows answer classifications [] = (Some [], [])"
| "run_rows answer classifications ((row_num, req) # rows) =
     (case run_row (answer row_num) req (classification_at classifications row_num) of
        None \<Rightarrow> (None, [])
      | Some (outcome, steps) \<Rightarrow>
          (case run_rows answer classifications rows of
             (outcomes, rest) \<Rightarrow> (map_option ((#) (row_num, outcome)) outcomes, map (Pair row_num) steps @ rest)))"

definition run_batch ::
    "(nat \<Rightarrow> nat \<Rightarrow> vault_answer) \<Rightarrow> (nat \<rightharpoonup> Classification) \<Rightarrow> (nat \<times> import_row) list \<Rightarrow> BatchResult option \<times> (nat \<times> vault_step) list" where
  "run_batch answer classifications valid_rows =
     (case run_rows answer classifications (filter (row_is_run classifications) valid_rows) of
        (outcomes, steps) \<Rightarrow>
          (map_option (\<lambda>results. collect_outcomes results \<lparr>br_created = [], br_updated = [], br_errors = []\<rparr>) outcomes, steps))"


subsection \<open>Repeated serials\<close>

definition stated_keys :: "match_libs \<Rightarrow> (nat \<times> import_row) list \<Rightarrow> (string \<times> string) list" where
  "stated_keys lib rows = List.map_filter (\<lambda>row. serial_key lib (snd row)) rows"

lemma stated_keys_simps [simp]:
  "stated_keys lib [] = []"
  "stated_keys lib (row # rows) = (case serial_key lib (snd row) of None \<Rightarrow> stated_keys lib rows | Some k \<Rightarrow> k # stated_keys lib rows)"
  by (simp_all add: stated_keys_def map_filter_simps split: option.splits)

text \<open>The three ways a row goes through the loop, as an induction rule.\<close>

lemma refuse_loop_induct [consumes 1, case_names Nil Free First Again]:
  assumes "refuse_loop lib m rows = (kept, refused)"
    and "\<And>m. P m [] [] []"
    and "\<And>m row rows kept refused. serial_key lib (snd row) = None \<Longrightarrow> P m rows kept refused \<Longrightarrow> P m (row # rows) (row # kept) refused"
    and "\<And>m row rows kept refused key. serial_key lib (snd row) = Some key \<Longrightarrow> m key = None \<Longrightarrow>
      P (m(key \<mapsto> fst row)) rows kept refused \<Longrightarrow> P m (row # rows) (row # kept) refused"
    and "\<And>m row rows kept refused key first_row. serial_key lib (snd row) = Some key \<Longrightarrow> m key = Some first_row \<Longrightarrow>
      P m rows kept refused \<Longrightarrow> P m (row # rows) kept (repeated_serial (fst row) (snd key) first_row # refused)"
  shows "P m rows kept refused"
  using assms(1)
proof (induction rows arbitrary: m kept refused)
  case (Cons row rows)
  obtain n req where row: "row = (n, req)" by fastforce
  show ?case
  proof (cases "serial_key lib req")
    case None
    with Cons row assms(3) [of "(n, req)"] show ?thesis by (auto split: prod.splits)
  next
    case key: (Some key)
    show ?thesis
    proof (cases "m key")
      case None
      with Cons.prems key row obtain kept' where "kept = row # kept'" "refuse_loop lib (m(key \<mapsto> n)) rows = (kept', refused)"
        by (auto split: prod.splits)
      with assms(4) [of row key m rows kept' refused] Cons.IH key None row show ?thesis
        by (simp only: fst_conv snd_conv)
    next
      case (Some first_row)
      with Cons.prems key row obtain refused' where "refused = repeated_serial n (snd key) first_row # refused'"
        "refuse_loop lib m rows = (kept, refused')"
        by (auto split: prod.splits)
      with assms(5) [of row key m first_row rows kept refused'] Cons.IH key Some row show ?thesis
        by (simp only: fst_conv snd_conv)
    qed
  qed
qed (use assms(2) in simp)

lemma refuse_loop_splits:
  "refuse_loop lib m rows = (kept, refused) \<Longrightarrow>
     subseq kept rows \<and> mset (map fst kept) + mset (map er_row refused) = mset (map fst rows)"
  by (induction rule: refuse_loop_induct) (auto simp: repeated_serial_def)

lemma refuse_loop_keys:
  "refuse_loop lib m rows = (kept, refused) \<Longrightarrow>
     distinct (stated_keys lib kept) \<and> set (stated_keys lib kept) \<inter> dom m = {} \<and>
     set (stated_keys lib rows) \<subseteq> dom m \<union> set (stated_keys lib kept)"
proof (induction rule: refuse_loop_induct)
  case (First m row rows kept refused key)
  from First.IH have "key \<notin> set (stated_keys lib kept)" "set (stated_keys lib kept) \<inter> dom m = {}"
    "set (stated_keys lib rows) \<subseteq> insert key (dom m) \<union> set (stated_keys lib kept)" by (simp_all del: fun_upd_apply)
  with First show ?case by auto
qed auto

text \<open>
  Property C21 (invariant). Of the rows of a file that state a carrier serial under a product identifier, exactly one is
  kept for each pair, every row is either kept, in order, or refused under its number, and no
  pair is lost.
\<close>

theorem one_row_per_carrier_serial:
  assumes "refuse_repeated_carrier_serials lib rows = (kept, refused)"
  shows "distinct (stated_keys lib kept) \<and> set (stated_keys lib kept) = set (stated_keys lib rows) \<and>
    subseq kept rows \<and> mset (map fst kept) + mset (map er_row refused) = mset (map fst rows)"
proof -
  have "refuse_loop lib Map.empty rows = (kept, refused)"
    using assms by (simp add: refuse_repeated_carrier_serials_def)
  from refuse_loop_splits [OF this] refuse_loop_keys [OF this]
  have "distinct (stated_keys lib kept)" "set (stated_keys lib rows) \<subseteq> set (stated_keys lib kept)"
    "subseq kept rows" "mset (map fst kept) + mset (map er_row refused) = mset (map fst rows)" by auto
  moreover from \<open>subseq kept rows\<close> have "set (stated_keys lib kept) \<subseteq> set (stated_keys lib rows)"
    by (induction rule: list_emb.induct) (auto split: option.splits)
  ultimately show ?thesis by blast
qed

subsection \<open>Retries\<close>

definition is_pause :: "vault_step \<Rightarrow> bool" where
  "is_pause s = (case s of Pause _ \<Rightarrow> True | _ \<Rightarrow> False)"

definition pause_ms :: "vault_step \<Rightarrow> nat" where
  "pause_ms s = (case s of Pause ms \<Rightarrow> ms | _ \<Rightarrow> 0)"

lemma retry_three: "[0..<MAX_RETRIES] = [0, 1, 2]"
  by (simp add: MAX_RETRIES_def upt_rec)

text \<open>
  A row is sent until the vault gives an answer other than 429, at most three times, with at most
  300 milliseconds of pauses, and the first such answer is the row's.
\<close>

theorem retry_is_bounded:
  "length (filter (\<lambda>s. \<not> is_pause s) (snd (retry_create answer req))) \<le> 3 \<and>
   sum_list (map pause_ms (snd (retry_create answer req))) \<le> 300 \<and>
   fst (retry_create answer req) =
     (case find (\<lambda>k. create_passport (answer k) \<noteq> Inl VcRateLimit) [0, 1, 2] of
        Some k \<Rightarrow> create_passport (answer k)
      | None \<Rightarrow> Inl VcRateLimit)"
  unfolding retry_create_def retry_three
  by (auto simp: MAX_RETRIES_def BASE_DELAY_MS_def is_pause_def pause_ms_def split: sum.splits)

lemma retry_loop_steps: "s \<in> set (snd (retry_loop call reply attempts)) \<Longrightarrow> s = call \<or> is_pause s"
  by (induction call reply attempts rule: retry_loop.induct) (auto simp: is_pause_def split: sum.splits if_splits prod.splits)

lemma retry_loop_sends: "attempts \<noteq> [] \<Longrightarrow> call \<in> set (snd (retry_loop call reply attempts))"
  by (cases attempts) (auto split: sum.splits prod.splits)

subsection \<open>The batch\<close>

lemma run_row_result:
  "run_row answer req c = None \<longleftrightarrow> cl_action c = ActUpdateDraft \<and> cl_existing_id c = None"
  by (auto simp: run_row_def split: option.splits prod.splits sum.splits)

lemma run_row_steps:
  assumes "run_row answer req c = Some (outcome, steps)" and "s \<in> set steps" and "\<not> is_pause s"
  shows "(cl_action c = ActUpdateDraft \<and> (\<exists>ident. cl_existing_id c = Some ident \<and> s = Put ident req)) \<or>
    (cl_action c \<noteq> ActUpdateDraft \<and> s = Post req)"
proof (cases "cl_action c = ActUpdateDraft")
  case True
  with assms(1) obtain ident where "cl_existing_id c = Some ident" "steps = snd (retry_update answer ident req)"
    by (auto simp: run_row_def split: option.splits prod.splits sum.splits)
  with assms(2,3) True retry_loop_steps [of s "Put ident req"] show ?thesis by (auto simp: retry_update_def)
next
  case False
  with assms(1) have "steps = snd (retry_create answer req)" by (auto simp: run_row_def split: prod.splits)
  with assms(2,3) False retry_loop_steps [of s "Post req"] show ?thesis by (auto simp: retry_create_def)
qed

lemma run_row_posts:
  assumes "run_row answer req c = Some (outcome, steps)" and "cl_action c \<noteq> ActUpdateDraft"
  shows "Post req \<in> set steps"
proof -
  have "steps = snd (retry_create answer req)" using assms by (auto simp: run_row_def split: prod.splits)
  then show ?thesis by (simp add: retry_create_def retry_loop_sends MAX_RETRIES_def)
qed

lemma run_rows_Cons:
  "run_rows answer cls (row # rows) =
     (case run_row (answer (fst row)) (snd row) (classification_at cls (fst row)) of
        None \<Rightarrow> (None, [])
      | Some r \<Rightarrow> (map_option ((#) (fst row, fst r)) (fst (run_rows answer cls rows)),
          map (Pair (fst row)) (snd r) @ snd (run_rows answer cls rows)))"
  by (cases row) (simp split: option.splits prod.splits)

declare run_rows.simps(2) [simp del]

lemma run_rows_completes:
  "fst (run_rows answer cls rows) = None \<longleftrightarrow>
     (\<exists>row \<in> set rows. run_row (answer (fst row)) (snd row) (classification_at cls (fst row)) = None)"
  by (induction rows) (simp_all add: run_rows_Cons split: option.splits)

lemma run_rows_order:
  "fst (run_rows answer cls rows) = Some outcomes \<Longrightarrow> map fst outcomes = map fst rows"
  by (induction rows arbitrary: outcomes) (auto simp: run_rows_Cons split: option.splits)

lemma run_rows_steps:
  assumes "(n, s) \<in> set (snd (run_rows answer cls rows))"
  shows "\<exists>req outcome steps. (n, req) \<in> set rows \<and> run_row (answer n) req (classification_at cls n) = Some (outcome, steps) \<and> s \<in> set steps"
  using assms by (induction rows) (fastforce simp: run_rows_Cons split: option.splits)+

lemma run_rows_sends:
  assumes "fst (run_rows answer cls rows) = Some outcomes" and "(n, req) \<in> set rows"
    and "run_row (answer n) req (classification_at cls n) = Some (outcome, steps)" and "s \<in> set steps"
  shows "(n, s) \<in> set (snd (run_rows answer cls rows))"
  using assms by (induction rows arbitrary: outcomes) (auto simp: run_rows_Cons split: option.splits)

lemma collect_outcomes_rows:
  "mset (map ci_row (br_created (collect_outcomes rs acc))) + mset (map ui_row (br_updated (collect_outcomes rs acc))) +
     mset (map er_row (br_errors (collect_outcomes rs acc))) =
   mset (map ci_row (br_created acc)) + mset (map ui_row (br_updated acc)) + mset (map er_row (br_errors acc)) + mset (map fst rs)"
  by (induction rs acc rule: collect_outcomes.induct)
    (auto simp: outcome_error_def split: sum.splits RowOutcome.splits VaultClientError.splits)

lemma outcome_error_row [simp]: "er_row (outcome_error n e) = n"
  by (simp add: outcome_error_def split: VaultClientError.splits)

lemma collect_outcomes_order:
  "\<exists>cs us es. map ci_row (br_created (collect_outcomes rs acc)) = map ci_row (br_created acc) @ cs \<and> subseq cs (map fst rs) \<and>
     map ui_row (br_updated (collect_outcomes rs acc)) = map ui_row (br_updated acc) @ us \<and> subseq us (map fst rs) \<and>
     map er_row (br_errors (collect_outcomes rs acc)) = map er_row (br_errors acc) @ es \<and> subseq es (map fst rs)"
proof (induction rs acc rule: collect_outcomes.induct)
  case (2 n outcome rest acc)
  then show ?case
    by (cases outcome rule: sum.exhaust; cases "projr outcome"; clarsimp) (meson subseq_Cons2 list_emb.list_emb_Cons)+
qed simp

lemma run_batch_SomeD:
  assumes "run_batch answer cls rows = (Some br, steps)"
  obtains outcomes where "run_rows answer cls (filter (row_is_run cls) rows) = (Some outcomes, steps)"
    and "br = collect_outcomes outcomes \<lparr>br_created = [], br_updated = [], br_errors = []\<rparr>"
  using assms by (auto simp: run_batch_def split: prod.splits)

text \<open>
  Property C22 (invariant). The batch panics exactly when a row to be updated has no matched identifier. Otherwise every row
  it runs ends in exactly one of its lists, the lists are in the order of the file, and nothing
  is sent for any other row.
\<close>

theorem batch_accounts_for_rows:
  assumes "run_batch answer cls rows = (result, steps)"
  shows "(result = None \<longleftrightarrow> (\<exists>row \<in> set rows. cl_action (classification_at cls (fst row)) = ActUpdateDraft \<and>
        cl_existing_id (classification_at cls (fst row)) = None)) \<and>
    (\<forall>br. result = Some br \<longrightarrow>
      mset (map ci_row (br_created br)) + mset (map ui_row (br_updated br)) + mset (map er_row (br_errors br)) =
        mset (map fst (filter (row_is_run cls) rows)) \<and>
      subseq (map ci_row (br_created br)) (map fst rows) \<and> subseq (map ui_row (br_updated br)) (map fst rows) \<and>
      subseq (map er_row (br_errors br)) (map fst rows)) \<and>
    fst ` set steps \<subseteq> fst ` set (filter (row_is_run cls) rows)"
proof (intro conjI allI impI)
  let ?run = "run_rows answer cls (filter (row_is_run cls) rows)"
  have result: "result = None \<longleftrightarrow> fst ?run = None" "steps = snd ?run"
    using assms by (auto simp: run_batch_def split: prod.splits)
  have "row_is_run cls row" if "cl_action (classification_at cls (fst row)) = ActUpdateDraft" for row
    using that by (simp add: row_is_run_def)
  then show "result = None \<longleftrightarrow> (\<exists>row \<in> set rows. cl_action (classification_at cls (fst row)) = ActUpdateDraft \<and>
      cl_existing_id (classification_at cls (fst row)) = None)"
    unfolding result run_rows_completes run_row_result by (simp only: set_filter mem_Collect_eq) blast
  show "fst ` set steps \<subseteq> fst ` set (filter (row_is_run cls) rows)"
    unfolding result by (force dest: run_rows_steps simp del: set_filter)
  fix br assume "result = Some br"
  with assms obtain outcomes where run: "?run = (Some outcomes, steps)"
    and br: "br = collect_outcomes outcomes \<lparr>br_created = [], br_updated = [], br_errors = []\<rparr>"
    using run_batch_SomeD by metis
  then have order: "map fst outcomes = map fst (filter (row_is_run cls) rows)" using run_rows_order [of answer cls] by (simp del: set_filter)
  have all: "subseq (map fst (filter (row_is_run cls) rows)) (map fst rows)" by (simp add: subseq_map)
  show "mset (map ci_row (br_created br)) + mset (map ui_row (br_updated br)) + mset (map er_row (br_errors br)) =
      mset (map fst (filter (row_is_run cls) rows))"
    unfolding br collect_outcomes_rows order by simp
  from collect_outcomes_order [of outcomes "\<lparr>br_created = [], br_updated = [], br_errors = []\<rparr>"] order
  show "subseq (map ci_row (br_created br)) (map fst rows)" "subseq (map ui_row (br_updated br)) (map fst rows)"
    "subseq (map er_row (br_errors br)) (map fst rows)"
    using all by (auto simp: br intro: subseq_order.trans)
qed

subsection \<open>Matching and writing\<close>

lemma classification_at_batch:
  assumes "distinct (map fst rows)" and "(n, req) \<in> set rows"
  shows "classification_at (classify_batch lib lookup rows) n = (case classify_row lib (lookup n) req of Inr c \<Rightarrow> c | Inl _ \<Rightarrow> unmatched)"
proof -
  have "map_of (map (\<lambda>(k, r). (k, f k r)) rows) n = Some (f n req)" for f :: "nat \<Rightarrow> import_row \<Rightarrow> Classification"
    using assms by (induction rows) force+
  then show ?thesis by (simp add: classification_at_def classify_batch_def)
qed

text \<open>
  Property C12 (safety). What an import writes follows the match: it overwrites only the passport the vault matched to
  that row, and only when the vault did not call it active; it creates a passport only when the
  vault named none for the row.
\<close>

theorem writes_follow_the_match:
  assumes "distinct (map fst rows)"
    and "(n, s) \<in> set (snd (run_batch answer (classify_batch lib lookup rows) rows))" and "\<not> is_pause s"
  shows "\<exists>req. (n, req) \<in> set rows \<and>
    ((s = Post req \<and> (identity_from_request lib req = None \<or> (\<forall>existing. find_by_identity (lookup n) \<noteq> Inr (Some existing)))) \<or>
     (\<exists>existing ident. s = Put ident req \<and> find_by_identity (lookup n) = Inr (Some existing) \<and>
        Option.bind (json_get ''id'' existing) json_str = Some ident \<and>
        Option.bind (json_get ''status'' existing) json_str \<noteq> Some ''active'' \<and> \<not> same_content lib req existing))"
proof -
  let ?cls = "classify_batch lib lookup rows"
  from assms(2) have "(n, s) \<in> set (snd (run_rows answer ?cls (filter (row_is_run ?cls) rows)))"
    by (simp add: run_batch_def split: prod.splits)
  then obtain req outcome steps where row: "(n, req) \<in> set rows" "row_is_run ?cls (n, req)"
    and run: "run_row (answer n) req (classification_at ?cls n) = Some (outcome, steps)" "s \<in> set steps"
    using run_rows_steps by fastforce
  note class_of = classification_at_batch [OF assms(1) row(1), of lib lookup]
  from run_row_steps [OF run assms(3)] row(2) have
    "(s = Post req \<and> cl_action (classification_at ?cls n) = ActCreate) \<or>
     (\<exists>ident. s = Put ident req \<and> cl_action (classification_at ?cls n) = ActUpdateDraft \<and> cl_existing_id (classification_at ?cls n) = Some ident)"
    by (cases "cl_action (classification_at ?cls n)") (auto simp: row_is_run_def)
  with row(1) show ?thesis
    unfolding class_of
    by (auto simp: classify_row_def unmatched_def Let_def split: option.splits sum.splits if_splits)
qed

text \<open>
  Uploading a file whose every row the vault already holds, with the same content and no other
  serial stated, sends nothing and changes nothing.
\<close>

theorem unchanged_upload_writes_nothing:
  assumes "distinct (map fst rows)"
    and "\<forall>(n, req) \<in> set rows. identity_from_request lib req \<noteq> None \<and>
      (\<exists>existing. find_by_identity (lookup n) = Inr (Some existing) \<and> same_content lib req existing)"
  shows "run_batch answer (classify_batch lib lookup rows) rows = (Some \<lparr>br_created = [], br_updated = [], br_errors = []\<rparr>, [])"
proof -
  have "\<not> row_is_run (classify_batch lib lookup rows) row" if "row \<in> set rows" for row
  proof -
    obtain n req where row: "row = (n, req)" by fastforce
    with that assms(2) obtain existing where "identity_from_request lib req \<noteq> None"
      "find_by_identity (lookup n) = Inr (Some existing)" "same_content lib req existing" by fastforce
    then have "classify_row lib (lookup n) req =
        Inr \<lparr>cl_action = ActUnchanged, cl_existing_id = Option.bind (json_get ''id'' existing) json_str\<rparr>"
      by (auto simp: classify_row_def)
    with classification_at_batch [OF assms(1), of n req lib lookup] that show ?thesis by (simp add: row row_is_run_def)
  qed
  then have "filter (row_is_run (classify_batch lib lookup rows)) rows = []" by (simp add: filter_empty_conv)
  then show ?thesis by (simp add: run_batch_def)
qed

text \<open>
  A row whose lookup fails is created, whatever the vault holds for it: the answer to the lookup
  is the only thing that keeps a published passport from getting a duplicate.
\<close>

theorem failed_lookup_creates:
  assumes "distinct (map fst rows)" and "(n, req) \<in> set rows"
    and "identity_from_request lib req \<noteq> None" and "find_by_identity (lookup n) = Inl e"
    and "run_batch answer (classify_batch lib lookup rows) rows = (Some br, steps)"
  shows "(n, Post req) \<in> set steps"
proof -
  let ?cls = "classify_batch lib lookup rows"
  from assms(3,4) have "classify_row lib (lookup n) req = Inl e" by (auto simp: classify_row_def)
  then have class_of: "classification_at ?cls n = unmatched" using classification_at_batch [OF assms(1,2), of lib lookup] by simp
  then have to_run: "(n, req) \<in> set (filter (row_is_run ?cls) rows)" using assms(2) by (simp add: row_is_run_def unmatched_def)
  obtain outcome row_steps where run: "run_row (answer n) req (classification_at ?cls n) = Some (outcome, row_steps)"
    using run_row_result [of "answer n" req "classification_at ?cls n"] by (auto simp: class_of unmatched_def)
  obtain outcomes where all: "run_rows answer ?cls (filter (row_is_run ?cls) rows) = (Some outcomes, steps)"
    using assms(5) run_batch_SomeD by metis
  have "Post req \<in> set row_steps" using run_row_posts [OF run] by (simp add: class_of unmatched_def)
  with run_rows_sends [of answer ?cls "filter (row_is_run ?cls) rows" outcomes n req, OF _ to_run run] all show ?thesis by simp
qed

subsection \<open>Witnesses\<close>

definition sample_steel :: SteelData where
  "sample_steel = \<lparr>st_product_identifier = Gs1Identifier ''0950'', st_co2e_per_tonne_steel = 1, st_recycled_scrap_content_pct = 10,
     st_product_category = ''rebar'', st_country_of_origin = ''DE'', st_production_route = ''EAF'', st_annual_production_tonnes = None\<rparr>"

definition sample_row :: "string \<Rightarrow> import_row" where
  "sample_row name = \<lparr>cp_product_name = name, cp_product_group = Some Steel,
     cp_manufacturer = \<lparr>mi_name = ''M'', mi_address = ''DE'', mi_registered_trade_name = None, mi_electronic_address = None,
       mi_country = Some ''DE'', mi_did_web_url = None\<rparr>,
     cp_materials = None, cp_co2e_per_unit = None, cp_repairability_score = None,
     cp_product_group_data = Some (SteelGroup sample_steel), cp_batch_id = None, cp_placed_on_market_date = None,
     cp_schema_version = None, cp_commodity_code = None, cp_supersedes_id = None, cp_derived_from = [], cp_life_status = None,
     cp_personal_data = [], cp_component_refs = [], cp_carrier_serial = Some ''S1''\<rparr>"

definition sample_match :: match_libs where
  "sample_match = \<lparr>group_of_data = \<lambda>_. Steel, identifier_of = \<lambda>_. Some ''0950'',
     request_json = \<lambda>req. JObj [(''productName'', JStr (cp_product_name req))],
     sha256_hex = \<lambda>v. (case v of JObj ((_, JStr s) # _) \<Rightarrow> s | _ \<Rightarrow> []), parse_uuid_text = \<lambda>_. None,
     default_carrier_serial = \<lambda>_. ''0''\<rparr>"

definition sample_held_answer :: "string \<Rightarrow> string \<Rightarrow> vault_answer" where
  "sample_held_answer name status = Answered 200 (Inr (JObj [(''carrierSerial'', JStr ''S1''), (''id'', JStr ''p1''),
     (''productName'', JStr name), (''status'', JStr status)]))"

lemmas sample_match_simps = sample_row_def sample_match_def sample_held_answer_def identity_from_request_def serial_key_def
  classify_batch_def classify_row_def find_by_identity_def is_success_def parsed_body_def same_content_def
  comparable_fingerprint_def COMPARABLE_FIELDS_def map_filter_simps states_another_carrier_serial_def
  printed_carrier_serial_def unmatched_def

theorem one_row_per_carrier_serial_witness:
  "stated_keys sample_match [(1, sample_row ''A''), (2, sample_row ''B'')] = [(''0950'', ''S1''), (''0950'', ''S1'')] \<and>
   distinct (stated_keys sample_match (fst (refuse_repeated_carrier_serials sample_match [(1, sample_row ''A''), (2, sample_row ''B'')])))"
proof -
  obtain kept refused where r: "refuse_repeated_carrier_serials sample_match [(1, sample_row ''A''), (2, sample_row ''B'')] = (kept, refused)"
    by fastforce
  have "stated_keys sample_match [(1, sample_row ''A''), (2, sample_row ''B'')] = [(''0950'', ''S1''), (''0950'', ''S1'')]"
    by (simp add: sample_match_simps)
  with one_row_per_carrier_serial [OF r] show ?thesis by (simp only: r fst_conv simp_thms)
qed

theorem batch_accounts_for_rows_witness:
  "run_batch (\<lambda>_ _. Answered 201 (Inr (JObj [(''id'', JStr ''p2'')]))) Map.empty [(1, sample_row ''A'')] =
     (Some \<lparr>br_created = [\<lparr>ci_row = 1, ci_passport_id = ''p2''\<rparr>], br_updated = [], br_errors = []\<rparr>, [(1, Post (sample_row ''A''))]) \<and>
   mset [1 :: nat] = mset (map fst (filter (row_is_run Map.empty) [(1 :: nat, sample_row ''A'')]))"
proof -
  have run: "run_batch (\<lambda>_ _. Answered 201 (Inr (JObj [(''id'', JStr ''p2'')]))) Map.empty [(1, sample_row ''A'')] =
     (Some \<lparr>br_created = [\<lparr>ci_row = 1, ci_passport_id = ''p2''\<rparr>], br_updated = [], br_errors = []\<rparr>, [(1, Post (sample_row ''A''))])"
    by (simp add: run_batch_def run_rows_Cons row_is_run_def classification_at_def unmatched_def run_row_def retry_create_def
        retry_three create_passport_def is_success_def parsed_body_def created_outcome_def)
  from batch_accounts_for_rows [OF run] run show ?thesis by simp
qed

theorem writes_follow_the_match_witness:
  "(1, Put ''p1'' (sample_row ''A'')) \<in> set (snd (run_batch (\<lambda>_ _. NoAnswer ''down'')
      (classify_batch sample_match (\<lambda>_. sample_held_answer ''B'' ''draft'') [(1, sample_row ''A'')]) [(1, sample_row ''A'')])) \<and>
   find_by_identity (sample_held_answer ''B'' ''draft'') \<noteq> Inr None"
proof -
  let ?rows = "[(1, sample_row ''A'')]" and ?lookup = "\<lambda>_ :: nat. sample_held_answer ''B'' ''draft''"
  have put: "(1, Put ''p1'' (sample_row ''A'')) \<in> set (snd (run_batch (\<lambda>_ _. NoAnswer ''down'')
      (classify_batch sample_match ?lookup ?rows) ?rows))"
    by (simp add: run_batch_def run_rows_Cons row_is_run_def classification_at_def run_row_def retry_update_def
        retry_three update_passport_def sample_match_simps)
  from writes_follow_the_match [of ?rows, OF _ put] put show ?thesis by (auto simp: is_pause_def)
qed

theorem unchanged_upload_writes_nothing_witness:
  "run_batch (\<lambda>_ _. NoAnswer ''down'') (classify_batch sample_match (\<lambda>_. sample_held_answer ''A'' ''active'') [(1, sample_row ''A'')])
     [(1, sample_row ''A'')] = (Some \<lparr>br_created = [], br_updated = [], br_errors = []\<rparr>, [])"
  by (rule unchanged_upload_writes_nothing) (simp_all add: sample_match_simps)

theorem failed_lookup_creates_witness:
  "\<exists>br steps. run_batch (\<lambda>_ _. NoAnswer ''down'') (classify_batch sample_match (\<lambda>_. Answered 503 (Inl ''eof'')) [(1, sample_row ''A'')])
     [(1, sample_row ''A'')] = (Some br, steps) \<and> (1, Post (sample_row ''A'')) \<in> set steps"
proof -
  let ?rows = "[(1, sample_row ''A'')]" and ?lookup = "\<lambda>_ :: nat. Answered 503 (Inl ''eof'')"
  have lookup: "identity_from_request sample_match (sample_row ''A'') \<noteq> None" "find_by_identity (?lookup 1) = Inl (VcServerError 503)"
    by (simp_all add: sample_match_simps is_5xx_def)
  obtain br steps where run: "run_batch (\<lambda>_ _. NoAnswer ''down'') (classify_batch sample_match ?lookup ?rows) ?rows = (Some br, steps)"
    using lookup by (simp add: run_batch_def run_rows_Cons row_is_run_def classification_at_def run_row_def retry_create_def
        retry_three create_passport_def sample_match_simps is_5xx_def)
  from failed_lookup_creates [OF _ _ lookup run] run show ?thesis by auto
qed

end
