(* ===== verification/Import_Jobs.thy ===== *)
theory Import_Jobs
  imports Import_Batch Webhook
begin

text \<open>
  The import jobs: the port \<^verbatim>\<open>JobStore\<close> with its in-memory store
  (\<^verbatim>\<open>dpp-integrator/src/infra/job_store.rs\<close>) and the PostgreSQL store of the node
  (\<^verbatim>\<open>dpp-node/src/infra/pg_job_store.rs\<close>). The in-memory store is the reference the other is
  shown to refine. An error of the store is its message.
\<close>

subsection \<open>The in-memory store\<close>

type_synonym job_map = "uuid \<rightharpoonup> ImportJob"

definition new_job :: "uuid \<Rightarrow> nat \<Rightarrow> time \<Rightarrow> ImportJob" where
  "new_job ident total_rows now =
     \<lparr>jb_id = ident, jb_status = JobQueued, jb_total_rows = total_rows, jb_processed = 0, jb_result = None, jb_report = None,
      jb_parent_job_id = None, jb_created_at = now\<rparr>"

definition mem_insert :: "ImportJob \<Rightarrow> job_map \<Rightarrow> job_map" where
  "mem_insert job jobs = jobs(jb_id job \<mapsto> job)"

definition mem_get :: "uuid \<Rightarrow> job_map \<Rightarrow> ImportJob option" where
  "mem_get ident jobs = jobs ident"

definition mem_modify :: "uuid \<Rightarrow> (ImportJob \<Rightarrow> ImportJob) \<Rightarrow> job_map \<Rightarrow> job_map" where
  "mem_modify ident f jobs = (case jobs ident of Some job \<Rightarrow> jobs(ident \<mapsto> f job) | None \<Rightarrow> jobs)"

definition mem_set_status :: "uuid \<Rightarrow> JobStatus \<Rightarrow> job_map \<Rightarrow> job_map" where
  "mem_set_status ident status = mem_modify ident (\<lambda>job. job\<lparr>jb_status := status\<rparr>)"

definition mem_complete :: "uuid \<Rightarrow> BatchResult \<Rightarrow> job_map \<Rightarrow> job_map" where
  "mem_complete ident result =
     mem_modify ident (\<lambda>job. job\<lparr>jb_processed := jb_total_rows job, jb_result := Some result, jb_status := JobCompleted\<rparr>)"

definition mem_fail :: "uuid \<Rightarrow> string \<Rightarrow> job_map \<Rightarrow> job_map" where
  "mem_fail ident reason = mem_modify ident (\<lambda>job. job\<lparr>jb_status := JobFailed reason\<rparr>)"

definition mem_record_report :: "uuid \<Rightarrow> ImportReport \<Rightarrow> job_map \<Rightarrow> job_map" where
  "mem_record_report ident report = mem_modify ident (\<lambda>job. job\<lparr>jb_report := Some report\<rparr>)"

definition is_terminal :: "JobStatus \<Rightarrow> bool" where
  "is_terminal status = (case status of JobCompleted \<Rightarrow> True | JobFailed _ \<Rightarrow> True | _ \<Rightarrow> False)"

definition mem_cleanup :: "time \<Rightarrow> job_map \<Rightarrow> job_map" where
  "mem_cleanup cutoff jobs =
     (\<lambda>ident. case jobs ident of
        Some job \<Rightarrow> if is_terminal (jb_status job) \<and> jb_created_at job < cutoff then None else Some job
      | None \<Rightarrow> None)"

subsection \<open>The PostgreSQL store\<close>

definition split_status :: "JobStatus \<Rightarrow> string \<times> string option" where
  "split_status status =
     (case status of
        JobQueued \<Rightarrow> (''queued'', None)
      | JobProcessing \<Rightarrow> (''processing'', None)
      | JobCompleted \<Rightarrow> (''completed'', None)
      | JobFailed reason \<Rightarrow> (''failed'', Some reason))"

definition row_status :: "import_job_rec \<Rightarrow> JobStatus option" where
  "row_status r =
     (if ij_status r = ''queued'' then Some JobQueued
      else if ij_status r = ''processing'' then Some JobProcessing
      else if ij_status r = ''completed'' then Some JobCompleted
      else if ij_status r = ''failed'' then Some (JobFailed (case ij_fail_reason r of Some reason \<Rightarrow> reason | None \<Rightarrow> ''unknown''))
      else None)"

definition row_to_job :: "import_job_rec \<Rightarrow> ImportJob option" where
  "row_to_job r =
     map_option (\<lambda>status.
       \<lparr>jb_id = ij_id r, jb_status = status, jb_total_rows = nat (max (ij_total_rows r) 0),
        jb_processed = nat (max (ij_processed r) 0), jb_result = from_stored (ij_result r), jb_report = from_stored (ij_report r),
        jb_parent_job_id = ij_parent_job_id r, jb_created_at = ij_created_at r\<rparr>) (row_status r)"

text \<open>Rust's \<^verbatim>\<open>as i32\<close>: the low 32 bits, read as a signed number.\<close>

definition as_i32 :: "nat \<Rightarrow> int" where
  "as_i32 n = (int n + 2 ^ 31) mod 2 ^ 32 - 2 ^ 31"

definition new_job_row :: "ImportJob \<Rightarrow> import_job_rec" where
  "new_job_row job =
     \<lparr>ij_id = jb_id job, ij_status = fst (split_status (jb_status job)), ij_fail_reason = snd (split_status (jb_status job)),
      ij_total_rows = as_i32 (jb_total_rows job), ij_processed = as_i32 (jb_processed job),
      ij_result = map_option Readable (jb_result job), ij_report = None, ij_parent_job_id = None,
      ij_created_at = jb_created_at job\<rparr>"

definition job_insert :: "pg_env \<Rightarrow> ImportJob \<Rightarrow> odal \<Rightarrow> (sqlx_error + unit) \<times> odal" where
  "job_insert env job db =
     (case fault_at env (tick db) of
        Some e \<Rightarrow> (Inl e, bump db)
      | None \<Rightarrow>
          if jb_id job \<in> ij_id ` set (import_job db) then (Inl unique_violation, bump db)
          else (Inr (), bump (db\<lparr>import_job := import_job db @ [new_job_row job]\<rparr>)))"

definition job_get :: "pg_env \<Rightarrow> uuid \<Rightarrow> odal \<Rightarrow> ImportJob option \<times> odal" where
  "job_get env ident db =
     (case fault_at env (tick db) of
        Some e \<Rightarrow> (None, bump db)
      | None \<Rightarrow> (Option.bind (row_at ij_id ident (import_job db)) row_to_job, bump db))"

text \<open>An \<^verbatim>\<open>UPDATE ... WHERE id = $1\<close> whose count of rows nobody reads.\<close>

definition job_update :: "pg_env \<Rightarrow> uuid \<Rightarrow> (import_job_rec \<Rightarrow> import_job_rec) \<Rightarrow> odal \<Rightarrow> (sqlx_error + unit) \<times> odal" where
  "job_update env ident f db =
     (case fault_at env (tick db) of
        Some e \<Rightarrow> (Inl e, bump db)
      | None \<Rightarrow> (Inr (), bump (db\<lparr>import_job := upd_where (\<lambda>r. ij_id r = ident) f (import_job db)\<rparr>)))"

definition job_set_status :: "pg_env \<Rightarrow> uuid \<Rightarrow> JobStatus \<Rightarrow> odal \<Rightarrow> (sqlx_error + unit) \<times> odal" where
  "job_set_status env ident status =
     job_update env ident (\<lambda>r. r\<lparr>ij_status := fst (split_status status), ij_fail_reason := snd (split_status status)\<rparr>)"

definition completed_job_row :: "BatchResult \<Rightarrow> import_job_rec \<Rightarrow> import_job_rec" where
  "completed_job_row result r = r\<lparr>ij_status := ''completed'', ij_processed := ij_total_rows r, ij_result := Some (Readable result)\<rparr>"

definition failed_job_row :: "string \<Rightarrow> import_job_rec \<Rightarrow> import_job_rec" where
  "failed_job_row reason r = r\<lparr>ij_status := ''failed'', ij_fail_reason := Some reason\<rparr>"

record WebhookEvent =
  we_event_type :: string
  we_body :: string

text \<open>
  The transaction of \<^verbatim>\<open>complete\<close> and \<^verbatim>\<open>fail\<close>: the statements of it see its own writes, and any
  failure before the commit undoes them. A commit that fails may have taken effect.
\<close>

definition dpp_to_sqlx :: "pg_env \<Rightarrow> dpp_error \<Rightarrow> sqlx_error" where
  "dpp_to_sqlx env e = OtherSqlx (fmt_dpp env e)"

definition rolled_back :: "odal \<Rightarrow> odal \<Rightarrow> odal" where
  "rolled_back db db' = db\<lparr>tick := tick db'\<rparr>"

definition job_commit :: "pg_env \<Rightarrow> odal \<Rightarrow> odal \<Rightarrow> (sqlx_error + unit) \<times> odal" where
  "job_commit env db db' =
     (case fault_at env (tick db') of
        None \<Rightarrow> (Inr (), bump db')
      | Some e \<Rightarrow> (Inl e, bump (if commit_lost env (tick db') then db' else rolled_back db db')))"

definition job_finish ::
    "pg_env \<Rightarrow> uuid \<Rightarrow> (import_job_rec \<Rightarrow> import_job_rec) \<Rightarrow> WebhookEvent option \<Rightarrow> odal \<Rightarrow> (sqlx_error + unit) \<times> odal" where
  "job_finish env ident f notify db =
     (case fault_at env (tick db) of
        Some e \<Rightarrow> (Inl e, bump db)
      | None \<Rightarrow>
          (case job_update env ident f (bump db) of
             (Inl e, db1) \<Rightarrow> (Inl e, rolled_back db db1)
           | (Inr _, db1) \<Rightarrow>
               (case notify of
                  None \<Rightarrow> job_commit env db db1
                | Some event \<Rightarrow>
                    (case fan_out env (we_event_type event) (we_body event) db1 of
                       (Inl e, db2) \<Rightarrow> (Inl (dpp_to_sqlx env e), rolled_back db db2)
                     | (Inr _, db2) \<Rightarrow> job_commit env db db2))))"

definition job_complete :: "pg_env \<Rightarrow> uuid \<Rightarrow> BatchResult \<Rightarrow> WebhookEvent option \<Rightarrow> odal \<Rightarrow> (sqlx_error + unit) \<times> odal" where
  "job_complete env ident result notify db = job_finish env ident (completed_job_row result) notify db"

definition job_fail :: "pg_env \<Rightarrow> uuid \<Rightarrow> string \<Rightarrow> WebhookEvent option \<Rightarrow> odal \<Rightarrow> (sqlx_error + unit) \<times> odal" where
  "job_fail env ident reason notify db = job_finish env ident (failed_job_row reason) notify db"

definition job_record_report :: "pg_env \<Rightarrow> uuid \<Rightarrow> ImportReport \<Rightarrow> odal \<Rightarrow> (sqlx_error + unit) \<times> odal" where
  "job_record_report env ident report = job_update env ident (\<lambda>r. r\<lparr>ij_report := Some (Readable report)\<rparr>)"

definition job_cleanup :: "pg_env \<Rightarrow> time \<Rightarrow> time \<Rightarrow> odal \<Rightarrow> odal" where
  "job_cleanup env utc_now max_age db =
     (case fault_at env (tick db) of
        Some e \<Rightarrow> bump db
      | None \<Rightarrow> bump (db\<lparr>import_job := filter (\<lambda>r. \<not> ij_created_at r < utc_now - max_age) (import_job db)\<rparr>))"

subsection \<open>Refinement of the reference store\<close>

text \<open>The writes of the port, as the reference performs them and as the database does.\<close>

datatype job_op = OpInsert ImportJob | OpStatus uuid JobStatus | OpComplete uuid BatchResult "WebhookEvent option"
  | OpFail uuid string "WebhookEvent option" | OpReport uuid ImportReport

primrec mem_apply :: "job_op \<Rightarrow> job_map \<Rightarrow> job_map" where
  "mem_apply (OpInsert job) = mem_insert job"
| "mem_apply (OpStatus ident status) = mem_set_status ident status"
| "mem_apply (OpComplete ident result notify) = mem_complete ident result"
| "mem_apply (OpFail ident reason notify) = mem_fail ident reason"
| "mem_apply (OpReport ident report) = mem_record_report ident report"

primrec pg_apply :: "pg_env \<Rightarrow> job_op \<Rightarrow> odal \<Rightarrow> (sqlx_error + unit) \<times> odal" where
  "pg_apply env (OpInsert job) = job_insert env job"
| "pg_apply env (OpStatus ident status) = job_set_status env ident status"
| "pg_apply env (OpComplete ident result notify) = job_complete env ident result notify"
| "pg_apply env (OpFail ident reason notify) = job_fail env ident reason notify"
| "pg_apply env (OpReport ident report) = job_record_report env ident report"

text \<open>A job as \<^verbatim>\<open>ImportJob::new\<close> makes it, with a row count the column holds.\<close>

fun op_ok :: "job_op \<Rightarrow> bool" where
  "op_ok (OpInsert job) \<longleftrightarrow> job = new_job (jb_id job) (jb_total_rows job) (jb_created_at job) \<and> jb_total_rows job < 2 ^ 31"
| "op_ok _ \<longleftrightarrow> True"

definition jobs_of :: "odal \<Rightarrow> job_map" where
  "jobs_of db ident = Option.bind (row_at ij_id ident (import_job db)) row_to_job"

definition job_rows_ok :: "odal \<Rightarrow> bool" where
  "job_rows_ok db \<longleftrightarrow> distinct (map ij_id (import_job db)) \<and> list_all (\<lambda>r. row_status r \<noteq> None) (import_job db)"

text \<open>A sequence of writes, with what each answered.\<close>

primrec write_all :: "('o \<Rightarrow> 's \<Rightarrow> 'r \<times> 's) \<Rightarrow> 'o list \<Rightarrow> 's \<Rightarrow> 'r list \<times> 's" where
  "write_all w [] s = ([], s)"
| "write_all w (op # ops) s = (case w op s of (r, s1) \<Rightarrow> case write_all w ops s1 of (rs, s2) \<Rightarrow> (r # rs, s2))"

text \<open>
  The contract of the port: a write that is acknowledged is the reference's, and one that is not
  has either done nothing or is the reference's too.
\<close>

locale job_port =
  fixes inv :: "'s \<Rightarrow> bool"
    and jobs :: "'s \<Rightarrow> job_map"
    and perform :: "job_op \<Rightarrow> 's \<Rightarrow> (sqlx_error + unit) \<times> 's"
  assumes write_inv: "inv s \<Longrightarrow> op_ok op \<Longrightarrow> inv (snd (perform op s))"
    and write_acknowledged: "inv s \<Longrightarrow> op_ok op \<Longrightarrow> fst (perform op s) = Inr () \<Longrightarrow> jobs (snd (perform op s)) = mem_apply op (jobs s)"
    and write_refused: "inv s \<Longrightarrow> op_ok op \<Longrightarrow> fst (perform op s) = Inl e \<Longrightarrow>
      jobs (snd (perform op s)) = jobs s \<or> jobs (snd (perform op s)) = mem_apply op (jobs s)"
begin

lemma writes_refine:
  assumes "inv s" and "\<forall>op \<in> set ops. op_ok op"
  shows "\<exists>keep. length keep = length ops \<and>
    (\<forall>i < length ops. fst (write_all perform ops s) ! i = Inr () \<longrightarrow> keep ! i) \<and>
    jobs (snd (write_all perform ops s)) = fold mem_apply (map fst (filter snd (zip ops keep))) (jobs s)"
  using assms
proof (induction ops arbitrary: s)
  case (Cons op ops)
  obtain r s1 where w: "perform op s = (r, s1)" by fastforce
  obtain rs s2 where ws: "write_all perform ops s1 = (rs, s2)" by fastforce
  from write_inv Cons.prems w have "inv s1" by (metis list.set_intros(1) snd_conv)
  with Cons.prems obtain keep where keep: "length keep = length ops" "\<forall>i < length ops. rs ! i = Inr () \<longrightarrow> keep ! i"
    "jobs s2 = fold mem_apply (map fst (filter snd (zip ops keep))) (jobs s1)" using Cons.IH [of s1] by (auto simp: ws)
  from Cons.prems w have step: "(r = Inr () \<longrightarrow> k) \<and> jobs s1 = (if k then mem_apply op (jobs s) else jobs s)"
    if "k = (jobs s1 = mem_apply op (jobs s))" for k
    using that write_acknowledged [of s op] write_refused [of s op] by (cases r) auto
  let ?k = "jobs s1 = mem_apply op (jobs s)"
  show ?case
    using keep step [OF refl] by (intro exI [of _ "?k # keep"]) (auto simp: w ws nth_Cons split: nat.splits)
qed simp

end

interpretation mem_jobs: job_port "\<lambda>_. True" "\<lambda>jobs. jobs" "\<lambda>op jobs. (Inr (), mem_apply op jobs)"
  by unfold_locales simp_all

lemma jobs_of_bump [simp]: "jobs_of (bump db) = jobs_of db" "job_rows_ok (bump db) = job_rows_ok db"
  by (simp_all add: jobs_of_def fun_eq_iff job_rows_ok_def)

lemma rolled_back_jobs [simp]: "jobs_of (rolled_back db db') = jobs_of db" "job_rows_ok (rolled_back db db') = job_rows_ok db"
  by (simp_all add: jobs_of_def fun_eq_iff job_rows_ok_def rolled_back_def)

text \<open>A change of a row that is a change of its job.\<close>

definition row_change :: "(import_job_rec \<Rightarrow> import_job_rec) \<Rightarrow> (ImportJob \<Rightarrow> ImportJob) \<Rightarrow> bool" where
  "row_change f g \<longleftrightarrow> (\<forall>r. ij_id (f r) = ij_id r \<and>
     (row_status r \<noteq> None \<longrightarrow> row_status (f r) \<noteq> None \<and> row_to_job (f r) = map_option g (row_to_job r)))"

lemma row_changes:
  "row_change (\<lambda>r. r\<lparr>ij_status := fst (split_status status), ij_fail_reason := snd (split_status status)\<rparr>) (\<lambda>job. job\<lparr>jb_status := status\<rparr>)"
  "row_change (completed_job_row result) (\<lambda>job. job\<lparr>jb_processed := jb_total_rows job, jb_result := Some result, jb_status := JobCompleted\<rparr>)"
  "row_change (failed_job_row reason) (\<lambda>job. job\<lparr>jb_status := JobFailed reason\<rparr>)"
  "row_change (\<lambda>r. r\<lparr>ij_report := Some (Readable report)\<rparr>) (\<lambda>job. job\<lparr>jb_report := Some report\<rparr>)"
  by (auto simp: row_change_def row_to_job_def row_status_def split_status_def completed_job_row_def failed_job_row_def
      split: JobStatus.splits)

lemma jobs_of_update:
  assumes "row_change f g" and "job_rows_ok db"
  shows "jobs_of (db\<lparr>import_job := upd_where (\<lambda>r. ij_id r = ident) f (import_job db)\<rparr>) = mem_modify ident g (jobs_of db)"
    and "job_rows_ok (db\<lparr>import_job := upd_where (\<lambda>r. ij_id r = ident) f (import_job db)\<rparr>)"
proof -
  have ids: "\<And>r. ij_id (f r) = ij_id r" using assms(1) by (simp add: row_change_def)
  show "jobs_of (db\<lparr>import_job := upd_where (\<lambda>r. ij_id r = ident) f (import_job db)\<rparr>) = mem_modify ident g (jobs_of db)"
  proof
    fix i
    show "jobs_of (db\<lparr>import_job := upd_where (\<lambda>r. ij_id r = ident) f (import_job db)\<rparr>) i = mem_modify ident g (jobs_of db) i"
    proof (cases "row_at ij_id i (import_job db)")
      case None
      then show ?thesis by (cases "i = ident") (simp_all add: jobs_of_def mem_modify_def row_at_upd_where ids split: option.splits)
    next
      case (Some r)
      with assms(2) have "row_status r \<noteq> None" "ij_id r = i" by (auto simp: job_rows_ok_def list_all_iff dest: row_at_SomeD)
      with assms(1) Some show ?thesis
        by (auto simp: jobs_of_def mem_modify_def row_at_upd_where ids row_change_def row_to_job_def split: option.splits)
    qed
  qed
  show "job_rows_ok (db\<lparr>import_job := upd_where (\<lambda>r. ij_id r = ident) f (import_job db)\<rparr>)"
    using assms by (auto simp: job_rows_ok_def row_change_def list_all_iff set_upd_where upd_where_keys ids)
qed

lemma job_update_steps:
  assumes "row_change f g" and "job_rows_ok db"
  shows "job_rows_ok (snd (job_update env ident f db))"
    and "fst (job_update env ident f db) = Inr () \<Longrightarrow> jobs_of (snd (job_update env ident f db)) = mem_modify ident g (jobs_of db)"
    and "fst (job_update env ident f db) = Inl e \<Longrightarrow> jobs_of (snd (job_update env ident f db)) = jobs_of db"
  using assms jobs_of_update [OF assms] by (auto simp: job_update_def split: option.splits)

lemma fan_out_jobs:
  "import_job (snd (fan_out env event_type body db)) = import_job db"
  by (simp add: fan_out_def insert_deliveries_def Let_def split: option.splits)

lemma same_job_rows:
  "import_job db = import_job db' \<Longrightarrow> jobs_of db = jobs_of db'"
  "import_job db = import_job db' \<Longrightarrow> job_rows_ok db = job_rows_ok db'"
  by (simp_all add: jobs_of_def fun_eq_iff job_rows_ok_def)

lemma job_commit_steps:
  assumes "job_rows_ok db" and "job_rows_ok db'"
  shows "job_rows_ok (snd (job_commit env db db'))"
    and "fst (job_commit env db db') = Inr () \<Longrightarrow> jobs_of (snd (job_commit env db db')) = jobs_of db'"
    and "jobs_of (snd (job_commit env db db')) = jobs_of db' \<or> jobs_of (snd (job_commit env db db')) = jobs_of db"
  using assms by (auto simp: job_commit_def split: option.splits)

lemma job_finish_steps:
  assumes "row_change f g" and "job_rows_ok db"
  shows "job_rows_ok (snd (job_finish env ident f notify db)) \<and>
    (fst (job_finish env ident f notify db) = Inr () \<longrightarrow>
      jobs_of (snd (job_finish env ident f notify db)) = mem_modify ident g (jobs_of db)) \<and>
    (jobs_of (snd (job_finish env ident f notify db)) = jobs_of db \<or>
      jobs_of (snd (job_finish env ident f notify db)) = mem_modify ident g (jobs_of db))"
proof (cases "fault_at env (tick db)")
  case None
  have ok: "job_rows_ok (bump db)" using assms(2) by simp
  note upd = job_update_steps [OF assms(1) ok, of env ident]
  obtain r db1 where u: "job_update env ident f (bump db) = (r, db1)" by fastforce
  show ?thesis
  proof (cases r)
    case (Inl e)
    with None u assms(2) show ?thesis by (simp add: job_finish_def)
  next
    case (Inr x)
    from upd Inr u have db1: "job_rows_ok db1" "jobs_of db1 = mem_modify ident g (jobs_of db)" by simp_all
    show ?thesis
    proof (cases notify)
      case None
      with Inr u \<open>fault_at env (tick db) = None\<close> job_commit_steps [OF assms(2) db1(1), of env] db1(2) show ?thesis
        by (auto simp: job_finish_def)
    next
      case (Some event)
      obtain q db2 where f: "fan_out env (we_event_type event) (we_body event) db1 = (q, db2)" by fastforce
      then have same: "import_job db2 = import_job db1" using fan_out_jobs by (metis snd_conv)
      with db1 same_job_rows [OF same] have db2: "job_rows_ok db2" "jobs_of db2 = mem_modify ident g (jobs_of db)" by simp_all
      with Some Inr u f None assms(2) job_commit_steps [OF assms(2) db2(1), of env] show ?thesis
        by (cases q) (auto simp: job_finish_def)
    qed
  qed
qed (use assms(2) in \<open>simp add: job_finish_def\<close>)

lemma as_i32_small: "n < 2 ^ 31 \<Longrightarrow> as_i32 n = int n"
  by (simp add: as_i32_def)

lemma job_insert_steps:
  assumes "job_rows_ok db" and "op_ok (OpInsert job)"
  shows "job_rows_ok (snd (job_insert env job db))"
    and "fst (job_insert env job db) = Inr () \<Longrightarrow> jobs_of (snd (job_insert env job db)) = mem_insert job (jobs_of db)"
    and "fst (job_insert env job db) = Inl e \<Longrightarrow> jobs_of (snd (job_insert env job db)) = jobs_of db"
proof -
  from assms(2) obtain ident total now where job: "job = new_job ident total now" "total < 2 ^ 31" by (auto simp: new_job_def)
  have row: "row_status (new_job_row job) = Some JobQueued" "row_to_job (new_job_row job) = Some job"
    using as_i32_small [OF job(2)] as_i32_small [of 0]
    by (simp_all add: job(1) new_job_row_def new_job_def row_status_def row_to_job_def split_status_def)
  have id_of: "ij_id (new_job_row job) = jb_id job" by (simp add: new_job_row_def)
  have "jobs_of (db\<lparr>import_job := import_job db @ [new_job_row job]\<rparr>) = mem_insert job (jobs_of db)"
    if "jb_id job \<notin> ij_id ` set (import_job db)"
  proof
    fix i
    show "jobs_of (db\<lparr>import_job := import_job db @ [new_job_row job]\<rparr>) i = mem_insert job (jobs_of db) i"
      using that row row_at_None [of ij_id "jb_id job" "import_job db"]
      by (cases "i = jb_id job"; cases "row_at ij_id i (import_job db)") (simp_all add: jobs_of_def mem_insert_def row_at_append id_of)
  qed
  with assms(1) row show "job_rows_ok (snd (job_insert env job db))"
    "fst (job_insert env job db) = Inr () \<Longrightarrow> jobs_of (snd (job_insert env job db)) = mem_insert job (jobs_of db)"
    "fst (job_insert env job db) = Inl e \<Longrightarrow> jobs_of (snd (job_insert env job db)) = jobs_of db"
    by (auto simp: job_insert_def job_rows_ok_def id_of split: option.splits if_splits)
qed

lemmas job_op_defs = job_set_status_def job_complete_def job_fail_def job_record_report_def mem_set_status_def mem_complete_def
  mem_fail_def mem_record_report_def

lemma pg_apply_steps:
  assumes "job_rows_ok db" and "op_ok op"
  shows "job_rows_ok (snd (pg_apply env op db)) \<and>
    (fst (pg_apply env op db) = Inr () \<longrightarrow> jobs_of (snd (pg_apply env op db)) = mem_apply op (jobs_of db)) \<and>
    (jobs_of (snd (pg_apply env op db)) = jobs_of db \<or> jobs_of (snd (pg_apply env op db)) = mem_apply op (jobs_of db))"
proof (cases op)
  case (OpInsert job)
  with job_insert_steps [of db job env] assms show ?thesis by (cases "fst (job_insert env job db)") simp_all
next
  case (OpStatus ident status)
  with job_update_steps [OF row_changes(1) assms(1), of env ident status] show ?thesis
    by (simp add: job_op_defs) (metis sum.exhaust old.unit.exhaust)
next
  case (OpComplete ident result notify)
  with job_finish_steps [OF row_changes(2) assms(1), of env ident result notify] show ?thesis by (simp add: job_op_defs)
next
  case (OpFail ident reason notify)
  with job_finish_steps [OF row_changes(3) assms(1), of env ident reason notify] show ?thesis by (simp add: job_op_defs)
next
  case (OpReport ident report)
  with job_update_steps [OF row_changes(4) assms(1), of env ident report] show ?thesis
    by (simp add: job_op_defs) (metis sum.exhaust old.unit.exhaust)
qed

interpretation pg_jobs: job_port job_rows_ok jobs_of "pg_apply env"
  by unfold_locales (use pg_apply_steps in blast)+

subsection \<open>Properties of the store\<close>


lemma fan_out_rows:
  assumes "fan_out env event_type body db = (Inr m, db')"
  shows "\<exists>rows. webhook_delivery db' = webhook_delivery db @ rows \<and>
    map wd_subscription_id rows = map ws_id (filter (subscribed event_type) (webhook_subscription db)) \<and>
    (\<forall>d \<in> set rows. wd_body d = body \<and> wd_status d = ''pending'')"
proof -
  let ?subs = "filter (subscribed event_type) (webhook_subscription db)"
  let ?rows = "map (\<lambda>(i, s). new_delivery (now_at env (tick db)) (uuid_at env (tick db) i) (ws_id s) event_type body)
    (zip [0..<length ?subs] ?subs)"
  have "webhook_delivery db' = webhook_delivery db @ ?rows"
    using assms by (auto simp: fan_out_def insert_deliveries_def Let_def split: option.splits if_splits)
  moreover have "map wd_subscription_id ?rows = map ws_id ?subs"
    by (rule nth_equalityI) (simp_all add: new_delivery_def)
  moreover have "\<forall>d \<in> set ?rows. wd_body d = body \<and> wd_status d = ''pending''" by (auto simp: new_delivery_def)
  ultimately show ?thesis by blast
qed

text \<open>
  Property C15 (safety). A job's end and the webhook deliveries that tell of it are one write: either neither is there or
  the job is completed and every subscriber of the event has its delivery.
\<close>

theorem completion_and_deliveries_together:
  assumes "job_complete env ident result (Some event) db = (r, db')"
  shows "(import_job db' = import_job db \<and> webhook_delivery db' = webhook_delivery db \<and> r \<noteq> Inr ()) \<or>
    (import_job db' = upd_where (\<lambda>r. ij_id r = ident) (completed_job_row result) (import_job db) \<and>
     (\<exists>rows. webhook_delivery db' = webhook_delivery db @ rows \<and>
        map wd_subscription_id rows = map ws_id (filter (subscribed (we_event_type event)) (webhook_subscription db)) \<and>
        (\<forall>d \<in> set rows. wd_body d = we_body event \<and> wd_status d = ''pending'')))"
proof -
  let ?upd = "upd_where (\<lambda>r. ij_id r = ident) (completed_job_row result) (import_job db)"
  show ?thesis
  proof (cases "fault_at env (tick db) = None \<and> fault_at env (tick db + 1) = None")
    case False
    with assms show ?thesis
      by (auto simp: job_complete_def job_finish_def job_update_def rolled_back_def split: option.splits)
  next
    case True
    define db1 where "db1 = bump ((bump db)\<lparr>import_job := ?upd\<rparr>)"
    obtain q db2 where f: "fan_out env (we_event_type event) (we_body event) db1 = (q, db2)" by fastforce
    have run: "(r, db') = (case q of Inl e \<Rightarrow> (Inl (dpp_to_sqlx env e), rolled_back db db2) | Inr _ \<Rightarrow> job_commit env db db2)"
      using True assms f by (simp add: job_complete_def job_finish_def job_update_def db1_def split: sum.splits)
    show ?thesis
    proof (cases q)
      case (Inl e)
      with run show ?thesis by (simp add: rolled_back_def)
    next
      case (Inr m)
      have rows: "import_job db2 = ?upd" "\<exists>rows. webhook_delivery db2 = webhook_delivery db @ rows \<and>
          map wd_subscription_id rows = map ws_id (filter (subscribed (we_event_type event)) (webhook_subscription db)) \<and>
          (\<forall>d \<in> set rows. wd_body d = we_body event \<and> wd_status d = ''pending'')"
        using fan_out_jobs [of env "we_event_type event" "we_body event" db1] fan_out_rows [of env _ _ db1] f Inr
        by (simp_all add: db1_def)
      from Inr run have "(import_job db' = import_job db \<and> webhook_delivery db' = webhook_delivery db \<and> r \<noteq> Inr ()) \<or>
          (import_job db' = import_job db2 \<and> webhook_delivery db' = webhook_delivery db2)"
        by (auto simp: job_commit_def rolled_back_def split: option.splits if_splits)
      with rows show ?thesis by auto
    qed
  qed
qed

text \<open>
  Property C39 (error). The cleanup of the database drops every old job, one that still runs included; the reference, and
  the description of the port, drop only finished ones.
\<close>

theorem cleanup_drops_running_job:
  assumes "job_rows_ok db" and "fault_at env (tick db) = None" and "jobs_of db ident = Some job"
    and "\<not> is_terminal (jb_status job)" and "jb_created_at job < utc_now - max_age"
  shows "jobs_of (job_cleanup env utc_now max_age db) ident = None \<and>
    mem_cleanup (utc_now - max_age) (jobs_of db) ident = Some job"
proof -
  from assms(3) obtain r where r: "row_at ij_id ident (import_job db) = Some r" "row_to_job r = Some job"
    by (auto simp: jobs_of_def bind_eq_Some_conv)
  have old: "ij_created_at r < utc_now - max_age" using r(2) assms(5) by (auto simp: row_to_job_def)
  have "row_at ij_id ident (filter (\<lambda>r. \<not> ij_created_at r < utc_now - max_age) (import_job db)) = None"
    using assms(1) r(1) old by (auto simp: row_at_None job_rows_ok_def row_at_iff distinct_map inj_on_def)
  with assms show ?thesis by (simp add: job_cleanup_def jobs_of_def mem_cleanup_def)
qed

definition sample_job_db :: odal where
  "sample_job_db = snd (job_insert sample_env (new_job 7 3 0) empty_db)"


theorem completion_and_deliveries_together_witness:
  "fst (job_complete sample_env 7 \<lparr>br_created = [], br_updated = [], br_errors = []\<rparr>
      (Some \<lparr>we_event_type = ''e'', we_body = ''b''\<rparr>) sample_job_db) = Inr () \<and>
   import_job (snd (job_complete sample_env 7 \<lparr>br_created = [], br_updated = [], br_errors = []\<rparr>
      (Some \<lparr>we_event_type = ''e'', we_body = ''b''\<rparr>) sample_job_db)) =
     upd_where (\<lambda>r. ij_id r = 7) (completed_job_row \<lparr>br_created = [], br_updated = [], br_errors = []\<rparr>) (import_job sample_job_db)"
proof -
  let ?br = "\<lparr>br_created = [], br_updated = [], br_errors = []\<rparr>" and ?ev = "\<lparr>we_event_type = ''e'', we_body = ''b''\<rparr>"
  obtain r db' where run: "job_complete sample_env 7 ?br (Some ?ev) sample_job_db = (r, db')" by fastforce
  have "r = Inr ()"
    using run by (simp add: job_complete_def job_finish_def job_update_def job_commit_def fan_out_def insert_deliveries_def
        sample_job_db_def job_insert_def empty_db_def Let_def)
  with completion_and_deliveries_together [OF run] run show ?thesis by auto
qed

theorem cleanup_drops_running_job_witness:
  "jobs_of sample_job_db 7 = Some (new_job 7 3 0) \<and> jobs_of (job_cleanup sample_env 100 50 sample_job_db) 7 = None \<and>
   mem_cleanup (100 - 50) (jobs_of sample_job_db) 7 = Some (new_job 7 3 0)"
proof -
  have job: "jobs_of sample_job_db 7 = Some (new_job 7 3 0)" "job_rows_ok sample_job_db"
    by (simp_all add: jobs_of_def sample_job_db_def job_insert_def empty_db_def new_job_row_def new_job_def row_to_job_def
        row_status_def split_status_def as_i32_def job_rows_ok_def)
  have "fault_at sample_env (tick sample_job_db) = None" "\<not> is_terminal (jb_status (new_job 7 3 0))"
    "jb_created_at (new_job 7 3 0) < 100 - 50"
    by (simp_all add: new_job_def is_terminal_def)
  from cleanup_drops_running_job [OF job(2) this(1) job(1) this(2,3)] job(1) show ?thesis by blast
qed

end
