(* ===== verification/Import_Handler.thy ===== *)
theory Import_Handler
  imports Import_File Import_Jobs Auth_Types
begin

text \<open>
  The import route (\<^verbatim>\<open>import_file\<close> of \<^verbatim>\<open>dpp-integrator/src/handlers/import.rs\<close>), the task it starts for a
  large file, and the job status route (\<^verbatim>\<open>handlers/job_status.rs\<close>), over the parts before: upload and
  parsers, validators, matcher, batch runner and the PostgreSQL job store. An answer of \<open>None\<close> is a
  panic of the handler. What the route did besides is in \<open>import_effects\<close>: the events it published
  and the requests it sent to the vault.
\<close>

subsection \<open>Responses\<close>

record CreatedEntry =
  ce_row :: nat
  ce_passport_id :: string
  ce_status :: string

record UpdatedEntry =
  ue_row :: nat
  ue_passport_id :: string

type_synonym ErrorEntry = RowError

record SyncImportResponse =
  si_job_id :: uuid
  si_total_rows :: nat
  si_success_count :: nat
  si_error_count :: nat
  si_created :: "CreatedEntry list"
  si_updated :: "UpdatedEntry list"
  si_errors :: "ErrorEntry list"

record AsyncImportResponse =
  ai_job_id :: uuid
  ai_status :: string
  ai_total_rows :: nat

datatype import_answer = SyncAnswer SyncImportResponse | AsyncAnswer AsyncImportResponse

record LintFinding =
  lf_field :: string
  lf_message :: string
  lf_severity :: string

record import_libs =
  il_rows :: row_libs
  il_match :: match_libs
  il_csv :: "char \<Rightarrow> string \<Rightarrow> csv_doc"
  il_xl :: xl_libs
  il_lint :: "ProductGroupData \<Rightarrow> LintFinding list"
  il_lookup :: "nat \<Rightarrow> vault_answer"
  il_send :: "nat \<Rightarrow> nat \<Rightarrow> vault_answer"
  il_event_text :: "string \<Rightarrow> json \<Rightarrow> string option"

record import_effects =
  fx_events :: "(string \<times> json) list"
  fx_steps :: "(nat \<times> vault_step) list"

definition no_effects :: import_effects where
  "no_effects = \<lparr>fx_events = [], fx_steps = []\<rparr>"

definition SYNC_THRESHOLD :: nat where
  "SYNC_THRESHOLD = 100"

subsection \<open>Validation of the file\<close>

definition unknown_group :: "string \<Rightarrow> 'a reply" where
  "unknown_group product_group = Refusal 404 (''Unknown product_group: '' @ [CHR 0x27] @ product_group @ [CHR 0x27] @
     ''. Valid values: '' @ str_join '', '' importable_keys @ ''.'')"

text \<open>Every row in turn; the left result is the unsupported product group.\<close>

fun validate_rows ::
    "row_libs \<Rightarrow> string \<Rightarrow> nat \<Rightarrow> csv_row list \<Rightarrow> (unit + (nat \<times> import_row) list \<times> ErrorEntry list) option" where
  "validate_rows lib product_group row_num [] = Some (Inr ([], []))"
| "validate_rows lib product_group row_num (raw_row # rest) =
     (case validate_row lib product_group raw_row row_num of
        None \<Rightarrow> None
      | Some (Inl UnsupportedProductGroup) \<Rightarrow> Some (Inl ())
      | Some (Inl (InvalidRow errs)) \<Rightarrow>
          map_option (map_sum (\<lambda>u. u) (\<lambda>(valid, errors). (valid, errs @ errors))) (validate_rows lib product_group (row_num + 1) rest)
      | Some (Inr req) \<Rightarrow>
          map_option (map_sum (\<lambda>u. u) (\<lambda>(valid, errors). ((row_num, req) # valid, errors)))
            (validate_rows lib product_group (row_num + 1) rest))"

definition lint_findings :: "(ProductGroupData \<Rightarrow> LintFinding list) \<Rightarrow> (nat \<times> import_row) list \<Rightarrow> nat \<rightharpoonup> RowFinding list" where
  "lint_findings lint valid_rows =
     map_of (List.map_filter (\<lambda>(row_num, req).
       case cp_product_group_data req of
         None \<Rightarrow> None
       | Some sd \<Rightarrow>
           if lint sd = [] then None
           else Some (row_num, map (\<lambda>f. \<lparr>rf_kind = FindingLint, rf_field = lf_field f, rf_message = lf_message f,
                  rf_severity = Some (lf_severity f)\<rparr>) (lint sd))) valid_rows)"

definition validation_finding :: "ErrorEntry \<Rightarrow> RowFinding" where
  "validation_finding e = \<lparr>rf_kind = FindingValidation, rf_field = er_field e, rf_message = er_message e, rf_severity = None\<rparr>"

definition build_report_rows ::
    "nat \<Rightarrow> (nat \<times> import_row) list \<Rightarrow> ErrorEntry list \<Rightarrow> (nat \<rightharpoonup> RowFinding list) \<Rightarrow> (nat \<rightharpoonup> Classification) \<Rightarrow> ReportRow list" where
  "build_report_rows total_rows valid_rows row_errors lint classifications =
     map (\<lambda>row.
       \<lparr>rr_row = row, rr_valid = (row \<in> fst ` set valid_rows), rr_action = map_option cl_action (classifications row),
        rr_existing_passport_id = Option.bind (classifications row) cl_existing_id,
        rr_findings = map validation_finding (filter (\<lambda>e. er_row e = row) row_errors) @
          (case lint row of Some fs \<Rightarrow> fs | None \<Rightarrow> [])\<rparr>)
       [1..<total_rows + 1]"

subsection \<open>The end of a job\<close>

record JobSummary =
  js_job_id :: uuid
  js_product_group :: string
  js_total_rows :: nat

definition webhook_of :: "import_libs \<Rightarrow> string \<Rightarrow> json \<Rightarrow> WebhookEvent option" where
  "webhook_of lib subject data = map_option (\<lambda>body. \<lparr>we_event_type = subject, we_body = body\<rparr>) (il_event_text lib subject data)"

definition IMPORT_COMPLETED :: string where
  "IMPORT_COMPLETED = ''dpp.import.completed''"

definition IMPORT_FAILED :: string where
  "IMPORT_FAILED = ''dpp.import.failed''"

definition json_nat :: "nat \<Rightarrow> json" where
  "json_nat n = JNum (show_nat n)"

definition failed_data :: "pg_env \<Rightarrow> JobSummary \<Rightarrow> string \<Rightarrow> json" where
  "failed_data env summary reason =
     JObj [(''jobId'', JStr (fmt_uuid env (js_job_id summary))), (''productGroup'', JStr (js_product_group summary)),
       (''reason'', JStr reason), (''totalRows'', json_nat (js_total_rows summary))]"

text \<open>The event goes out whether or not the failure could be recorded.\<close>

definition fail_job :: "import_libs \<Rightarrow> pg_env \<Rightarrow> JobSummary \<Rightarrow> string \<Rightarrow> odal \<Rightarrow> (string \<times> json) list \<times> odal" where
  "fail_job lib env summary reason db =
     (let data = failed_data env summary reason in
      ([(IMPORT_FAILED, data)], snd (job_fail env (js_job_id summary) reason (webhook_of lib IMPORT_FAILED data) db)))"

definition completed_data :: "pg_env \<Rightarrow> JobSummary \<Rightarrow> BatchResult \<Rightarrow> nat \<Rightarrow> json" where
  "completed_data env summary batch failed_rows =
     JObj [(''created'', json_nat (length (br_created batch))), (''failedRows'', json_nat failed_rows),
       (''jobId'', JStr (fmt_uuid env (js_job_id summary))), (''productGroup'', JStr (js_product_group summary)),
       (''totalRows'', json_nat (js_total_rows summary)), (''updated'', json_nat (length (br_updated batch)))]"

definition complete_job ::
    "import_libs \<Rightarrow> pg_env \<Rightarrow> JobSummary \<Rightarrow> BatchResult \<Rightarrow> nat set \<Rightarrow> odal \<Rightarrow> (string \<times> json) list \<times> odal" where
  "complete_job lib env summary batch rejected_before_the_batch db =
     (let failed_rows = rejected_before_the_batch \<union> er_row ` set (br_errors batch);
          data = completed_data env summary batch (card failed_rows)
      in case job_complete env (js_job_id summary) batch (webhook_of lib IMPORT_COMPLETED data) db of
           (Inr _, db') \<Rightarrow> ([(IMPORT_COMPLETED, data)], db')
         | (Inl e, db') \<Rightarrow>
             fail_job lib env summary (''the import ran, but its result could not be recorded: '' @ fmt_sqlx env e) db')"

definition batch_panicked :: string where
  "batch_panicked = ''the import stopped before it finished: its batch panicked''"

definition run_to_outcome :: "BatchResult option \<Rightarrow> string + BatchResult" where
  "run_to_outcome batch = (case batch of Some result \<Rightarrow> Inr result | None \<Rightarrow> Inl batch_panicked)"

definition batch_result_into_entries :: "BatchResult \<Rightarrow> CreatedEntry list \<times> UpdatedEntry list \<times> ErrorEntry list" where
  "batch_result_into_entries result =
     (map (\<lambda>c. \<lparr>ce_row = ci_row c, ce_passport_id = ci_passport_id c, ce_status = ''draft''\<rparr>) (br_created result),
      map (\<lambda>u. \<lparr>ue_row = ui_row u, ue_passport_id = ui_passport_id u\<rparr>) (br_updated result),
      br_errors result)"

text \<open>Subtraction of a \<^verbatim>\<open>usize\<close>, as a release build performs it.\<close>

definition usize_sub :: "nat \<Rightarrow> nat \<Rightarrow> nat" where
  "usize_sub a b = (a + 2 ^ 64 - b) mod 2 ^ 64"

subsection \<open>The route\<close>

record import_task =
  tk_summary :: JobSummary
  tk_valid_rows :: "(nat \<times> import_row) list"
  tk_classifications :: "nat \<rightharpoonup> Classification"
  tk_rejected :: "nat set"

definition sync_import ::
    "import_libs \<Rightarrow> pg_env \<Rightarrow> import_task \<Rightarrow> ErrorEntry list \<Rightarrow> odal \<Rightarrow> import_answer reply \<times> import_effects \<times> odal" where
  "sync_import lib env task row_errors db =
     (case run_batch (il_send lib) (tk_classifications task) (tk_valid_rows task) of
        (batch, steps) \<Rightarrow>
          (case run_to_outcome batch of
             Inl reason \<Rightarrow>
               (case fail_job lib env (tk_summary task) reason db of
                  (events, db') \<Rightarrow> (Refusal 500 reason, \<lparr>fx_events = events, fx_steps = steps\<rparr>, db'))
           | Inr batch \<Rightarrow>
               (case batch_result_into_entries batch of
                  (created, updated, batch_errors) \<Rightarrow>
                    let all_errors = row_errors @ batch_errors;
                        failed_rows = er_row ` set all_errors;
                        total_rows = js_total_rows (tk_summary task)
                    in case complete_job lib env (tk_summary task) batch (tk_rejected task) db of
                         (events, db') \<Rightarrow>
                           (Answer (SyncAnswer \<lparr>si_job_id = js_job_id (tk_summary task), si_total_rows = total_rows,
                              si_success_count = usize_sub total_rows (card failed_rows), si_error_count = card failed_rows,
                              si_created = created, si_updated = updated, si_errors = all_errors\<rparr>),
                            \<lparr>fx_events = events, fx_steps = steps\<rparr>, db'))))"

text \<open>The background task of a large file.\<close>

definition async_import :: "import_libs \<Rightarrow> pg_env \<Rightarrow> import_task \<Rightarrow> odal \<Rightarrow> import_effects \<times> odal" where
  "async_import lib env task db =
     (let db1 = snd (job_set_status env (js_job_id (tk_summary task)) JobProcessing db) in
      case run_batch (il_send lib) (tk_classifications task) (tk_valid_rows task) of
        (batch, steps) \<Rightarrow>
          (case (case run_to_outcome batch of
                   Inr batch \<Rightarrow> complete_job lib env (tk_summary task) batch (tk_rejected task) db1
                 | Inl reason \<Rightarrow> fail_job lib env (tk_summary task) reason db1) of
             (events, db2) \<Rightarrow> (\<lparr>fx_events = events, fx_steps = steps\<rparr>, db2)))"

text \<open>After the job is there: lint, match, report, and the dry run, the batch or the task.\<close>

definition import_job_body ::
    "import_libs \<Rightarrow> pg_env \<Rightarrow> ImportMode \<Rightarrow> JobSummary \<Rightarrow> (nat \<times> import_row) list \<Rightarrow> ErrorEntry list \<Rightarrow> odal \<Rightarrow>
     import_answer reply \<times> import_task option \<times> import_effects \<times> odal" where
  "import_job_body lib env mode summary valid_rows row_errors db =
     (let classifications = classify_batch (il_match lib) (il_lookup lib) valid_rows;
          report = \<lparr>ir_mode = mode, ir_total_rows = js_total_rows summary,
            ir_rows = build_report_rows (js_total_rows summary) valid_rows row_errors (lint_findings (il_lint lib) valid_rows) classifications\<rparr>;
          db1 = snd (job_record_report env (js_job_id summary) report db);
          task = \<lparr>tk_summary = summary, tk_valid_rows = valid_rows, tk_classifications = classifications,
            tk_rejected = er_row ` set row_errors\<rparr>
      in if mode = DryRun then
           (Answer (SyncAnswer \<lparr>si_job_id = js_job_id summary, si_total_rows = js_total_rows summary, si_success_count = 0,
              si_error_count = length row_errors, si_created = [], si_updated = [], si_errors = row_errors\<rparr>), None, no_effects,
            snd (job_set_status env (js_job_id summary) JobCompleted db1))
         else if length valid_rows \<le> SYNC_THRESHOLD then
           (case sync_import lib env task row_errors db1 of (answer, effects, db2) \<Rightarrow> (answer, None, effects, db2))
         else (Answer (AsyncAnswer \<lparr>ai_job_id = js_job_id summary, ai_status = ''queued'', ai_total_rows = js_total_rows summary\<rparr>),
               Some task, no_effects, db1))"

definition parse_upload :: "import_libs \<Rightarrow> Upload \<Rightarrow> string \<Rightarrow> 'a reply + csv_row list" where
  "parse_upload lib up bytes =
     (if up_is_xlsx up
      then (case parse_xlsx (il_xl lib) bytes of Inr rows \<Rightarrow> Inr rows | Inl e \<Rightarrow> Inl (Refusal 422 (''XLSX parse error: '' @ parse_error_text e)))
      else (case parse_csv (il_csv lib) bytes of Inr rows \<Rightarrow> Inr rows | Inl e \<Rightarrow> Inl (Refusal 422 (''CSV parse error: '' @ parse_error_text e))))"

definition import_rows ::
    "import_libs \<Rightarrow> pg_env \<Rightarrow> uuid \<Rightarrow> time \<Rightarrow> string \<Rightarrow> ImportMode \<Rightarrow> csv_row list \<Rightarrow> odal \<Rightarrow>
     import_answer reply option \<times> import_task option \<times> import_effects \<times> odal" where
  "import_rows lib env job_id utc_now product_group mode raw_rows db =
     (case validate_rows (il_rows lib) product_group 1 raw_rows of
        None \<Rightarrow> (None, None, no_effects, db)
      | Some (Inl _) \<Rightarrow>
          (Some (Refusal 404 (''Unknown product_group: '' @ [CHR 0x27] @ product_group @ [CHR 0x27] @ ''.'')), None, no_effects, db)
      | Some (Inr (validated_rows, validation_errors)) \<Rightarrow>
          (case refuse_repeated_carrier_serials (il_match lib) validated_rows of
             (valid_rows, repeated) \<Rightarrow>
               let row_errors = validation_errors @ repeated; total_rows = length raw_rows in
               (case job_insert env (new_job job_id total_rows utc_now) db of
                  (Inl e, db') \<Rightarrow>
                    (Some (Refusal 500 ''Could not create the import job. Please retry.''), None, no_effects, db')
                | (Inr _, db') \<Rightarrow>
                    (case import_job_body lib env mode
                            \<lparr>js_job_id = job_id, js_product_group = product_group, js_total_rows = total_rows\<rparr> valid_rows row_errors db' of
                       (answer, task, effects, db2) \<Rightarrow> (Some answer, task, effects, db2)))))"

definition import_file ::
    "import_libs \<Rightarrow> pg_env \<Rightarrow> uuid \<Rightarrow> time \<Rightarrow> string \<Rightarrow> (string + Field) list \<Rightarrow> odal \<Rightarrow>
     import_answer reply option \<times> import_task option \<times> import_effects \<times> odal" where
  "import_file lib env job_id utc_now product_group parts db =
     (if \<not> is_importable product_group then (Some (unknown_group product_group), None, no_effects, db)
      else (case read_upload parts of
              Inl message \<Rightarrow> (Some (Refusal 400 message), None, no_effects, db)
            | Inr up \<Rightarrow>
                (case up_file_bytes up of
                   None \<Rightarrow>
                     (Some (Refusal 400 (''Request must include a '' @ [CHR 0x27] @ ''file'' @ [CHR 0x27] @ '' field in the multipart body.'')),
                      None, no_effects, db)
                 | Some bytes \<Rightarrow>
                     (case parse_upload lib up bytes of
                        Inl refusal \<Rightarrow> (Some refusal, None, no_effects, db)
                      | Inr raw_rows \<Rightarrow>
                          if raw_rows = [] then
                            (Some (Refusal 422 ''The uploaded file contains no data rows.''), None, no_effects, db)
                          else import_rows lib env job_id utc_now product_group (up_mode up) raw_rows db))))"

subsection \<open>Admission\<close>

text \<open>
  \<^verbatim>\<open>dpp-integrator/src/admission.rs\<close>: what the multipart extractor says of the headers, the answer of
  the vault about the token, a free slot, and the upload within its deadline and size.
\<close>

definition IMPORT_BODY_LIMIT :: nat where
  "IMPORT_BODY_LIMIT = 5 * 1024 * 1024"

datatype upload_read = UploadRead | UploadFailed string | UploadTimedOut

definition strip_scheme :: "string \<Rightarrow> string \<Rightarrow> string option" where
  "strip_scheme pfx s = (if take (length pfx) s = pfx then Some (drop (length pfx) s) else None)"

definition extract_bearer_token :: "string option \<Rightarrow> string option" where
  "extract_bearer_token authorization =
     Option.bind authorization (\<lambda>s. case strip_scheme ''Bearer '' s of Some t \<Rightarrow> Some t | None \<Rightarrow> strip_scheme ''bearer '' s)"

text \<open>The vault's answer to an authenticated read of one passport decides about the token.\<close>

definition verify_token :: "(string \<Rightarrow> vault_answer) \<Rightarrow> string \<Rightarrow> bool" where
  "verify_token list_one token \<longleftrightarrow> token \<noteq> [] \<and> (case list_one token of Answered s _ \<Rightarrow> is_success s | NoAnswer _ \<Rightarrow> False)"

definition admit_import ::
    "'a reply option \<Rightarrow> (string \<Rightarrow> vault_answer) \<Rightarrow> string option \<Rightarrow> nat \<Rightarrow> upload_read \<Rightarrow> 'a reply + string" where
  "admit_import unusable_headers list_one authorization free_slots upload =
     (case unusable_headers of
        Some refusal \<Rightarrow> Inl refusal
      | None \<Rightarrow>
          (case extract_bearer_token authorization of
             None \<Rightarrow> Inl (Refusal 401 ''Missing or empty Authorization: Bearer token.'')
           | Some token \<Rightarrow>
               if token = [] then Inl (Refusal 401 ''Missing or empty Authorization: Bearer token.'')
               else if \<not> verify_token list_one token then Inl (Refusal 401 ''Invalid or unauthorized Authorization: Bearer token.'')
               else if free_slots = 0 then
                 Inl (Refusal 429 ''This node is already running as many imports as it allows. Retry once one has finished.'')
               else (case upload of
                       UploadRead \<Rightarrow> Inr token
                     | UploadFailed e \<Rightarrow> Inl (Refusal 400 (''Failed to read uploaded file: '' @ e))
                     | UploadTimedOut \<Rightarrow> Inl (Refusal 400 ''Failed to read uploaded file: it did not arrive within 120 seconds.''))))"

subsection \<open>The job status route\<close>

record JobStatusResponse =
  jr_job_id :: uuid
  jr_status :: string
  jr_processed :: nat
  jr_total :: nat
  jr_result :: "(string, BatchResult) sum option"
  jr_report :: "ImportReport option"

text \<open>The result of a failed job is its reason, on the left.\<close>

definition job_status_response :: "ImportJob \<Rightarrow> JobStatusResponse" where
  "job_status_response job =
     (case (case jb_status job of
              JobQueued \<Rightarrow> (''queued'', None)
            | JobProcessing \<Rightarrow> (''processing'', None)
            | JobCompleted \<Rightarrow> (''completed'', map_option Inr (jb_result job))
            | JobFailed reason \<Rightarrow> (''failed'', Some (Inl reason))) of
        (status, result) \<Rightarrow>
          \<lparr>jr_job_id = jb_id job, jr_status = status, jr_processed = jb_processed job, jr_total = jb_total_rows job,
           jr_result = result, jr_report = jb_report job\<rparr>)"

definition get_job_status ::
    "(string \<Rightarrow> vault_answer) \<Rightarrow> (string \<Rightarrow> uuid option) \<Rightarrow> pg_env \<Rightarrow> string option \<Rightarrow> string \<Rightarrow> odal \<Rightarrow> JobStatusResponse reply \<times> odal" where
  "get_job_status list_one parse_uuid env authorization job_id db =
     (let token = (case extract_bearer_token authorization of Some t \<Rightarrow> t | None \<Rightarrow> []) in
      if \<not> verify_token list_one token then (Refusal 401 ''Unauthorized.'', db)
      else (case parse_uuid job_id of
              None \<Rightarrow> (Refusal 400 ''Invalid job ID format.'', db)
            | Some ident \<Rightarrow>
                (case job_get env ident db of
                   (None, db') \<Rightarrow> (Refusal 404 ''Job not found.'', db')
                 | (Some job, db') \<Rightarrow> (Answer (job_status_response job), db'))))"

subsection \<open>Every row in one place\<close>

lemma validate_rows_total:
  assumes "is_importable g"
  shows "\<exists>valid errors. validate_rows lib g n raw = Some (Inr (valid, errors))"
proof (induction raw arbitrary: n)
  case (Cons row raw)
  then obtain valid errors where "validate_rows lib g (n + 1) raw = Some (Inr (valid, errors))" by blast
  moreover obtain v where "validate_row lib g row n = Some v" "v \<noteq> Inl UnsupportedProductGroup"
    using validate_row_judged [of lib g row n] assms by auto
  ultimately show ?case by (cases v; cases "projl v") simp_all
qed simp

text \<open>The accepted and the refused rows of a file: together all of them, and none twice.\<close>

definition splits_rows :: "nat \<Rightarrow> nat \<Rightarrow> (nat \<times> import_row) list \<Rightarrow> ErrorEntry list \<Rightarrow> bool" where
  "splits_rows n m valid errors \<longleftrightarrow> distinct (map fst valid) \<and> fst ` set valid \<inter> er_row ` set errors = {} \<and>
     fst ` set valid \<union> er_row ` set errors = {n..<m}"

lemma splits_rowsD:
  assumes "splits_rows n m valid errors"
  shows "x \<in> fst ` set valid \<Longrightarrow> n \<le> x \<and> x < m" and "x \<in> er_row ` set errors \<Longrightarrow> n \<le> x \<and> x < m"
    and "n \<le> x \<Longrightarrow> x < m \<Longrightarrow> x \<in> fst ` set valid \<longleftrightarrow> x \<notin> er_row ` set errors" and "distinct (map fst valid)"
proof -
  note s = assms [unfolded splits_rows_def]
  have sub: "fst ` set valid \<subseteq> {n..<m}" "er_row ` set errors \<subseteq> {n..<m}" using s by blast+
  show "n \<le> x \<and> x < m" if "x \<in> fst ` set valid" using subsetD [OF sub(1) that] by simp
  show "n \<le> x \<and> x < m" if "x \<in> er_row ` set errors" using subsetD [OF sub(2) that] by simp
  show "x \<in> fst ` set valid \<longleftrightarrow> x \<notin> er_row ` set errors" if "n \<le> x" "x < m"
  proof -
    have "x \<in> {n..<m}" using that by simp
    then show ?thesis using s by blast
  qed
  show "distinct (map fst valid)" using s by blast
qed

lemma validate_rows_split:
  assumes "validate_rows lib g n raw = Some (Inr (valid, errors))"
  shows "splits_rows n (n + length raw) valid errors"
  using assms
proof (induction raw arbitrary: n valid errors)
  case (Cons row raw)
  obtain v where v: "validate_row lib g row n = Some v" "v \<noteq> Inl UnsupportedProductGroup"
    using Cons.prems by (auto split: option.splits sum.splits RowValidationError.splits)
  obtain valid' errors' where rest: "validate_rows lib g (n + 1) raw = Some (Inr (valid', errors'))"
    using Cons.prems v
    by (cases "validate_rows lib g (n + 1) raw"; cases "the (validate_rows lib g (n + 1) raw)"; cases v; cases "projl v") auto
  have ih: "splits_rows (n + 1) (n + 1 + length raw) valid' errors'" using Cons.IH [OF rest] .
  have range: "{n..<n + length (row # raw)} = insert n {n + 1..<n + 1 + length raw}" by auto
  have fresh: "n \<notin> fst ` set valid'" "n \<notin> er_row ` set errors'" using splits_rowsD(1,2) [OF ih, of n] by auto
  show ?case
  proof (cases v)
    case (Inr req)
    with Cons.prems v rest have "valid = (n, req) # valid'" "errors = errors'" by simp_all
    with ih fresh range show ?thesis by (auto simp: splits_rows_def)
  next
    case (Inl e)
    with v obtain es where e: "e = InvalidRow es" by (cases e) auto
    with v Inl have "es \<noteq> [] \<and> (\<forall>x \<in> set es. er_row x = n)" using validate_row_judged [of lib g row n] by auto
    then have "er_row ` set es = {n}" by (cases es) auto
    moreover from Cons.prems v rest Inl e have "valid = valid'" "errors = es @ errors'" by simp_all
    ultimately show ?thesis using ih fresh range by (simp add: splits_rows_def image_Un)
  qed
qed (simp add: splits_rows_def)

lemma move_between_parts:
  "K \<union> R = V \<Longrightarrow> K \<inter> R = {} \<Longrightarrow> V \<inter> E = {} \<Longrightarrow> V \<union> E = S \<Longrightarrow> K \<inter> (E \<union> R) = {} \<and> K \<union> (E \<union> R) = S"
  by blast

lemma refuse_keeps_split:
  assumes "splits_rows n m valid errors" and "refuse_repeated_carrier_serials lib valid = (kept, refused)"
  shows "splits_rows n m kept (errors @ refused)"
proof -
  have loop: "refuse_loop lib Map.empty valid = (kept, refused)" using assms(2) by (simp add: refuse_repeated_carrier_serials_def)
  then have all: "mset (map fst kept @ map er_row refused) = mset (map fst valid)" using refuse_loop_splits by fastforce
  have "distinct (map fst kept @ map er_row refused)"
    using assms(1) all by (metis mset_eq_imp_distinct_iff splits_rows_def)
  moreover have "fst ` set kept \<union> er_row ` set refused = fst ` set valid"
    using mset_eq_setD [OF all] by simp
  ultimately show ?thesis
    using assms(1) move_between_parts [of "fst ` set kept" "er_row ` set refused" "fst ` set valid" "er_row ` set errors" "{n..<m}"]
    by (simp add: splits_rows_def image_Un)
qed

lemma report_rows_valid:
  assumes "splits_rows 1 (k + 1) valid errors" and "distinct (map fst valid)"
    and "r \<in> set (build_report_rows k valid errors (lint_findings lint valid) (classify_batch lib lookup valid))"
  shows "rr_valid r \<longleftrightarrow> FindingValidation \<notin> rf_kind ` set (rr_findings r)" and "rr_action r \<noteq> None \<longleftrightarrow> rr_valid r"
proof -
  from assms(3) obtain row where row: "1 \<le> row" "row \<le> k"
    and r: "rr_valid r = (row \<in> fst ` set valid)" "rr_action r = map_option cl_action (classify_batch lib lookup valid row)"
      "rr_findings r = map validation_finding (filter (\<lambda>e. er_row e = row) errors) @
        (case lint_findings lint valid row of Some fs \<Rightarrow> fs | None \<Rightarrow> [])"
    by (auto simp: build_report_rows_def)
  have "FindingValidation \<notin> rf_kind ` set fs" if "lint_findings lint valid row = Some fs" for fs
    using map_of_SomeD [OF that [unfolded lint_findings_def]]
    by (auto simp: List.map_filter_def split: option.splits if_splits)
  then have "FindingValidation \<notin> rf_kind ` set (case lint_findings lint valid row of Some fs \<Rightarrow> fs | None \<Rightarrow> [])"
    by (cases "lint_findings lint valid row") auto
  moreover have "FindingValidation \<in> rf_kind ` set (map validation_finding (filter (\<lambda>e. er_row e = row) errors)) \<longleftrightarrow> row \<in> er_row ` set errors"
    by (auto simp: validation_finding_def image_image)
  ultimately have "FindingValidation \<in> rf_kind ` set (rr_findings r) \<longleftrightarrow> row \<in> er_row ` set errors"
    unfolding r(3) by (simp only: set_append image_Un Un_iff simp_thms)
  moreover have "row \<in> fst ` set valid \<longleftrightarrow> row \<notin> er_row ` set errors" using splits_rowsD(3) [OF assms(1), of row] row by simp
  ultimately show "rr_valid r \<longleftrightarrow> FindingValidation \<notin> rf_kind ` set (rr_findings r)" unfolding r(1) by blast
  have "dom (classify_batch lib lookup valid) = fst ` set valid"
    unfolding classify_batch_def dom_map_of_conv_image_fst by (simp add: image_image split_beta)
  then show "rr_action r \<noteq> None \<longleftrightarrow> rr_valid r" unfolding r(1,2) by (auto simp: dom_def set_eq_iff)
qed

subsection \<open>What the route promises\<close>

lemma import_rows_cases:
  assumes "is_importable g" and "import_rows lib env job_id now g mode raw db = (answer, task, effects, db')"
  obtains (refused) db1 e where "job_insert env (new_job job_id (length raw) now) db = (Inl e, db1)"
      "answer = Some (Refusal 500 ''Could not create the import job. Please retry.'')" "task = None" "effects = no_effects" "db' = db1"
  | (run) valid errors db1 reply where "splits_rows 1 (length raw + 1) valid errors"
      "job_insert env (new_job job_id (length raw) now) db = (Inr (), db1)" "answer = Some reply"
      "import_job_body lib env mode \<lparr>js_job_id = job_id, js_product_group = g, js_total_rows = length raw\<rparr> valid errors db1 =
        (reply, task, effects, db')"
proof -
  obtain valid0 errors0 where v: "validate_rows (il_rows lib) g 1 raw = Some (Inr (valid0, errors0))"
    using validate_rows_total [OF assms(1)] by blast
  obtain valid repeated where r: "refuse_repeated_carrier_serials (il_match lib) valid0 = (valid, repeated)" by fastforce
  have split: "splits_rows 1 (length raw + 1) valid (errors0 @ repeated)"
    using refuse_keeps_split [OF validate_rows_split [OF v] r] by simp
  obtain res db1 where ins: "job_insert env (new_job job_id (length raw) now) db = (res, db1)" by fastforce
  show thesis
  proof (cases res)
    case (Inl e)
    with assms(2) v r ins show ?thesis by (intro refused) (auto simp: import_rows_def Let_def)
  next
    case (Inr u)
    obtain reply task' effects' db2 where body: "import_job_body lib env mode \<lparr>js_job_id = job_id, js_product_group = g, js_total_rows = length raw\<rparr>
        valid (errors0 @ repeated) db1 = (reply, task', effects', db2)" by (metis prod_cases4)
    with assms(2) v r ins Inr have "answer = Some reply" "task = task'" "effects = effects'" "db' = db2"
      by (simp_all add: import_rows_def Let_def)
    with body split ins Inr show ?thesis by (intro run [of valid "errors0 @ repeated"]) simp_all
  qed
qed

lemma run_batch_error_rows:
  assumes "run_batch answer cls rows = (Some br, steps)"
  shows "er_row ` set (br_errors br) \<subseteq> fst ` set rows"
proof -
  obtain outcomes where run: "run_rows answer cls (filter (row_is_run cls) rows) = (Some outcomes, steps)"
    and br: "br = collect_outcomes outcomes \<lparr>br_created = [], br_updated = [], br_errors = []\<rparr>"
    using assms run_batch_SomeD by metis
  have order: "map fst outcomes = map fst (filter (row_is_run cls) rows)" using run run_rows_order [of answer cls] by simp
  have "mset (map er_row (br_errors br)) \<subseteq># mset (map fst outcomes)"
    using collect_outcomes_rows [of outcomes "\<lparr>br_created = [], br_updated = [], br_errors = []\<rparr>"] unfolding br
    by (metis mset_subset_eq_add_right add.left_neutral image_mset_empty list.simps(8) mset.simps(1) BatchResult.select_convs(1,2,3) mset_map)
  then have "set (map er_row (br_errors br)) \<subseteq> set (map fst outcomes)" by (metis set_mset_mono set_mset_mset)
  with order show ?thesis by (auto simp: image_subset_iff)
qed

lemma usize_sub_le: "b \<le> a \<Longrightarrow> a < 2 ^ 64 \<Longrightarrow> usize_sub a b = a - b"
proof -
  assume le: "b \<le> a" and small: "a < 2 ^ 64"
  have "a + 2 ^ 64 - b = (a - b) + 2 ^ 64" using le by simp
  moreover have "a - b < 2 ^ 64" using small by simp
  ultimately show ?thesis unfolding usize_sub_def by (metis mod_add_self2 mod_less)
qed

text \<open>
  Property C23 (bounds). The counts of a synchronous import are counts of rows: the failed rows are those the errors
  name, the others succeeded, and the subtraction never wraps around.
\<close>

theorem import_counts_rows:
  assumes "is_importable g" and "length raw < 2 ^ 64"
    and "import_rows lib env job_id now g Apply raw db = (Some (Answer (SyncAnswer r)), task, effects, db')"
  shows "si_success_count r + si_error_count r = length raw \<and> si_total_rows r = length raw \<and>
    si_error_count r = card (er_row ` set (si_errors r)) \<and> er_row ` set (si_errors r) \<subseteq> {1..length raw}"
  using assms(1,3)
proof (cases rule: import_rows_cases)
  case (run valid errors db1 reply)
  let ?cls = "classify_batch (il_match lib) (il_lookup lib) valid"
  obtain batch steps where batch: "run_batch (il_send lib) ?cls valid = (batch, steps)" by fastforce
  from run(3,4) have "length valid \<le> SYNC_THRESHOLD"
    by (auto simp: import_job_body_def Let_def split: if_splits)
  with run(3,4) batch obtain br where br: "batch = Some br"
    by (cases batch) (auto simp: import_job_body_def sync_import_def run_to_outcome_def Let_def split: prod.splits)
  have r: "si_errors r = errors @ br_errors br" "si_total_rows r = length raw"
    "si_error_count r = card (er_row ` set (errors @ br_errors br))"
    "si_success_count r = usize_sub (length raw) (card (er_row ` set (errors @ br_errors br)))"
    using run(3,4) batch br \<open>length valid \<le> SYNC_THRESHOLD\<close>
    by (auto simp: import_job_body_def sync_import_def run_to_outcome_def batch_result_into_entries_def Let_def split: prod.splits)
  have rows: "er_row ` set (errors @ br_errors br) \<subseteq> {1..length raw}"
  proof -
    have "er_row ` set (br_errors br) \<subseteq> fst ` set valid" using run_batch_error_rows [of "il_send lib" ?cls valid br steps] batch br by simp
    then have "x \<in> fst ` set valid \<or> x \<in> er_row ` set errors" if "x \<in> er_row ` set (errors @ br_errors br)" for x
      using that by (simp only: set_append image_Un) blast
    moreover have "x \<in> {1..length raw}" if "x \<in> fst ` set valid \<or> x \<in> er_row ` set errors" for x
    proof -
      have "1 \<le> x \<and> x < length raw + 1" using splits_rowsD(1,2) [OF run(1), of x] that by blast
      then show ?thesis by simp
    qed
    ultimately show ?thesis by blast
  qed
  have "card (er_row ` set (errors @ br_errors br)) \<le> length raw"
    using card_mono [OF _ rows] by simp
  with r rows assms(2) show ?thesis by (simp add: usize_sub_le)
qed simp

subsection \<open>The life of a job\<close>

text \<open>Identifiers the server generates are new.\<close>

definition fresh_deliveries :: "pg_env \<Rightarrow> odal \<Rightarrow> bool" where
  "fresh_deliveries env db \<longleftrightarrow> distinct (map wd_id (webhook_delivery db)) \<and>
     (\<forall>n i. uuid_at env n i \<notin> wd_id ` set (webhook_delivery db)) \<and> (\<forall>n. inj (uuid_at env n))"

lemma image_avoids: "(\<And>i. f i \<notin> A) \<Longrightarrow> A \<inter> f ` S = {}"
  by auto

lemma quiet_fan_out:
  assumes "fault_free env" and "fresh_deliveries env db"
  shows "\<exists>m. fst (fan_out env event_type body db) = Inr m"
proof -
  let ?subs = "filter (subscribed event_type) (webhook_subscription db)"
  let ?rows = "map (\<lambda>(i, s). new_delivery (now_at env (tick db)) (uuid_at env (tick db) i) (ws_id s) event_type body)
    (zip [0..<length ?subs] ?subs)"
  have ids: "map wd_id ?rows = map (uuid_at env (tick db)) [0..<length ?subs]"
    by (rule nth_equalityI) (simp_all add: new_delivery_def)
  have inj: "inj_on (uuid_at env (tick db)) (set [0..<length ?subs])"
    using assms(2) unfolding fresh_deliveries_def by (meson inj_on_subset subset_UNIV)
  have "distinct (map (uuid_at env (tick db)) [0..<length ?subs])" using inj by (simp add: distinct_map)
  moreover have "set (map wd_id (webhook_delivery db)) \<inter> set (map (uuid_at env (tick db)) [0..<length ?subs]) = {}"
    unfolding set_map by (rule image_avoids) (use assms(2) in \<open>simp add: fresh_deliveries_def\<close>)
  ultimately have "distinct (map wd_id (webhook_delivery db @ ?rows))"
    using assms(2) unfolding map_append ids distinct_append fresh_deliveries_def by blast
  then obtain rows where rows: "rows = ?rows" "distinct (map wd_id (webhook_delivery db @ rows))" by blast
  have "fan_out env event_type body db = (Inr (length rows), bump (db\<lparr>webhook_delivery := webhook_delivery db @ rows\<rparr>))"
    using assms(1) rows(2) unfolding fan_out_def insert_deliveries_def Let_def fault_free_def rows(1) [symmetric] by simp
  then show ?thesis by simp
qed

lemma quiet_update: "fault_free env \<Longrightarrow> fst (job_update env ident f db) = Inr ()"
  by (simp add: job_update_def fault_free_def)

lemma quiet_finish:
  assumes "fault_free env" and "fresh_deliveries env db"
  shows "fst (job_finish env ident f notify db) = Inr ()"
proof -
  obtain db1 where upd: "job_update env ident f (bump db) = (Inr (), db1)" and same: "webhook_delivery db1 = webhook_delivery db"
    using assms(1) by (simp add: job_update_def fault_free_def)
  have commit: "fst (job_commit env db db2) = Inr ()" for db2 using assms(1) by (simp add: job_commit_def fault_free_def)
  have fresh: "fresh_deliveries env db1" using assms(2) same by (simp add: fresh_deliveries_def)
  show ?thesis
  proof (cases notify)
    case None
    with upd commit assms(1) show ?thesis by (simp add: job_finish_def fault_free_def)
  next
    case (Some event)
    obtain m db2 where "fan_out env (we_event_type event) (we_body event) db1 = (Inr m, db2)"
      using quiet_fan_out [OF assms(1) fresh, of "we_event_type event" "we_body event"] by (metis prod.collapse)
    with Some upd commit assms(1) show ?thesis by (simp add: job_finish_def fault_free_def)
  qed
qed

lemma job_update_deliveries: "webhook_delivery (snd (job_update env ident f db)) = webhook_delivery db"
  by (simp add: job_update_def split: option.splits)

text \<open>A database the route leaves healthy, and the job in it.\<close>

definition job_ready :: "pg_env \<Rightarrow> uuid \<Rightarrow> ImportJob \<Rightarrow> odal \<Rightarrow> bool" where
  "job_ready env ident job db \<longleftrightarrow> job_rows_ok db \<and> fresh_deliveries env db \<and> jobs_of db ident = Some job"

lemma job_ready_update:
  assumes "fault_free env" and "row_change f g" and "job_ready env ident job db"
  shows "job_ready env ident (g job) (snd (job_update env ident f db))"
  using assms job_update_steps [OF assms(2), of db env ident] quiet_update [OF assms(1), of ident f db]
  by (simp add: job_ready_def fresh_deliveries_def job_update_deliveries mem_modify_def)

lemma job_ends:
  assumes "fault_free env" and "row_change f g" and "job_ready env ident job db"
  shows "jobs_of (snd (job_finish env ident f notify db)) ident = Some (g job)"
  using assms job_finish_steps [OF assms(2), of db env ident notify] quiet_finish [OF assms(1), of db ident f notify]
  by (simp add: job_ready_def mem_modify_def)

lemma complete_job_ends:
  assumes "fault_free env" and "job_ready env (js_job_id summary) job db"
  shows "jobs_of (snd (complete_job lib env summary batch rejected db)) (js_job_id summary) =
    Some (job\<lparr>jb_processed := jb_total_rows job, jb_result := Some batch, jb_status := JobCompleted\<rparr>)"
proof -
  have "fst (job_complete env (js_job_id summary) batch notify db) = Inr ()" for notify
    using quiet_finish assms by (simp add: job_complete_def job_ready_def)
  with job_ends [OF assms(1) row_changes(2) assms(2)] show ?thesis
    by (simp add: complete_job_def Let_def job_complete_def split_beta split: sum.splits)
qed

lemma fail_job_ends:
  assumes "fault_free env" and "job_ready env (js_job_id summary) job db"
  shows "jobs_of (snd (fail_job lib env summary reason db)) (js_job_id summary) = Some (job\<lparr>jb_status := JobFailed reason\<rparr>)"
  using job_ends [OF assms(1) row_changes(3) assms(2)] by (simp add: fail_job_def job_fail_def Let_def)

text \<open>The database once the route has answered and its task, if there is one, has run.\<close>

definition import_end :: "import_libs \<Rightarrow> pg_env \<Rightarrow> import_task option \<Rightarrow> odal \<Rightarrow> odal" where
  "import_end lib env task db = (case task of None \<Rightarrow> db | Some t \<Rightarrow> snd (async_import lib env t db))"

lemma batch_ends:
  assumes "fault_free env" and "job_ready env (js_job_id summary) job db"
  shows "\<exists>job'. jobs_of (snd (case run_to_outcome batch of
        Inr batch \<Rightarrow> complete_job lib env summary batch rejected db
      | Inl reason \<Rightarrow> fail_job lib env summary reason db)) (js_job_id summary) = Some job' \<and>
    is_terminal (jb_status job') \<and> jb_report job' = jb_report job"
  using complete_job_ends [OF assms] fail_job_ends [OF assms] by (cases "run_to_outcome batch") (auto simp: is_terminal_def)

lemma import_body_ends:
  assumes "fault_free env" and "job_ready env (js_job_id summary) job db"
    and "import_job_body lib env mode summary valid errors db = (answer, task, effects, db')"
  shows "\<exists>job'. jobs_of (import_end lib env task db') (js_job_id summary) = Some job' \<and> is_terminal (jb_status job') \<and>
    jb_report job' = Some \<lparr>ir_mode = mode, ir_total_rows = js_total_rows summary,
      ir_rows = build_report_rows (js_total_rows summary) valid errors (lint_findings (il_lint lib) valid)
        (classify_batch (il_match lib) (il_lookup lib) valid)\<rparr>"
proof -
  let ?report = "\<lparr>ir_mode = mode, ir_total_rows = js_total_rows summary,
      ir_rows = build_report_rows (js_total_rows summary) valid errors (lint_findings (il_lint lib) valid)
        (classify_batch (il_match lib) (il_lookup lib) valid)\<rparr>"
  let ?task = "\<lparr>tk_summary = summary, tk_valid_rows = valid, tk_classifications = classify_batch (il_match lib) (il_lookup lib) valid,
      tk_rejected = er_row ` set errors\<rparr>"
  define db1 where "db1 = snd (job_record_report env (js_job_id summary) ?report db)"
  have ready: "job_ready env (js_job_id summary) (job\<lparr>jb_report := Some ?report\<rparr>) db1"
    unfolding db1_def job_record_report_def by (rule job_ready_update [OF assms(1) row_changes(4) assms(2)])
  obtain batch steps where batch: "run_batch (il_send lib) (classify_batch (il_match lib) (il_lookup lib) valid) valid = (batch, steps)"
    by fastforce
  show ?thesis
  proof (cases "mode = DryRun")
    case True
    have "job_ready env (js_job_id summary) (job\<lparr>jb_report := Some ?report, jb_status := JobCompleted\<rparr>)
        (snd (job_set_status env (js_job_id summary) JobCompleted db1))"
      unfolding job_set_status_def using job_ready_update [OF assms(1) row_changes(1) ready] .
    moreover have "task = None" "db' = snd (job_set_status env (js_job_id summary) JobCompleted db1)"
      using True assms(3) by (simp_all add: import_job_body_def Let_def db1_def)
    ultimately show ?thesis by (simp add: import_end_def job_ready_def is_terminal_def)
  next
    case applying: False
    show ?thesis
    proof (cases "length valid \<le> SYNC_THRESHOLD")
      case True
      have "task = None \<and> db' = snd (case run_to_outcome batch of
          Inr batch \<Rightarrow> complete_job lib env summary batch (er_row ` set errors) db1
        | Inl reason \<Rightarrow> fail_job lib env summary reason db1)"
        using assms(3) applying True batch
        by (auto simp: import_job_body_def sync_import_def Let_def db1_def [symmetric] batch_result_into_entries_def split: sum.splits prod.splits)
      with batch_ends [OF assms(1) ready] show ?thesis by (auto simp: import_end_def)
    next
      case False
      have "job_ready env (js_job_id summary) (job\<lparr>jb_report := Some ?report, jb_status := JobProcessing\<rparr>)
          (snd (job_set_status env (js_job_id summary) JobProcessing db1))"
        unfolding job_set_status_def using job_ready_update [OF assms(1) row_changes(1) ready] .
      note ends = batch_ends [OF assms(1) this]
      have "task = Some ?task" "db' = db1"
        using assms(3) applying False by (auto simp: import_job_body_def Let_def db1_def [symmetric])
      then have "import_end lib env task db' = snd (case run_to_outcome batch of
          Inr batch \<Rightarrow> complete_job lib env summary batch (er_row ` set errors) (snd (job_set_status env (js_job_id summary) JobProcessing db1))
        | Inl reason \<Rightarrow> fail_job lib env summary reason (snd (job_set_status env (js_job_id summary) JobProcessing db1)))"
        using batch by (cases "run_to_outcome batch") (simp_all add: import_end_def async_import_def split_beta Let_def)
      with ends show ?thesis by auto
    qed
  qed
qed

lemma job_insert_ready:
  assumes "fault_free env" and "job_rows_ok db" and "fresh_deliveries env db" and "ident \<notin> ij_id ` set (import_job db)"
    and "k < 2 ^ 31" and "job_insert env (new_job ident k now) db = (Inr (), db')"
  shows "job_ready env ident (new_job ident k now) db'"
proof -
  have ok: "op_ok (OpInsert (new_job ident k now))" using assms(5) by (simp add: new_job_def)
  have deliveries: "webhook_delivery db' = webhook_delivery db"
    using assms(6) by (auto simp: job_insert_def split: option.splits if_splits)
  from job_insert_steps(1,2) [OF assms(2) ok, of env] assms(6)
  have "job_rows_ok db'" "jobs_of db' = mem_insert (new_job ident k now) (jobs_of db)" by simp_all
  then show ?thesis using assms(3) deliveries by (simp add: job_ready_def mem_insert_def fresh_deliveries_def new_job_def)
qed


lemma blank_row_cells: "optional_str [] f = None"
  by (simp add: optional_str_def get_field_def)

lemma blank_tyre_row: "\<exists>es. validate_tyre_row lib [] n = Some (Inl es) \<and> 1 < length es"
  by (simp add: validate_tyre_row_def validated_def require_str_def require_f64_def optional_f64_def optional_date_def
      optional_commodity_code_def optional_carrier_serial_def blank_row_cells refuse_def push_error_def parse_gtin_def Let_def)

lemma note_tyre_row: "validate_tyre_row lib [(''note'', ''x'')] n = validate_tyre_row lib [] n"
  by (rule tyre_rows.reads_columns) (simp add: tyre_COLUMNS_def ENVELOPE_COLUMNS_def required_column_def optional_column_def
      optional_str_def get_field_def normalize_key_def is_ascii_alphanumeric_def ascii_lower_def)

text \<open>
  A dry run counts error entries where the response and the apply path count rows: one row that
  misses several columns is reported as that many failed rows, more than the file has.
\<close>

theorem dry_run_counts_entries:
  assumes "fault_at env (tick db) = None" and "job_id \<notin> ij_id ` set (import_job db)"
  shows "\<exists>r. fst (import_rows lib env job_id now ''tyre'' DryRun [[(''note'', ''x'')]] db) = Some (Answer (SyncAnswer r)) \<and>
    si_total_rows r = 1 \<and> 1 < si_error_count r"
proof -
  obtain es where es: "validate_tyre_row (il_rows lib) [(''note'', ''x'')] 1 = Some (Inl es)" "1 < length es"
    unfolding note_tyre_row using blank_tyre_row by blast
  have "product_group_for_template_key ''tyre'' = ''tyre''"
    by (simp add: product_group_for_template_key_def from_template_key_def ALL_CATEGORIES_def template_key_def)
  then have "validate_row (il_rows lib) ''tyre'' [(''note'', ''x'')] 1 = Some (Inl (InvalidRow es))"
    using es(1) by (simp add: validate_row_def row_validator_def)
  then have "validate_rows (il_rows lib) ''tyre'' 1 [[(''note'', ''x'')]] = Some (Inr ([], es))" by simp
  with assms es(2) show ?thesis
    by (simp add: import_rows_def import_job_body_def refuse_repeated_carrier_serials_def job_insert_def new_job_def Let_def)
qed

subsection \<open>Witnesses\<close>

definition sample_import :: import_libs where
  "sample_import = \<lparr>il_rows = plain_libs, il_match = sample_match, il_csv = sample_csv, il_xl = sample_xl, il_lint = \<lambda>_. [],
     il_lookup = \<lambda>_. Answered 404 (Inl []), il_send = \<lambda>_ _. NoAnswer ''down'', il_event_text = \<lambda>_ _. None\<rparr>"

lemma sample_import_ready:
  "is_importable ''tyre''" "job_rows_ok empty_db" "fresh_deliveries sample_env empty_db" "(9 :: uuid) \<notin> ij_id ` set (import_job empty_db)"
  by (simp_all add: is_importable_def product_group_for_template_key_def from_template_key_def ALL_CATEGORIES_def template_key_def
      SUPPORTED_PRODUCT_GROUPS_def job_rows_ok_def empty_db_def fresh_deliveries_def inj_def sample_env_def)


theorem import_counts_rows_witness:
  "\<exists>r. fst (import_rows sample_import sample_env 9 0 ''tyre'' Apply [[(''note'', ''x'')]] empty_db) = Some (Answer (SyncAnswer r)) \<and>
    si_success_count r + si_error_count r = 1"
proof -
  obtain answer task effects db' where run: "import_rows sample_import sample_env 9 0 ''tyre'' Apply [[(''note'', ''x'')]] empty_db = (answer, task, effects, db')"
    by (metis prod_cases4)
  obtain es where es: "validate_tyre_row plain_libs [(''note'', ''x'')] 1 = Some (Inl es)"
    unfolding note_tyre_row using blank_tyre_row by blast
  have "validate_rows plain_libs ''tyre'' 1 [[(''note'', ''x'')]] = Some (Inr ([], es))"
    using es by (simp add: validate_row_def row_validator_def product_group_for_template_key_def from_template_key_def
        ALL_CATEGORIES_def template_key_def)
  then obtain r where "answer = Some (Answer (SyncAnswer r))"
    using run by (auto simp: import_rows_def import_job_body_def sync_import_def sample_import_def refuse_repeated_carrier_serials_def
        job_insert_def empty_db_def run_batch_def run_to_outcome_def batch_result_into_entries_def SYNC_THRESHOLD_def Let_def split: prod.splits)
  moreover have "length [[(''note'', ''x'')]] < 2 ^ 64" by simp
  ultimately show ?thesis using import_counts_rows [OF sample_import_ready(1), of "[[(''note'', ''x'')]]"] run by fastforce
qed

theorem dry_run_counts_entries_witness:
  "\<exists>r. fst (import_rows sample_import sample_env 9 0 ''tyre'' DryRun [[(''note'', ''x'')]] empty_db) = Some (Answer (SyncAnswer r)) \<and>
    si_total_rows r = 1 \<and> 1 < si_error_count r"
  by (rule dry_run_counts_entries) (use sample_import_ready(4) in simp_all)

end
