(* ===== verification/Spec2Isabelle.thy ===== *)
theory Spec2Isabelle
  imports Registry_Service Snapshot Scan_Pipeline Seal_Routes Access Import_Handler
begin

text \<open>
  A verification development of the Odal DPP node, the Rust workspace under \<^verbatim>\<open>src/crates\<close>.

  \<^bold>\<open>The program.\<close> The node keeps digital product passports in PostgreSQL and serves them. Around
  the passports it has queues of work for the outside world, each a table that a background
  drain empties: registrations with the EU registry, notifications of transfers to it, webhook
  deliveries, the mirroring of public snapshots into an object store, and the purchase of
  qualified electronic seals over passport signatures, which a periodic audit opens again and
  whose archive timestamps it renews. Every change of a
  passport leaves an entry in a hash-chained audit trail. Callers authenticate with API keys or
  as the local administrator. HTTP requests that must not run twice
  carry an idempotency key, which a middleware honours with a table of claims. Requests to hosts
  that a user names go through an outbound guard. A separate process, the resolver, counts how
  often passports are looked up and flushes the counts to the node through a route that a
  client-certificate gate protects. Another, the integrator, takes spreadsheets of products: it
  admits the upload, parses it, checks every row against the template of its product group,
  matches the rows with the passports the vault holds, and sends what differs, under a job whose
  report can be read later. These parts are modelled; the list at the end says what is not.

  \<^bold>\<open>How the code is modelled.\<close> A struct is a record, an enum a datatype, a table a list of rows
  in the record \<open>odal\<close> (theory Schema). A repository method is a function on \<open>odal\<close> that
  returns its result, \<open>dpp_error + 'a\<close>, and the new database. Each SQL statement takes one
  position in the sequence of statements, \<open>tick\<close>; the environment \<open>pg_env\<close> says for every
  position the value of \<^verbatim>\<open>now()\<close> and \<^verbatim>\<open>random()\<close>, whether the statement fails and, for a
  commit, whether it took effect although it failed. The theorems hold for every environment
  unless they say otherwise, so for every schedule of faults and every clock. Clocks that run
  backwards are excluded only where a theorem assumes \<open>mono (now_at env)\<close>. Instants and
  intervals are rationals in seconds. Columns keep their width where a value can leave it: the
  overflow of the backoff expression, 32-bit attempt counts, 64-bit counters and casts are errors
  of the statement. The registry, HTTP, DNS, JSON parsing and printing, hashing, signing, UUID
  parsing and the object store are parameters, records of functions, since their code is not part
  of the workspace. What other tasks do between two statements is a step relation (\<open>others\<close>
  for the claims, an explicit function for the reconciliation services, \<open>scan_step\<close> for the
  resolver's counter).

  \<^bold>\<open>The theories.\<close>
  \<^item> DPP_Prelude: identifiers, text, JSON values, keyed tables, runs of a keyed step.
  \<^item> Postgres: errors, the environment, the statements, the backoff
    (\<^verbatim>\<open>dpp-dal/src/pg/mod.rs\<close>). Schema: the tables (\<^verbatim>\<open>ops/pg\<close>). Outbox: the locales
    \<open>outbox\<close>, \<open>guarded_outbox\<close>, \<open>typed_outbox\<close>, \<open>tracked_outbox\<close> and \<open>paced_outbox\<close>, what
    the drain passes have in common, interpreted for the queues below. Statements: the locale
    \<open>table\<close>, what a statement on one table of \<open>odal\<close> leaves alone, interpreted for each table.
  \<^item> Registry_Sync: the registration queue (\<^verbatim>\<open>dpp-types/src/registry_sync.rs\<close>,
    \<^verbatim>\<open>repo_registry_sync.rs\<close>). Registry_Drain: its drain (\<^verbatim>\<open>registry_drain.rs\<close>) with the
    verification gate of \<^verbatim>\<open>operator.rs\<close>. What a pass may do to a row is the relation
    \<open>follows_from\<close>, the abstract specification the pass is shown to implement; progress is that
    every fetched row leaves the due set.
  \<^item> Registry_Service: abandoning a registration and recording its identifier by hand
    (\<^verbatim>\<open>registry_abandon.rs\<close>, \<^verbatim>\<open>registry_handle.rs\<close>), with other tasks running in between.
  \<^item> Registry_Transfer: the transfer notifications (\<^verbatim>\<open>registry_transfer.rs\<close>,
    \<^verbatim>\<open>repo_registry_transfer.rs\<close>, \<^verbatim>\<open>transfer_drain.rs\<close>).
  \<^item> Url_Guard: the outbound guard (\<^verbatim>\<open>url_guard.rs\<close>, \<^verbatim>\<open>outbound.rs\<close>). The bit and octet tests on
    addresses are shown equal to membership in a list of CIDR blocks.
  \<^item> Webhook: subscriptions, fan-out, deliveries and the service (\<^verbatim>\<open>webhook.rs\<close>,
    \<^verbatim>\<open>repo_webhook.rs\<close>, \<^verbatim>\<open>webhook_drain.rs\<close>, \<^verbatim>\<open>webhook_service.rs\<close>).
  \<^item> Snapshot: the mirror of public passports (\<^verbatim>\<open>snapshot.rs\<close>, \<^verbatim>\<open>repo_snapshot.rs\<close>,
    \<^verbatim>\<open>snapshot_drain.rs\<close>, \<^verbatim>\<open>s3_snapshot.rs\<close>, \<^verbatim>\<open>public_view.rs\<close>).
  \<^item> Audit_Trail: the hash chain, its append and its verification (\<^verbatim>\<open>audit.rs\<close>,
    \<^verbatim>\<open>repo_audit.rs\<close>, \<^verbatim>\<open>request_stamped_audit.rs\<close>).
  \<^item> Idempotency: the claims (\<^verbatim>\<open>idempotency/policy.rs\<close>, \<^verbatim>\<open>store.rs\<close>,
    \<^verbatim>\<open>repo_idempotency.rs\<close>). Idempotency_Middleware: the middleware over the locale
    \<open>idempotency_port\<close>, the contract of the store port, which the PostgreSQL store is shown to
    satisfy (\<open>pg_port\<close>).
  \<^item> Mtls: the client-certificate gate (\<^verbatim>\<open>mtls.rs\<close>); its index loop over a distinguished name
    is shown equal to a recursive splitter.
  \<^item> Scan_Counter: the resolver's accumulator (\<^verbatim>\<open>scan_counter.rs\<close>). Scan_Telemetry: ingest,
    counters, statistics, retention and liveness (\<^verbatim>\<open>scan_ingest.rs\<close>, \<^verbatim>\<open>repo_scan.rs\<close>,
    \<^verbatim>\<open>stats.rs\<close>, \<^verbatim>\<open>scan_liveness.rs\<close>). Scan_Pipeline: both ends joined through gate, middleware
    and handler.
  \<^item> Seal_Types: envelopes, verdicts and audit reports (\<^verbatim>\<open>dpp-types/src/seal.rs\<close>). Seal_Outbox:
    the queue (\<^verbatim>\<open>repo_seal.rs\<close>), shown to implement an abstract ledger of attestations.
    Seal_Drain: its drain (\<^verbatim>\<open>seal_drain.rs\<close>, \<^verbatim>\<open>service/seal.rs\<close>). Seal_Renewal: inspection and
    archive renewal (\<^verbatim>\<open>inspect.rs\<close>, \<^verbatim>\<open>renewal.rs\<close>, \<^verbatim>\<open>seal_renewal.rs\<close>). Seal_Audit: the walk
    over the stored seals, its persistence and restart. Seal_Routes: the seal handlers
    (\<^verbatim>\<open>handlers/seal.rs\<close>).
  \<^item> Auth_Types: scopes, contexts and gates (\<^verbatim>\<open>auth.rs\<close>, \<^verbatim>\<open>api_key.rs\<close>, \<^verbatim>\<open>middleware/scope.rs\<close>).
    Access: the key repository and service, the providers, the middleware and the key routes
    (\<^verbatim>\<open>repo_api_key.rs\<close>, \<^verbatim>\<open>api_key_service.rs\<close>, \<^verbatim>\<open>infra/auth\<close>, \<^verbatim>\<open>middleware/auth.rs\<close>,
    \<^verbatim>\<open>handlers/api_keys.rs\<close>); the locales \<open>auth_provider\<close> and \<open>auth_gate\<close> state what the middleware
    relies on.
  \<^item> Import_Types, Import_Fields, Import_Data: the records of an import, the cell readers in a
    state monad over the error list (\<^verbatim>\<open>domain/fields.rs\<close>) and the data of the product groups.
    Import_Validate and Import_Battery: the eleven row validators, their templates and the
    dispatch (\<^verbatim>\<open>domain/validate\<close>, \<^verbatim>\<open>battery_fields.rs\<close>, \<^verbatim>\<open>battery_template.rs\<close>); the locales
    \<open>row_checker\<close> and \<open>templated_checker\<close> are the contract of a validator.
    Import_File: the CSV and workbook parsers with the guards against oversized workbooks
    (\<^verbatim>\<open>csv_parser.rs\<close>, \<^verbatim>\<open>xlsx_parser.rs\<close>). Import_Batch: the vault client, the matcher and the
    batch runner (\<^verbatim>\<open>vault_client.rs\<close>, \<^verbatim>\<open>matcher.rs\<close>, \<^verbatim>\<open>batch_runner.rs\<close>). Import_Jobs: both job
    stores (\<^verbatim>\<open>job_store.rs\<close>, \<^verbatim>\<open>pg_job_store.rs\<close>) over the locale \<open>job_port\<close>. Import_Handler:
    admission, the import route with its background task, and the status route
    (\<^verbatim>\<open>admission.rs\<close>, \<^verbatim>\<open>handlers/import.rs\<close>, \<^verbatim>\<open>handlers/job_status.rs\<close>).

  \<^bold>\<open>What is shown.\<close> For every drain: a pass touches only rows that were due, loses none, changes
  no other table, and each row's new state follows from its old state and an answer of the other
  side (safety); with no database fault every fetched row leaves the due set (progress). For the
  claims: mutual exclusion while a lease runs, replay of the recorded response, harmlessness of a
  superseded outcome, and for the middleware that a retry runs once and that a handler runs under
  a claim. For the audit trail: an append keeps a trail verifiable and the head pins its entries.
  For the guards: exactly the requests and addresses that the documentation names pass. For scan
  telemetry: no count is lost or invented on the way from a scan to the daily counter, and a
  window whose acknowledgement was lost is counted once. For the seals: a pass stores only what
  was bought for a due digest and closes its row, the queue refines the ledger, the audit reads
  every seal once and ends, a renewal never overwrites a newer seal. For the keys: only an
  administrator changes them, a revoked one stays out, a secret opens exactly what it was issued
  for. For the import: the columns of a template decide the verdict on a row, accepted workbooks
  are bounded, what is written follows the match with the vault, every row is accounted for and
  counted once, the job ends with a report, the database store refines the reference store, and
  a job's end and its webhook deliveries are one write. The properties of kind error prove
  behaviour that the code's own comments exclude; each is a finding.

  \<^bold>\<open>Bounds.\<close> No definition uses fuel: loops are recursions over lists, and the one index loop,
  \<open>split_dn_loop\<close>, has a termination proof. The constants are the code's: 50000 tracked keys,
  8 webhook and 8 snapshot attempts, 256 KiB for a fetched document and 9 MiB for a buffered
  body, 730 days of telemetry, double-precision overflow of the backoff at
  1023 attempts, 100 rows for a synchronous import, 200000 rows, 128 MiB, 64 attributes and five
  million cells for an uploaded file, three attempts per row. What the vault answers to each row
  and attempt is a parameter, so the order in which concurrent requests reach it does not matter
  to a row; the steps of a batch are listed row by row. In messages, an em dash is written as two
  hyphens and the multiplication sign as an x.

  \<^bold>\<open>Not modelled.\<close> The passport lifecycle service and the publish and accept transactions around
  the queueing statements that are modelled, credential verification, the identity service, the
  routes that serve import templates and schemas with the battery column tables, the command
  line. The passport document itself and its validation belong to a domain crate that is not part
  of the workspace, and so do the decoders of CSV, archives, XML, workbooks and seals. Telemetry,
  logging, process start-up and timers have no effect on the modelled state.
\<close>

end
